(* ===== verification/Prelude.thy ===== *)
theory Prelude
  imports Main "HOL-Library.Word"
begin

text \<open>
  The vocabulary every component shares: the machine integers of
  \<^verbatim>\<open>kernel/include/common/types.h\<close>, the byte-addressed physical memory of the i386, the
  little-endian 16-bit and 32-bit accesses the compiled code makes to it, and the laws of these
  accesses (read after write, frame).  Addresses are 32-bit words, as in the kernel; the laws are
  stated for addresses given as natural numbers below \<open>2 ^ 32\<close> (\<open>of_nat p\<close>), because the
  layout arguments of the components are arithmetic on naturals that never wrap.
\<close>

unbundle bit_operations_syntax

named_theorems mem_simps \<open>read-after-write and frame laws of the byte memory\<close>
named_theorems unat_simps \<open>moving word arithmetic to natural numbers\<close>

section \<open>Machine integers\<close>

type_synonym u8 = "8 word"
type_synonym u16 = "16 word"
type_synonym u32 = "32 word"

abbreviation addr_space :: nat where "addr_space \<equiv> 4294967296"

lemma unat_u32_lt: "unat (x :: u32) < addr_space"
  using unsigned_less [of x] by simp

lemma unat_u16_lt: "unat (x :: u16) < 65536"
  using unsigned_less [of x] by simp

lemma unat_u8_lt: "unat (x :: u8) < 256"
  using unsigned_less [of x] by simp

lemma uint_eq_iff_eq: "uint (c :: 'a::len word) = uint d \<longleftrightarrow> c = d"
  unfolding word_uint_eq_iff ..

lemma unat_eq_iff_eq: "unat (c :: 'a::len word) = unat d \<longleftrightarrow> c = d"
  using unsigned_word_eqI by blast

lemma unat_of_nat_u32 [simp, unat_simps]: "n < addr_space \<Longrightarrow> unat (of_nat n :: u32) = n"
  by (simp add: unat_of_nat take_bit_nat_eq_self)

lemma unat_of_nat_u16 [simp, unat_simps]: "n < 65536 \<Longrightarrow> unat (of_nat n :: u16) = n"
  by (simp add: unat_of_nat take_bit_nat_eq_self)

lemma unat_of_nat_u8 [simp, unat_simps]: "n < 256 \<Longrightarrow> unat (of_nat n :: u8) = n"
  by (simp add: unat_of_nat take_bit_nat_eq_self)

lemma of_nat_u32_eq_iff:
  "m < addr_space \<Longrightarrow> n < addr_space \<Longrightarrow> (of_nat m :: u32) = of_nat n \<longleftrightarrow> m = n"
  by (metis unat_of_nat_u32)

lemma of_nat_u32_eq_0_iff: "m < addr_space \<Longrightarrow> (of_nat m :: u32) = 0 \<longleftrightarrow> m = 0"
  using of_nat_u32_eq_iff [of m 0] by simp

lemma unat_ucast_u16_u32 [simp]: "unat (ucast (x :: u16) :: u32) = unat x"
  using unat_u16_lt [of x] by (simp add: unsigned_ucast_eq take_bit_nat_eq_self)

lemma unat_ucast_u8_u32 [simp]: "unat (ucast (x :: u8) :: u32) = unat x"
  using unat_u8_lt [of x] by (simp add: unsigned_ucast_eq take_bit_nat_eq_self)

lemma unat_add_u32 [unat_simps]:
  "unat x + unat y < addr_space \<Longrightarrow> unat (x + y :: u32) = unat x + unat y"
  by (simp add: unat_word_ariths)

lemma unat_sub_u32 [unat_simps]:
  "unat y \<le> unat x \<Longrightarrow> unat (x - y :: u32) = unat x - unat y"
  by (simp add: unat_sub_if')

lemma unat_mult_u32 [unat_simps]:
  "unat x * unat y < addr_space \<Longrightarrow> unat (x * y :: u32) = unat x * unat y"
  by (simp add: unat_word_ariths)

text \<open>Masking with the complement of \<open>2 ^ k - 1\<close> rounds down to a multiple of \<open>2 ^ k\<close>.\<close>

lemma unat_mask_down:
  fixes x :: u32
  assumes "k < 32"
  shows "unat (x AND NOT (2 ^ k - 1)) = unat x - unat x mod 2 ^ k"
proof -
  have "x AND NOT (2 ^ k - 1) = push_bit k (drop_bit k x)"
    by (rule bit_word_eqI) (auto simp: bit_simps mask_eq_exp_minus_1 [symmetric])
  moreover have "take_bit 32 (unat x) = unat x"
    using unat_u32_lt [of x] by (simp add: take_bit_nat_eq_self)
  ultimately have "unat (x AND NOT (2 ^ k - 1)) = take_bit 32 (push_bit k (drop_bit k (unat x)))"
    by (simp add: unsigned_push_bit_eq unsigned_drop_bit_eq)
  also have "\<dots> = unat x div 2 ^ k * 2 ^ k"
  proof -
    have "unat x div 2 ^ k * 2 ^ k < 2 ^ 32"
      by (rule order_le_less_trans [OF div_times_less_eq_dividend]) (use unat_u32_lt [of x] in simp)
    then show ?thesis by (simp add: push_bit_eq_mult drop_bit_eq_div take_bit_nat_eq_self)
  qed
  finally show ?thesis by (simp add: minus_mod_eq_div_mult)
qed

section \<open>Byte memory\<close>

type_synonym mem = "u32 \<Rightarrow> u8"

definition byte_of :: "nat \<Rightarrow> 'a::len word \<Rightarrow> u8" where
  "byte_of k v = ucast (drop_bit (8 * k) v)"

definition r16 :: "mem \<Rightarrow> u32 \<Rightarrow> u16" where
  "r16 m a = ucast (m a) OR push_bit 8 (ucast (m (a + 1)))"

definition r32 :: "mem \<Rightarrow> u32 \<Rightarrow> u32" where
  "r32 m a = ucast (m a) OR push_bit 8 (ucast (m (a + 1)))
     OR push_bit 16 (ucast (m (a + 2))) OR push_bit 24 (ucast (m (a + 3)))"

definition w16 :: "mem \<Rightarrow> u32 \<Rightarrow> u16 \<Rightarrow> mem" where
  "w16 m a v = m(a := byte_of 0 v, a + 1 := byte_of 1 v)"

definition w32 :: "mem \<Rightarrow> u32 \<Rightarrow> u32 \<Rightarrow> mem" where
  "w32 m a v = m(a := byte_of 0 v, a + 1 := byte_of 1 v, a + 2 := byte_of 2 v,
     a + 3 := byte_of 3 v)"

lemma join_bytes16:
  "ucast (byte_of 0 v) OR push_bit 8 (ucast (byte_of 1 v)) = (v :: u16)"
proof (rule bit_word_eqI)
  fix n assume n: "n < LENGTH(16)"
  then consider "n < 8" | "8 \<le> n" "n < 16"
    by fastforce
  then show "bit (ucast (byte_of 0 v) OR push_bit 8 (ucast (byte_of 1 v)) :: u16) n = bit v n"
    by cases (auto simp: byte_of_def bit_simps)
qed

lemma join_bytes32:
  "ucast (byte_of 0 v) OR push_bit 8 (ucast (byte_of 1 v))
     OR push_bit 16 (ucast (byte_of 2 v)) OR push_bit 24 (ucast (byte_of 3 v)) = (v :: u32)"
proof (rule bit_word_eqI)
  fix n assume n: "n < LENGTH(32)"
  then consider "n < 8" | "8 \<le> n" "n < 16" | "16 \<le> n" "n < 24" | "24 \<le> n" "n < 32"
    by fastforce
  then show "bit (ucast (byte_of 0 v) OR push_bit 8 (ucast (byte_of 1 v))
     OR push_bit 16 (ucast (byte_of 2 v)) OR push_bit 24 (ucast (byte_of 3 v)) :: u32) n = bit v n"
    by cases (auto simp: byte_of_def bit_simps)
qed

lemma r16_w16 [simp, mem_simps]: "r16 (w16 m a v) a = v"
  using join_bytes16 [of v] by (simp add: r16_def w16_def)

lemma r32_w32 [simp, mem_simps]: "r32 (w32 m a v) a = v"
  using join_bytes32 [of v] by (simp add: r32_def w32_def)


text \<open>Offsets from an address that do not wrap.\<close>

lemma unat_plus_of_nat [unat_simps]:
  "unat (a :: u32) + n < addr_space \<Longrightarrow> unat (a + of_nat n) = unat a + n"
  using unat_add_u32 [of a "of_nat n"] by simp

lemma unat_plus_numeral [unat_simps]:
  "unat (a :: u32) + numeral k < addr_space \<Longrightarrow> unat (a + numeral k) = unat a + numeral k"
  using unat_plus_of_nat [of a "numeral k"] by (simp only: of_nat_numeral)

lemma unat_plus_one [unat_simps]:
  "unat (a :: u32) + 1 < addr_space \<Longrightarrow> unat (a + 1) = unat a + 1"
  using unat_plus_of_nat [of a 1] by simp

lemma unat_of_nat_plus_numeral [unat_simps]:
  "n + numeral k < addr_space \<Longrightarrow> unat (of_nat n + numeral k :: u32) = n + numeral k"
  using unat_plus_numeral [of "of_nat n" k] by simp

text \<open>The counter of a \<^verbatim>\<open>for (i = 0; i < n; i++)\<close> loop does not wrap.\<close>

lemma unat_loop_counter: "(i :: u32) < n \<Longrightarrow> unat (i + 1) = Suc (unat i)"
  using unat_u32_lt [of n] unat_plus_one [of i] by (simp add: word_less_nat_alt)

lemma loop_counter_measure: "(i :: u32) < n \<Longrightarrow> unat n - unat (i + 1) < unat n - unat i"
  by (simp add: unat_loop_counter word_less_nat_alt)

lemma unat_offset_eq_iff: "unat (x - a) = unat i \<longleftrightarrow> x = a + (i :: u32)"
  by (metis add.commute add_diff_cancel_left' diff_add_cancel unsigned_word_eqI)

lemma unat_neq [intro]: "unat x \<noteq> unat y \<Longrightarrow> x \<noteq> y"
  by auto

text \<open>A byte outside the written range keeps its value.\<close>

lemma w32_byte_other [mem_simps]:
  assumes "unat x < unat a \<or> unat a + 4 \<le> unat x" and "unat a + 4 \<le> addr_space"
  shows "w32 m a v x = m x"
proof -
  have "x \<noteq> a" using assms(1) by auto
  moreover have "x \<noteq> a + 1" by (rule unat_neq) (use assms in \<open>simp add: unat_plus_one\<close>, linarith)
  moreover have "x \<noteq> a + 2" by (rule unat_neq) (use assms in \<open>simp add: unat_plus_numeral\<close>, linarith)
  moreover have "x \<noteq> a + 3" by (rule unat_neq) (use assms in \<open>simp add: unat_plus_numeral\<close>, linarith)
  ultimately show ?thesis by (simp add: w32_def)
qed

lemma r32_cong:
  assumes "\<And>x. unat a \<le> unat x \<Longrightarrow> unat x < unat a + 4 \<Longrightarrow> m' x = m x" and "unat a + 4 \<le> addr_space"
  shows "r32 m' a = r32 m a"
proof -
  have "unat (a + 1) = unat a + 1" "unat (a + 2) = unat a + 2" "unat (a + 3) = unat a + 3"
    using assms(2) by (simp_all add: unat_plus_one unat_plus_numeral)
  then have "m' a = m a" "m' (a + 1) = m (a + 1)" "m' (a + 2) = m (a + 2)" "m' (a + 3) = m (a + 3)"
    using assms(1) by auto
  then show ?thesis by (simp add: r32_def)
qed

lemma r32_w32_other [mem_simps]:
  assumes "unat p + 4 \<le> unat q \<or> unat q + 4 \<le> unat p"
    and "unat q + 4 \<le> addr_space" and "unat p + 4 \<le> addr_space"
  shows "r32 (w32 m q v) p = r32 m p"
  by (rule r32_cong) (use assms in \<open>auto intro!: w32_byte_other\<close>)

text \<open>Bit \<open>k\<close> of a 32-bit word in memory lies in its byte \<open>k div 8\<close>.\<close>

lemma bit_r32:
  assumes "k < 32"
  shows "bit (r32 m a) k \<longleftrightarrow> bit (m (a + of_nat (k div 8))) (k mod 8)"
proof -
  have small: "\<not> bit (b :: u8) n" if "8 \<le> n" for b n
    using bit_imp_le_length [of b n] that by auto
  have dm: "k div 8 = j" "k mod 8 = k - 8 * j" if "8 * j \<le> k" "k < 8 * j + 8" for j
  proof -
    show "k div 8 = j" using that by (intro div_nat_eqI) simp_all
    then show "k mod 8 = k - 8 * j" by (simp add: modulo_nat_def)
  qed
  consider "k < 8" | "8 \<le> k" "k < 16" | "16 \<le> k" "k < 24" | "24 \<le> k" "k < 32"
    using assms by linarith
  then show ?thesis
    by cases (use dm [of 0] dm [of 1] dm [of 2] dm [of 3] in
      \<open>auto simp: r32_def bit_or_iff bit_push_bit_iff bit_ucast_iff small\<close>)
qed

section \<open>Lists of bytes in memory\<close>

text \<open>\<open>load m a n\<close> reads \<open>n\<close> consecutive bytes, \<open>store m a bs\<close> writes a list of bytes.\<close>

definition load :: "mem \<Rightarrow> u32 \<Rightarrow> nat \<Rightarrow> u8 list" where
  "load m a n = map (\<lambda>i. m (a + of_nat i)) [0..<n]"

primrec store :: "mem \<Rightarrow> u32 \<Rightarrow> u8 list \<Rightarrow> mem" where
  "store m a [] = m"
| "store m a (b # bs) = store (m(a := b)) (a + 1) bs"

lemma length_load [simp]: "length (load m a n) = n"
  by (simp add: load_def)

lemma nth_load [simp]: "i < n \<Longrightarrow> load m a n ! i = m (a + of_nat i)"
  by (simp add: load_def)

text \<open>Address \<open>x\<close> lies in the \<open>n\<close> bytes that start at \<open>a\<close> (a range that may wrap).\<close>

definition in_range :: "u32 \<Rightarrow> nat \<Rightarrow> u32 \<Rightarrow> bool" where
  "in_range a n x \<longleftrightarrow> unat (x - a) < n"

lemma in_range_unat:
  assumes "unat a + n \<le> addr_space"
  shows "in_range a n x \<longleftrightarrow> unat a \<le> unat x \<and> unat x < unat a + n"
  using assms unat_u32_lt [of x] unat_u32_lt [of a]
  by (auto simp: in_range_def unat_sub_if' split: if_splits)

lemma store_spec:
  assumes "length bs \<le> addr_space"
  shows "store m a bs x = (if in_range a (length bs) x then bs ! unat (x - a) else m x)"
  using assms
proof (induction bs arbitrary: m a)
  case Nil
  then show ?case by (simp add: in_range_def)
next
  case (Cons b bs)
  show ?case
  proof (cases "x = a")
    case True
    have "unat (a - (a + 1)) = addr_space - 1" by (simp add: unsigned_minus_1_eq_mask mask_eq_exp_minus_1)
    with Cons.prems have "\<not> in_range (a + 1) (length bs) a" by (simp add: in_range_def)
    with Cons True show ?thesis by (simp add: in_range_def)
  next
    case False
    then have ne: "x - a \<noteq> 0" by simp
    have "x - (a + 1) = (x - a) - 1" by (simp add: algebra_simps)
    then have "unat (x - (a + 1)) = unat (x - a) - 1" by (simp only: unat_minus_one [OF ne])
    moreover have "0 < unat (x - a)" using ne unat_gt_0 by blast
    ultimately have "unat (x - a) = Suc (unat (x - (a + 1)))" by simp
    with Cons False show ?thesis by (simp add: in_range_def)
  qed
qed

end
