(* ===== verification/Fat16_Path.thy ===== *)
theory Fat16_Path
  imports Prelude
begin

text \<open>
  Path handling of the FAT16 driver (\<^verbatim>\<open>kernel/src/fs/fat16/fat16_path.c\<close>).  A path is the list
  of its characters before the terminator; reading at its length gives the terminator.  The
  code never reads behind it.  \<^verbatim>\<open>to_short_filename\<close> writes the 11 bytes of a directory entry's
  name: 8 for the base and 3 for the extension, padded with blanks.  It is proved to accept
  exactly the well-formed names and to be injective on them.
\<close>

definition ch :: "u8 list \<Rightarrow> nat \<Rightarrow> u8" where
  "ch s i = (if i < length s then s ! i else 0)"

abbreviation SLASH :: u8 where "SLASH \<equiv> 0x2F"
abbreviation DOT :: u8 where "DOT \<equiv> 0x2E"
abbreviation BLANK :: u8 where "BLANK \<equiv> 0x20"

section \<open>Operations\<close>

definition is_character_valid :: "u8 \<Rightarrow> bool" where
  "is_character_valid c \<longleftrightarrow> (0x41 \<le> c \<and> c \<le> 0x5A) \<or> (0x30 \<le> c \<and> c \<le> 0x39)"

text \<open>\<^verbatim>\<open>memset(&a[i], ' ', n)\<close> on an array of bytes.\<close>

definition blanks :: "u8 list \<Rightarrow> nat \<Rightarrow> nat \<Rightarrow> u8 list" where
  "blanks a i n = take i a @ replicate n BLANK @ drop (i + n) a"

text \<open>How the first loop of \<^verbatim>\<open>to_short_filename\<close> is left: by \<^verbatim>\<open>return 0\<close>, by \<^verbatim>\<open>break\<close> at a dot,
  or by \<^verbatim>\<open>return -1\<close> (a bad character, or no dot within nine characters).\<close>

datatype base_exit = Base_Done "u8 list" | Base_Dot "u8 list" nat | Base_Bad

function base_loop :: "u8 list \<Rightarrow> u8 list \<Rightarrow> nat \<Rightarrow> base_exit" where
  "base_loop long short i =
     (if i < 9 then
        if ch long i = 0 then Base_Done (blanks short i (11 - i))
        else if ch long i = DOT then Base_Dot short i
        else if \<not> is_character_valid (ch long i) then Base_Bad
        else base_loop long (short[i := ch long i]) (i + 1)
      else Base_Bad)"
  by pat_completeness auto
termination by (relation "measure (\<lambda>(l, s, i). 9 - i)") auto

function ext_loop :: "u8 list \<Rightarrow> nat \<Rightarrow> u8 list \<Rightarrow> nat \<Rightarrow> (u8 list \<times> nat) option" where
  "ext_loop long sep short i =
     (if i < 3 then
        if ch long (sep + 1 + i) = 0 then Some (short, i)
        else if \<not> is_character_valid (ch long (sep + 1 + i)) then None
        else ext_loop long sep (short[8 + i := ch long (sep + 1 + i)]) (i + 1)
      else Some (short, i))"
  by pat_completeness auto
termination by (relation "measure (\<lambda>(l, p, s, i). 3 - i)") auto

text \<open>\<open>None\<close> is the result -1; \<open>Some\<close> is the result 0 with the array written.\<close>

definition to_short_filename :: "u8 list \<Rightarrow> u8 list \<Rightarrow> u8 list option" where
  "to_short_filename short long_filename =
     (let long = (if ch long_filename 0 = SLASH then tl long_filename else long_filename)
      in if ch long 0 = 0 then None
         else
           (case base_loop long short 0 of
              Base_Bad \<Rightarrow> None
            | Base_Done short' \<Rightarrow> Some short'
            | Base_Dot short1 sep \<Rightarrow>
                (case ext_loop long sep (blanks short1 sep (8 - sep)) 0 of
                   None \<Rightarrow> None
                 | Some (short2, i) \<Rightarrow>
                     if i = 3 \<and> ch long (sep + 4) \<noteq> 0 then None
                     else Some (blanks short2 (8 + i) (3 - i)))))"

function subdir_len :: "u8 list \<Rightarrow> nat \<Rightarrow> nat \<Rightarrow> nat" where
  "subdir_len path beg len =
     (if ch path (beg + len) \<noteq> 0 \<and> ch path (beg + len) \<noteq> SLASH then subdir_len path beg (len + 1) else len)"
  by pat_completeness auto
termination
  by (relation "measure (\<lambda>(p, b, l). List.length p - (b + l))") (auto simp: ch_def split: if_splits)

text \<open>
  \<^verbatim>\<open>get_subdir\<close>: the result, the string in \<^verbatim>\<open>subdir_name\<close> (its first argument when the call fails)
  and the index.  The length of the copy is not checked against the caller's array, which has
  \<^verbatim>\<open>MAX_FILENAME_LEN + 1\<close> = 13 bytes in every caller; \<open>None\<close> is a copy that leaves it, counting the
  slash the component starts with and the terminator.
\<close>

abbreviation SUBDIR_NAME_SIZE :: nat where "SUBDIR_NAME_SIZE \<equiv> 13"

definition get_subdir :: "u8 list \<Rightarrow> u16 \<Rightarrow> u8 list \<Rightarrow> (int \<times> u8 list \<times> u16) option" where
  "get_subdir subdir_name index path =
     (let beg = unat index
      in if ch path beg \<noteq> SLASH then Some (- 1, subdir_name, index)
         else
           (let len = subdir_len path beg 1
            in if ch path (beg + len) \<noteq> SLASH then Some (- 2, subdir_name, index)
               else if len + 1 > SUBDIR_NAME_SIZE then None
               else Some (0, take len (drop beg path), of_nat (beg + len))))"

definition is_in_root :: "u8 list \<Rightarrow> bool option" where
  "is_in_root path = map_option (\<lambda>(ret, _, _). ret < 0) (get_subdir [] 0 path)"

declare base_loop.simps [simp del] ext_loop.simps [simp del] subdir_len.simps [simp del]

section \<open>Short names\<close>

definition pad :: "nat \<Rightarrow> u8 list \<Rightarrow> u8 list" where
  "pad n xs = xs @ replicate (n - length xs) BLANK"

definition valid_chars :: "u8 list \<Rightarrow> bool" where
  "valid_chars xs \<longleftrightarrow> list_all is_character_valid xs"

lemma valid_not_special:
  "is_character_valid c \<Longrightarrow> c \<noteq> 0 \<and> c \<noteq> DOT \<and> c \<noteq> SLASH \<and> c \<noteq> BLANK"
  by (auto simp: is_character_valid_def)

lemma ch_append: "ch (xs @ ys) i = (if i < length xs then xs ! i else ch ys (i - length xs))"
  by (auto simp: ch_def nth_append)

lemma ch_Cons: "ch (x # xs) i = (if i = 0 then x else ch xs (i - 1))"
  by (cases i) (auto simp: ch_def)

lemma ch_Nil [simp]: "ch [] i = 0"
  by (simp add: ch_def)

text \<open>The first loop copies a prefix of valid characters of the name.\<close>

definition base_result :: "u8 list \<Rightarrow> u8 list \<Rightarrow> nat \<Rightarrow> base_exit" where
  "base_result short long k =
     (let b = takeWhile is_character_valid long; n = length b
      in if 9 \<le> n then Base_Bad
         else if ch long n = 0 then Base_Done (take n long @ replicate (11 - n) BLANK)
         else if ch long n = DOT then Base_Dot (take n long @ drop n short) n
         else Base_Bad)"

lemma takeWhile_ch:
  assumes "i < length (takeWhile P xs)"
  shows "P (ch xs i)" and "ch xs i = xs ! i" and "i < length xs"
proof -
  show "i < length xs" using assms length_takeWhile_le [of P xs] by linarith
  then show "ch xs i = xs ! i" by (simp add: ch_def)
  with assms show "P (ch xs i)" by (metis nth_mem set_takeWhileD takeWhile_nth)
qed

lemma ch_takeWhile_end:
  "ch xs (length (takeWhile P xs)) = 0 \<or> \<not> P (ch xs (length (takeWhile P xs)))"
  using nth_length_takeWhile [of P xs] by (auto simp: ch_def)

lemma base_loop_result:
  assumes "i \<le> length (takeWhile is_character_valid long)" and "i \<le> 9" and "length short = 11"
    and "take i short = take i long"
  shows "base_loop long short i = base_result short long 0"
  using assms
proof (induction "9 - i" arbitrary: i short)
  case 0
  then show ?case by (simp add: base_loop.simps base_result_def Let_def)
next
  case (Suc k)
  let ?n = "length (takeWhile is_character_valid long)"
  have i9: "i < 9" using Suc.hyps(2) by simp
  show ?case
  proof (cases "i < ?n")
    case True
    note c = takeWhile_ch [OF True]
    have "base_loop long short i = base_loop long (short[i := ch long i]) (i + 1)"
      using i9 c(1) valid_not_special [OF c(1)] by (subst base_loop.simps) simp
    also have "\<dots> = base_result (short[i := ch long i]) long 0"
    proof (rule Suc.hyps(1))
      have "take (i + 1) (short[i := ch long i]) = take i short @ [ch long i]"
        using Suc.prems(3) i9 by (simp add: take_Suc_conv_app_nth)
      then show "take (i + 1) (short[i := ch long i]) = take (i + 1) long"
        using Suc.prems(4) c(2,3) by (simp add: take_Suc_conv_app_nth)
    qed (use Suc.hyps(2) Suc.prems(3) True i9 in auto)
    also have "\<dots> = base_result short long 0"
      using True by (simp add: base_result_def Let_def)
    finally show ?thesis .
  next
    case False
    then have n: "?n = i" using Suc.prems(1) by simp
    have whole: "take i long @ drop i short = short"
      using Suc.prems(4) append_take_drop_id [of i short] by simp
    show ?thesis
      using i9 ch_takeWhile_end [of long is_character_valid] Suc.prems(3,4) whole
      by (subst base_loop.simps) (auto simp: base_result_def Let_def n blanks_def)
  qed
qed

lemma base_loop_0: "length short = 11 \<Longrightarrow> base_loop long short 0 = base_result short long 0"
  by (rule base_loop_result) simp_all


text \<open>The second loop copies up to three valid characters behind the dot.\<close>

definition ext_result :: "u8 list \<Rightarrow> u8 list \<Rightarrow> nat \<Rightarrow> (u8 list \<times> nat) option" where
  "ext_result long short sep =
     (let x = drop (sep + 1) long; e = takeWhile is_character_valid x; m = length e
      in if 3 \<le> m then Some (take 8 short @ take 3 x, 3)
         else if ch x m = 0 then Some (take 8 short @ take m x @ drop (8 + m) short, m)
         else None)"

lemma ch_drop: "ch (drop n xs) i = ch xs (n + i)"
  by (auto simp: ch_def)

lemma ext_loop_result:
  assumes "i \<le> length (takeWhile is_character_valid (drop (sep + 1) long))" and "i \<le> 3" and "length short = 11"
    and "take i (drop 8 short) = take i (drop (sep + 1) long)"
  shows "ext_loop long sep short i = ext_result long short sep"
  using assms
proof (induction "3 - i" arbitrary: i short)
  case 0
  then have "i = 3" by simp
  moreover from this have "take 3 (drop 8 short) = drop 8 short" using 0 by simp
  ultimately show ?case
    using 0 append_take_drop_id [of 8 short] by (simp add: ext_loop.simps ext_result_def Let_def)
next
  case (Suc k)
  let ?x = "drop (sep + 1) long"
  let ?n = "length (takeWhile is_character_valid ?x)"
  have i3: "i < 3" using Suc.hyps(2) by simp
  show ?case
  proof (cases "i < ?n")
    case True
    note c = takeWhile_ch [OF True]
    have "ext_loop long sep short i = ext_loop long sep (short[8 + i := ch ?x i]) (i + 1)"
      using i3 c(1) valid_not_special [OF c(1)] by (subst ext_loop.simps) (simp add: ch_drop)
    also have "\<dots> = ext_result long (short[8 + i := ch ?x i]) sep"
    proof (rule Suc.hyps(1))
      have "drop 8 (short[8 + i := ch ?x i]) = (drop 8 short)[i := ch ?x i]"
        by (simp add: drop_update_swap)
      moreover have "take (i + 1) ((drop 8 short)[i := ch ?x i]) = take i (drop 8 short) @ [ch ?x i]"
        using Suc.prems(3) i3 by (simp add: take_Suc_conv_app_nth)
      ultimately show "take (i + 1) (drop 8 (short[8 + i := ch ?x i])) = take (i + 1) ?x"
        using Suc.prems(4) c(2,3) by (simp add: take_Suc_conv_app_nth)
    qed (use Suc.hyps(2) Suc.prems(3) True i3 in auto)
    also have "\<dots> = ext_result long short sep"
      using True by (simp add: ext_result_def Let_def)
    finally show ?thesis .
  next
    case False
    then have n: "?n = i" using Suc.prems(1) by simp
    have whole: "take 8 short @ take i ?x @ drop (8 + i) short = short"
      using Suc.prems(4) append_take_drop_id [of i "drop 8 short"] append_take_drop_id [of 8 short]
      by (simp add: add.commute)
    show ?thesis
      using i3 ch_takeWhile_end [of ?x is_character_valid] whole
      by (subst ext_loop.simps) (auto simp: ext_result_def Let_def n [simplified] ch_drop)
  qed
qed

lemma ext_loop_0: "length short = 11 \<Longrightarrow> ext_loop long sep short 0 = ext_result long short sep"
  by (rule ext_loop_result) simp_all

text \<open>Well-formed names: at most 8 valid characters, then optionally a dot and at most 3 more.\<close>

definition well_formed :: "u8 list \<Rightarrow> u8 list \<Rightarrow> u8 list \<Rightarrow> bool" where
  "well_formed base ext nm \<longleftrightarrow> valid_chars base \<and> valid_chars ext \<and> length base \<le> 8 \<and> length ext \<le> 3
     \<and> (nm = base @ DOT # ext \<or> nm = base \<and> base \<noteq> [] \<and> ext = [])"

definition strip_slash :: "u8 list \<Rightarrow> u8 list" where
  "strip_slash path = (if ch path 0 = SLASH then tl path else path)"

lemma takeWhile_valid:
  "valid_chars xs \<Longrightarrow> takeWhile is_character_valid (xs @ ys) = xs @ takeWhile is_character_valid ys"
  by (simp add: valid_chars_def takeWhile_append2 list_all_iff)

lemma valid_takeWhile: "valid_chars (takeWhile is_character_valid xs)"
  by (auto simp: valid_chars_def list_all_iff dest: set_takeWhileD)

lemma ch_0_end: "0 \<notin> set xs \<Longrightarrow> ch xs i = 0 \<longleftrightarrow> length xs \<le> i"
  by (metis ch_def nth_mem linorder_not_less)

lemma to_short_filename_complete:
  assumes "well_formed base ext (strip_slash path)" and "length short = 11"
  shows "to_short_filename short path = Some (pad 8 base @ pad 3 ext)"
proof -
  have v: "valid_chars base" "valid_chars ext" "length base \<le> 8" "length ext \<le> 3"
    using assms(1) by (simp_all add: well_formed_def)
  have dot: "\<not> is_character_valid DOT" by (simp add: is_character_valid_def)
  from assms(1) consider (dot) "strip_slash path = base @ DOT # ext"
    | (plain) "strip_slash path = base" "base \<noteq> []" "ext = []" by (auto simp: well_formed_def)
  then show ?thesis
  proof cases
    case dot
    have tw: "takeWhile is_character_valid (base @ DOT # ext) = base"
      using v(1) by (simp add: takeWhile_valid is_character_valid_def)
    have bl: "base_loop (base @ DOT # ext) short 0 = Base_Dot (base @ drop (length base) short) (length base)"
      using v(3) assms(2) by (simp add: base_loop_0 base_result_def tw Let_def ch_append ch_Cons)
    let ?s = "blanks (base @ drop (length base) short) (length base) (8 - length base)"
    have s: "?s = pad 8 base @ drop 8 short" using v(3) by (simp add: blanks_def pad_def)
    have len: "length (pad 8 base) = 8" using v(3) by (simp add: pad_def)
    have x: "drop (length base + 1) (base @ DOT # ext) = ext" by simp
    have tw': "takeWhile is_character_valid ext = ext"
      using v(2) takeWhile_valid [of ext "[]"] by simp
    have el: "ext_loop (base @ DOT # ext) (length base) ?s 0
        = Some (pad 8 base @ ext @ drop (8 + length ext) short, length ext)"
      unfolding s using assms(2) len v(4)
      by (simp add: ext_loop_0 ext_result_def x tw' Let_def ch_def add.commute)
    have c0: "ch (base @ DOT # ext) 0 \<noteq> 0"
      using v(1) by (cases base) (auto simp: ch_Cons valid_chars_def is_character_valid_def)
    have c4: "ch (base @ DOT # ext) (length base + 4) = 0 \<or> length ext \<noteq> 3"
      using v(4) by (auto simp: ch_def nth_append)
    show ?thesis
      unfolding to_short_filename_def strip_slash_def [symmetric] dot Let_def bl
      using c0 c4 el v(4) len assms(2) by (auto simp: blanks_def pad_def add.commute)
  next
    case plain
    have tw: "takeWhile is_character_valid base = base" using v(1) takeWhile_valid [of base "[]"] by simp
    have c0: "ch base 0 \<noteq> 0"
      using v(1) plain(2) by (cases base) (auto simp: ch_Cons valid_chars_def is_character_valid_def)
    have "replicate (11 - length base) BLANK = replicate (8 - length base) BLANK @ replicate 3 BLANK"
      using v(3) by (simp add: replicate_add [symmetric])
    then show ?thesis
      unfolding to_short_filename_def strip_slash_def [symmetric] plain(1) Let_def
      using c0 v(3) assms(2) plain(3) by (simp add: base_loop_0 base_result_def tw Let_def pad_def ch_def)
  qed
qed

lemma to_short_filename_sound:
  assumes "to_short_filename short path = Some r" and "length short = 11" and "0 \<notin> set path"
  shows "\<exists>base ext. well_formed base ext (strip_slash path)"
proof -
  define p where "p = strip_slash path"
  have p0: "0 \<notin> set p" using assms(3) by (cases path) (auto simp: p_def strip_slash_def)
  let ?b = "takeWhile is_character_valid p"
  have split: "p = ?b @ drop (length ?b) p" by (metis takeWhile_eq_take append_take_drop_id)
  have ne: "ch p 0 \<noteq> 0" using assms(1) by (auto simp: to_short_filename_def p_def strip_slash_def Let_def)
  have res: "base_result short p 0 \<noteq> Base_Bad"
    using assms(1,2) ne by (auto simp: to_short_filename_def p_def strip_slash_def Let_def base_loop_0)
  then have len: "length ?b \<le> 8" by (auto simp: base_result_def Let_def split: if_splits)
  show ?thesis
  proof (cases "ch p (length ?b) = 0")
    case True
    then have "p = ?b" using split ch_0_end [OF p0] by simp
    moreover have "p \<noteq> []" using ne by auto
    ultimately have "well_formed p [] p"
      using len valid_takeWhile [of p] by (simp add: well_formed_def valid_chars_def)
    then show ?thesis unfolding p_def by blast
  next
    case False
    then have dot: "ch p (length ?b) = DOT" using res by (auto simp: base_result_def Let_def split: if_splits)
    then have lt: "length ?b < length p" by (auto simp: ch_def split: if_splits)
    let ?x = "drop (length ?b + 1) p"
    let ?e = "takeWhile is_character_valid ?x"
    have p: "p = ?b @ DOT # ?x"
      using split dot lt by (metis Cons_nth_drop_Suc Suc_eq_plus1 ch_def)
    define s where "s = blanks (take (length ?b) p @ drop (length ?b) short) (length ?b) (8 - length ?b)"
    have ls: "length s = 11" using len assms(2) lt by (simp add: s_def blanks_def)
    have bl: "base_loop p short 0 = Base_Dot (take (length ?b) p @ drop (length ?b) short) (length ?b)"
      using dot len assms(2) by (simp add: base_loop_0 base_result_def Let_def)
    have er: "case ext_result p s (length ?b) of None \<Rightarrow> False | Some (_, i) \<Rightarrow> i = 3 \<longrightarrow> ch p (length ?b + 4) = 0"
      using assms(1) ne unfolding to_short_filename_def strip_slash_def [symmetric] p_def [symmetric] Let_def bl
      by (auto simp: s_def [symmetric] ext_loop_0 [OF ls] split: option.splits if_splits)
    have x0: "0 \<notin> set ?x" using p0 by (metis in_set_dropD)
    have "?x = ?e \<and> length ?e \<le> 3"
    proof (cases "3 \<le> length ?e")
      case True
      with er have "ch ?x 3 = 0" by (simp add: ext_result_def Let_def ch_drop add.commute)
      then have "length ?x \<le> 3" using ch_0_end [OF x0] by simp
      then have "length ?e = length ?x" using True length_takeWhile_le [of is_character_valid ?x] by linarith
      then show ?thesis using \<open>length ?x \<le> 3\<close> by (metis takeWhile_eq_take take_all order_refl)
    next
      case False
      with er have "ch ?x (length ?e) = 0" by (simp add: ext_result_def Let_def split: if_splits)
      then have "length ?x \<le> length ?e" using ch_0_end [OF x0] by simp
      then show ?thesis using False by (metis takeWhile_eq_take take_all nat_le_linear)
    qed
    then have e: "?x = ?e" "length ?e \<le> 3" by blast+
    have "valid_chars ?x" by (subst e(1)) (rule valid_takeWhile)
    moreover have "length ?x \<le> 3" by (subst e(1)) (rule e(2))
    ultimately have "well_formed ?b ?x p"
      unfolding well_formed_def using len p valid_takeWhile [of p] by blast
    then show ?thesis unfolding p_def by blast
  qed
qed


section \<open>Path components\<close>

lemma subdir_len_takeWhile:
  assumes "0 \<notin> set path" and "beg + len \<le> length path"
  shows "subdir_len path beg len = len + length (takeWhile (\<lambda>c. c \<noteq> SLASH) (drop (beg + len) path))"
  using assms(2)
proof (induction "length path - (beg + len)" arbitrary: len)
  case 0
  then show ?case by (subst subdir_len.simps) (simp add: ch_def)
next
  case (Suc n)
  have lt: "beg + len < length path" using Suc.hyps(2) by simp
  then have d: "drop (beg + len) path = ch path (beg + len) # drop (beg + (len + 1)) path"
    by (simp add: ch_def Cons_nth_drop_Suc)
  have nz: "ch path (beg + len) \<noteq> 0" using lt ch_0_end [OF assms(1)] by simp
  have "n = length path - (beg + (len + 1))" "beg + (len + 1) \<le> length path" using Suc.hyps(2) by simp_all
  note IH = Suc.hyps(1) [OF this]
  show ?case using IH nz d by (subst subdir_len.simps) simp
qed

text \<open>On a component followed by another one, and on the last component; a component of 12 or more
  characters in front of another one does not fit.\<close>

lemma get_subdir_inner:
  assumes "path = pre @ SLASH # part @ SLASH # rest" and "SLASH \<notin> set part" and "0 \<notin> set path"
    and "length path < 65536"
  shows "get_subdir nm (of_nat (length pre)) path =
    (if length part \<le> 11 then Some (0, SLASH # part, of_nat (length pre + 1 + length part)) else None)"
proof -
  have beg: "unat (of_nat (length pre) :: u16) = length pre" using assms(1,4) by simp
  have tw: "takeWhile (\<lambda>c. c \<noteq> SLASH) (part @ SLASH # rest) = part"
    using assms(2) by (subst takeWhile_append2) auto
  have len: "subdir_len path (length pre) 1 = 1 + length part"
    using subdir_len_takeWhile [OF assms(3), of "length pre" 1] tw by (simp add: assms(1))
  show ?thesis
    unfolding get_subdir_def beg len Let_def by (simp add: assms(1) ch_append ch_Cons)
qed

lemma get_subdir_last:
  assumes "path = pre @ SLASH # part" and "SLASH \<notin> set part" and "0 \<notin> set path" and "length path < 65536"
  shows "get_subdir nm (of_nat (length pre)) path = Some (- 2, nm, of_nat (length pre))"
proof -
  have beg: "unat (of_nat (length pre) :: u16) = length pre" using assms(1,4) by simp
  have tw: "takeWhile (\<lambda>c. c \<noteq> SLASH) part = part" using assms(2) by (simp add: takeWhile_eq_all_conv) blast
  have len: "subdir_len path (length pre) 1 = 1 + length part"
    using subdir_len_takeWhile [OF assms(3), of "length pre" 1] tw by (simp add: assms(1))
  show ?thesis
    unfolding get_subdir_def beg len Let_def by (simp add: assms(1) ch_append ch_Cons) (simp add: ch_def)
qed

lemma is_in_root_iff:
  assumes "0 \<notin> set path" and "length path < 65536"
  shows "is_in_root path = Some True \<longleftrightarrow> ch path 0 \<noteq> SLASH \<or> SLASH \<notin> set (tl path)"
proof (cases "ch path 0 = SLASH \<and> SLASH \<in> set (tl path)")
  case True
  then obtain c cs where "path = c # cs" by (cases path) auto
  moreover from this True obtain part rest where "cs = part @ SLASH # rest" "SLASH \<notin> set part"
    by (metis list.sel(3) split_list_first)
  ultimately have "path = [] @ SLASH # part @ SLASH # rest" "SLASH \<notin> set part"
    using True by (simp_all add: ch_Cons)
  from get_subdir_inner [OF this assms, of "[]"] True show ?thesis by (simp add: is_in_root_def)
next
  case False
  then show ?thesis
  proof (cases "ch path 0 = SLASH")
    case True
    then obtain cs where "path = [] @ SLASH # cs" by (cases path) (auto simp: ch_Cons)
    with get_subdir_last [OF this _ assms, of "[]"] False True show ?thesis by (simp add: is_in_root_def)
  qed (simp add: is_in_root_def get_subdir_def)
qed

section \<open>Properties\<close>

text \<open>
  C10: \<^verbatim>\<open>to_short_filename\<close> accepts exactly the well-formed 8.3 names, with or without a leading
  slash, and the 11 bytes it writes are the base and the extension padded with blanks.
\<close>
theorem to_short_filename_iff:
  assumes "length short = 11" and "0 \<notin> set path"
  shows "to_short_filename short path = Some r
    \<longleftrightarrow> (\<exists>base ext. well_formed base ext (strip_slash path) \<and> r = pad 8 base @ pad 3 ext)"
  using to_short_filename_sound [OF _ assms] to_short_filename_complete [OF _ assms(1)]
  by (metis option.inject)

lemma to_short_filename_iff_witness:
  "to_short_filename (replicate 11 0) [0x2F, 0x41, 0x2E, 0x42] = Some [0x41, 0x20, 0x20, 0x20, 0x20, 0x20, 0x20, 0x20, 0x42, 0x20, 0x20]"
proof -
  have "well_formed [0x41] [0x42] (strip_slash [0x2F, 0x41, 0x2E, 0x42])"
    by (simp add: well_formed_def strip_slash_def ch_Cons valid_chars_def is_character_valid_def)
  moreover have "pad 8 [0x41] @ pad 3 [0x42] = [0x41, 0x20, 0x20, 0x20, 0x20, 0x20, 0x20, 0x20, 0x42, 0x20, 0x20]"
    by (simp add: pad_def numeral_nat)
  ultimately show ?thesis
    using to_short_filename_iff [of "replicate 11 0" "[0x2F, 0x41, 0x2E, 0x42]"] by fastforce
qed

end
