(* ===== verification/Storage.thy ===== *)
theory Storage
  imports Prelude "HOL-Library.Monad_Syntax"
begin

text \<open>
  The storage device interface of \<^verbatim>\<open>kernel/include/fs/fat16/fat16.h\<close> (\<^verbatim>\<open>storage_dev_t\<close>): four
  function pointers through which the FAT16 driver reaches its disk.  A buffer argument becomes a
  result, the bytes stored in it; the \<^verbatim>\<open>int\<close> results are dropped, as every caller does.  \<open>None\<close>
  stands for a call that does not return.

  The locale \<open>storage_device\<close> is the contract the driver relies on: behind the position pointer lies
  a fixed image, reading returns its bytes and advances the pointer, seeking moves it.
\<close>

record 'd storage_dev =
  sd_read :: "'d \<Rightarrow> u32 \<Rightarrow> (u8 list \<times> 'd) option"
  sd_read_byte :: "'d \<Rightarrow> (u8 \<times> 'd) option"
  sd_write :: "'d \<Rightarrow> u8 list \<Rightarrow> u32 \<Rightarrow> 'd option"
  sd_seek :: "'d \<Rightarrow> u32 \<Rightarrow> 'd option"

text \<open>Little-endian fields in a list of bytes.\<close>

definition le16 :: "u8 list \<Rightarrow> u16" where
  "le16 bs = ucast (bs ! 0) + 256 * ucast (bs ! 1)"

definition le32 :: "u8 list \<Rightarrow> u32" where
  "le32 bs = ucast (bs ! 0) + 0x100 * ucast (bs ! 1) + 0x10000 * ucast (bs ! 2) + 0x1000000 * ucast (bs ! 3)"

text \<open>The bytes of an image from position \<open>p\<close> on.\<close>

definition bytes_at :: "(nat \<Rightarrow> u8) \<Rightarrow> nat \<Rightarrow> nat \<Rightarrow> u8 list" where
  "bytes_at img p n = map img [p..<p + n]"

lemma length_bytes_at [simp]: "length (bytes_at img p n) = n"
  by (simp add: bytes_at_def)

lemma nth_bytes_at [simp]: "i < n \<Longrightarrow> bytes_at img p n ! i = img (p + i)"
  by (simp add: bytes_at_def)

lemma bytes_at_append: "bytes_at img p (m + n) = bytes_at img p m @ bytes_at img (p + m) n"
  using upt_add_eq_append [of p "p + m" n] by (simp add: bytes_at_def add.assoc)

lemma bytes_at_0 [simp]: "bytes_at img p 0 = []"
  by (simp add: bytes_at_def)

lemma take_bytes_at: "take k (bytes_at img p n) = bytes_at img p (min k n)"
  by (simp add: bytes_at_def take_map min_def)

lemma drop_bytes_at: "drop k (bytes_at img p n) = bytes_at img (p + k) (n - k)"
  by (cases "k \<le> n") (simp_all add: bytes_at_def drop_map)

locale storage_device =
  fixes dev :: "'d storage_dev"
    and ok :: "'d \<Rightarrow> bool"
    and pos :: "'d \<Rightarrow> nat"
    and img :: "nat \<Rightarrow> u8"
    and limit :: nat
  assumes read_image: "ok d \<Longrightarrow> pos d + unat n \<le> limit \<Longrightarrow>
      \<exists>d'. sd_read dev d n = Some (bytes_at img (pos d) (unat n), d') \<and> ok d' \<and> pos d' = pos d + unat n"
    and read_byte_image: "ok d \<Longrightarrow> pos d + 1 \<le> limit \<Longrightarrow>
      \<exists>d'. sd_read_byte dev d = Some (img (pos d), d') \<and> ok d' \<and> pos d' = pos d + 1"
    and seek_pos: "ok d \<Longrightarrow> \<exists>d'. sd_seek dev d p = Some d' \<and> ok d' \<and> pos d' = unat p"
begin

lemma seek_read:
  assumes "ok d" and "unat p + unat n \<le> limit"
  obtains d1 d2 where "sd_seek dev d p = Some d1" "sd_read dev d1 n = Some (bytes_at img (unat p) (unat n), d2)"
    "ok d1" "pos d1 = unat p" "ok d2" "pos d2 = unat p + unat n"
  using seek_pos [OF assms(1), of p] read_image [of _ n] assms(2) by metis

end

end
