(* ===== verification/Fat16.thy ===== *)
theory Fat16
  imports Fat16_Path Storage
begin

text \<open>
  The FAT16 driver, \<^verbatim>\<open>kernel/src/fs/fat16\<close>: \<^verbatim>\<open>fat16_priv.c\<close> (clusters, reading through a
  handle, path walk), \<^verbatim>\<open>fat16_rootdir.c\<close> and \<^verbatim>\<open>fat16_subdir.c\<close> (directories), \<^verbatim>\<open>fat16.c\<close>
  (boot sector, handle table, the file operations).  The state holds the global variables and the
  device; \<open>dev\<close> is the device's table of functions.  Every operation is in the option monad:
  \<open>None\<close> is a run that does not return (a cyclic cluster chain), divides by zero or leaves an array.
\<close>

section \<open>Data\<close>

record fat16_bpb =
  oem_name :: "u8 list"
  bytes_per_sector :: u16
  sectors_per_cluster :: u8
  reserved_sector_count :: u16
  num_fats :: u8
  root_entry_count :: u16
  sector_count :: u32
  fat_size :: u16
  volume_id :: u32
  vol_label :: "u8 list"
  fs_type :: "u8 list"

record fat16_layout =
  vol_offset :: u32
  start_fat_region :: u32
  start_root_directory_region :: u32
  start_data_region :: u32
  data_cluster_count :: u32

record entry_handle =
  mode :: u8
  pos_entry :: u32
  cluster :: u16
  offset :: u16
  remaining_bytes :: u32

record dir_entry =
  name :: "u8 list"
  attribute :: u8
  starting_cluster :: u16
  entry_size :: u32

record 'd fat16 =
  bpb :: fat16_bpb
  layout :: fat16_layout
  handles :: "entry_handle list"
  disk :: 'd

definition dir_entry_of :: "u8 list \<Rightarrow> dir_entry" where
  "dir_entry_of bs = \<lparr>name = take 11 bs, attribute = bs ! 11, starting_cluster = le16 (drop 26 bs),
     entry_size = le32 (drop 28 bs)\<rparr>"

abbreviation (input) SIZEOF_DIR_ENTRY :: u32 where "SIZEOF_DIR_ENTRY \<equiv> 32"
abbreviation (input) AVAILABLE_DIR_ENTRY :: u8 where "AVAILABLE_DIR_ENTRY \<equiv> 0xE5"
abbreviation (input) VFAT_DIR_ENTRY :: u8 where "VFAT_DIR_ENTRY \<equiv> 0x0F"
abbreviation (input) READ_ONLY :: u8 where "READ_ONLY \<equiv> 0x01"
abbreviation (input) VOULME :: u8 where "VOULME \<equiv> 0x08"
abbreviation (input) SUBDIR :: u8 where "SUBDIR \<equiv> 0x10"
abbreviation (input) MODE_R :: u8 where "MODE_R \<equiv> 0x72"
abbreviation (input) MODE_W :: u8 where "MODE_W \<equiv> 0x77"
abbreviation (input) MODE_A :: u8 where "MODE_A \<equiv> 0x61"

text \<open>\<^verbatim>\<open>bpb.sectors_per_cluster * bpb.bytes_per_sector\<close>, an \<^verbatim>\<open>int\<close>.\<close>

definition cluster_bytes :: "'d fat16 \<Rightarrow> u32" where
  "cluster_bytes s = ucast (sectors_per_cluster (bpb s)) * ucast (bytes_per_sector (bpb s))"

section \<open>fat16_priv.c\<close>

definition dev_seek :: "'d storage_dev \<Rightarrow> 'd fat16 \<Rightarrow> u32 \<Rightarrow> ('d fat16) option" where
  "dev_seek dev s p = do { d \<leftarrow> sd_seek dev (disk s) p; Some (s\<lparr>disk := d\<rparr>) }"

definition dev_read :: "'d storage_dev \<Rightarrow> 'd fat16 \<Rightarrow> u32 \<Rightarrow> (u8 list \<times> 'd fat16) option" where
  "dev_read dev s n = do { (bs, d) \<leftarrow> sd_read dev (disk s) n; Some (bs, s\<lparr>disk := d\<rparr>) }"

definition dev_read_byte :: "'d storage_dev \<Rightarrow> 'd fat16 \<Rightarrow> (u8 \<times> 'd fat16) option" where
  "dev_read_byte dev s = do { (b, d) \<leftarrow> sd_read_byte dev (disk s); Some (b, s\<lparr>disk := d\<rparr>) }"

definition root_directory_pos :: "'d fat16 \<Rightarrow> u16 \<Rightarrow> u32" where
  "root_directory_pos s entry_index =
     start_root_directory_region (layout s) + vol_offset (layout s) + ucast entry_index * 32"

definition move_to_root_directory_region :: "'d storage_dev \<Rightarrow> 'd fat16 \<Rightarrow> u16 \<Rightarrow> (u32 \<times> 'd fat16) option" where
  "move_to_root_directory_region dev s entry_index =
     (let pos = root_directory_pos s entry_index in do { s' \<leftarrow> dev_seek dev s pos; Some (pos, s') })"

definition fat_pos :: "'d fat16 \<Rightarrow> u16 \<Rightarrow> u32" where
  "fat_pos s clus = start_fat_region (layout s) + vol_offset (layout s) + ucast clus * 2"

definition move_to_fat_region :: "'d storage_dev \<Rightarrow> 'd fat16 \<Rightarrow> u16 \<Rightarrow> (u32 \<times> 'd fat16) option" where
  "move_to_fat_region dev s clus =
     (let pos = fat_pos s clus in do { s' \<leftarrow> dev_seek dev s pos; Some (pos, s') })"

definition data_pos :: "'d fat16 \<Rightarrow> u16 \<Rightarrow> u16 \<Rightarrow> u32" where
  "data_pos s clus off =
     (let tmp = (ucast clus - 2) * ucast (sectors_per_cluster (bpb s)) * ucast (bytes_per_sector (bpb s))
      in start_data_region (layout s) + vol_offset (layout s) + tmp + ucast off)"

definition move_to_data_region :: "'d storage_dev \<Rightarrow> 'd fat16 \<Rightarrow> u16 \<Rightarrow> u16 \<Rightarrow> (u32 \<times> 'd fat16) option" where
  "move_to_data_region dev s clus off =
     (let pos = data_pos s clus off in do { s' \<leftarrow> dev_seek dev s pos; Some (pos, s') })"

text \<open>The result is always 0; the cluster read is the second component.\<close>

definition get_next_cluster :: "'d storage_dev \<Rightarrow> 'd fat16 \<Rightarrow> u16 \<Rightarrow> (int \<times> u16 \<times> 'd fat16) option" where
  "get_next_cluster dev s clus = do {
     (_, s1) \<leftarrow> move_to_fat_region dev s clus;
     (bs, s2) \<leftarrow> dev_read dev s1 2;
     Some (0, le16 bs, s2) }"

text \<open>The loop of \<^verbatim>\<open>read_from_handle\<close>; \<open>done\<close> are the bytes stored so far, \<^verbatim>\<open>bytes_read_count\<close> of them.\<close>

partial_function (option) read_loop ::
    "'d storage_dev \<Rightarrow> 'd fat16 \<Rightarrow> entry_handle \<Rightarrow> u32 \<Rightarrow> u8 list \<Rightarrow> (int \<times> u8 list \<times> entry_handle \<times> 'd fat16) option" where
  "read_loop dev s h count done =
     (if count > 0 then
        if remaining_bytes h = 0 then Some (sint (of_nat (length done) :: u32), done, h, s)
        else
          (let bytes_remaining_in_cluster = cluster_bytes s - ucast (offset h);
               l1 = (if count > bytes_remaining_in_cluster then bytes_remaining_in_cluster else count);
               chunk_length = (if l1 > remaining_bytes h then remaining_bytes h else l1)
           in do {
             (bs, s1) \<leftarrow> dev_read dev s chunk_length;
             let h1 = h\<lparr>remaining_bytes := remaining_bytes h - chunk_length,
                        offset := offset h + ucast chunk_length\<rparr>;
             if ucast (offset h1) = cluster_bytes s1 then
               (let h2 = h1\<lparr>offset := 0\<rparr>
                in if remaining_bytes h2 \<noteq> 0 then do {
                     (r, next_cluster, s2) \<leftarrow> get_next_cluster dev s1 (cluster h2);
                     if r < 0 then Some (- 1, done @ bs, h2, s2)
                     else do {
                       let h3 = h2\<lparr>cluster := next_cluster\<rparr>;
                       (_, s3) \<leftarrow> move_to_data_region dev s2 (cluster h3) (offset h3);
                       read_loop dev s3 h3 (count - chunk_length) (done @ bs) } }
                   else read_loop dev s1 h2 (count - chunk_length) (done @ bs))
             else read_loop dev s1 h1 (count - chunk_length) (done @ bs) })
      else Some (sint (of_nat (length done) :: u32), done, h, s))"

definition read_from_handle ::
    "'d storage_dev \<Rightarrow> 'd fat16 \<Rightarrow> entry_handle \<Rightarrow> u32 \<Rightarrow> (int \<times> u8 list \<times> entry_handle \<times> 'd fat16) option" where
  "read_from_handle dev s h count =
     (if remaining_bytes h = 0 then Some (0, [], h, s)
      else if cluster h = 0 then Some (0, [], h, s)
      else do {
        (_, s1) \<leftarrow> move_to_data_region dev s (cluster h) (offset h);
        read_loop dev s1 h count [] })"

section \<open>fat16_rootdir.c\<close>

text \<open>The tests both directory searches make on an entry, and the rest of \<^verbatim>\<open>open_entry_in_root\<close> and
  \<^verbatim>\<open>open_entry_in_subdir\<close>, which are the same code.\<close>

partial_function (option) find_root_loop ::
    "'d storage_dev \<Rightarrow> 'd fat16 \<Rightarrow> u8 list \<Rightarrow> u16 \<Rightarrow> (int \<times> u16 \<times> 'd fat16) option" where
  "find_root_loop dev s nm i =
     (if i < root_entry_count (bpb s) then do {
        (bs, s1) \<leftarrow> dev_read dev s SIZEOF_DIR_ENTRY;
        let e = dir_entry_of bs;
        if name e ! 0 = AVAILABLE_DIR_ENTRY then find_root_loop dev s1 nm (i + 1)
        else if name e ! 0 = 0 then Some (- 1, 0, s1)
        else if attribute e AND VFAT_DIR_ENTRY = VFAT_DIR_ENTRY then find_root_loop dev s1 nm (i + 1)
        else if nm = name e then Some (0, i, s1)
        else find_root_loop dev s1 nm (i + 1) }
      else Some (- 1, 0, s))"

definition find_root_directory_entry ::
    "'d storage_dev \<Rightarrow> 'd fat16 \<Rightarrow> u8 list \<Rightarrow> (int \<times> u16 \<times> 'd fat16) option" where
  "find_root_directory_entry dev s nm = do {
     (_, s1) \<leftarrow> move_to_root_directory_region dev s 0;
     find_root_loop dev s1 nm 0 }"

text \<open>Mode \<^verbatim>\<open>'a'\<close>: follow the chain to its last cluster.\<close>

partial_function (option) append_loop ::
    "'d storage_dev \<Rightarrow> 'd fat16 \<Rightarrow> u16 \<Rightarrow> u32 \<Rightarrow> u16 \<Rightarrow> (u16 \<times> u32 \<times> 'd fat16) option" where
  "append_loop dev s clus off next_cluster =
     (if next_cluster < 0xFFF8 then do {
        (_, n, s1) \<leftarrow> get_next_cluster dev s next_cluster;
        append_loop dev s1 next_cluster (off - cluster_bytes s) n }
      else Some (clus, off, s))"

definition position_handle ::
    "'d storage_dev \<Rightarrow> 'd fat16 \<Rightarrow> entry_handle \<Rightarrow> dir_entry \<Rightarrow> u8 \<Rightarrow> (entry_handle \<times> 'd fat16) option" where
  "position_handle dev s h entry m = do {
     (h1, s1) \<leftarrow>
       (if m = MODE_A then do {
          (_, n, s1) \<leftarrow> get_next_cluster dev s (starting_cluster entry);
          (c, off, s2) \<leftarrow> append_loop dev s1 (starting_cluster entry) (entry_size entry) n;
          Some (h\<lparr>cluster := c, offset := ucast off\<rparr>, s2) }
        else Some (h\<lparr>cluster := starting_cluster entry, offset := 0\<rparr>, s));
     Some (h1\<lparr>remaining_bytes := (if m = MODE_R then entry_size entry else 0)\<rparr>, s1) }"

definition entry_refused :: "dir_entry \<Rightarrow> u8 \<Rightarrow> bool \<Rightarrow> bool" where
  "entry_refused entry m is_file \<longleftrightarrow>
     attribute entry AND VOULME \<noteq> 0 \<or> is_file \<and> attribute entry AND SUBDIR \<noteq> 0
     \<or> attribute entry AND READ_ONLY \<noteq> 0 \<and> m \<noteq> MODE_R"

definition open_entry_in_root ::
    "'d storage_dev \<Rightarrow> 'd fat16 \<Rightarrow> entry_handle \<Rightarrow> u8 list \<Rightarrow> u8 \<Rightarrow> bool \<Rightarrow> (int \<times> entry_handle \<times> 'd fat16) option" where
  "open_entry_in_root dev s h nm m is_file = do {
     (r, entry_index, s1) \<leftarrow> find_root_directory_entry dev s nm;
     if r < 0 then Some (- 1, h, s1)
     else do {
       (p, s2) \<leftarrow> move_to_root_directory_region dev s1 entry_index;
       let h1 = h\<lparr>pos_entry := p\<rparr>;
       (bs, s3) \<leftarrow> dev_read dev s2 SIZEOF_DIR_ENTRY;
       let entry = dir_entry_of bs;
       if entry_refused entry m is_file then Some (- 1, h1, s3)
       else do {
         (h2, s4) \<leftarrow> position_handle dev s3 (h1\<lparr>mode := m\<rparr>) entry m;
         Some (0, h2, s4) } } }"

definition open_file_in_root where
  "open_file_in_root dev s h filename m = open_entry_in_root dev s h filename m True"

definition open_directory_in_root where
  "open_directory_in_root dev s h dirname = open_entry_in_root dev s h dirname MODE_R False"

definition root_directory_entry_size :: "'d storage_dev \<Rightarrow> 'd fat16 \<Rightarrow> u8 list \<Rightarrow> (u32 \<times> 'd fat16) option" where
  "root_directory_entry_size dev s filename = do {
     (r, entry_index, s1) \<leftarrow> find_root_directory_entry dev s filename;
     if r < 0 then Some (- 1, s1)
     else do {
       (_, s2) \<leftarrow> move_to_root_directory_region dev s1 entry_index;
       (bs, s3) \<leftarrow> dev_read dev s2 SIZEOF_DIR_ENTRY;
       Some (entry_size (dir_entry_of bs), s3) } }"

text \<open>\<^verbatim>\<open>ls_in_root\<close>: result, index and file name (the third component when the result is 1).\<close>

definition ls_in_root :: "'d storage_dev \<Rightarrow> 'd fat16 \<Rightarrow> u32 \<Rightarrow> u8 list \<Rightarrow> (int \<times> u32 \<times> u8 list \<times> 'd fat16) option" where
  "ls_in_root dev s index filename =
     (if index = ucast (root_entry_count (bpb s)) then Some (0, index, filename, s)
      else if index > ucast (root_entry_count (bpb s)) then Some (- 1, index, filename, s)
      else do {
        (_, s1) \<leftarrow> move_to_root_directory_region dev s (ucast index);
        (bs, s2) \<leftarrow> dev_read dev s1 SIZEOF_DIR_ENTRY;
        let entry = dir_entry_of bs;
        if name entry ! 0 = 0 then Some (0, index, filename, s2)
        else Some (1, index + 1, name entry, s2) })"

section \<open>fat16_subdir.c\<close>

text \<open>\<open>entry\<close> is the caller's variable, unchanged when the result is -1.\<close>

definition read_entry_from_subdir ::
    "'d storage_dev \<Rightarrow> 'd fat16 \<Rightarrow> dir_entry \<Rightarrow> entry_handle \<Rightarrow> (int \<times> dir_entry \<times> entry_handle \<times> 'd fat16) option" where
  "read_entry_from_subdir dev s entry h = do {
     (r, h1, s1) \<leftarrow>
       (if ucast (offset h) = cluster_bytes s then do {
          (_, next_cluster, s1) \<leftarrow> get_next_cluster dev s (cluster h);
          if next_cluster \<ge> 0xFFF8 then Some (- 1 :: int, h, s1)
          else do {
            (_, s2) \<leftarrow> move_to_data_region dev s1 next_cluster 0;
            Some (0, h\<lparr>cluster := next_cluster, offset := 0\<rparr>, s2) } }
        else Some (0, h, s));
     if r < 0 then Some (- 1, entry, h1, s1)
     else do {
       (_, s2) \<leftarrow> move_to_data_region dev s1 (cluster h1) (offset h1);
       (bs, s3) \<leftarrow> dev_read dev s2 SIZEOF_DIR_ENTRY;
       Some (0, dir_entry_of bs, h1\<lparr>offset := offset h1 + 32\<rparr>, s3) } }"

partial_function (option) find_subdir_loop ::
    "'d storage_dev \<Rightarrow> 'd fat16 \<Rightarrow> dir_entry \<Rightarrow> entry_handle \<Rightarrow> u8 list \<Rightarrow> (int \<times> dir_entry \<times> entry_handle \<times> 'd fat16) option" where
  "find_subdir_loop dev s entry h nm = do {
     (r, e, h1, s1) \<leftarrow> read_entry_from_subdir dev s entry h;
     if r = 0 then
       if name e ! 0 = AVAILABLE_DIR_ENTRY then find_subdir_loop dev s1 e h1 nm
       else if name e ! 0 = 0 then Some (- 1, e, h1, s1)
       else if attribute e AND VFAT_DIR_ENTRY = VFAT_DIR_ENTRY then find_subdir_loop dev s1 e h1 nm
       else if nm = name e then Some (0, e, h1, s1)
       else find_subdir_loop dev s1 e h1 nm
     else Some (- 1, e, h1, s1) }"

definition find_entry_in_subdir ::
    "'d storage_dev \<Rightarrow> 'd fat16 \<Rightarrow> dir_entry \<Rightarrow> u32 \<Rightarrow> entry_handle \<Rightarrow> u8 list
     \<Rightarrow> (int \<times> dir_entry \<times> u32 \<times> entry_handle \<times> 'd fat16) option" where
  "find_entry_in_subdir dev s entry entry_pos h nm = do {
     (r, e, h1, s1) \<leftarrow> find_subdir_loop dev s entry h nm;
     (pos, s2) \<leftarrow>
       (if r = 0 then do {
          (p, s2) \<leftarrow> move_to_data_region dev s1 (cluster h1) (offset h1);
          Some (p - 32, s2) }
        else Some (entry_pos, s1));
     Some (r, e, pos, h1\<lparr>cluster := cluster h, offset := 0\<rparr>, s2) }"

definition blank_entry :: dir_entry where
  "blank_entry = \<lparr>name = replicate 11 0, attribute = 0, starting_cluster = 0, entry_size = 0\<rparr>"

definition open_entry_in_subdir ::
    "'d storage_dev \<Rightarrow> 'd fat16 \<Rightarrow> entry_handle \<Rightarrow> u8 list \<Rightarrow> u8 \<Rightarrow> bool \<Rightarrow> (int \<times> entry_handle \<times> 'd fat16) option" where
  "open_entry_in_subdir dev s h nm m is_file = do {
     (r, entry, entry_pos, h1, s1) \<leftarrow> find_entry_in_subdir dev s blank_entry 0 h nm;
     if r < 0 then Some (- 1, h1, s1)
     else if entry_refused entry m is_file then Some (- 1, h1, s1)
     else do {
       (h2, s2) \<leftarrow> position_handle dev s1 (h1\<lparr>mode := m, pos_entry := entry_pos\<rparr>) entry m;
       Some (0, h2, s2) } }"

definition open_file_in_subdir where
  "open_file_in_subdir dev s h filename m = open_entry_in_subdir dev s h filename m True"

definition open_directory_in_subdir where
  "open_directory_in_subdir dev s h dirname = open_entry_in_subdir dev s h dirname MODE_R False"

definition subdir_entry_size ::
    "'d storage_dev \<Rightarrow> 'd fat16 \<Rightarrow> entry_handle \<Rightarrow> u8 list \<Rightarrow> (u32 \<times> entry_handle \<times> 'd fat16) option" where
  "subdir_entry_size dev s h filename = do {
     (r, entry, _, h1, s1) \<leftarrow> find_entry_in_subdir dev s blank_entry 0 h filename;
     Some (if r < 0 then 0 else entry_size entry, h1, s1) }"

text \<open>\<^verbatim>\<open>ls_in_subdir\<close> skips \<open>n\<close> entries, then reads one.\<close>

primrec skip_entries ::
    "nat \<Rightarrow> 'd storage_dev \<Rightarrow> 'd fat16 \<Rightarrow> dir_entry \<Rightarrow> entry_handle \<Rightarrow> (int \<times> dir_entry \<times> entry_handle \<times> 'd fat16) option" where
  "skip_entries 0 dev s entry h = Some (0, entry, h, s)"
| "skip_entries (Suc n) dev s entry h = do {
     (r, e, h1, s1) \<leftarrow> read_entry_from_subdir dev s entry h;
     if r < 0 then Some (- 1, e, h1, s1) else skip_entries n dev s1 e h1 }"

definition ls_in_subdir ::
    "'d storage_dev \<Rightarrow> 'd fat16 \<Rightarrow> u32 \<Rightarrow> u8 list \<Rightarrow> entry_handle \<Rightarrow> (int \<times> u32 \<times> u8 list \<times> 'd fat16) option" where
  "ls_in_subdir dev s index nm h = do {
     (r, e, h1, s1) \<leftarrow> skip_entries (unat index) dev s blank_entry h;
     if r < 0 then Some (- 1, index, nm, s1)
     else do {
       (r2, e2, h2, s2) \<leftarrow> read_entry_from_subdir dev s1 e h1;
       if r2 < 0 then Some (- 1, index, nm, s2)
       else if name e2 ! 0 = 0 then Some (0, index, nm, s2)
       else Some (1, index + 1, name e2, s2) } }"

section \<open>Walking a path (fat16_priv.c)\<close>

text \<open>The arrays \<^verbatim>\<open>entry_name\<close> and \<^verbatim>\<open>subdir_name\<close> start with arbitrary contents that no successful
  run reads; they are blank here.\<close>

partial_function (option) navigate_loop ::
    "'d storage_dev \<Rightarrow> 'd fat16 \<Rightarrow> entry_handle \<Rightarrow> u8 list \<Rightarrow> u8 list \<Rightarrow> u16 \<Rightarrow> u8 list
     \<Rightarrow> (int \<times> entry_handle \<times> u8 list \<times> 'd fat16) option" where
  "navigate_loop dev s h entry_name subdir_name index path = do {
     (ret, subdir_name', index') \<leftarrow> get_subdir subdir_name index path;
     case to_short_filename entry_name (drop (unat index') path) of
       None \<Rightarrow> Some (- 1, h, entry_name, s)
     | Some entry_name' \<Rightarrow>
         if ret < 0 then Some (0, h, entry_name', s)
         else do {
           (_, h', s') \<leftarrow> open_directory_in_subdir dev s h entry_name';
           navigate_loop dev s' h' entry_name' subdir_name' index' path } }"

definition blank_handle :: entry_handle where
  "blank_handle = \<lparr>mode = 0, pos_entry = 0, cluster = 0, offset = 0, remaining_bytes = 0\<rparr>"

definition navigate_to_subdir ::
    "'d storage_dev \<Rightarrow> 'd fat16 \<Rightarrow> entry_handle \<Rightarrow> u8 list \<Rightarrow> u8 list \<Rightarrow> (int \<times> entry_handle \<times> u8 list \<times> 'd fat16) option" where
  "navigate_to_subdir dev s h entry_name path = do {
     (ret, subdir_name, index) \<leftarrow> get_subdir [] 0 path;
     if ret < 0 then Some (- 1, h, entry_name, s)
     else
       (case to_short_filename entry_name subdir_name of
          None \<Rightarrow> Some (- 1, h, entry_name, s)
        | Some entry_name' \<Rightarrow> do {
            (r, h', s') \<leftarrow> open_directory_in_root dev s h entry_name';
            if r < 0 then Some (- 1, h', entry_name', s')
            else navigate_loop dev s' h' entry_name' subdir_name index path }) }"

section \<open>fat16.c: the boot sector\<close>

text \<open>The constants of \<^verbatim>\<open>FAT_ERROR\<close>; the first is 0.\<close>

abbreviation (input) INAVLID_JUMP_INSTRUCTION :: int where "INAVLID_JUMP_INSTRUCTION \<equiv> 0"
abbreviation (input) INVALID_BYTES_PER_SECTOR :: int where "INVALID_BYTES_PER_SECTOR \<equiv> 1"
abbreviation (input) INVALID_SECTORS_PER_CLUSTER :: int where "INVALID_SECTORS_PER_CLUSTER \<equiv> 2"
abbreviation (input) INVALID_SECTOR_COUNT :: int where "INVALID_SECTOR_COUNT \<equiv> 5"
abbreviation (input) HANDLE_COUNT :: nat where "HANDLE_COUNT \<equiv> 16"
abbreviation (input) INVALID_HANDLE :: nat where "INVALID_HANDLE \<equiv> 255"

definition zero_bpb :: fat16_bpb where
  "zero_bpb = \<lparr>oem_name = replicate 8 0, bytes_per_sector = 0, sectors_per_cluster = 0,
     reserved_sector_count = 0, num_fats = 0, root_entry_count = 0, sector_count = 0, fat_size = 0,
     volume_id = 0, vol_label = replicate 11 0, fs_type = replicate 8 0\<rparr>"

primrec skip_bytes :: "nat \<Rightarrow> 'd storage_dev \<Rightarrow> 'd fat16 \<Rightarrow> ('d fat16) option" where
  "skip_bytes 0 dev s = Some s"
| "skip_bytes (Suc n) dev s = do { (_, s1) \<leftarrow> dev_read_byte dev s; skip_bytes n dev s1 }"

text \<open>\<open>True\<close> when the jump instruction is one of the two accepted ones.\<close>

definition read_jump :: "'d storage_dev \<Rightarrow> 'd fat16 \<Rightarrow> (bool \<times> 'd fat16) option" where
  "read_jump dev s = do {
     (b0, s1) \<leftarrow> dev_read_byte dev s;
     if b0 = 0xEB then do {
       (_, s2) \<leftarrow> dev_read_byte dev s1;
       (b2, s3) \<leftarrow> dev_read_byte dev s2;
       Some (b2 = 0x90, s3) }
     else if b0 = 0xE9 then do {
       (_, s2) \<leftarrow> dev_read_byte dev s1;
       (_, s3) \<leftarrow> dev_read_byte dev s2;
       Some (True, s3) }
     else Some (False, s1) }"

definition read_volume_info :: "'d storage_dev \<Rightarrow> 'd fat16 \<Rightarrow> (int \<times> 'd fat16) option" where
  "read_volume_info dev s = do {
     s1 \<leftarrow> skip_bytes 2 dev s;
     (b, s2) \<leftarrow> dev_read_byte dev s1;
     if b = 0x29 then do {
       (vid, s3) \<leftarrow> dev_read dev s2 4;
       let s3 = s3\<lparr>bpb := bpb s3\<lparr>volume_id := le32 vid\<rparr>\<rparr>;
       (lab, s4) \<leftarrow> dev_read dev s3 11;
       let s4 = s4\<lparr>bpb := bpb s4\<lparr>vol_label := lab\<rparr>\<rparr>;
       (fst', s5) \<leftarrow> dev_read dev s4 8;
       Some (0, s5\<lparr>bpb := bpb s5\<lparr>fs_type := fst'\<rparr>\<rparr>) }
     else Some (0, s2) }"

definition read_geometry :: "'d storage_dev \<Rightarrow> 'd fat16 \<Rightarrow> (int \<times> 'd fat16) option" where
  "read_geometry dev s = do {
     (bs, s1) \<leftarrow> dev_read dev s 2;
     let s1 = s1\<lparr>bpb := bpb s1\<lparr>reserved_sector_count := le16 bs\<rparr>\<rparr>;
     (bs, s2) \<leftarrow> dev_read dev s1 1;
     let s2 = s2\<lparr>bpb := bpb s2\<lparr>num_fats := bs ! 0\<rparr>\<rparr>;
     (bs, s3) \<leftarrow> dev_read dev s2 2;
     let s3 = s3\<lparr>bpb := bpb s3\<lparr>root_entry_count := le16 bs\<rparr>\<rparr>;
     (bs, s4) \<leftarrow> dev_read dev s3 2;
     let s4 = s4\<lparr>bpb := bpb s4\<lparr>sector_count := ucast (le16 bs)\<rparr>\<rparr>;
     s5 \<leftarrow> skip_bytes 1 dev s4;
     (bs, s6) \<leftarrow> dev_read dev s5 2;
     let s6 = s6\<lparr>bpb := bpb s6\<lparr>fat_size := le16 bs\<rparr>\<rparr>;
     s7 \<leftarrow> skip_bytes 8 dev s6;
     (bs, s8) \<leftarrow> dev_read dev s7 4;
     let sector_count_32 = le32 bs;
     if sector_count (bpb s8) \<noteq> 0 \<and> sector_count_32 \<noteq> 0 \<or> sector_count (bpb s8) = 0 \<and> sector_count_32 = 0
     then Some (INVALID_SECTOR_COUNT, s8)
     else read_volume_info dev s8 }"

definition fat16_read_bpb :: "'d storage_dev \<Rightarrow> 'd fat16 \<Rightarrow> (int \<times> 'd fat16) option" where
  "fat16_read_bpb dev s = do {
     s0 \<leftarrow> dev_seek dev (s\<lparr>bpb := zero_bpb\<rparr>) (vol_offset (layout s));
     (jump_ok, s1) \<leftarrow> read_jump dev s0;
     if \<not> jump_ok then Some (INAVLID_JUMP_INSTRUCTION, s1)
     else do {
       (bs, s2) \<leftarrow> dev_read dev s1 8;
       let s2 = s2\<lparr>bpb := bpb s2\<lparr>oem_name := bs\<rparr>\<rparr>;
       (bs, s3) \<leftarrow> dev_read dev s2 2;
       let s3 = s3\<lparr>bpb := bpb s3\<lparr>bytes_per_sector := le16 bs\<rparr>\<rparr>;
       if bytes_per_sector (bpb s3) \<noteq> 512 then Some (INVALID_BYTES_PER_SECTOR, s3)
       else do {
         (bs, s4) \<leftarrow> dev_read dev s3 1;
         let s4 = s4\<lparr>bpb := bpb s4\<lparr>sectors_per_cluster := bs ! 0\<rparr>\<rparr>;
         if bs ! 0 \<noteq> 1 \<and> bs ! 0 \<noteq> 2 \<and> bs ! 0 \<noteq> 4 \<and> bs ! 0 \<noteq> 8 \<and> bs ! 0 \<noteq> 16 \<and> bs ! 0 \<noteq> 32
            \<and> bs ! 0 \<noteq> 64 \<and> bs ! 0 \<noteq> 128
         then Some (INVALID_SECTORS_PER_CLUSTER, s4)
         else read_geometry dev s4 } } }"

text \<open>
  \<open>None\<close> also stands for the division by zero that an empty boot sector leads to.  The code first sets
  \<^verbatim>\<open>disk_pointer\<close>, a variable of the ATA device, to 0; \<^verbatim>\<open>fat16_read_bpb\<close> starts with a \<^verbatim>\<open>seek\<close>, which sets it
  again before it is read, so the assignment is left out.
\<close>

definition fat16_init :: "'d storage_dev \<Rightarrow> 'd fat16 \<Rightarrow> u32 \<Rightarrow> (int \<times> 'd fat16) option" where
  "fat16_init dev s off = do {
     (ret, s1) \<leftarrow> fat16_read_bpb dev (s\<lparr>layout := layout s\<lparr>vol_offset := off\<rparr>\<rparr>);
     if ret > 0 then Some (ret, s1)
     else if bytes_per_sector (bpb s1) = 0 then None
     else
       (let b = bpb s1;
            root_directory_sector_count = (ucast (root_entry_count b) * 32) div ucast (bytes_per_sector b) :: u32;
            data_sector_count = sector_count b - (ucast (reserved_sector_count b)
              + ucast (num_fats b) * ucast (fat_size b) + root_directory_sector_count)
        in if sectors_per_cluster b = 0 then None
           else
             (let count = data_sector_count div ucast (sectors_per_cluster b);
                  s2 = s1\<lparr>layout := layout s1\<lparr>data_cluster_count := count\<rparr>\<rparr>
              in if count < 4085 \<or> count \<ge> 65525 then Some (100, s2)
                 else
                   (let fat = ucast (reserved_sector_count b) * ucast (bytes_per_sector b);
                        root = ucast (num_fats b) * ucast (fat_size b) * ucast (bytes_per_sector b) + fat;
                        data = root_directory_sector_count * ucast (bytes_per_sector b) + root
                    in Some (0, s2\<lparr>layout := layout s2\<lparr>start_fat_region := fat, start_root_directory_region := root,
                         start_data_region := data\<rparr>, handles := replicate HANDLE_COUNT blank_handle\<rparr>)))) }"

section \<open>fat16.c: files\<close>

definition find_available_handle :: "'d fat16 \<Rightarrow> nat" where
  "find_available_handle s =
     (case find (\<lambda>i. mode (handles s ! i) = 0) [0..<HANDLE_COUNT] of Some i \<Rightarrow> i | None \<Rightarrow> INVALID_HANDLE)"

definition check_handle :: "'d fat16 \<Rightarrow> nat \<Rightarrow> bool" where
  "check_handle s h \<longleftrightarrow> h < HANDLE_COUNT \<and> mode (handles s ! h) \<noteq> 0"

definition set_handle :: "'d fat16 \<Rightarrow> nat \<Rightarrow> entry_handle \<Rightarrow> ('d fat16) option" where
  "set_handle s i h = (if i < HANDLE_COUNT then Some (s\<lparr>handles := (handles s)[i := h]\<rparr>) else None)"

definition conflict :: "'d fat16 \<Rightarrow> nat \<Rightarrow> u8 \<Rightarrow> bool" where
  "conflict s h m \<longleftrightarrow>
     list_ex (\<lambda>i. mode (handles s ! i) \<noteq> 0 \<and> i \<noteq> h \<and> pos_entry (handles s ! h) = pos_entry (handles s ! i)
       \<and> (m = MODE_R \<and> mode (handles s ! i) \<noteq> MODE_R \<or> m \<noteq> MODE_R)) [0..<HANDLE_COUNT]"

definition fat16_open :: "'d storage_dev \<Rightarrow> 'd fat16 \<Rightarrow> u8 list \<Rightarrow> u8 \<Rightarrow> (int \<times> 'd fat16) option" where
  "fat16_open dev s filepath m =
     (if m \<noteq> MODE_R \<and> m \<noteq> MODE_W \<and> m \<noteq> MODE_A then Some (- 1, s)
      else do {
        let h = find_available_handle s;
        in_root \<leftarrow> is_in_root filepath;
        if in_root then
          (case to_short_filename (replicate 11 0) filepath of
             None \<Rightarrow> Some (- 1, s)
           | Some filename \<Rightarrow>
               if h \<ge> HANDLE_COUNT then None
               else do {
                 (r, eh, s1) \<leftarrow> open_file_in_root dev s (handles s ! h) filename m;
                 if r < 0 then do { s2 \<leftarrow> set_handle s1 h (eh\<lparr>mode := 0\<rparr>); Some (- 1, s2) }
                 else do { s2 \<leftarrow> set_handle s1 h eh; Some (0, s2) } })
        else do {
          (r, dir_handle, filename, s1) \<leftarrow> navigate_to_subdir dev s blank_handle (replicate 11 0) filepath;
          if r < 0 then Some (- 1, s1)
          else do {
            (r2, dir_handle2, s2) \<leftarrow> open_file_in_subdir dev s1 dir_handle filename m;
            if r2 < 0 then Some (- 1, s2)
            else do {
              s3 \<leftarrow> set_handle s2 h dir_handle2;
              if conflict s3 h m then do { s4 \<leftarrow> set_handle s3 h ((handles s3 ! h)\<lparr>mode := 0\<rparr>); Some (- 1, s4) }
              else Some (int h, s3) } } } })"

definition fat16_close :: "'d fat16 \<Rightarrow> nat \<Rightarrow> int \<times> 'd fat16" where
  "fat16_close s h =
     (if \<not> check_handle s h then (- 1, s)
      else (0, s\<lparr>handles := (handles s)[h := (handles s ! h)\<lparr>mode := 0\<rparr>]\<rparr>))"

definition fat16_size :: "'d storage_dev \<Rightarrow> 'd fat16 \<Rightarrow> u8 list \<Rightarrow> (int \<times> 'd fat16) option" where
  "fat16_size dev s filepath = do {
     let h = find_available_handle s;
     in_root \<leftarrow> is_in_root filepath;
     if in_root then
       (case to_short_filename (replicate 11 0) filepath of
          None \<Rightarrow> Some (- 1, s)
        | Some filename \<Rightarrow> do {
            (sz, s1) \<leftarrow> root_directory_entry_size dev s filename;
            Some (sint sz, snd (fat16_close s1 h)) })
     else do {
       (r, dir_handle, filename, s1) \<leftarrow> navigate_to_subdir dev s blank_handle (replicate 11 0) filepath;
       if r < 0 then Some (- 1, s1)
       else do {
         s2 \<leftarrow> set_handle s1 h dir_handle;
         (sz, eh, s3) \<leftarrow> subdir_entry_size dev s2 (handles s2 ! h) filename;
         s4 \<leftarrow> set_handle s3 h eh;
         Some (sint sz, snd (fat16_close s4 h)) } } }"

text \<open>The bytes read go to \<open>buffer\<close>; they are the second component.\<close>

definition fat16_read :: "'d storage_dev \<Rightarrow> 'd fat16 \<Rightarrow> nat \<Rightarrow> u32 \<Rightarrow> u32 \<Rightarrow> (int \<times> u8 list \<times> 'd fat16) option" where
  "fat16_read dev s h buffer count =
     (if \<not> check_handle s h then Some (- 1, [], s)
      else if buffer = 0 then Some (- 1, [], s)
      else do {
        (r, bs, eh, s1) \<leftarrow> read_from_handle dev s (handles s ! h) count;
        s2 \<leftarrow> set_handle s1 h eh;
        Some (r, bs, s2) })"

text \<open>The printable form of a directory entry's name, the string \<^verbatim>\<open>fat16_ls\<close> builds.\<close>

definition ls_format :: "u8 list \<Rightarrow> u8 list" where
  "ls_format nm =
     (if nm ! 0 = DOT \<and> nm ! 1 = BLANK then [DOT]
      else if nm ! 0 = DOT \<and> nm ! 1 = DOT \<and> nm ! 2 = BLANK then [DOT, DOT]
      else takeWhile (\<lambda>c. c \<noteq> BLANK) (take 8 nm) @ [DOT] @ takeWhile (\<lambda>c. c \<noteq> BLANK) (take 3 (drop 8 nm)))"

text \<open>\<^verbatim>\<open>fat16_ls\<close>: null pointers are \<open>None\<close>; the result is the code, the index and the name.\<close>

definition fat16_ls ::
    "'d storage_dev \<Rightarrow> 'd fat16 \<Rightarrow> u32 option \<Rightarrow> u8 list option \<Rightarrow> u8 list option
     \<Rightarrow> (int \<times> u32 option \<times> u8 list option \<times> 'd fat16) option" where
  "fat16_ls dev s index filename dir_path =
     (case (index, filename, dir_path) of
        (Some i, Some f, Some path) \<Rightarrow>
          if ch path 0 \<noteq> SLASH then Some (- 1, index, filename, s)
          else do {
            (ret, i', nm, s1) \<leftarrow>
              (if ch path 1 = 0 then ls_in_root dev s i (replicate 11 0)
               else do {
                 in_root \<leftarrow> is_in_root path;
                 (r, h, s1) \<leftarrow>
                   (if in_root then
                      (case to_short_filename (replicate 11 0) path of
                         None \<Rightarrow> Some (- 1, blank_handle, s)
                       | Some dirname \<Rightarrow> open_directory_in_root dev s blank_handle dirname)
                    else do {
                      (r, h, dirname, s1) \<leftarrow> navigate_to_subdir dev s blank_handle (replicate 11 0) path;
                      if r < 0 then Some (- 1, h, s1) else open_directory_in_subdir dev s1 h dirname });
                 if r < 0 then Some (- 1, i, replicate 11 0, s1)
                 else ls_in_subdir dev s1 i (replicate 11 0) h });
            Some (ret, Some i', if ret = 1 then Some (ls_format nm) else filename, s1) }
      | _ \<Rightarrow> Some (- 1, index, filename, s))"

end
