(* ===== verification/Fat16_Read.thy ===== *)
theory Fat16_Read
  imports Fat16
begin

text \<open>
  Reading a file: what \<^verbatim>\<open>read_from_handle\<close> returns is a prefix of the stream of bytes the handle
  stands for, and the handle afterwards stands for the rest.  The stream follows the cluster chain
  of the file allocation table in the image of the device.
\<close>

section \<open>The stream of a handle\<close>

definition next_in_fat :: "'d fat16 \<Rightarrow> (nat \<Rightarrow> u8) \<Rightarrow> u16 \<Rightarrow> u16" where
  "next_in_fat s img c = le16 (bytes_at img (unat (fat_pos s c)) 2)"

text \<open>The byte \<open>i\<close> positions behind the start of cluster \<open>c\<close>, counted along its chain.\<close>

function chain_byte :: "'d fat16 \<Rightarrow> (nat \<Rightarrow> u8) \<Rightarrow> u16 \<Rightarrow> nat \<Rightarrow> u8" where
  "chain_byte s img c i =
     (if cluster_bytes s = 0 \<or> i < unat (cluster_bytes s) then img (unat (data_pos s c 0) + i)
      else chain_byte s img (next_in_fat s img c) (i - unat (cluster_bytes s)))"
  by pat_completeness auto
termination
  by (relation "measure (\<lambda>(s, m, c, i). i)") (auto simp: unat_eq_0 [symmetric] simp del: unat_eq_0)

declare chain_byte.simps [simp del]

definition stream :: "'d fat16 \<Rightarrow> (nat \<Rightarrow> u8) \<Rightarrow> entry_handle \<Rightarrow> u8 list" where
  "stream s img h =
     map (\<lambda>i. chain_byte s img (cluster h) (unat (offset h) + i)) [0..<unat (remaining_bytes h)]"

text \<open>The clusters that hold the next \<open>n\<close> bytes behind the start of cluster \<open>c\<close> are data clusters
  on the device.\<close>

definition cluster_ok :: "'d fat16 \<Rightarrow> nat \<Rightarrow> u16 \<Rightarrow> bool" where
  "cluster_ok s limit c \<longleftrightarrow> c \<noteq> 0 \<and> unat (data_pos s c 0) + unat (cluster_bytes s) \<le> limit
     \<and> unat (fat_pos s c) + 2 \<le> limit"

fun chain_ok :: "'d fat16 \<Rightarrow> (nat \<Rightarrow> u8) \<Rightarrow> nat \<Rightarrow> u16 \<Rightarrow> nat \<Rightarrow> bool" where
  "chain_ok s img limit c n \<longleftrightarrow>
     cluster_ok s limit c \<and>
     (0 < unat (cluster_bytes s) \<and> unat (cluster_bytes s) < n \<longrightarrow>
       chain_ok s img limit (next_in_fat s img c) (n - unat (cluster_bytes s)))"

declare chain_ok.simps [simp del]

lemma chain_ok_head: "chain_ok s img limit c n \<Longrightarrow> cluster_ok s limit c"
  by (subst (asm) chain_ok.simps) simp

lemma chain_ok_next:
  "chain_ok s img limit c n \<Longrightarrow> 0 < unat (cluster_bytes s) \<Longrightarrow> unat (cluster_bytes s) < n \<Longrightarrow>
    chain_ok s img limit (next_in_fat s img c) (n - unat (cluster_bytes s))"
  by (subst (asm) chain_ok.simps) simp

definition handle_ok :: "'d fat16 \<Rightarrow> (nat \<Rightarrow> u8) \<Rightarrow> nat \<Rightarrow> entry_handle \<Rightarrow> bool" where
  "handle_ok s img limit h \<longleftrightarrow>
     (remaining_bytes h \<noteq> 0 \<longrightarrow> unat (offset h) < unat (cluster_bytes s)
       \<and> chain_ok s img limit (cluster h) (unat (offset h) + unat (remaining_bytes h)))"

text \<open>The volume: clusters shorter than 64 KiB and addresses below \<open>limit\<close>.\<close>

definition volume_ok :: "'d fat16 \<Rightarrow> nat \<Rightarrow> bool" where
  "volume_ok s limit \<longleftrightarrow> 0 < unat (cluster_bytes s) \<and> unat (cluster_bytes s) < 65536 \<and> limit < addr_space"

lemma disk_irrelevant [simp]:
  "cluster_bytes (s\<lparr>disk := d\<rparr>) = cluster_bytes s" "data_pos (s\<lparr>disk := d\<rparr>) = data_pos s"
  "fat_pos (s\<lparr>disk := d\<rparr>) = fat_pos s" "root_directory_pos (s\<lparr>disk := d\<rparr>) = root_directory_pos s"
  by (auto simp: fun_eq_iff cluster_bytes_def data_pos_def fat_pos_def root_directory_pos_def)

lemma next_in_fat_disk [simp]: "next_in_fat (s\<lparr>disk := d\<rparr>) = next_in_fat s"
  by (auto simp: fun_eq_iff next_in_fat_def)

lemma chain_byte_disk [simp]: "chain_byte (s\<lparr>disk := d\<rparr>) img c i = chain_byte s img c i"
proof (induction s img c i rule: chain_byte.induct)
  case (1 s img c i)
  then show ?case by (subst (1 2) chain_byte.simps) auto
qed

lemma chain_ok_disk [simp]: "chain_ok (s\<lparr>disk := d\<rparr>) img limit c n = chain_ok s img limit c n"
proof (induction s img limit c n rule: chain_ok.induct)
  case (1 s img limit c n)
  then show ?case by (subst (1 2) chain_ok.simps) (auto simp: cluster_ok_def)
qed

lemma stream_disk [simp]: "stream (s\<lparr>disk := d\<rparr>) img h = stream s img h"
  by (simp add: stream_def)

lemma handle_ok_disk [simp]: "handle_ok (s\<lparr>disk := d\<rparr>) img limit h = handle_ok s img limit h"
  by (simp add: handle_ok_def)

lemma length_stream [simp]: "length (stream s img h) = unat (remaining_bytes h)"
  by (simp add: stream_def)

lemma data_pos_offset:
  assumes "cluster_ok s limit c" and "volume_ok s limit" and "unat off \<le> unat (cluster_bytes s)"
  shows "unat (data_pos s c off) = unat (data_pos s c 0) + unat off"
proof -
  have "unat (data_pos s c 0) + unat (ucast off :: u32) < addr_space"
    using assms by (simp add: cluster_ok_def volume_ok_def)
  moreover have "data_pos s c off = data_pos s c 0 + ucast off" by (simp add: data_pos_def Let_def)
  ultimately show ?thesis using unat_add_u32 [of "data_pos s c 0" "ucast off"] by simp
qed

text \<open>The first \<open>n\<close> bytes of a stream, within one cluster, are consecutive bytes of the image.\<close>

lemma stream_take_in_cluster:
  assumes "unat (offset h) + n \<le> unat (cluster_bytes s)" and "n \<le> unat (remaining_bytes h)"
  shows "take n (stream s img h) = bytes_at img (unat (data_pos s (cluster h) 0) + unat (offset h)) n"
proof (rule nth_equalityI)
  fix i assume "i < length (take n (stream s img h))"
  then have i: "i < n" by simp
  with assms have "unat (offset h) + i < unat (cluster_bytes s)" by simp
  then show "take n (stream s img h) ! i
      = bytes_at img (unat (data_pos s (cluster h) 0) + unat (offset h)) n ! i"
    using i assms(2) by (simp add: stream_def chain_byte.simps [of s img "cluster h"] add.assoc)
qed (use assms(2) in simp)

text \<open>Dropping bytes from a stream moves the handle, within the cluster or to the next one.\<close>

lemma stream_drop_same:
  assumes "unat (offset h') = unat (offset h) + n" and "unat (remaining_bytes h') = unat (remaining_bytes h) - n"
    and "cluster h' = cluster h"
  shows "stream s img h' = drop n (stream s img h)"
  using assms by (auto intro!: nth_equalityI simp: stream_def add.assoc)

lemma stream_drop_next:
  assumes "unat (offset h) + n = unat (cluster_bytes s)" and "0 < n"
    and "unat (remaining_bytes h') = unat (remaining_bytes h) - n"
    and "offset h' = 0" and "cluster h' = next_in_fat s img (cluster h)"
  shows "stream s img h' = drop n (stream s img h)"
proof (rule nth_equalityI)
  fix i assume "i < length (stream s img h')"
  then have i: "i < unat (remaining_bytes h) - n" "n + i < unat (remaining_bytes h)" by (simp_all add: assms(3))
  have "unat (offset h) + (n + i) - unat (cluster_bytes s) = i" using assms(1) by simp
  moreover have "cluster_bytes s \<noteq> 0" using assms(1,2) by (metis add_is_0 not_gr_zero unat_0)
  ultimately have "chain_byte s img (cluster h) (unat (offset h) + (n + i))
      = chain_byte s img (next_in_fat s img (cluster h)) i"
    using assms(1) by (subst chain_byte.simps) simp
  then show "stream s img h' ! i = drop n (stream s img h) ! i"
    using i assms by (simp add: stream_def)
qed (simp add: assms(3))

section \<open>The loop\<close>

context storage_device
begin

lemma next_cluster:
  assumes "ok (disk s)" and "unat (fat_pos s c) + 2 \<le> limit"
  obtains d where "get_next_cluster dev s c = Some (0, next_in_fat s img c, s\<lparr>disk := d\<rparr>)" "ok d"
proof -
  obtain d1 d2 where *: "sd_seek dev (disk s) (fat_pos s c) = Some d1"
    "sd_read dev d1 2 = Some (bytes_at img (unat (fat_pos s c)) 2, d2)" "ok d2"
    by (rule seek_read [OF assms(1), of "fat_pos s c" 2]) (use assms(2) in simp_all)
  show ?thesis
    by (rule that [of d2]) (simp_all add: * get_next_cluster_def move_to_fat_region_def dev_seek_def
      dev_read_def next_in_fat_def Let_def)
qed

lemma seek_data:
  assumes "ok (disk s)"
  obtains d where "move_to_data_region dev s c off = Some (data_pos s c off, s\<lparr>disk := d\<rparr>)" "ok d"
    "pos d = unat (data_pos s c off)"
  using seek_pos [OF assms, of "data_pos s c off"]
  by (auto simp: move_to_data_region_def dev_seek_def Let_def)

text \<open>One chunk: \<open>n\<close> bytes within the cluster.\<close>

lemma read_chunk:
  assumes "ok (disk s)" and "volume_ok s limit" and "handle_ok s img limit h" and "remaining_bytes h \<noteq> 0"
    and "pos (disk s) = unat (data_pos s (cluster h) (offset h))"
    and "unat (offset h) + unat n \<le> unat (cluster_bytes s)" and "unat n \<le> unat (remaining_bytes h)"
  obtains d where "dev_read dev s n = Some (take (unat n) (stream s img h), s\<lparr>disk := d\<rparr>)" "ok d"
    "pos d = unat (data_pos s (cluster h) 0) + unat (offset h) + unat n"
proof -
  have ck: "cluster_ok s limit (cluster h)"
    using assms(3,4) by (auto simp: handle_ok_def dest: chain_ok_head)
  have p: "pos (disk s) = unat (data_pos s (cluster h) 0) + unat (offset h)"
    unfolding assms(5) by (rule data_pos_offset [OF ck assms(2)]) (use assms(6) in simp)
  then have "pos (disk s) + unat n \<le> limit" using ck assms(6) by (simp add: cluster_ok_def)
  from read_image [OF assms(1) this] obtain d where "sd_read dev (disk s) n = Some (bytes_at img (pos (disk s)) (unat n), d)" "ok d"
    "pos d = pos (disk s) + unat n" by (elim exE conjE)
  then show ?thesis
    using that [of d] stream_take_in_cluster [OF assms(6,7), of img] p by (simp add: dev_read_def)
qed


lemma read_loop_stream:
  assumes "ok (disk s)" and "volume_ok s limit" and "handle_ok s img limit h"
    and "remaining_bytes h \<noteq> 0 \<Longrightarrow> pos (disk s) = unat (data_pos s (cluster h) (offset h))"
  shows "\<exists>h' d. read_loop dev s h count bs
      = Some (sint (of_nat (length (bs @ take (unat count) (stream s img h))) :: u32),
          bs @ take (unat count) (stream s img h), h', s\<lparr>disk := d\<rparr>)
    \<and> ok d \<and> handle_ok s img limit h' \<and> stream s img h' = drop (unat count) (stream s img h)
    \<and> mode h' = mode h \<and> pos_entry h' = pos_entry h"
  using assms
proof (induction "unat count" arbitrary: count s h bs rule: less_induct)
  case less
  note IH = less.hyps and ok = less.prems(1) and vol = less.prems(2) and hok = less.prems(3) and at = less.prems(4)
  show ?case
  proof (cases "count = 0 \<or> remaining_bytes h = 0")
    case True
    then show ?thesis
      using ok hok by (intro exI [of _ h] exI [of _ "disk s"])
        (subst read_loop.simps, auto simp: word_greater_zero_iff stream_def)
  next
    case False
    define csz where "csz = unat (cluster_bytes s)"
    define w where "w = unat (offset h)"
    define r where "r = unat (remaining_bytes h)"
    define n where "n = min (min (unat count) (csz - w)) r"
    have nz: "count > 0" "remaining_bytes h \<noteq> 0" using False by (simp_all add: word_greater_zero_iff)
    then have pos_r: "0 < unat count" "0 < r" by (simp_all add: r_def unat_gt_0 word_greater_zero_iff)
    have w: "w < csz" and chain: "chain_ok s img limit (cluster h) (w + r)"
      using hok nz(2) by (simp_all add: handle_ok_def w_def csz_def r_def)
    have n: "0 < n" "n \<le> unat count" "n \<le> r" "w + n \<le> csz" using pos_r w by (auto simp: n_def)
    have csz: "csz < 65536" using vol by (simp add: volume_ok_def csz_def)
    define brc where "brc = cluster_bytes s - ucast (offset h)"
    define l1 where "l1 = (if count > brc then brc else count)"
    define cl where "cl = (if l1 > remaining_bytes h then remaining_bytes h else l1)"
    have brc: "unat brc = csz - w"
      unfolding brc_def using w by (subst unat_sub_u32) (simp_all add: csz_def w_def)
    then have "unat l1 = min (unat count) (csz - w)" by (auto simp: l1_def word_less_nat_alt)
    then have cl: "unat cl = n" by (auto simp: cl_def n_def r_def word_less_nat_alt)
    define h1 where "h1 = h\<lparr>remaining_bytes := remaining_bytes h - cl, offset := offset h + ucast cl\<rparr>"
    have r1: "unat (remaining_bytes h1) = r - n"
      using n(3) cl by (simp add: h1_def r_def unat_sub_u32)
    have "n < 65536" using n(4) csz by simp
    then have "unat (ucast cl :: u16) = n" by (simp add: cl unsigned_ucast_eq take_bit_nat_eq_self)
    then have o1: "unat (offset h1) = w + n"
      using n(4) csz by (simp add: h1_def w_def unat_word_ariths)
    have test: "ucast (offset h1) = cluster_bytes s \<longleftrightarrow> w + n = csz"
      by (simp add: unat_eq_iff_eq [symmetric] o1 csz_def)
    have at': "pos (disk s) = unat (data_pos s (cluster h) (offset h))" by (rule at [OF nz(2)])
    obtain d where d: "dev_read dev s cl = Some (take n (stream s img h), s\<lparr>disk := d\<rparr>)" "ok d"
      "pos d = unat (data_pos s (cluster h) 0) + w + n"
      using read_chunk [OF ok vol hok nz(2) at', of cl] n by (auto simp: cl w_def csz_def r_def)
    have count': "unat (count - cl) = unat count - n" "unat (count - cl) < unat count"
      using n cl by (simp_all add: unat_sub_u32)
    have finish: ?thesis
      if step: "read_loop dev s h count bs
          = read_loop dev (s\<lparr>disk := d'\<rparr>) hx (count - cl) (bs @ take n (stream s img h))"
        and hx: "ok d'" "handle_ok s img limit hx" "stream s img hx = drop n (stream s img h)"
          "mode hx = mode h" "pos_entry hx = pos_entry h"
          "remaining_bytes hx \<noteq> 0 \<Longrightarrow> pos d' = unat (data_pos s (cluster hx) (offset hx))" for d' hx
    proof -
      have all: "take n (stream s img h) @ take (unat (count - cl)) (drop n (stream s img h))
          = take (unat count) (stream s img h)"
        using n(2) by (simp add: count' take_add [symmetric])
      have rest: "drop (unat (count - cl)) (drop n (stream s img h)) = drop (unat count) (stream s img h)"
        using n(2) by (simp add: count')
      note ih = IH [OF count'(2), of "s\<lparr>disk := d'\<rparr>" hx "bs @ take n (stream s img h)",
        unfolded stream_disk hx(3) rest append_assoc all]
      show ?thesis
        using ih vol hx unfolding step by (simp add: volume_ok_def)
    qed
    have unfold: "read_loop dev s h count bs =
       (if w + n = csz then
          (let h2 = h1\<lparr>offset := 0\<rparr>
           in if remaining_bytes h2 \<noteq> 0 then do {
                (q, next_cluster, s2) \<leftarrow> get_next_cluster dev (s\<lparr>disk := d\<rparr>) (cluster h2);
                if q < 0 then Some (- 1, bs @ take n (stream s img h), h2, s2)
                else do {
                  let h3 = h2\<lparr>cluster := next_cluster\<rparr>;
                  (_, s3) \<leftarrow> move_to_data_region dev s2 (cluster h3) (offset h3);
                  read_loop dev s3 h3 (count - cl) (bs @ take n (stream s img h)) } }
              else read_loop dev (s\<lparr>disk := d\<rparr>) h2 (count - cl) (bs @ take n (stream s img h)))
        else read_loop dev (s\<lparr>disk := d\<rparr>) h1 (count - cl) (bs @ take n (stream s img h)))"
      by (subst read_loop.simps)
        (simp only: nz if_True if_False Let_def brc_def [symmetric] l1_def [symmetric] cl_def [symmetric] d(1)
          Option.bind.simps prod.case h1_def [symmetric] disk_irrelevant test)
    show ?thesis
    proof (cases "w + n = csz")
      case False
      then have lt: "w + n < csz" using n(4) by simp
      show ?thesis
      proof (rule finish [of d h1])
        show "read_loop dev s h count bs
            = read_loop dev (s\<lparr>disk := d\<rparr>) h1 (count - cl) (bs @ take n (stream s img h))"
          using False unfolding unfold by simp
        show "handle_ok s img limit h1"
          using chain lt n(3) by (simp add: handle_ok_def o1 r1 csz_def [symmetric] w_def) (simp add: h1_def)
        show "stream s img h1 = drop n (stream s img h)"
          by (rule stream_drop_same) (simp_all add: o1 r1 w_def r_def, simp add: h1_def)
        show "pos d = unat (data_pos s (cluster h1) (offset h1))"
          using data_pos_offset [OF chain_ok_head [OF chain] vol, of "offset h1"] lt o1 d(3)
          by (simp add: csz_def h1_def)
      qed (simp_all add: d(2) h1_def)
    next
      case True
      define h2 where "h2 = h1\<lparr>offset := 0\<rparr>"
      have r2: "remaining_bytes h2 = remaining_bytes h1" by (simp add: h2_def)
      show ?thesis
      proof (cases "remaining_bytes h2 = 0")
        case r0: True
        then have "r = n" using r1 r2 n(3) by (simp flip: unat_eq_0)
        then have "drop n (stream s img h) = []" by (simp add: r_def)
        then show ?thesis
          using r0 by (intro finish [of d h2])
            (simp_all add: unfold True h2_def [symmetric] Let_def d(2) handle_ok_def stream_def, simp_all add: h2_def h1_def)
      next
        case rn: False
        then have gt: "n < r" using r1 r2 unat_gt_0 [of "remaining_bytes h2"] by simp
        obtain e where e: "get_next_cluster dev (s\<lparr>disk := d\<rparr>) (cluster h)
            = Some (0, next_in_fat s img (cluster h), s\<lparr>disk := e\<rparr>)" "ok e"
          using next_cluster [of "s\<lparr>disk := d\<rparr>" "cluster h"] d(2) chain_ok_head [OF chain]
          by (auto simp: cluster_ok_def)
        define h3 where "h3 = h2\<lparr>cluster := next_in_fat s img (cluster h)\<rparr>"
        obtain f where f: "move_to_data_region dev (s\<lparr>disk := e\<rparr>) (cluster h3) (offset h3)
            = Some (data_pos s (cluster h3) (offset h3), s\<lparr>disk := f\<rparr>)" "ok f"
          "pos f = unat (data_pos s (cluster h3) (offset h3))"
          using seek_data [of "s\<lparr>disk := e\<rparr>" "cluster h3" "offset h3"] e(2) by auto
        have "chain_ok s img limit (cluster h3) (w + r - csz)"
          using chain_ok_next [OF chain] w gt True by (simp add: csz_def [symmetric] h3_def)
        then have "handle_ok s img limit h3"
          using w gt True r1 by (simp add: handle_ok_def csz_def [symmetric] h3_def h2_def)
            (metis add.commute add_diff_cancel_left diff_add_inverse2 diff_diff_left)
        moreover have "stream s img h3 = drop n (stream s img h)"
          by (rule stream_drop_next [of h n]) (use True n r1 in \<open>simp_all add: w_def csz_def r_def h3_def h2_def\<close>)
        moreover have "cluster h2 = cluster h" by (simp add: h2_def h1_def)
        ultimately show ?thesis
          using rn e f by (intro finish [of f h3])
            (simp_all add: unfold True h2_def [symmetric] h3_def [symmetric] Let_def, simp_all add: h3_def h2_def h1_def)
      qed
    qed
  qed
qed

text \<open>The operation behind \<^verbatim>\<open>fat16_read\<close>: seek, then the loop.\<close>

lemma read_from_handle_stream:
  assumes "ok (disk s)" and "volume_ok s limit" and "handle_ok s img limit h"
  shows "\<exists>h' d. read_from_handle dev s h count
      = Some (sint (of_nat (length (take (unat count) (stream s img h))) :: u32),
          take (unat count) (stream s img h), h', s\<lparr>disk := d\<rparr>)
    \<and> ok d \<and> handle_ok s img limit h' \<and> stream s img h' = drop (unat count) (stream s img h)
    \<and> mode h' = mode h \<and> pos_entry h' = pos_entry h"
proof (cases "remaining_bytes h = 0")
  case True
  then show ?thesis using assms
    by (intro exI [of _ h] exI [of _ "disk s"]) (simp add: read_from_handle_def stream_def)
next
  case False
  then have nz: "cluster h \<noteq> 0"
    using assms(3) by (auto simp: handle_ok_def cluster_ok_def dest!: chain_ok_head)
  obtain d where d: "move_to_data_region dev s (cluster h) (offset h)
      = Some (data_pos s (cluster h) (offset h), s\<lparr>disk := d\<rparr>)" "ok d"
    "pos d = unat (data_pos s (cluster h) (offset h))"
    by (rule seek_data [OF assms(1)])
  have "ok (disk (s\<lparr>disk := d\<rparr>))" "volume_ok (s\<lparr>disk := d\<rparr>) limit" "handle_ok (s\<lparr>disk := d\<rparr>) img limit h"
    "pos (disk (s\<lparr>disk := d\<rparr>)) = unat (data_pos (s\<lparr>disk := d\<rparr>) (cluster h) (offset h))"
    using assms d by (simp_all add: volume_ok_def)
  from read_loop_stream [OF this, of count "[]"] show ?thesis
    using False nz d(1) by (simp add: read_from_handle_def)
qed

text \<open>The same of \<^verbatim>\<open>fat16_read\<close>, which looks the handle up and stores it back.\<close>

lemma fat16_read_stream:
  assumes "ok (disk s)" and "volume_ok s limit" and "check_handle s i" and "length (handles s) = HANDLE_COUNT"
    and "handle_ok s img limit (handles s ! i)" and "buf \<noteq> 0"
  shows "\<exists>h' d. fat16_read dev s i buf count
      = Some (sint (of_nat (length (take (unat count) (stream s img (handles s ! i)))) :: u32),
          take (unat count) (stream s img (handles s ! i)), s\<lparr>disk := d, handles := (handles s)[i := h']\<rparr>)
    \<and> ok d \<and> handle_ok s img limit h' \<and> stream s img h' = drop (unat count) (stream s img (handles s ! i))
    \<and> mode h' = mode (handles s ! i)"
proof -
  obtain h' d where h': "read_from_handle dev s (handles s ! i) count
      = Some (sint (of_nat (length (take (unat count) (stream s img (handles s ! i)))) :: u32),
          take (unat count) (stream s img (handles s ! i)), h', s\<lparr>disk := d\<rparr>)"
    "ok d \<and> handle_ok s img limit h' \<and> stream s img h' = drop (unat count) (stream s img (handles s ! i))
      \<and> mode h' = mode (handles s ! i)"
    using read_from_handle_stream [OF assms(1,2,5), of count] by blast
  show ?thesis
    using h'(2) assms(3,6)
    by (intro exI [of _ h'] exI [of _ d]) (simp add: fat16_read_def h'(1) set_handle_def check_handle_def)
qed

end

lemma handles_irrelevant [simp]:
  "cluster_bytes (s\<lparr>handles := hs\<rparr>) = cluster_bytes s" "data_pos (s\<lparr>handles := hs\<rparr>) = data_pos s"
  "fat_pos (s\<lparr>handles := hs\<rparr>) = fat_pos s" "volume_ok (s\<lparr>handles := hs\<rparr>) limit = volume_ok s limit"
  "volume_ok (s\<lparr>disk := d\<rparr>) limit = volume_ok s limit"
  by (auto simp: fun_eq_iff cluster_bytes_def data_pos_def fat_pos_def volume_ok_def)

lemma next_in_fat_handles [simp]: "next_in_fat (s\<lparr>handles := hs\<rparr>) = next_in_fat s"
  by (auto simp: fun_eq_iff next_in_fat_def)

lemma chain_byte_handles [simp]: "chain_byte (s\<lparr>handles := hs\<rparr>) img c i = chain_byte s img c i"
proof (induction s img c i rule: chain_byte.induct)
  case (1 s img c i)
  then show ?case by (subst (1 2) chain_byte.simps) auto
qed

lemma chain_ok_handles [simp]: "chain_ok (s\<lparr>handles := hs\<rparr>) img limit c n = chain_ok s img limit c n"
proof (induction s img limit c n rule: chain_ok.induct)
  case (1 s img limit c n)
  then show ?case by (subst (1 2) chain_ok.simps) (auto simp: cluster_ok_def)
qed

lemma stream_handles [simp]: "stream (s\<lparr>handles := hs\<rparr>) img h = stream s img h"
  "handle_ok (s\<lparr>handles := hs\<rparr>) img limit h = handle_ok s img limit h"
  by (simp_all add: stream_def handle_ok_def)

context storage_device
begin

text \<open>Two reads in a row return what one read of the total returns.\<close>

lemma fat16_read_twice:
  assumes "ok (disk s)" and "volume_ok s limit" and "check_handle s i" and "length (handles s) = HANDLE_COUNT"
    and "handle_ok s img limit (handles s ! i)" and "buf \<noteq> 0" and "buf' \<noteq> 0" and "unat m + unat n < addr_space"
  shows "\<exists>r1 r2 r bs1 bs2 s1 s2 s'. fat16_read dev s i buf m = Some (r1, bs1, s1)
    \<and> fat16_read dev s1 i buf' n = Some (r2, bs2, s2)
    \<and> fat16_read dev s i buf (m + n) = Some (r, bs1 @ bs2, s')
    \<and> stream s2 img (handles s2 ! i) = stream s' img (handles s' ! i)"
proof -
  let ?h = "handles s ! i"
  have i: "i < length (handles s)" using assms(3,4) by (simp add: check_handle_def)
  obtain r1 h1 d1 where 1: "fat16_read dev s i buf m
      = Some (r1, take (unat m) (stream s img ?h), s\<lparr>disk := d1, handles := (handles s)[i := h1]\<rparr>)"
    "ok d1" "handle_ok s img limit h1" "stream s img h1 = drop (unat m) (stream s img ?h)" "mode h1 = mode ?h"
    using fat16_read_stream [OF assms(1-6), of m] by blast
  let ?s1 = "s\<lparr>disk := d1, handles := (handles s)[i := h1]\<rparr>"
  have p: "ok (disk ?s1)" "volume_ok ?s1 limit" "check_handle ?s1 i" "length (handles ?s1) = HANDLE_COUNT"
    "handle_ok ?s1 img limit (handles ?s1 ! i)"
    using assms(2,3,4) 1 i by (simp_all add: check_handle_def)
  obtain r2 h2 d2 where 2: "fat16_read dev ?s1 i buf' n
      = Some (r2, take (unat n) (stream s img h1), s\<lparr>disk := d2, handles := (handles s)[i := h2]\<rparr>)"
    "stream s img h2 = drop (unat n) (stream s img h1)"
    using fat16_read_stream [OF p assms(7), of n] i by auto
  obtain r h' d where 3: "fat16_read dev s i buf (m + n)
      = Some (r, take (unat m + unat n) (stream s img ?h), s\<lparr>disk := d, handles := (handles s)[i := h']\<rparr>)"
    "stream s img h' = drop (unat m + unat n) (stream s img ?h)"
    using fat16_read_stream [OF assms(1-6), of "m + n"] unfolding unat_add_u32 [OF assms(8)] by blast
  show ?thesis
    using 2 3 i by (simp add: 1(1,4) take_add add.commute)
qed

end

end
