(* ===== verification/Mem_Common.thy ===== *)
theory Mem_Common
  imports Prelude
begin

text \<open>
  The byte routines of \<^verbatim>\<open>kernel/src/memory/common.c\<close>: \<^verbatim>\<open>memset\<close>, \<^verbatim>\<open>memmove\<close>,
  \<^verbatim>\<open>memcpy\<close>, \<^verbatim>\<open>strcmp\<close> and \<^verbatim>\<open>memcmp\<close>, on the byte memory of the prelude.  A loop
  counter is the 32-bit word of the source.  \<^verbatim>\<open>strcmp\<close> stops only at a zero byte or at a
  difference, so its model is a partial function: \<open>None\<close> is a scan that never ends.
\<close>

section \<open>Definitions\<close>

function memset_loop :: "mem \<Rightarrow> u32 \<Rightarrow> u8 \<Rightarrow> u32 \<Rightarrow> u32 \<Rightarrow> mem" where
  "memset_loop m pointer byte len i =
     (if i < len then memset_loop (m(pointer + i := byte)) pointer byte len (i + 1) else m)"
  by pat_completeness auto
termination
  by (relation "measure (\<lambda>(m, pointer, byte, len, i). unat len - unat i)")
    (auto simp: loop_counter_measure)

definition memset :: "mem \<Rightarrow> u32 \<Rightarrow> u8 \<Rightarrow> u32 \<Rightarrow> mem \<times> u32" where
  "memset m buffer byte len = (memset_loop m buffer byte len 0, buffer)"

function memmove_forward :: "mem \<Rightarrow> u32 \<Rightarrow> u32 \<Rightarrow> u32 \<Rightarrow> mem" where
  "memmove_forward m d s len =
     (if len = 0 then m else memmove_forward (m(d := m s)) (d + 1) (s + 1) (len - 1))"
  by pat_completeness auto
termination
  by (relation "measure (\<lambda>(m, d, s, len). unat len)") (auto simp: unat_minus_one unat_gt_0)

function memmove_backward :: "mem \<Rightarrow> u32 \<Rightarrow> u32 \<Rightarrow> u32 \<Rightarrow> mem" where
  "memmove_backward m lastd lasts len =
     (if len = 0 then m
      else memmove_backward (m(lastd := m lasts)) (lastd - 1) (lasts - 1) (len - 1))"
  by pat_completeness auto
termination
  by (relation "measure (\<lambda>(m, d, s, len). unat len)") (auto simp: unat_minus_one unat_gt_0)

definition memmove :: "mem \<Rightarrow> u32 \<Rightarrow> u32 \<Rightarrow> u32 \<Rightarrow> mem \<times> u32" where
  "memmove m dest src len =
     (if dest < src then memmove_forward m dest src len
      else memmove_backward m (dest + (len - 1)) (src + (len - 1)) len, dest)"

function memcpy_loop :: "mem \<Rightarrow> u32 \<Rightarrow> u32 \<Rightarrow> u32 \<Rightarrow> u32 \<Rightarrow> mem" where
  "memcpy_loop m cdest csrc n i =
     (if i < n then memcpy_loop (m(cdest + i := m (csrc + i))) cdest csrc n (i + 1) else m)"
  by pat_completeness auto
termination
  by (relation "measure (\<lambda>(m, cdest, csrc, n, i). unat n - unat i)")
    (auto simp: loop_counter_measure)

definition memcpy :: "mem \<Rightarrow> u32 \<Rightarrow> u32 \<Rightarrow> u32 \<Rightarrow> mem" where
  "memcpy m dest src n = memcpy_loop m dest src n 0"

partial_function (option) strcmp :: "mem \<Rightarrow> u32 \<Rightarrow> u32 \<Rightarrow> int option" where
  "strcmp m a b =
     (if m a \<noteq> 0 \<and> m a = m b then strcmp m (a + 1) (b + 1)
      else Some (uint (m a) - uint (m b)))"

function memcmp_loop :: "mem \<Rightarrow> u32 \<Rightarrow> u32 \<Rightarrow> u32 \<Rightarrow> u32 \<Rightarrow> int" where
  "memcmp_loop m p1 p2 sz i =
     (if i < sz then
        if m (p1 + i) \<noteq> m (p2 + i) then uint (m (p1 + i)) - uint (m (p2 + i))
        else memcmp_loop m p1 p2 sz (i + 1)
      else 0)"
  by pat_completeness auto
termination
  by (relation "measure (\<lambda>(m, p1, p2, sz, i). unat sz - unat i)")
    (auto simp: loop_counter_measure)

definition memcmp :: "mem \<Rightarrow> u32 \<Rightarrow> u32 \<Rightarrow> u32 \<Rightarrow> int" where
  "memcmp m s1 s2 sz = memcmp_loop m s1 s2 sz 0"

declare memset_loop.simps [simp del] memmove_forward.simps [simp del]
  memmove_backward.simps [simp del] memcpy_loop.simps [simp del] memcmp_loop.simps [simp del]


section \<open>What the loops compute\<close>

text \<open>
  The three copy loops share one result: the destination range holds what the source range held
  before the call, and every other byte keeps its value.
\<close>

definition copied :: "mem \<Rightarrow> u32 \<Rightarrow> u32 \<Rightarrow> nat \<Rightarrow> mem" where
  "copied m d s n = (\<lambda>x. if in_range d n x then m (s + (x - d)) else m x)"

definition filled :: "mem \<Rightarrow> u32 \<Rightarrow> u8 \<Rightarrow> nat \<Rightarrow> mem" where
  "filled m a b n = (\<lambda>x. if in_range a n x then b else m x)"

lemma in_range_0 [simp]: "\<not> in_range a 0 x"
  by (simp add: in_range_def)

lemma in_range_Suc:
  "in_range a (Suc n) x \<longleftrightarrow> in_range a n x \<or> unat (x - a) = n"
  by (auto simp: in_range_def)

lemma word_eq_plus_offset: "x = a + of_nat (unat (x - a))" for x a :: u32
  by simp

lemma memset_loop_filled:
  "unat i \<le> unat len \<Longrightarrow>
   memset_loop (filled m p b (unat i)) p b len i = filled m p b (unat len)"
proof (induction "unat len - unat i" arbitrary: i)
  case 0
  then have "\<not> i < len" by (simp add: word_less_nat_alt)
  with 0 show ?case by (simp add: memset_loop.simps [of _ p b len i])
next
  case (Suc k)
  then have lt: "i < len" by (simp add: word_less_nat_alt)
  then have i1: "unat (i + 1) = Suc (unat i)" by (rule unat_loop_counter)
  have step: "(filled m p b (unat i))(p + i := b) = filled m p b (unat (i + 1))"
    by (auto simp: filled_def fun_eq_iff i1 in_range_Suc unat_offset_eq_iff)
  have "memset_loop (filled m p b (unat (i + 1))) p b len (i + 1) = filled m p b (unat len)"
    by (rule Suc.hyps(1)) (use Suc i1 lt in \<open>auto simp: word_less_nat_alt\<close>)
  with lt show ?case by (simp only: memset_loop.simps [of _ p b len i] step if_True)
qed

lemma memset_filled: "fst (memset m a b n) = filled m a b (unat n)"
  using memset_loop_filled [of 0 n m a b] by (simp add: memset_def filled_def)

lemma memset_buffer [simp]: "snd (memset m a b n) = a"
  by (simp add: memset_def)


text \<open>
  The forward copy is right when the destination does not start inside the source range; the
  counter form below is the invariant of the loop after \<open>i\<close> bytes.
\<close>

lemma memcpy_loop_copied:
  assumes "\<not> in_range s (unat n) d \<or> d = s" and "unat i \<le> unat n"
  shows "memcpy_loop (copied m d s (unat i)) d s n i = copied m d s (unat n)"
  using assms(2)
proof (induction "unat n - unat i" arbitrary: i)
  case 0
  then have "\<not> i < n" by (simp add: word_less_nat_alt)
  with 0 show ?case by (simp add: memcpy_loop.simps [of _ d s n i])
next
  case (Suc k)
  then have lt: "i < n" by (simp add: word_less_nat_alt)
  then have i1: "unat (i + 1) = Suc (unat i)" by (rule unat_loop_counter)
  have src: "copied m d s (unat i) (s + i) = m (s + i)"
  proof (cases "in_range d (unat i) (s + i)")
    case True
    then have "unat (s + i - d) < unat i" by (simp add: in_range_def)
    moreover have "d - s = i - (s + i - d)" by (simp add: algebra_simps)
    ultimately have "unat (d - s) = unat i - unat (s + i - d)"
      by (simp only: unat_sub_u32 less_imp_le)
    then have "unat (d - s) < unat n" using lt by (simp add: word_less_nat_alt)
    then have "d = s" using assms(1) by (simp add: in_range_def)
    with True show ?thesis by (simp add: in_range_def)
  qed (simp add: copied_def)
  have step: "(copied m d s (unat i))(d + i := m (s + i)) = copied m d s (unat (i + 1))"
    by (auto simp: copied_def fun_eq_iff i1 in_range_Suc unat_offset_eq_iff)
  have "memcpy_loop (copied m d s (unat (i + 1))) d s n (i + 1) = copied m d s (unat n)"
    by (rule Suc.hyps(1)) (use Suc i1 lt in \<open>auto simp: word_less_nat_alt\<close>)
  with lt show ?case by (simp only: memcpy_loop.simps [of _ d s n i] src step if_True)
qed

lemma memcpy_copied:
  assumes "\<not> in_range s (unat n) d \<or> d = s"
  shows "memcpy m d s n = copied m d s (unat n)"
  using memcpy_loop_copied [OF assms, of 0 m] by (simp add: memcpy_def copied_def)

lemma memmove_forward_memcpy:
  "memmove_forward m d s (n - i) = memcpy_loop m (d - i) (s - i) n i" if "unat i \<le> unat n"
  using that
proof (induction "unat n - unat i" arbitrary: m d s i)
  case 0
  then have "unat i = unat n" by simp
  then have "i = n" by (rule unsigned_word_eqI)
  then show ?case by (simp add: memcpy_loop.simps [of _ _ _ n n] memmove_forward.simps [of _ _ _ 0])
next
  case (Suc k)
  then have lt: "i < n" by (simp add: word_less_nat_alt)
  then have i1: "unat (i + 1) = Suc (unat i)" by (rule unat_loop_counter)
  have ne: "n - i \<noteq> 0" using lt by auto
  have "memmove_forward m d s (n - i) = memmove_forward (m(d := m s)) (d + 1) (s + 1) (n - (i + 1))"
    using ne by (subst memmove_forward.simps) (simp add: algebra_simps)
  also have "\<dots> = memcpy_loop (m(d := m s)) (d + 1 - (i + 1)) (s + 1 - (i + 1)) n (i + 1)"
    by (rule Suc.hyps(1)) (use Suc i1 lt in \<open>auto simp: word_less_nat_alt\<close>)
  also have "\<dots> = memcpy_loop m (d - i) (s - i) n i"
    using lt by (simp add: memcpy_loop.simps [of _ "d - i" "s - i" n i] algebra_simps)
  finally show ?case .
qed

lemma memmove_backward_copied:
  assumes "\<not> in_range d n s \<or> d = s" and "n < addr_space"
  shows "memmove_backward m (d + (of_nat n - 1)) (s + (of_nat n - 1)) (of_nat n) = copied m d s n"
  using assms
proof (induction n arbitrary: m)
  case 0
  then show ?case by (simp add: memmove_backward.simps [of _ _ _ 0] copied_def)
next
  case (Suc n)
  let ?m = "m(d + of_nat n := m (s + of_nat n))"
  have ne: "(of_nat (Suc n) :: u32) \<noteq> 0"
    using of_nat_u32_eq_0_iff [of "Suc n"] Suc.prems by simp
  have sub: "(of_nat (Suc n) :: u32) - 1 = of_nat n" by simp
  have "memmove_backward m (d + (of_nat (Suc n) - 1)) (s + (of_nat (Suc n) - 1)) (of_nat (Suc n))
      = memmove_backward ?m (d + (of_nat n - 1)) (s + (of_nat n - 1)) (of_nat n)"
    using ne unfolding sub
    by (subst memmove_backward.simps) (simp add: algebra_simps del: of_nat_Suc add: sub)
  also have "\<dots> = copied ?m d s n"
    by (rule Suc.IH) (use Suc.prems in \<open>auto simp: in_range_Suc\<close>)
  also have "\<dots> = copied m d s (Suc n)"
  proof
    fix x
    have n: "unat (of_nat n :: u32) = n" using Suc.prems by simp
    have eqn: "unat (y - d) = n \<longleftrightarrow> y = d + of_nat n" for y
      using unat_offset_eq_iff [of y d "of_nat n"] n by simp
    have no: "s + (x - d) \<noteq> d + of_nat n" if "in_range d n x"
    proof
      assume eq: "s + (x - d) = d + of_nat n"
      then have "s - d = of_nat n - (x - d)" by (simp add: algebra_simps)
      moreover have "unat (x - d) \<le> unat (of_nat n :: u32)" using that n by (simp add: in_range_def)
      ultimately have "unat (s - d) = n - unat (x - d)" by (simp only: unat_sub_u32 n)
      then have "unat (s - d) < Suc n" by simp
      then have "d = s" using Suc.prems(1) by (simp add: in_range_def)
      with eq have "unat (x - d) = n" by (simp add: eqn n)
      with that show False by (simp add: in_range_def)
    qed
    show "copied ?m d s n x = copied m d s (Suc n) x"
    proof (cases "unat (x - d) = n")
      case True
      then have x: "x = d + of_nat n" by (simp add: eqn)
      have "s + (x - d) = s + of_nat n" by (simp add: x)
      moreover have "\<not> in_range d n x" using True by (simp add: in_range_def)
      moreover have "in_range d (Suc n) x" using True by (simp add: in_range_def)
      ultimately show ?thesis by (simp add: copied_def x)
    next
      case False
      then have "in_range d (Suc n) x = in_range d n x" by (simp add: in_range_Suc)
      with no show ?thesis using False eqn by (auto simp: copied_def)
    qed
  qed
  finally show ?case .
qed


lemma memmove_copied:
  assumes "unat d + unat n \<le> addr_space" and "unat s + unat n \<le> addr_space"
  shows "fst (memmove m d s n) = copied m d s (unat n)"
proof (cases "d < s")
  case True
  then have "\<not> in_range s (unat n) d"
    using assms by (simp add: in_range_unat word_less_nat_alt)
  then have "memcpy m d s n = copied m d s (unat n)" by (simp add: memcpy_copied)
  with True show ?thesis
    using memmove_forward_memcpy [of 0 n m d s] by (simp add: memmove_def memcpy_def)
next
  case False
  then have "\<not> in_range d (unat n) s \<or> d = s"
    using assms by (auto simp: in_range_unat word_less_nat_alt not_less intro: unsigned_word_eqI)
  then have "memmove_backward m (d + (of_nat (unat n) - 1)) (s + (of_nat (unat n) - 1)) (of_nat (unat n))
    = copied m d s (unat n)" by (rule memmove_backward_copied) (rule unat_u32_lt)
  with False show ?thesis by (simp add: memmove_def)
qed

lemma load_copied: "n \<le> addr_space \<Longrightarrow> load (copied m d s n) d n = load m s n"
  by (rule nth_equalityI) (simp_all add: copied_def in_range_def)

lemma load_filled: "n \<le> addr_space \<Longrightarrow> load (filled m a b n) a n = replicate n b"
  by (rule nth_equalityI) (simp_all add: filled_def in_range_def)

lemma copied_outside [mem_simps]: "\<not> in_range d n x \<Longrightarrow> copied m d s n x = m x"
  by (simp add: copied_def)

lemma filled_outside [mem_simps]: "\<not> in_range a n x \<Longrightarrow> filled m a b n x = m x"
  by (simp add: filled_def)

lemma filled_inside [mem_simps]: "in_range a n x \<Longrightarrow> filled m a b n x = b"
  by (simp add: filled_def)

section \<open>C strings\<close>

primrec cstring :: "mem \<Rightarrow> u32 \<Rightarrow> u8 list \<Rightarrow> bool" where
  "cstring m a [] = (m a = 0)"
| "cstring m a (c # cs) = (c \<noteq> 0 \<and> m a = c \<and> cstring m (a + 1) cs)"

text \<open>The value \<^verbatim>\<open>strcmp\<close> is meant to have on two strings: the difference at the first
  position where they differ.\<close>

fun str_diff :: "u8 list \<Rightarrow> u8 list \<Rightarrow> int" where
  "str_diff [] [] = 0"
| "str_diff [] (d # ds) = - uint d"
| "str_diff (c # cs) [] = uint c"
| "str_diff (c # cs) (d # ds) = (if c = d then str_diff cs ds else uint c - uint d)"

lemma strcmp_str_diff:
  "cstring m a s \<Longrightarrow> cstring m b t \<Longrightarrow> strcmp m a b = Some (str_diff s t)"
proof (induction s t arbitrary: a b rule: str_diff.induct)
  case 1
  then show ?case by (simp add: strcmp.simps)
next
  case (2 d ds)
  then show ?case by (auto simp: strcmp.simps [of m a b])
next
  case (3 c cs)
  then show ?case by (auto simp: strcmp.simps [of m a b])
next
  case (4 c cs d ds)
  then show ?case by (auto simp: strcmp.simps [of m a b])
qed

lemma str_diff_eq_0: "0 \<notin> set s \<Longrightarrow> 0 \<notin> set t \<Longrightarrow> str_diff s t = 0 \<longleftrightarrow> s = t"
  by (induction s t rule: str_diff.induct) (auto simp: unsigned_eq_0_iff uint_eq_iff_eq)

lemma str_diff_less_0:
  "0 \<notin> set s \<Longrightarrow> 0 \<notin> set t \<Longrightarrow> str_diff s t < 0 \<longleftrightarrow> ord_class.lexordp s t"
proof (induction s t rule: str_diff.induct)
  case (2 d ds)
  then have "0 < uint d" by (simp add: word_neq_0_conv word_less_def)
  then show ?case by simp
next
  case (3 c cs)
  then show ?case by (simp add: not_less)
next
  case (4 c cs d ds)
  have "c \<noteq> d \<Longrightarrow> uint c \<noteq> uint d" by (simp add: uint_eq_iff_eq)
  with 4 show ?case by (auto simp: word_less_def)
qed simp

lemma cstring_nonzero: "cstring m a s \<Longrightarrow> 0 \<notin> set s"
  by (induction s arbitrary: a) auto

section \<open>memcmp\<close>

lemma memcmp_loop_spec:
  "unat i \<le> unat n \<Longrightarrow>
   (memcmp_loop m p q n i = 0 \<longleftrightarrow>
     (\<forall>k. unat i \<le> k \<and> k < unat n \<longrightarrow> m (p + of_nat k) = m (q + of_nat k)))"
proof (induction "unat n - unat i" arbitrary: i)
  case 0
  then have "\<not> i < n" by (simp add: word_less_nat_alt)
  with 0 show ?case by (auto simp: memcmp_loop.simps [of _ p q n i])
next
  case (Suc k)
  then have lt: "i < n" by (simp add: word_less_nat_alt)
  then have i1: "unat (i + 1) = Suc (unat i)" by (rule unat_loop_counter)
  have IH: "memcmp_loop m p q n (i + 1) = 0 \<longleftrightarrow>
     (\<forall>k. unat (i + 1) \<le> k \<and> k < unat n \<longrightarrow> m (p + of_nat k) = m (q + of_nat k))"
    by (rule Suc.hyps(1)) (use Suc i1 lt in \<open>auto simp: word_less_nat_alt\<close>)
  show ?case
  proof (cases "m (p + i) = m (q + i)")
    case True
    have "unat i \<le> k \<longleftrightarrow> k = unat i \<or> unat (i + 1) \<le> k" for k
      using i1 by auto
    with True lt IH show ?thesis by (auto simp: memcmp_loop.simps [of _ p q n i])
  next
    case False
    with lt show ?thesis
      by (auto simp: memcmp_loop.simps [of _ p q n i] word_less_nat_alt uint_eq_iff_eq
          intro!: exI [of _ "unat i"])
  qed
qed

lemma memcmp_eq_0: "memcmp m p q n = 0 \<longleftrightarrow> load m p (unat n) = load m q (unat n)"
  using memcmp_loop_spec [of 0 n m p q] by (auto simp: memcmp_def load_def)

section \<open>Properties\<close>

text \<open>
  C9: \<^verbatim>\<open>memmove\<close> copies correctly for every pair of ranges that do not run past the end
  of the address space, overlapping or not: the destination holds the source bytes as they were
  before the call, every byte outside the destination keeps its value, and the destination
  pointer is returned.
\<close>

theorem memmove_overlap_safe:
  assumes "unat dest + unat len \<le> addr_space" and "unat src + unat len \<le> addr_space"
  shows "load (fst (memmove m dest src len)) dest (unat len) = load m src (unat len)
    \<and> (\<forall>x. \<not> in_range dest (unat len) x \<longrightarrow> fst (memmove m dest src len) x = m x)
    \<and> snd (memmove m dest src len) = dest"
proof -
  have "unat len \<le> addr_space" using assms(1) by simp
  then show ?thesis
    by (simp add: memmove_copied [OF assms] load_copied copied_outside)
      (simp add: memmove_def)
qed

theorem memmove_overlap_safe_witness:
  "load (fst (memmove (\<lambda>x. ucast x) 101 100 3)) 101 3 = [100, 101, 102 :: u8]"
proof -
  have "load (\<lambda>x :: u32. ucast x :: u8) 100 3 = [100, 101, 102]"
    by (simp add: load_def upt_rec)
  then show ?thesis
    using memmove_overlap_safe [of 101 3 100 "\<lambda>x. ucast x"] by simp
qed

text \<open>
  \<^verbatim>\<open>strcmp\<close> on two terminated strings returns (it does not run off), its result is
  zero exactly when the strings are equal, and negative exactly when the first is smaller in
  the lexicographic order of unsigned bytes.
\<close>

theorem strcmp_orders_strings:
  assumes "cstring m a s" and "cstring m b t"
  shows "\<exists>r. strcmp m a b = Some r \<and> (r = 0 \<longleftrightarrow> s = t) \<and> (r < 0 \<longleftrightarrow> ord_class.lexordp s t)"
  using assms by (simp add: strcmp_str_diff str_diff_eq_0 str_diff_less_0 cstring_nonzero)

theorem strcmp_orders_strings_witness:
  "\<exists>r. strcmp ((\<lambda>_. 0)(10 := 109, 11 := 97, 20 := 109, 21 := 98)) 10 20 = Some r \<and> r \<noteq> 0 \<and> r < 0"
  using strcmp_orders_strings [of "(\<lambda>_. 0)(10 := 109, 11 := 97, 20 := 109, 21 := 98)"
    10 "[109, 97]" 20 "[109, 98]"] by simp

end
