(* ===== verification/Port.thy ===== *)
theory Port
  imports Prelude
begin

text \<open>
  The processor's side of the kernel: port input and output (\<^verbatim>\<open>kernel/src/hardware/port.c\<close>) and
  the privileged instructions of the inline assembly, as events of a trace, newest first.

  What a device answers is not code of the repository.  It is a parameter \<open>io\<close> of every operation
  that reads a port: the value on a port given everything the processor has done before.  Any
  deterministic device, and by choosing \<open>io\<close> any run of a nondeterministic one, has this form.
\<close>

datatype cpu_event =
    In8 u16 u8 | In16 u16 u16 | In32 u16 u32
  | Out8 u16 u8 | Out16 u16 u16 | Out32 u16 u32
  | Cli | Sti | Invlpg u32 | Set_CR3 u32 | Or_CR0 u32 | Get_CR2 u32
  | Lgdt u16 u32 | Load_segments u16 u16 | Ltr u16 | Lidt u16 u32
  | Mmio_in u32 u32 | Mmio_out u32 u32 | Set_data_segments u16 | Iret u16 u32 u16 u32

type_synonym io = "cpu_event list \<Rightarrow> u16 \<Rightarrow> u32"

text \<open>The same for a device whose registers are mapped at addresses: what a load from one yields.\<close>

type_synonym mmio = "cpu_event list \<Rightarrow> u32 \<Rightarrow> u32"

record machine =
  phys :: mem
  trace :: "cpu_event list"

definition cpu :: "('a machine_scheme) \<Rightarrow> cpu_event \<Rightarrow> ('a machine_scheme)" where
  "cpu s e = s\<lparr>trace := e # trace s\<rparr>"

definition outb :: "('a machine_scheme) \<Rightarrow> u16 \<Rightarrow> u8 \<Rightarrow> ('a machine_scheme)" where
  "outb s port data = cpu s (Out8 port data)"

text \<open>\<^verbatim>\<open>outb_slow\<close> differs by two jumps that only take time.\<close>

definition outb_slow :: "('a machine_scheme) \<Rightarrow> u16 \<Rightarrow> u8 \<Rightarrow> ('a machine_scheme)" where
  "outb_slow s port data = cpu s (Out8 port data)"

definition outw :: "('a machine_scheme) \<Rightarrow> u16 \<Rightarrow> u16 \<Rightarrow> ('a machine_scheme)" where
  "outw s port data = cpu s (Out16 port data)"

definition outl :: "('a machine_scheme) \<Rightarrow> u16 \<Rightarrow> u32 \<Rightarrow> ('a machine_scheme)" where
  "outl s port data = cpu s (Out32 port data)"

definition inb :: "io \<Rightarrow> ('a machine_scheme) \<Rightarrow> u16 \<Rightarrow> u8 \<times> ('a machine_scheme)" where
  "inb io s port = (let v = ucast (io (trace s) port) in (v, cpu s (In8 port v)))"

definition inw :: "io \<Rightarrow> ('a machine_scheme) \<Rightarrow> u16 \<Rightarrow> u16 \<times> ('a machine_scheme)" where
  "inw io s port = (let v = ucast (io (trace s) port) in (v, cpu s (In16 port v)))"

definition inl :: "io \<Rightarrow> ('a machine_scheme) \<Rightarrow> u16 \<Rightarrow> u32 \<times> ('a machine_scheme)" where
  "inl io s port = (let v = io (trace s) port in (v, cpu s (In32 port v)))"

definition mmio_in :: "mmio \<Rightarrow> ('a machine_scheme) \<Rightarrow> u32 \<Rightarrow> u32 \<times> ('a machine_scheme)" where
  "mmio_in regs s a = (let v = regs (trace s) a in (v, cpu s (Mmio_in a v)))"

definition mmio_out :: "('a machine_scheme) \<Rightarrow> u32 \<Rightarrow> u32 \<Rightarrow> ('a machine_scheme)" where
  "mmio_out s a v = cpu s (Mmio_out a v)"

lemma cpu_frame [simp]:
  "phys (cpu s e) = phys s" "trace (cpu s e) = e # trace s"
  "phys (outb s p d8) = phys s" "trace (outb s p d8) = Out8 p d8 # trace s"
  "phys (outb_slow s p d8) = phys s" "trace (outb_slow s p d8) = Out8 p d8 # trace s"
  "phys (outw s p d16) = phys s" "trace (outw s p d16) = Out16 p d16 # trace s"
  "phys (outl s p d32) = phys s" "trace (outl s p d32) = Out32 p d32 # trace s"
  by (simp_all add: cpu_def outb_def outb_slow_def outw_def outl_def)

lemma in_frame [simp]:
  "phys (snd (inb io s p)) = phys s" "phys (snd (inw io s p)) = phys s" "phys (snd (inl io s p)) = phys s"
  by (simp_all add: inb_def inw_def inl_def Let_def)

end
