(* ===== verification/Block_Manager.thy ===== *)
theory Block_Manager
  imports Mem_Common Port
begin

text \<open>
  The physical block manager of \<^verbatim>\<open>kernel/src/memory/mem_manager.c\<close> (lines 1-116): a bitmap
  in memory, one bit for each 4096-byte block, and the two counters beside it.  The record
  \<open>mm\<close> adds the file-level variables of \<^verbatim>\<open>mem_manager.c\<close> to the machine; the heap
  (\<open>Kernel_Heap\<close>) uses its last field.  \<open>used s b\<close> is the abstract view: bit \<open>b\<close> of the bitmap.

  A shift count of 32 or more, undefined in C, is what the i386 \<^verbatim>\<open>shl\<close> makes of it: the count
  modulo 32.  It occurs in \<^verbatim>\<open>find_first_free_blocks\<close> only for requests of more than 33 blocks.
\<close>

section \<open>State\<close>

record mm = machine +
  memory_map :: u32
  max_blocks :: u32
  used_blocks :: u32
  first :: u32

abbreviation BLOCK_SIZE :: u32 where "BLOCK_SIZE \<equiv> 4096"
abbreviation BLOCKS_PER_BYTE :: u32 where "BLOCKS_PER_BYTE \<equiv> 8"

definition shl1 :: "u32 \<Rightarrow> u32" where
  "shl1 n = push_bit (unat n mod 32) 1"

section \<open>Operations\<close>

definition map_word :: "('a mm_scheme) \<Rightarrow> u32 \<Rightarrow> u32" where
  "map_word s i = r32 (phys s) (memory_map s + 4 * i)"

definition set_map_word :: "('a mm_scheme) \<Rightarrow> u32 \<Rightarrow> u32 \<Rightarrow> ('a mm_scheme)" where
  "set_map_word s i v = s\<lparr>phys := w32 (phys s) (memory_map s + 4 * i) v\<rparr>"

definition set_block :: "('a mm_scheme) \<Rightarrow> u32 \<Rightarrow> ('a mm_scheme)" where
  "set_block s b = set_map_word s (b div 32) (map_word s (b div 32) OR shl1 (b mod 32))"

definition unset_block :: "('a mm_scheme) \<Rightarrow> u32 \<Rightarrow> ('a mm_scheme)" where
  "unset_block s b = set_map_word s (b div 32) (map_word s (b div 32) AND NOT (shl1 (b mod 32)))"

text \<open>The innermost loop of \<^verbatim>\<open>find_first_free_blocks\<close>: \<open>True\<close> when it returns \<open>i * 32 + j\<close>.\<close>

function run_free :: "('a mm_scheme) \<Rightarrow> u32 \<Rightarrow> u32 \<Rightarrow> u32 \<Rightarrow> u32 \<Rightarrow> u32 \<Rightarrow> bool" where
  "run_free s i j num_blocks count free_blocks =
     (if count < num_blocks then
        (let bit_clear = (if j + count > 31 \<and> i + 1 \<le> max_blocks s div 32
                          then map_word s (i + 1) AND shl1 (j + count - 32) = 0
                          else map_word s i AND shl1 (j + count) = 0);
             free_blocks' = (if bit_clear then free_blocks + 1 else free_blocks)
         in if free_blocks' = num_blocks then True
            else run_free s i j num_blocks (count + 1) free_blocks')
      else False)"
  by pat_completeness auto
termination
  by (relation "measure (\<lambda>(s, i, j, n, count, fr). unat n - unat count)")
    (auto simp: loop_counter_measure)

function scan_word :: "('a mm_scheme) \<Rightarrow> u32 \<Rightarrow> u32 \<Rightarrow> u32 \<Rightarrow> u32 option" where
  "scan_word s num_blocks i j =
     (if j < 32 then
        if map_word s i AND shl1 j = 0 \<and> run_free s i j num_blocks 0 0 then Some (i * 32 + j)
        else scan_word s num_blocks i (j + 1)
      else None)"
  by pat_completeness auto
termination
  by (relation "measure (\<lambda>(s, n, i, j). unat (32 :: u32) - unat j)")
    (simp, (simp only: in_measure split_conv loop_counter_measure))

function scan_map :: "('a mm_scheme) \<Rightarrow> u32 \<Rightarrow> u32 \<Rightarrow> u32" where
  "scan_map s num_blocks i =
     (if i < max_blocks s div 32 then
        if map_word s i \<noteq> 0xFFFFFFFF then
          (case scan_word s num_blocks i 0 of
             Some r \<Rightarrow> r
           | None \<Rightarrow> scan_map s num_blocks (i + 1))
        else scan_map s num_blocks (i + 1)
      else - 1)"
  by pat_completeness auto
termination
  by (relation "measure (\<lambda>(s, n, i). unat (max_blocks s div 32) - unat i)")
    (simp, (simp only: in_measure split_conv loop_counter_measure)+)

definition find_first_free_blocks :: "('a mm_scheme) \<Rightarrow> u32 \<Rightarrow> u32" where
  "find_first_free_blocks s num_blocks = (if num_blocks = 0 then - 1 else scan_map s num_blocks 0)"

definition init_memory_manager :: "('a mm_scheme) \<Rightarrow> u32 \<Rightarrow> u32 \<Rightarrow> ('a mm_scheme)" where
  "init_memory_manager s start_address sz =
     (let s1 = s\<lparr>memory_map := start_address, max_blocks := sz div BLOCK_SIZE,
                 used_blocks := sz div BLOCK_SIZE\<rparr>
      in s1\<lparr>phys := fst (memset (phys s1) (memory_map s1) 0xFF (max_blocks s1 div BLOCKS_PER_BYTE))\<rparr>)"

text \<open>The loops over \<^verbatim>\<open>num_blocks\<close> (\<^verbatim>\<open>size / 4096\<close>, a non-negative \<^verbatim>\<open>int32_t\<close>) count down to 0.\<close>

primrec init_region_loop :: "nat \<Rightarrow> ('a mm_scheme) \<Rightarrow> u32 \<Rightarrow> ('a mm_scheme)" where
  "init_region_loop 0 s align = s"
| "init_region_loop (Suc n) s align =
     (let s1 = unset_block s align
      in init_region_loop n (s1\<lparr>used_blocks := used_blocks s1 - 1\<rparr>) (align + 1))"

definition init_memory_region :: "('a mm_scheme) \<Rightarrow> u32 \<Rightarrow> u32 \<Rightarrow> ('a mm_scheme)" where
  "init_memory_region s base_address sz =
     set_block (init_region_loop (unat (sz div BLOCK_SIZE)) s (base_address div BLOCK_SIZE)) 0"

primrec deinit_region_loop :: "nat \<Rightarrow> ('a mm_scheme) \<Rightarrow> u32 \<Rightarrow> ('a mm_scheme)" where
  "deinit_region_loop 0 s align = s"
| "deinit_region_loop (Suc n) s align =
     (let s1 = set_block s align
      in deinit_region_loop n (s1\<lparr>used_blocks := used_blocks s1 + 1\<rparr>) (align + 1))"

definition deinit_memory_region :: "('a mm_scheme) \<Rightarrow> u32 \<Rightarrow> u32 \<Rightarrow> ('a mm_scheme)" where
  "deinit_memory_region s base_address sz =
     deinit_region_loop (unat (sz div BLOCK_SIZE)) s (base_address div BLOCK_SIZE)"

text \<open>\<^verbatim>\<open>for (i = 0; i < num_blocks; i++) op(starting_block + i)\<close>, the loop of both
  \<^verbatim>\<open>alloc_blocks\<close> and \<^verbatim>\<open>free_blocks\<close>.\<close>

function for_blocks :: "('s \<Rightarrow> u32 \<Rightarrow> 's) \<Rightarrow> 's \<Rightarrow> u32 \<Rightarrow> u32 \<Rightarrow> u32 \<Rightarrow> 's" where
  "for_blocks f s starting_block num_blocks i =
     (if i < num_blocks then for_blocks f (f s (starting_block + i)) starting_block num_blocks (i + 1)
      else s)"
  by pat_completeness auto
termination
  by (relation "measure (\<lambda>(f, s, b, n, i). unat n - unat i)") (auto simp: loop_counter_measure)

definition alloc_blocks :: "('a mm_scheme) \<Rightarrow> u32 \<Rightarrow> u32 \<times> ('a mm_scheme)" where
  "alloc_blocks s num_blocks =
     (if max_blocks s - used_blocks s \<le> num_blocks then (0, s)
      else
        (let starting_block = find_first_free_blocks s num_blocks
         in if starting_block = - 1 then (0, s)
            else
              (let s1 = for_blocks set_block s starting_block num_blocks 0
               in (starting_block * BLOCK_SIZE, s1\<lparr>used_blocks := used_blocks s1 + num_blocks\<rparr>))))"

definition free_blocks :: "('a mm_scheme) \<Rightarrow> u32 \<Rightarrow> u32 \<Rightarrow> ('a mm_scheme)" where
  "free_blocks s address num_blocks =
     (let s1 = for_blocks unset_block s (address div BLOCK_SIZE) num_blocks 0
      in s1\<lparr>used_blocks := used_blocks s1 - num_blocks\<rparr>)"

declare run_free.simps [simp del] scan_word.simps [simp del] scan_map.simps [simp del]
  for_blocks.simps [simp del]


section \<open>The bitmap interface\<close>

text \<open>
  What the allocator relies on: a set of block numbers under \<open>mark\<close> and \<open>unmark\<close>.  \<open>ok s b\<close> says
  that block \<open>b\<close> has its bit in the map.
\<close>

lemma for_blocks_fold:
  "unat i \<le> unat n \<Longrightarrow>
   for_blocks f s b n i = fold (\<lambda>k s. f s (b + of_nat k)) [unat i..<unat n] s"
proof (induction "unat n - unat i" arbitrary: i s)
  case 0
  then have "\<not> i < n" by (simp add: word_less_nat_alt)
  with 0 show ?case by (simp add: for_blocks.simps [of f s b n i])
next
  case (Suc k)
  then have lt: "i < n" by (simp add: word_less_nat_alt)
  then have i1: "unat (i + 1) = Suc (unat i)" by (rule unat_loop_counter)
  have "for_blocks f (f s (b + i)) b n (i + 1)
      = fold (\<lambda>k s. f s (b + of_nat k)) [unat (i + 1)..<unat n] (f s (b + i))"
    by (rule Suc.hyps(1)) (use Suc i1 lt in \<open>auto simp: word_less_nat_alt\<close>)
  moreover have "[unat i..<unat n] = unat i # [unat (i + 1)..<unat n]"
    using lt i1 by (simp add: upt_conv_Cons word_less_nat_alt)
  ultimately show ?case using lt by (simp add: for_blocks.simps [of f s b n i])
qed

locale block_bitmap =
  fixes used :: "'s \<Rightarrow> nat \<Rightarrow> bool"
    and ok :: "'s \<Rightarrow> nat \<Rightarrow> bool"
    and mark :: "'s \<Rightarrow> u32 \<Rightarrow> 's"
    and unmark :: "'s \<Rightarrow> u32 \<Rightarrow> 's"
  assumes used_mark: "ok s (unat b) \<Longrightarrow> ok s c \<Longrightarrow> used (mark s b) c \<longleftrightarrow> c = unat b \<or> used s c"
    and used_unmark: "ok s (unat b) \<Longrightarrow> ok s c \<Longrightarrow> used (unmark s b) c \<longleftrightarrow> c \<noteq> unat b \<and> used s c"
    and ok_mark: "ok (mark s b) c \<longleftrightarrow> ok s c"
    and ok_unmark: "ok (unmark s b) c \<longleftrightarrow> ok s c"
begin

definition run_ok :: "'s \<Rightarrow> u32 \<Rightarrow> nat \<Rightarrow> bool" where
  "run_ok s b n \<longleftrightarrow> unat b + n \<le> addr_space \<and> (\<forall>k<n. ok s (unat b + k))"

lemma run_fold:
  assumes "run_ok s b n"
  shows "(\<forall>c. ok s c \<longrightarrow> (used (fold (\<lambda>k s. mark s (b + of_nat k)) [0..<n] s) c
        \<longleftrightarrow> unat b \<le> c \<and> c < unat b + n \<or> used s c))
    \<and> (\<forall>c. ok s c \<longrightarrow> (used (fold (\<lambda>k s. unmark s (b + of_nat k)) [0..<n] s) c
        \<longleftrightarrow> \<not> (unat b \<le> c \<and> c < unat b + n) \<and> used s c))
    \<and> (\<forall>c. ok (fold (\<lambda>k s. mark s (b + of_nat k)) [0..<n] s) c \<longleftrightarrow> ok s c)
    \<and> (\<forall>c. ok (fold (\<lambda>k s. unmark s (b + of_nat k)) [0..<n] s) c \<longleftrightarrow> ok s c)"
  using assms
proof (induction n)
  case (Suc n)
  have run: "run_ok s b n" and okb: "ok s (unat b + n)"
    and ub: "unat (b + of_nat n) = unat b + n"
    using Suc.prems by (auto simp: run_ok_def unat_plus_of_nat)
  show ?case
    using Suc.IH [OF run] okb
    by (auto simp: used_mark used_unmark ok_mark ok_unmark ub)
qed auto

lemma used_mark_run:
  "run_ok s b (unat n) \<Longrightarrow> ok s c \<Longrightarrow>
   used (for_blocks mark s b n 0) c \<longleftrightarrow> unat b \<le> c \<and> c < unat b + unat n \<or> used s c"
  using run_fold [of s b "unat n"] by (simp add: for_blocks_fold)

lemma used_unmark_run:
  "run_ok s b (unat n) \<Longrightarrow> ok s c \<Longrightarrow>
   used (for_blocks unmark s b n 0) c \<longleftrightarrow> \<not> (unat b \<le> c \<and> c < unat b + unat n) \<and> used s c"
  using run_fold [of s b "unat n"] by (simp add: for_blocks_fold)

lemma ok_mark_run: "run_ok s b (unat n) \<Longrightarrow> ok (for_blocks mark s b n 0) d \<longleftrightarrow> ok s d"
  using run_fold [of s b "unat n"] by (simp add: for_blocks_fold)

lemma ok_unmark_run: "run_ok s b (unat n) \<Longrightarrow> ok (for_blocks unmark s b n 0) d \<longleftrightarrow> ok s d"
  using run_fold [of s b "unat n"] by (simp add: for_blocks_fold)

text \<open>Freeing a run just marked restores every bit, if the run was free.\<close>

lemma unmark_mark_run:
  assumes "run_ok s b (unat n)" and "ok s c" and "\<forall>k<unat n. \<not> used s (unat b + k)"
  shows "used (for_blocks unmark (for_blocks mark s b n 0) b n 0) c \<longleftrightarrow> used s c"
proof -
  have run': "run_ok (for_blocks mark s b n 0) b (unat n)"
    using assms(1,2) by (auto simp: run_ok_def ok_mark_run [OF assms(1)])
  have "\<not> used s c" if "unat b \<le> c" "c < unat b + unat n"
    using assms(3) that by (metis le_add_diff_inverse nat_add_left_cancel_less)
  then show ?thesis
    using used_unmark_run [OF run'] used_mark_run [OF assms(1,2)] ok_mark_run [OF assms(1)] assms(2)
    by auto
qed

end

section \<open>The bitmap in memory\<close>

definition used :: "('a mm_scheme) \<Rightarrow> nat \<Rightarrow> bool" where
  "used s b \<longleftrightarrow> bit (map_word s (of_nat (b div 32))) (b mod 32)"

definition map_ok :: "('a mm_scheme) \<Rightarrow> nat \<Rightarrow> bool" where
  "map_ok s b \<longleftrightarrow> unat (memory_map s) + 4 * (b div 32) + 4 \<le> addr_space"

lemma map_ok_mono: "map_ok s c \<Longrightarrow> b \<le> c \<Longrightarrow> map_ok s b"
  using div_le_mono [of b c 32] by (simp add: map_ok_def)

lemma map_word_addr:
  "map_ok s b \<Longrightarrow> unat (memory_map s + 4 * of_nat (b div 32)) = unat (memory_map s) + 4 * (b div 32)"
proof -
  assume ok: "map_ok s b"
  then have "4 * (b div 32) < addr_space" by (simp add: map_ok_def)
  then have "unat (memory_map s + of_nat (4 * (b div 32))) = unat (memory_map s) + 4 * (b div 32)"
    using ok by (intro unat_plus_of_nat) (simp add: map_ok_def)
  then show ?thesis by simp
qed

lemma map_word_set_map_word:
  assumes "map_ok s b" and "map_ok s c"
  shows "map_word (set_map_word s (of_nat (b div 32)) v) (of_nat (c div 32))
    = (if b div 32 = c div 32 then v else map_word s (of_nat (c div 32)))"
proof (cases "b div 32 = c div 32")
  case False
  then have "4 * (b div 32) + 4 \<le> 4 * (c div 32) \<or> 4 * (c div 32) + 4 \<le> 4 * (b div 32)" by linarith
  then have "r32 (w32 (phys s) (memory_map s + 4 * of_nat (b div 32)) v) (memory_map s + 4 * of_nat (c div 32))
      = r32 (phys s) (memory_map s + 4 * of_nat (c div 32))"
    using assms by (intro r32_w32_other) (auto simp: map_word_addr map_ok_def)
  with False show ?thesis by (simp add: map_word_def set_map_word_def)
qed (simp add: map_word_def set_map_word_def)

lemma set_map_word_fields [simp]:
  "memory_map (set_map_word s i v) = memory_map s"
  "max_blocks (set_map_word s i v) = max_blocks s"
  "used_blocks (set_map_word s i v) = used_blocks s"
  "first (set_map_word s i v) = first s"
  by (simp_all add: set_map_word_def)

lemma block_fields [simp]:
  "memory_map (set_block s b) = memory_map s" "memory_map (unset_block s b) = memory_map s"
  "max_blocks (set_block s b) = max_blocks s" "max_blocks (unset_block s b) = max_blocks s"
  "used_blocks (set_block s b) = used_blocks s" "used_blocks (unset_block s b) = used_blocks s"
  "first (set_block s b) = first s" "first (unset_block s b) = first s"
  by (simp_all add: set_block_def unset_block_def)

lemma bit_shl1: "bit (shl1 n) k \<longleftrightarrow> k = unat n mod 32"
  by (auto simp: shl1_def bit_simps)

lemma word_div_32: "(b :: u32) div 32 = of_nat (unat b div 32)"
proof -
  have "unat b div 32 < addr_space" using unat_u32_lt [of b] by simp
  then have "unat (b div 32) = unat (of_nat (unat b div 32) :: u32)" by (simp add: unat_div_distrib)
  then show ?thesis by (rule unsigned_word_eqI)
qed

lemma unat_mod_32: "unat ((b :: u32) mod 32) = unat b mod 32"
  by (simp add: unat_mod_distrib)

interpretation bm: block_bitmap used map_ok set_block unset_block
proof
  fix s :: "'a mm_scheme" and b :: u32 and c
  assume ok: "map_ok s (unat b)" "map_ok s c"
  have eq: "c = unat b \<longleftrightarrow> unat b div 32 = c div 32 \<and> unat b mod 32 = c mod 32"
    by (metis div_mult_mod_eq)
  show "used (set_block s b) c \<longleftrightarrow> c = unat b \<or> used s c"
    using ok by (auto simp: used_def set_block_def word_div_32 map_word_set_map_word eq
      bit_simps bit_shl1 unat_mod_32)
  show "used (unset_block s b) c \<longleftrightarrow> c \<noteq> unat b \<and> used s c"
    using ok by (auto simp: used_def unset_block_def word_div_32 map_word_set_map_word eq
      bit_simps bit_shl1 unat_mod_32)
qed (simp_all add: map_ok_def)


section \<open>The search for a free run\<close>

definition run_clear :: "('a mm_scheme) \<Rightarrow> nat \<Rightarrow> nat \<Rightarrow> bool" where
  "run_clear s b n \<longleftrightarrow> (\<forall>k<n. \<not> used s (b + k))"

lemma and_shl1_eq_0: "w AND shl1 k = 0 \<longleftrightarrow> \<not> bit w (unat k mod 32)"
  by (simp add: shl1_def and_exp_eq_0_iff_not_bit push_bit_of_1)

lemma map_word_bit:
  "b = 32 * unat i + j \<Longrightarrow> j < 32 \<Longrightarrow> bit (map_word s i) j \<longleftrightarrow> used s b"
  by (simp add: used_def)

lemma clear_test:
  assumes "i < max_blocks s div 32" and "unat j + unat count \<le> 63"
  shows "(if j + count > 31 \<and> i + 1 \<le> max_blocks s div 32
          then map_word s (i + 1) AND shl1 (j + count - 32) = 0
          else map_word s i AND shl1 (j + count) = 0)
    \<longleftrightarrow> \<not> used s (32 * unat i + unat j + unat count)"
proof -
  have jc: "unat (j + count) = unat j + unat count"
    using assms(2) by (intro unat_add_u32) linarith
  have i1: "i + 1 \<le> max_blocks s div 32" and ui: "unat (i + 1) = Suc (unat i)"
    using assms(1) by (auto intro: inc_le unat_loop_counter)
  show ?thesis
  proof (cases "unat j + unat count > 31")
    case True
    then have sub: "unat (j + count - 32) = unat j + unat count - 32"
      using unat_sub_u32 [of 32 "j + count"] by (simp add: jc)
    have "unat j + unat count - 32 < 32" using assms(2) by linarith
    then have "(map_word s (i + 1) AND shl1 (j + count - 32) = 0)
        \<longleftrightarrow> \<not> used s (32 * unat i + unat j + unat count)"
      unfolding and_shl1_eq_0 sub using True ui by (subst map_word_bit) auto
    moreover have "31 < j + count" using True by (simp add: word_less_nat_alt jc)
    ultimately show ?thesis using i1 by simp
  next
    case False
    then have "(map_word s i AND shl1 (j + count) = 0)
        \<longleftrightarrow> \<not> used s (32 * unat i + unat j + unat count)"
      unfolding and_shl1_eq_0 jc by (subst map_word_bit) auto
    moreover have "\<not> 31 < j + count" using False by (simp add: word_less_nat_alt jc)
    ultimately show ?thesis by simp
  qed
qed

lemma run_free_spec:
  assumes "i < max_blocks s div 32" and "unat j < 32" and "unat n \<le> 33"
    and "unat count \<le> unat n" and "unat fr \<le> unat count" and "unat fr < unat n"
  shows "run_free s i j n count fr \<longleftrightarrow> unat fr = unat count \<and>
    (\<forall>k. unat count \<le> k \<and> k < unat n \<longrightarrow> \<not> used s (32 * unat i + unat j + k))"
  using assms(4-6)
proof (induction "unat n - unat count" arbitrary: count fr)
  case 0
  then have "\<not> count < n" by (simp add: word_less_nat_alt)
  with 0 show ?case by (simp add: run_free.simps [of s i j n count])
next
  case (Suc d)
  then have lt: "count < n" by (simp add: word_less_nat_alt)
  then have c1: "unat (count + 1) = Suc (unat count)" by (rule unat_loop_counter)
  have f1: "unat (fr + 1) = Suc (unat fr)"
    using Suc.prems assms(3) by (intro unat_loop_counter [of fr n]) (simp add: word_less_nat_alt)
  have cl: "unat j + unat count \<le> 63" using lt assms(2,3) by (simp add: word_less_nat_alt)
  let ?b = "32 * unat i + unat j + unat count"
  note test = clear_test [OF assms(1) cl]
  have IH: "run_free s i j n (count + 1) fr' \<longleftrightarrow> unat fr' = Suc (unat count) \<and>
    (\<forall>k. Suc (unat count) \<le> k \<and> k < unat n \<longrightarrow> \<not> used s (32 * unat i + unat j + k))"
    if "unat fr' \<le> Suc (unat count)" "unat fr' < unat n" for fr'
    using Suc.hyps(1) [of "count + 1" fr'] Suc.hyps(2) that lt
    by (auto simp: c1 word_less_nat_alt)
  have range: "unat count \<le> k \<longleftrightarrow> k = unat count \<or> Suc (unat count) \<le> k" for k by auto
  show ?case
  proof (cases "used s ?b")
    case True
    moreover have "fr \<noteq> n" using Suc.prems by auto
    ultimately have "run_free s i j n count fr \<longleftrightarrow> run_free s i j n (count + 1) fr"
      using lt by (simp only: run_free.simps [of s i j n count] Let_def test) simp
    then show ?thesis using IH [of fr] Suc.prems True lt by (auto simp: word_less_nat_alt)
  next
    case False
    then have eq: "run_free s i j n count fr \<longleftrightarrow> fr + 1 = n \<or> run_free s i j n (count + 1) (fr + 1)"
      using lt by (simp only: run_free.simps [of s i j n count] Let_def test) simp
    show ?thesis
    proof (cases "fr + 1 = n")
      case True
      then have "unat n = Suc (unat fr)" using f1 by simp
      then have "unat fr = unat count" using Suc.prems lt by (simp add: word_less_nat_alt)
      with \<open>unat n = Suc (unat fr)\<close> False have "\<forall>k. unat count \<le> k \<and> k < unat n
          \<longrightarrow> \<not> used s (32 * unat i + unat j + k)" by (auto simp: less_Suc_eq)
      with eq True \<open>unat fr = unat count\<close> show ?thesis by simp
    next
      case ne: False
      then have "unat (fr + 1) \<noteq> unat n" by (simp add: unat_eq_iff_eq)
      then have "unat (fr + 1) < unat n" using f1 Suc.prems by simp
      with eq ne IH [of "fr + 1"] Suc.prems False show ?thesis
        by (auto simp: f1 range)
    qed
  qed
qed

lemma run_free_run_clear:
  assumes "i < max_blocks s div 32" and "unat j < 32" and "0 < unat n" and "unat n \<le> 33"
  shows "map_word s i AND shl1 j = 0 \<and> run_free s i j n 0 0 \<longleftrightarrow> run_clear s (32 * unat i + unat j) (unat n)"
proof -
  have "map_word s i AND shl1 j = 0 \<longleftrightarrow> \<not> used s (32 * unat i + unat j)"
    unfolding and_shl1_eq_0 using assms(2) by (subst map_word_bit) auto
  moreover have "run_free s i j n 0 0 \<longleftrightarrow> run_clear s (32 * unat i + unat j) (unat n)"
    using run_free_spec [OF assms(1,2,4), of 0 0] assms(3) by (auto simp: run_clear_def)
  ultimately show ?thesis using assms(3) by (auto simp: run_clear_def)
qed


lemma word_index_lt: "(i :: u32) < m div 32 \<Longrightarrow> 32 * unat i + 32 \<le> unat m"
  using unat_div_distrib [of m 32] by (simp add: word_less_nat_alt unat_div_distrib)

lemma scan_word_spec:
  assumes "i < max_blocks s div 32" and "0 < unat n" and "unat n \<le> 33" and "unat j \<le> 32"
  shows "case scan_word s n i j of
      Some r \<Rightarrow> 32 * unat i + unat j \<le> unat r \<and> unat r < 32 * unat i + 32 \<and> run_clear s (unat r) (unat n)
        \<and> (\<forall>b. 32 * unat i + unat j \<le> b \<and> b < unat r \<longrightarrow> \<not> run_clear s b (unat n))
    | None \<Rightarrow> \<forall>b. 32 * unat i + unat j \<le> b \<and> b < 32 * unat i + 32 \<longrightarrow> \<not> run_clear s b (unat n)"
  using assms(4)
proof (induction "32 - unat j" arbitrary: j)
  case 0
  then have "\<not> j < 32" by (simp add: word_less_nat_alt)
  with 0 show ?case by (auto simp: scan_word.simps [of s n i j])
next
  case (Suc d)
  then have lt: "j < 32" "unat j < 32" by (simp_all add: word_less_nat_alt)
  then have j1: "unat (j + 1) = Suc (unat j)" by (intro unat_loop_counter)
  have "unat (i * 32) = 32 * unat i"
    using word_index_lt [OF assms(1)] unat_u32_lt [of "max_blocks s"] by (subst unat_mult_u32) simp_all
  then have r: "unat (i * 32 + j) = 32 * unat i + unat j"
    using word_index_lt [OF assms(1)] unat_u32_lt [of "max_blocks s"] lt by (subst unat_add_u32) simp_all
  note test = run_free_run_clear [OF assms(1) lt(2) assms(2,3)]
  note unf = scan_word.simps [of s n i j] test lt(1) if_True
  show ?case
  proof (cases "run_clear s (32 * unat i + unat j) (unat n)")
    case True
    then have "scan_word s n i j = Some (i * 32 + j)" by (simp only: unf)
    with True lt show ?thesis by (auto simp: r)
  next
    case False
    then have eq: "scan_word s n i j = scan_word s n i (j + 1)" by (simp only: unf if_False)
    have range: "32 * unat i + unat j \<le> b \<longleftrightarrow>
        b = 32 * unat i + unat j \<or> Suc (32 * unat i + unat j) \<le> b" for b by auto
    have "d = 32 - unat (j + 1)" and "unat (j + 1) \<le> 32" using Suc.hyps(2) lt j1 by simp_all
    note IH = Suc.hyps(1) [OF this]
    show ?thesis
      using IH False by (auto simp: eq j1 range split: option.splits)
  qed
qed

lemma full_word_not_clear:
  "map_word s i = 0xFFFFFFFF \<Longrightarrow> 0 < n \<Longrightarrow> 32 * unat i \<le> b \<Longrightarrow> b < 32 * unat i + 32 \<Longrightarrow> \<not> run_clear s b n"
proof -
  assume full: "map_word s i = 0xFFFFFFFF" and n: "0 < n" and b: "32 * unat i \<le> b" "b < 32 * unat i + 32"
  have "map_word s i = mask 32" using full by (simp add: mask_eq_exp_minus_1)
  then have "bit (map_word s i) (b - 32 * unat i)" using b by (simp only: bit_mask_iff) auto
  then have "used s b" using b by (subst (asm) map_word_bit [of b]) auto
  with n show ?thesis by (auto simp: run_clear_def)
qed

lemma scan_map_spec:
  assumes "0 < unat n" and "unat n \<le> 33" and "unat i \<le> unat (max_blocks s div 32)"
  shows "if scan_map s n i = - 1
    then \<forall>b. 32 * unat i \<le> b \<and> b < 32 * unat (max_blocks s div 32) \<longrightarrow> \<not> run_clear s b (unat n)
    else 32 * unat i \<le> unat (scan_map s n i) \<and> unat (scan_map s n i) < 32 * unat (max_blocks s div 32)
      \<and> run_clear s (unat (scan_map s n i)) (unat n)
      \<and> (\<forall>b. 32 * unat i \<le> b \<and> b < unat (scan_map s n i) \<longrightarrow> \<not> run_clear s b (unat n))"
  using assms(3)
proof (induction "unat (max_blocks s div 32) - unat i" arbitrary: i)
  case 0
  then have "\<not> i < max_blocks s div 32" by (simp add: word_less_nat_alt)
  with 0 show ?case by (auto simp: scan_map.simps [of s n i])
next
  case (Suc d)
  then have lt: "i < max_blocks s div 32" by (simp add: word_less_nat_alt)
  then have ilt: "unat i < unat (max_blocks s div 32)" by (simp add: word_less_nat_alt)
  have i1: "unat (i + 1) = Suc (unat i)" using lt by (rule unat_loop_counter)
  have IH: "if scan_map s n (i + 1) = - 1
    then \<forall>b. 32 * unat (i + 1) \<le> b \<and> b < 32 * unat (max_blocks s div 32) \<longrightarrow> \<not> run_clear s b (unat n)
    else 32 * unat (i + 1) \<le> unat (scan_map s n (i + 1))
      \<and> unat (scan_map s n (i + 1)) < 32 * unat (max_blocks s div 32)
      \<and> run_clear s (unat (scan_map s n (i + 1))) (unat n)
      \<and> (\<forall>b. 32 * unat (i + 1) \<le> b \<and> b < unat (scan_map s n (i + 1)) \<longrightarrow> \<not> run_clear s b (unat n))"
    by (rule Suc.hyps(1)) (use Suc ilt i1 in auto)
  have skip: ?case if eq: "scan_map s n i = scan_map s n (i + 1)"
    and none: "\<forall>b. 32 * unat i \<le> b \<and> b < 32 * unat i + 32 \<longrightarrow> \<not> run_clear s b (unat n)"
  proof -
    have below: "\<not> run_clear s b (unat n)"
      if "32 * unat i \<le> b" and "32 * unat (i + 1) \<le> b \<Longrightarrow> \<not> run_clear s b (unat n)" for b
      using that none i1 by (cases "b < 32 * unat i + 32") auto
    have "32 * unat i \<le> b" if "32 * unat (i + 1) \<le> b" for b using that i1 by simp
    with below IH show ?thesis unfolding eq by (simp split: if_splits) blast+
  qed
  note word = scan_word_spec [OF lt assms(1,2), of 0, simplified]
  show ?case
  proof (cases "map_word s i = 0xFFFFFFFF")
    case True
    then show ?thesis
      using lt full_word_not_clear [OF True assms(1)] by (intro skip) (auto simp: scan_map.simps [of s n i])
  next
    case False
    show ?thesis
    proof (cases "scan_word s n i 0")
      case None
      with False lt word show ?thesis by (intro skip) (auto simp: scan_map.simps [of s n i])
    next
      case (Some r)
      have bound: "unat r < 32 * unat (max_blocks s div 32)" using Some word ilt by simp
      have "r \<noteq> - 1"
      proof
        assume "r = - 1"
        then have "unat r = addr_space - 1" by (simp add: unsigned_minus_1_eq_mask mask_eq_exp_minus_1)
        moreover have "32 * unat (max_blocks s div 32) \<le> unat (max_blocks s)"
          by (simp add: unat_div_distrib)
        ultimately show False using bound unat_u32_lt [of "max_blocks s"]
          by (simp add: unat_div_distrib)
      qed
      with Some False lt word bound show ?thesis by (auto simp: scan_map.simps [of s n i])
    qed
  qed
qed

lemmas find_first_spec = scan_map_spec [of _ 0, simplified]


section \<open>Allocation and release\<close>

lemma for_blocks_fields [simp]:
  "memory_map (for_blocks set_block s b n i) = memory_map s"
  "memory_map (for_blocks unset_block s b n i) = memory_map s"
  "max_blocks (for_blocks set_block s b n i) = max_blocks s"
  "max_blocks (for_blocks unset_block s b n i) = max_blocks s"
  "used_blocks (for_blocks set_block s b n i) = used_blocks s"
  "used_blocks (for_blocks unset_block s b n i) = used_blocks s"
  "first (for_blocks set_block s b n i) = first s"
  "first (for_blocks unset_block s b n i) = first s"
proof -
  have fold: "g (fold (\<lambda>k s. f s (b + of_nat k)) xs s) = g s"
    if "\<And>s x. g (f s x) = g s" for g :: "'a mm_scheme \<Rightarrow> u32" and f xs s
    by (induction xs arbitrary: s) (auto simp: that)
  have loop: "g (for_blocks f s b n i) = g s"
    if "\<And>s x. g (f s x) = g s" for g :: "'a mm_scheme \<Rightarrow> u32" and f s
  proof (cases "unat i \<le> unat n")
    case True
    then show ?thesis by (simp add: for_blocks_fold fold that)
  next
    case False
    then show ?thesis by (simp add: for_blocks.simps [of f s b n i] word_less_nat_alt)
  qed
  show "memory_map (for_blocks set_block s b n i) = memory_map s"
    "memory_map (for_blocks unset_block s b n i) = memory_map s"
    "max_blocks (for_blocks set_block s b n i) = max_blocks s"
    "max_blocks (for_blocks unset_block s b n i) = max_blocks s"
    "used_blocks (for_blocks set_block s b n i) = used_blocks s"
    "used_blocks (for_blocks unset_block s b n i) = used_blocks s"
    "first (for_blocks set_block s b n i) = first s"
    "first (for_blocks unset_block s b n i) = first s"
    by (rule loop, simp)+
qed

lemma used_fields_upd [simp]:
  "used (s\<lparr>used_blocks := x\<rparr>) b = used s b" "map_ok (s\<lparr>used_blocks := x\<rparr>) b = map_ok s b"
  "used (s\<lparr>first := y\<rparr>) b = used s b"
  by (simp_all add: used_def map_word_def map_ok_def)

text \<open>
  The managed memory fits the address space (a block number is below \<open>2 ^ 20\<close>), and the map and
  the word after it, which a run may reach, are addressable.
\<close>

definition manager_ok :: "('a mm_scheme) \<Rightarrow> bool" where
  "manager_ok s \<longleftrightarrow> unat (max_blocks s) \<le> 1048576 \<and> map_ok s (unat (max_blocks s) + 33)"

lemma alloc_blocks_cases:
  assumes "manager_ok s" and "0 < unat n" and "unat n \<le> 33"
  obtains (fail) "alloc_blocks s n = (0, s)"
      "unat (max_blocks s - used_blocks s) \<le> unat n \<or>
       (\<forall>b < 32 * (unat (max_blocks s) div 32). \<not> run_clear s b (unat n))"
  | (run) b where "b < unat (max_blocks s)" "run_clear s b (unat n)"
      "\<forall>b'<b. \<not> run_clear s b' (unat n)" "bm.run_ok s (of_nat b) (unat n)"
      "fst (alloc_blocks s n) = of_nat b * BLOCK_SIZE"
      "snd (alloc_blocks s n) = (for_blocks set_block s (of_nat b) n 0)\<lparr>used_blocks := used_blocks s + n\<rparr>"
      "unat n < unat (max_blocks s - used_blocks s)" "b < 32 * (unat (max_blocks s) div 32)"
proof (cases "max_blocks s - used_blocks s \<le> n")
  case True
  then show ?thesis by (intro fail) (simp_all add: alloc_blocks_def word_le_nat_alt)
next
  case enough: False
  have nz: "n \<noteq> 0" using assms(2) by auto
  let ?r = "scan_map s n 0"
  have find: "find_first_free_blocks s n = ?r" using nz by (simp add: find_first_free_blocks_def)
  note spec = find_first_spec [OF assms(2,3), of s]
  show ?thesis
  proof (cases "?r = - 1")
    case True
    then show ?thesis
      using spec enough by (intro fail) (auto simp: alloc_blocks_def find unat_div_distrib)
  next
    case False
    let ?b = "unat ?r"
    have b: "?b < 32 * (unat (max_blocks s) div 32)" "run_clear s ?b (unat n)"
      "\<forall>b'<?b. \<not> run_clear s b' (unat n)"
      using spec False by (auto simp: unat_div_distrib)
    have lt: "?b < unat (max_blocks s)" using b(1) by simp
    have "bm.run_ok s ?r (unat n)"
      using assms(1,3) lt unfolding bm.run_ok_def manager_ok_def
      by (auto intro: map_ok_mono [of s "unat (max_blocks s) + 33"])
    moreover have "unat n < unat (max_blocks s - used_blocks s)" using enough by (simp add: word_le_nat_alt)
    ultimately show ?thesis
      using b lt enough False by (intro run [of ?b]) (auto simp: alloc_blocks_def find Let_def)
  qed
qed

lemma block_address_eq_0:
  assumes "b < 1048576"
  shows "(of_nat b * BLOCK_SIZE = 0) = (b = 0)" and "(of_nat b * BLOCK_SIZE) div BLOCK_SIZE = of_nat b"
    and "unat (of_nat b * BLOCK_SIZE :: u32) = b * 4096"
proof -
  have u: "unat (of_nat b * BLOCK_SIZE :: u32) = b * 4096"
    using assms by (subst unat_mult_u32) simp_all
  then show "unat (of_nat b * BLOCK_SIZE :: u32) = b * 4096" .
  show "(of_nat b * BLOCK_SIZE = 0) = (b = 0)" using u by (metis mult_eq_0_iff unat_0 unat_eq_zero zero_neq_numeral)
  have "unat ((of_nat b * BLOCK_SIZE :: u32) div BLOCK_SIZE) = unat (of_nat b :: u32)"
    using u assms by (simp add: unat_div_distrib)
  then show "(of_nat b * BLOCK_SIZE) div BLOCK_SIZE = (of_nat b :: u32)" by (simp add: unat_eq_iff_eq)
qed


section \<open>Initialisation\<close>

lemma used_byte:
  "used s b \<longleftrightarrow> bit (phys s (memory_map s + of_nat (b div 8))) (b mod 8)"
proof -
  have "b div 8 = (8 * (4 * (b div 32)) + b mod 32) div 8" by simp
  also have "\<dots> = 4 * (b div 32) + (b mod 32) div 8" by (subst div_mult_self4) simp_all
  finally have "(of_nat (b div 8) :: u32) = 4 * of_nat (b div 32) + of_nat ((b mod 32) div 8)"
    by (simp only: of_nat_add of_nat_mult of_nat_numeral)
  then have "memory_map s + 4 * of_nat (b div 32) + of_nat ((b mod 32) div 8) = memory_map s + of_nat (b div 8)"
    by (simp only: add.assoc)
  moreover have "b mod 32 mod 8 = b mod 8" by (rule mod_mod_cancel) simp
  ultimately show ?thesis by (simp add: used_def map_word_def bit_r32 add.assoc)
qed

lemma init_memory_manager_fields [simp]:
  "memory_map (init_memory_manager s a n) = a"
  "max_blocks (init_memory_manager s a n) = n div 4096"
  "used_blocks (init_memory_manager s a n) = n div 4096"
  by (simp_all add: init_memory_manager_def Let_def)

text \<open>The map is filled by bytes: a block has its bit set if its byte is filled or its bit was set before.\<close>

lemma init_memory_manager_used:
  assumes "b < addr_space"
  shows "used (init_memory_manager s a n) b \<longleftrightarrow> b < 8 * (unat (n div 4096) div 8) \<or> used (s\<lparr>memory_map := a\<rparr>) b"
proof -
  let ?n = "unat (n div 4096 div 8)"
  have mask: "(0xFF :: u8) = mask 8" by (simp add: mask_eq_exp_minus_1)
  have "in_range a ?n (a + of_nat (b div 8)) \<longleftrightarrow> b div 8 < ?n"
    using assms by (simp add: in_range_def)
  moreover have "b div 8 < ?n \<longleftrightarrow> b < 8 * (unat (n div 4096) div 8)" by (auto simp: unat_div_distrib)
  moreover have "phys (init_memory_manager s a n) = filled (phys s) a 0xFF ?n"
    by (simp add: init_memory_manager_def Let_def memset_filled)
  ultimately show ?thesis
    by (simp only: used_byte init_memory_manager_fields mask filled_def) (simp add: bit_mask_iff)
qed

lemma init_region_loop_spec:
  assumes "bm.run_ok s b n"
  shows "(\<forall>c. map_ok s c \<longrightarrow> (used (init_region_loop n s b) c
      \<longleftrightarrow> \<not> (unat b \<le> c \<and> c < unat b + n) \<and> used s c))
    \<and> used_blocks (init_region_loop n s b) = used_blocks s - of_nat n
    \<and> (\<forall>c. map_ok (init_region_loop n s b) c = map_ok s c)
    \<and> max_blocks (init_region_loop n s b) = max_blocks s"
  using assms
proof (induction n arbitrary: s b)
  case (Suc n)
  let ?s = "(unset_block s b)\<lparr>used_blocks := used_blocks s - 1\<rparr>"
  have ok: "map_ok s (unat b)" using Suc.prems by (auto simp: bm.run_ok_def)
  have b1: "unat (b + 1) = Suc (unat b)" if "n \<noteq> 0"
    using Suc.prems that unat_plus_one [of b] by (simp add: bm.run_ok_def)
  have run: "bm.run_ok ?s (b + 1) n"
  proof (cases "n = 0")
    case True
    then show ?thesis using unat_u32_lt [of "b + 1"] by (simp add: bm.run_ok_def)
  next
    case False
    have "map_ok s (unat (b + 1) + k)" if "k < n" for k
      using Suc.prems that b1 [OF False] by (auto simp: bm.run_ok_def dest!: spec [of _ "Suc k"])
    then show ?thesis
      using Suc.prems b1 [OF False] by (simp add: bm.run_ok_def bm.ok_unmark)
  qed
  have range: "unat b \<le> c \<and> c < unat b + Suc n \<longleftrightarrow>
      c = unat b \<or> unat (b + 1) \<le> c \<and> c < unat (b + 1) + n" for c
    using b1 by (cases "n = 0") auto
  show ?case
    using Suc.IH [OF run] ok unfolding range
    by (auto simp: bm.used_unmark bm.ok_unmark Let_def)
qed simp

section \<open>Properties\<close>

text \<open>
  C6: a request of 1 to 33 blocks is served first fit, on a manager whose blocks lie in the address space
  and whose map, with the word behind it, is addressable.  When the counters leave no room, or no free run
  of that length starts in the managed words, the result is 0 and nothing changes; otherwise it is the
  address of the lowest free run, exactly the blocks of the run become used, and the counter grows by
  their number.  That address is 0 too if the run starts at block 0, which \<^verbatim>\<open>init_memory_region\<close> therefore
  reserves.  From 34 blocks on the search tests wrong bits and the claim is false
  (\<open>wide_request_returns_used_block\<close>).
\<close>

theorem alloc_blocks_first_fit:
  assumes "manager_ok s" and "0 < unat n" and "unat n \<le> 33" and "alloc_blocks s n = (a, s')"
  shows "if unat (max_blocks s - used_blocks s) \<le> unat n
      \<or> (\<forall>b < 32 * (unat (max_blocks s) div 32). \<not> run_clear s b (unat n))
    then a = 0 \<and> s' = s
    else \<exists>b. unat a = 4096 * b \<and> b < 32 * (unat (max_blocks s) div 32) \<and> run_clear s b (unat n)
      \<and> (\<forall>b' < b. \<not> run_clear s b' (unat n))
      \<and> (\<forall>c. map_ok s c \<longrightarrow> (used s' c \<longleftrightarrow> b \<le> c \<and> c < b + unat n \<or> used s c))
      \<and> used_blocks s' = used_blocks s + n"
  using assms(1-3)
proof (cases rule: alloc_blocks_cases)
  case fail
  with assms(4) show ?thesis by simp
next
  case (run b)
  have small: "b < 1048576" using run(1) assms(1) by (simp add: manager_ok_def)
  have "unat a = 4096 * b" using run(5) assms(4) block_address_eq_0(3) [OF small] by simp
  moreover have "\<forall>c. map_ok s c \<longrightarrow> (used s' c \<longleftrightarrow> b \<le> c \<and> c < b + unat n \<or> used s c)"
    using run(4,6) assms(4) small by (auto simp: bm.used_mark_run)
  moreover have "used_blocks s' = used_blocks s + n" using run(6) assms(4) by simp
  moreover have found: "\<not> (unat (max_blocks s - used_blocks s) \<le> unat n
      \<or> (\<forall>b < 32 * (unat (max_blocks s) div 32). \<not> run_clear s b (unat n)))"
    using run(2,7,8) by auto
  ultimately show ?thesis unfolding if_not_P [OF found] using run(2,3,8) by blast
qed

text \<open>
  C7: a release gives back exactly what an allocation of at most 33 blocks took: after \<^verbatim>\<open>free_blocks\<close> of
  a run that \<^verbatim>\<open>alloc_blocks\<close> has just returned (a result other than 0), every block is used or free as
  before and the counter has its old value.  A wider run may contain used blocks, which the release
  would clear.
\<close>

theorem free_blocks_undoes_alloc:
  assumes "manager_ok s" and "unat n \<le> 33" and "alloc_blocks s n = (a, s')" and "a \<noteq> 0"
  shows "(\<forall>c. map_ok s c \<longrightarrow> used (free_blocks s' a n) c = used s c)
    \<and> used_blocks (free_blocks s' a n) = used_blocks s"
proof -
  have "n \<noteq> 0" using assms(3,4) by (auto simp: alloc_blocks_def find_first_free_blocks_def split: if_splits)
  then have "0 < unat n" by (simp add: unat_gt_0)
  from assms(1) this assms(2) show ?thesis
  proof (cases rule: alloc_blocks_cases)
    case fail
    with assms(3,4) show ?thesis by simp
  next
    case (run b)
    have small: "b < 1048576" using run(1) assms(1) by (simp add: manager_ok_def)
    have s': "s' = (for_blocks set_block s (of_nat b) n 0)\<lparr>used_blocks := used_blocks s + n\<rparr>"
      using run(6) assms(3) by simp
    have a: "a div 4096 = of_nat b"
      using run(5) assms(3) block_address_eq_0(2) [OF small] by simp
    have free: "\<forall>k<unat n. \<not> used s (unat (of_nat b :: u32) + k)"
      using run(2) small by (simp add: run_clear_def)
    have unm: "used (for_blocks unset_block s' (of_nat b) n 0) c
        = used (for_blocks unset_block (for_blocks set_block s (of_nat b) n 0) (of_nat b) n 0) c"
      if "map_ok s c" for c
    proof -
      let ?t = "for_blocks set_block s (of_nat b) n 0"
      have "bm.run_ok s' (of_nat b) (unat n)" and "bm.run_ok ?t (of_nat b) (unat n)"
        using run(4) by (auto simp: bm.run_ok_def s' bm.ok_mark_run)
      then show ?thesis
        using that run(4) by (simp add: bm.used_unmark_run s' bm.ok_mark_run)
    qed
    have "used (free_blocks s' a n) c = used s c" if "map_ok s c" for c
      using bm.unmark_mark_run [OF run(4) that free] unm [OF that]
      by (simp add: free_blocks_def Let_def a)
    moreover have "used_blocks (free_blocks s' a n) = used_blocks s"
      by (simp add: free_blocks_def Let_def s')
    ultimately show ?thesis by blast
  qed
qed

text \<open>A manager with 64 blocks, its map at \<open>0x1000\<close>, and only block 0 in use.\<close>

definition small_manager :: mm where
  "small_manager = \<lparr>phys = (\<lambda>_. 0)(0x1000 := 1), trace = [], memory_map = 0x1000, max_blocks = 64,
     used_blocks = 1, first = 0\<rparr>"

lemma small_manager_ok: "manager_ok small_manager" "used small_manager 0"
  by (simp_all add: manager_ok_def map_ok_def small_manager_def used_byte)

lemma small_manager_alloc: "alloc_blocks small_manager 3 = (4096, snd (alloc_blocks small_manager 3))"
proof -
  have "fst (alloc_blocks small_manager 3) = 4096" by code_simp
  then show ?thesis by (metis prod.collapse)
qed

theorem alloc_blocks_first_fit_witness:
  "\<exists>b. 4096 = 4096 * b \<and> run_clear small_manager b 3
    \<and> used_blocks (snd (alloc_blocks small_manager 3)) = 4"
  using alloc_blocks_first_fit [OF small_manager_ok(1) _ _ small_manager_alloc]
  by (auto simp: small_manager_def split: if_splits)

theorem free_blocks_undoes_alloc_witness:
  "used_blocks (free_blocks (snd (alloc_blocks small_manager 3)) 4096 3) = 1"
  using free_blocks_undoes_alloc [OF small_manager_ok(1) _ small_manager_alloc]
  by (simp add: small_manager_def)

text \<open>The number of blocks outside a region, block 0 counted in.\<close>

lemma card_outside_region:
  assumes "B + R \<le> M" and "0 < M"
  shows "card {c. c < M \<and> (c = 0 \<or> \<not> (B \<le> c \<and> c < B + R))} = M - R + (if B = 0 \<and> 0 < R then 1 else 0)"
proof -
  have diff: "card ({..<M} - {B..<B + R}) = M - R" using assms(1) by (subst card_Diff_subset) auto
  show ?thesis
  proof (cases "B = 0 \<and> 0 < R")
    case True
    then have "{c. c < M \<and> (c = 0 \<or> \<not> (B \<le> c \<and> c < B + R))} = insert 0 ({..<M} - {B..<B + R})" using assms(2) by auto
    moreover have "0 \<notin> {..<M} - {B..<B + R}" using True by simp
    ultimately show ?thesis using True diff by simp
  next
    case False
    then have "{c. c < M \<and> (c = 0 \<or> \<not> (B \<le> c \<and> c < B + R))} = {..<M} - {B..<B + R}" by auto
    with False diff show ?thesis by simp
  qed
qed

text \<open>
  C8: after \<^verbatim>\<open>init_memory_manager\<close> for \<open>M\<close> blocks and one \<^verbatim>\<open>init_memory_region\<close> inside them, the free blocks
  are those of the region, except block 0, which is always reserved, and except that \<^verbatim>\<open>memset\<close> fills whole
  bytes: the last \<open>M mod 8\<close> bits of the map keep what memory held.  When \<open>M\<close> is a multiple of 8 the counter
  agrees with the bitmap, unless the region contains block 0: then the bitmap has one used block more than
  \<^verbatim>\<open>used_blocks\<close> says, because \<^verbatim>\<open>set_block(0)\<close> does not count.
\<close>

theorem init_region_accounting:
  fixes s :: mm and a n base sz :: u32
  defines "M \<equiv> unat n div 4096" and "B \<equiv> unat base div 4096" and "R \<equiv> unat sz div 4096"
    and "t \<equiv> init_memory_region (init_memory_manager s a n) base sz"
  assumes "0 < M" and "B + R \<le> M" and "unat a + M \<le> addr_space - 8"
  shows "(\<forall>c<M. used t c \<longleftrightarrow> c = 0 \<or> \<not> (B \<le> c \<and> c < B + R) \<and> (c < M - M mod 8 \<or> used (s\<lparr>memory_map := a\<rparr>) c))
    \<and> unat (used_blocks t) = M - R
    \<and> (M mod 8 = 0 \<longrightarrow> card {c. c < M \<and> used t c} = M - R + (if B = 0 \<and> 0 < R then 1 else 0))"
proof -
  let ?s0 = "init_memory_manager s a n"
  let ?s1 = "init_region_loop R ?s0 (base div 4096)"
  have M: "unat (n div 4096) = M" and B: "unat (base div 4096) = B" and R: "unat (sz div 4096) = R"
    unfolding M_def B_def R_def by (simp_all add: unat_div_distrib)
  have Mlt: "M < addr_space" using M unat_u32_lt by metis
  have ok: "map_ok ?s0 c" if "c < M" for c
  proof -
    have "4 * (c div 32) \<le> M" using that by simp
    then show ?thesis using assms(7) by (simp add: map_ok_def)
  qed
  have run: "bm.run_ok ?s0 (base div 4096) R"
    unfolding bm.run_ok_def B using assms(6) Mlt ok by auto
  note loop = init_region_loop_spec [OF run, unfolded B]
  have init: "used ?s0 c \<longleftrightarrow> c < M - M mod 8 \<or> used (s\<lparr>memory_map := a\<rparr>) c" if "c < M" for c
    using init_memory_manager_used [of c s a n] that Mlt by (simp only: M minus_mod_eq_mult_div)
  have t: "t = set_block ?s1 0" by (simp add: t_def init_memory_region_def R)
  have used: "used t c \<longleftrightarrow> c = 0 \<or> \<not> (B \<le> c \<and> c < B + R) \<and> (c < M - M mod 8 \<or> used (s\<lparr>memory_map := a\<rparr>) c)"
    if "c < M" for c
    using loop ok [OF that] ok [OF assms(5)] init [OF that] by (auto simp: t bm.used_mark)
  have cnt: "used_blocks t = n div 4096 - of_nat R" using loop by (simp add: t)
  have "unat (of_nat R :: u32) = R" using assms(6) Mlt by simp
  then have counter: "unat (used_blocks t) = M - R"
    using assms(6) by (simp add: cnt unat_sub_u32 M)
  have "card {c. c < M \<and> used t c} = M - R + (if B = 0 \<and> 0 < R then 1 else 0)" if "M mod 8 = 0"
  proof -
    have "{c. c < M \<and> used t c} = {c. c < M \<and> (c = 0 \<or> \<not> (B \<le> c \<and> c < B + R))}" using used that by auto
    then show ?thesis using card_outside_region [OF assms(6,5)] by simp
  qed
  with used counter show ?thesis by blast
qed

theorem init_region_accounting_witness:
  "card {c. c < 64 \<and> used (init_memory_region (init_memory_manager small_manager 0x1000 0x40000) 0 0x8000) c}
    = 57 \<and> unat (used_blocks (init_memory_region (init_memory_manager small_manager 0x1000 0x40000) 0 0x8000)) = 56"
  using init_region_accounting [of "0x40000" 0 "0x8000" "0x1000" small_manager] by simp

section \<open>Behaviour outside the contract\<close>

text \<open>
  A request for 65 blocks that starts at block 0 tests block 64 by the wrong bit (the shift count
  reaches 32), and the run returned contains a block in use.
\<close>

lemma run_free_steps:
  assumes "i < max_blocks s div 32" and "unat j + k \<le> 64" and "k < unat n"
    and "\<forall>c<k. \<not> used s (32 * unat i + unat j + c)"
  shows "run_free s i j n 0 0 = run_free s i j n (of_nat k) (of_nat k)"
  using assms(2-4)
proof (induction k)
  case (Suc k)
  have k: "unat (of_nat k :: u32) = k" using Suc.prems by simp
  have lt: "(of_nat k :: u32) < n" using Suc.prems k by (simp add: word_less_nat_alt)
  have ne: "(of_nat k :: u32) + 1 \<noteq> n" using Suc.prems unat_loop_counter [OF lt] k by auto
  have "run_free s i j n (of_nat k) (of_nat k) = run_free s i j n (of_nat k + 1) (of_nat k + 1)"
    using lt ne Suc.prems clear_test [OF assms(1), of j "of_nat k"] k
    by (simp only: run_free.simps [of s i j n "of_nat k"] Let_def) simp
  with Suc show ?case by (simp add: add.commute)
qed simp

definition wide_manager :: mm where
  "wide_manager = \<lparr>phys = (\<lambda>_. 0)(8 := 1), trace = [], memory_map = 0, max_blocks = 96,
     used_blocks = 1, first = 0\<rparr>"

lemma wide_manager_used: "used wide_manager c \<longleftrightarrow> c = 64" if "c < 96"
proof -
  have c: "unat (of_nat (c div 8) :: u32) = c div 8" using that by simp
  have "(of_nat (c div 8) :: u32) = 8 \<longleftrightarrow> c div 8 = 8" unfolding unat_eq_iff_eq [symmetric] c by simp
  moreover have "c div 8 = 8 \<and> c mod 8 = 0 \<longleftrightarrow> c = 64" by presburger
  ultimately show ?thesis by (auto simp: used_byte wide_manager_def bit_1_iff)
qed

theorem wide_request_returns_used_block:
  "find_first_free_blocks wide_manager 65 = 0 \<and> used wide_manager 64"
proof -
  have i: "0 < max_blocks wide_manager div 32" by (simp add: wide_manager_def)
  have w: "map_word wide_manager 0 = 0" "map_word wide_manager 1 = 0"
    by (simp_all add: map_word_def wide_manager_def r32_def)
  have "run_free wide_manager 0 0 65 0 0 = run_free wide_manager 0 0 65 64 64"
    using run_free_steps [OF i, of 0 64 65] by (simp add: wide_manager_used)
  also have "\<dots>" using w by (simp add: run_free.simps [of _ 0 0 65 64] Let_def)
  finally have "run_free wide_manager 0 0 65 0 0" .
  then have "scan_map wide_manager 65 0 = 0"
    using w i by (simp add: scan_map.simps [of _ 65 0] scan_word.simps [of _ 65 0 0])
  then show ?thesis by (simp add: find_first_free_blocks_def wide_manager_used)
qed

text \<open>
  The run may leave the managed range: with 32 blocks managed, of which 1, 3, 5 and 31 are free,
  a request for 2 is answered with blocks 31 and 32.
\<close>

definition edge_manager :: mm where
  "edge_manager = \<lparr>phys = (\<lambda>_. 0)(0 := 0xD5, 1 := 0xFF, 2 := 0xFF, 3 := 0x7F), trace = [],
     memory_map = 0, max_blocks = 32, used_blocks = 28, first = 0\<rparr>"

lemma edge_manager_used:
  "list_all (used edge_manager) ([0, 2, 4] @ [6..<31])" "\<not> used edge_manager 31" "\<not> used edge_manager 32"
  by (simp_all add: upt_rec used_byte edge_manager_def)

theorem run_leaves_managed_range:
  "fst (alloc_blocks edge_manager 2) = 31 * 4096 \<and> used (snd (alloc_blocks edge_manager 2)) 32"
proof -
  have ok: "manager_ok edge_manager" by (simp add: manager_ok_def map_ok_def edge_manager_def)
  have clear: "run_clear edge_manager 31 2"
    using edge_manager_used by (auto simp: run_clear_def numeral_2_eq_2 less_Suc_eq)
  have low: "\<not> run_clear edge_manager b 2" if "b < 31" for b
  proof -
    have "b \<in> set ([0, 2, 4] @ [6..<31]) \<or> b + 1 \<in> set ([0, 2, 4] @ [6..<31])"
      using that by (auto simp del: upt_rec_numeral)
    then have "used edge_manager b \<or> used edge_manager (b + 1)"
      using edge_manager_used(1) unfolding list_all_iff by blast
    then show ?thesis by (auto simp: run_clear_def numeral_2_eq_2 less_Suc_eq)
  qed
  have two: "0 < unat (2 :: u32)" "unat (2 :: u32) \<le> 33" by simp_all
  from ok two show ?thesis
  proof (cases rule: alloc_blocks_cases)
    case fail
    have "max_blocks edge_manager = 32" "used_blocks edge_manager = 28"
      by (simp_all add: edge_manager_def)
    with fail(2) have "\<forall>b<32. \<not> run_clear edge_manager b 2" by simp
    with clear show ?thesis by simp
  next
    case (run b)
    have "\<not> b < 31" using low run(2) by auto
    moreover have "\<not> 31 < b" using run(3) clear by auto
    ultimately have "b = 31" by simp
    with run show ?thesis by (simp add: bm.used_mark_run map_ok_def edge_manager_def)
  qed
qed

text \<open>Before \<^verbatim>\<open>init_memory_manager\<close> has run (all globals zero) every request fails.\<close>

theorem alloc_before_init:
  "max_blocks s = 0 \<Longrightarrow> used_blocks s = 0 \<Longrightarrow> alloc_blocks s n = (0, s)"
  by (simp add: alloc_blocks_def)

end
