(* ===== verification/Screen.thy ===== *)
theory Screen
  imports Block_Manager
begin

text \<open>
  The text console of \<^verbatim>\<open>kernel/src/common/screen.c\<close>: an 80 by 25 array of 16-bit cells at
  0xB8000 (character in the low byte, attribute in the high byte) and the cursor, two static
  bytes.  \<^verbatim>\<open>printf\<close> reads a terminated string from memory; the model is partial because the
  loop ends only at a zero byte.  The one-character step of its loop is \<open>put_char\<close>.
\<close>

section \<open>Operations\<close>

record screen = mm +
  scr_x :: u8
  scr_y :: u8

abbreviation VIDEO :: u32 where "VIDEO \<equiv> 0xB8000"
abbreviation MAX_X :: u8 where "MAX_X \<equiv> 80"
abbreviation MAX_Y :: u8 where "MAX_Y \<equiv> 25"

text \<open>\<^verbatim>\<open>&video_memory[MAX_X * y + x]\<close>; the arithmetic is on \<^verbatim>\<open>int\<close>, the bytes are promoted.\<close>

definition cell_addr :: "u8 \<Rightarrow> u8 \<Rightarrow> u32" where
  "cell_addr x y = VIDEO + 2 * (80 * ucast y + ucast x)"

text \<open>\<^verbatim>\<open>(cell & 0xFF00) | c\<close> for a \<^verbatim>\<open>char\<close>, which is signed.\<close>

definition set_cell_char :: "mem \<Rightarrow> u32 \<Rightarrow> u8 \<Rightarrow> mem" where
  "set_cell_char m a c = w16 m a ((r16 m a AND 0xFF00) OR scast c)"

lemma unat_cursor_step:
  "(x :: u8) < 80 \<Longrightarrow> 80 - unat (x + 1) < 80 - unat x"
  "(x :: u8) < 25 \<Longrightarrow> 25 - unat (x + 1) < 25 - unat x"
  by (simp_all add: word_less_nat_alt unat_word_ariths)

function clear_row :: "('a screen_scheme) \<Rightarrow> ('a screen_scheme)" where
  "clear_row s =
     (if scr_x s < MAX_X then
        clear_row (s\<lparr>phys := set_cell_char (phys s) (cell_addr (scr_x s) (scr_y s)) 0x20, scr_x := scr_x s + 1\<rparr>)
      else s)"
  by pat_completeness auto
termination
  by (relation "measure (\<lambda>s. 80 - unat (scr_x s))") (simp_all add: unat_cursor_step)

declare clear_row.simps [simp del]

function clear_rows :: "('a screen_scheme) \<Rightarrow> ('a screen_scheme)" where
  "clear_rows s =
     (if scr_y s < MAX_Y then
        (let s1 = clear_row (s\<lparr>scr_x := 0\<rparr>) in clear_rows (s1\<lparr>scr_y := scr_y s + 1\<rparr>))
      else s)"
  by pat_completeness auto
termination
  by (relation "measure (\<lambda>s. 25 - unat (scr_y s))") (simp_all add: unat_cursor_step Let_def)

definition clear_screen :: "('a screen_scheme) \<Rightarrow> ('a screen_scheme)" where
  "clear_screen s = (clear_rows (s\<lparr>scr_y := 0\<rparr>))\<lparr>scr_x := 0, scr_y := 0\<rparr>"

definition put_char :: "('a screen_scheme) \<Rightarrow> u8 \<Rightarrow> ('a screen_scheme)" where
  "put_char s c =
     (let s1 = (if c = 0x0A then s\<lparr>scr_y := scr_y s + 1, scr_x := 0\<rparr>
                else s\<lparr>phys := set_cell_char (phys s) (cell_addr (scr_x s) (scr_y s)) c, scr_x := scr_x s + 1\<rparr>);
          s2 = (if scr_x s1 \<ge> MAX_X then s1\<lparr>scr_y := scr_y s1 + 1, scr_x := 0\<rparr> else s1)
      in if scr_y s2 \<ge> 25 then clear_screen s2 else s2)"

partial_function (option) printf :: "('a screen_scheme) \<Rightarrow> u32 \<Rightarrow> ('a screen_scheme) option" where
  "printf s str = (if phys s str \<noteq> 0 then printf (put_char s (phys s str)) (str + 1) else Some s)"

definition syscall_printf :: "('a screen_scheme) \<Rightarrow> u32 \<Rightarrow> u32 \<Rightarrow> ('a screen_scheme) option" where
  "syscall_printf s buffer len = printf s buffer"

text \<open>\<^verbatim>\<open>printf\<close> of a string literal, given by its bytes: the literals lie in the kernel image, away
  from the screen.\<close>

definition print_literal :: "('a screen_scheme) \<Rightarrow> u8 list \<Rightarrow> ('a screen_scheme)" where
  "print_literal s cs = foldl put_char s cs"

definition literal :: "string \<Rightarrow> u8 list" where
  "literal cs = map of_char cs"

text \<open>\<^verbatim>\<open>print_hex\<close> patches the literal \<^verbatim>\<open>"00"\<close>, which the compiler places at \<open>foo\<close>.\<close>

definition hex_digit :: "u8 \<Rightarrow> u8" where
  "hex_digit v = [0x30, 0x31, 0x32, 0x33, 0x34, 0x35, 0x36, 0x37, 0x38, 0x39,
                  0x41, 0x42, 0x43, 0x44, 0x45, 0x46] ! unat v"

definition print_hex :: "u32 \<Rightarrow> ('a screen_scheme) \<Rightarrow> u8 \<Rightarrow> ('a screen_scheme) option" where
  "print_hex foo s h =
     printf (s\<lparr>phys := (phys s)(foo := hex_digit (drop_bit 4 h AND 0xF), foo + 1 := hex_digit (h AND 0xF))\<rparr>) foo"

definition print_hex32 :: "u32 \<Rightarrow> ('a screen_scheme) \<Rightarrow> u32 \<Rightarrow> ('a screen_scheme) option" where
  "print_hex32 foo s h =
     Option.bind (print_hex foo s (ucast (drop_bit 24 h))) (\<lambda>s1.
     Option.bind (print_hex foo s1 (ucast (drop_bit 16 h))) (\<lambda>s2.
     Option.bind (print_hex foo s2 (ucast (drop_bit 8 h))) (\<lambda>s3.
     print_hex foo s3 (ucast h))))"

text \<open>\<^verbatim>\<open>uint8_t_to_string\<close>: the digits from the least significant one, then reversed in place.
  Both loops are on \<^verbatim>\<open>int\<close> indices that stay below 4.\<close>

function digits_loop :: "mem \<Rightarrow> u32 \<Rightarrow> u8 \<Rightarrow> nat \<Rightarrow> mem \<times> nat" where
  "digits_loop m buffer value i =
     (let m1 = m(buffer + of_nat i := 0x30 + value mod 10); value' = value div 10
      in if value' > 0 then digits_loop m1 buffer value' (i + 1) else (m1, i + 1))"
  by pat_completeness auto
termination
  by (relation "measure (\<lambda>(m, b, v, i). unat v)")
    (auto simp: unat_div word_less_nat_alt intro!: div_less_dividend)

function reverse_loop :: "mem \<Rightarrow> u32 \<Rightarrow> int \<Rightarrow> int \<Rightarrow> mem" where
  "reverse_loop m buffer j k =
     (if j < k then
        reverse_loop (m(buffer + of_int j := m (buffer + of_int k), buffer + of_int k := m (buffer + of_int j)))
          buffer (j + 1) (k - 1)
      else m)"
  by pat_completeness auto
termination by (relation "measure (\<lambda>(m, b, j, k). nat (k - j))") auto

definition uint8_t_to_string :: "mem \<Rightarrow> u8 \<Rightarrow> u32 \<Rightarrow> mem" where
  "uint8_t_to_string m value buffer =
     (let (m1, i) = digits_loop m buffer value 0;
          m2 = m1(buffer + of_nat i := 0)
      in reverse_loop m2 buffer 0 (int i - 1))"

definition print_uint8_t :: "u32 \<Rightarrow> ('a screen_scheme) \<Rightarrow> u8 \<Rightarrow> ('a screen_scheme) option" where
  "print_uint8_t buffer s value = printf (s\<lparr>phys := uint8_t_to_string (phys s) value buffer\<rparr>) buffer"

declare clear_row.simps [simp del] clear_rows.simps [simp del] digits_loop.simps [simp del]
  reverse_loop.simps [simp del]


section \<open>Cells\<close>

lemma unat_cell_addr: "unat (cell_addr x y) = 0xB8000 + 2 * (80 * unat y + unat x)"
proof -
  have "2 * (80 * unat y + unat x) < 2 * (80 * 256 + 256)"
    using unat_u8_lt [of x] unat_u8_lt [of y] by simp
  then have "unat (of_nat (0xB8000 + 2 * (80 * unat y + unat x)) :: u32) = 0xB8000 + 2 * (80 * unat y + unat x)"
    by (intro unat_of_nat_u32) simp
  moreover have "cell_addr x y = of_nat (0xB8000 + 2 * (80 * unat y + unat x))"
    by (simp add: cell_addr_def)
  ultimately show ?thesis by simp
qed

text \<open>A cell receives the character; a negative \<^verbatim>\<open>char\<close> also sets every attribute bit.\<close>

lemma set_cell_char_bytes:
  "set_cell_char m a c = m(a := c, a + 1 := if bit c 7 then 0xFF else m (a + 1))"
proof -
  let ?v = "(r16 m a AND 0xFF00) OR scast c"
  have r: "bit (r16 m a) n \<longleftrightarrow> (if n < 8 then bit (m a) n else n < 16 \<and> bit (m (a + 1)) (n - 8))" for n
    using bit_imp_le_length [of "m a" n] by (auto simp: r16_def bit_simps)
  have k: "bit (0xFF00 :: u16) n \<longleftrightarrow> 8 \<le> n \<and> n < 16" for n
  proof -
    have e: "(0xFF00 :: u16) = push_bit 8 (mask 8)" by (simp add: mask_numeral)
    show ?thesis unfolding e by (auto simp: bit_simps)
  qed
  have "byte_of 0 ?v = c"
    by (rule bit_word_eqI, unfold byte_of_def bit_unsigned_iff bit_drop_bit_eq comp_def bit_or_iff
      bit_and_iff bit_signed_iff r k) auto
  moreover have "byte_of 1 ?v = (if bit c 7 then 0xFF else m (a + 1))"
  proof (rule bit_word_eqI)
    fix n assume n: "n < LENGTH(8)"
    have e: "(0xFF :: u8) = mask 8" by (simp add: mask_numeral)
    have ff: "bit (0xFF :: u8) n" unfolding e using n by (simp add: bit_mask_iff)
    show "bit (byte_of 1 ?v) n = bit (if bit c 7 then 0xFF else m (a + 1)) n"
      unfolding byte_of_def bit_unsigned_iff bit_drop_bit_eq comp_def bit_or_iff bit_and_iff bit_signed_iff r k
      using n ff by auto
  qed
  ultimately show ?thesis by (simp add: set_cell_char_def w16_def)
qed

lemma set_cell_other: "x \<noteq> a \<Longrightarrow> x \<noteq> a + 1 \<Longrightarrow> set_cell_char m a c x = m x"
  by (simp add: set_cell_char_bytes)

lemma set_cell_blank: "set_cell_char m a 0x20 = m(a := 0x20)"
  by (rule ext) (simp add: set_cell_char_bytes)

section \<open>Clearing\<close>

lemma ex_from_split:
  "(m :: nat) < n \<Longrightarrow> (\<exists>i. m \<le> i \<and> i < n \<and> P i) \<longleftrightarrow> P m \<or> (\<exists>i. Suc m \<le> i \<and> i < n \<and> P i)"
  by (metis Suc_leD Suc_leI le_neq_implies_less order_refl)

lemma clear_row_spec:
  assumes "scr_x s \<le> 80"
  shows "scr_y (clear_row s) = scr_y s \<and> scr_x (clear_row s) = 80
    \<and> phys (clear_row s) a = (if \<exists>i. unat (scr_x s) \<le> i \<and> i < 80
      \<and> unat a = 0xB8000 + 2 * (80 * unat (scr_y s) + i) then 0x20 else phys s a)"
  using assms
proof (induction "80 - unat (scr_x s)" arbitrary: s)
  case 0
  then have "scr_x s = 80" by (simp add: word_le_nat_alt flip: unat_eq_iff_eq)
  then show ?case by (subst (1 2 3) clear_row.simps) auto
next
  case (Suc n)
  let ?s = "s\<lparr>phys := set_cell_char (phys s) (cell_addr (scr_x s) (scr_y s)) 0x20, scr_x := scr_x s + 1\<rparr>"
  have lt: "scr_x s < 80" using Suc.hyps(2) by (simp add: word_less_nat_alt)
  then have u: "unat (scr_x s + 1) = Suc (unat (scr_x s))" by (simp add: word_less_nat_alt unat_word_ariths)
  have eq: "clear_row s = clear_row ?s" using lt by (subst clear_row.simps) simp
  have "n = 80 - unat (scr_x ?s)" "scr_x ?s \<le> 80"
    using Suc.hyps(2) lt u by (simp_all add: word_less_nat_alt word_le_nat_alt)
  note IH = Suc.hyps(1) [OF this]
  have here: "phys ?s a = (if unat a = 0xB8000 + 2 * (80 * unat (scr_y s) + unat (scr_x s)) then 0x20 else phys s a)"
    unfolding unat_cell_addr [symmetric] unat_eq_iff_eq by (simp add: set_cell_blank)
  have split: "(\<exists>i. unat (scr_x s) \<le> i \<and> i < 80 \<and> P i) \<longleftrightarrow>
      P (unat (scr_x s)) \<or> (\<exists>i. unat (scr_x ?s) \<le> i \<and> i < 80 \<and> P i)" for P
    using ex_from_split [of "unat (scr_x s)" 80 P] lt u by (simp add: word_less_nat_alt)
  show ?case unfolding eq split using IH here by auto
qed

lemma clear_rows_spec:
  assumes "scr_y s \<le> 25"
  shows "phys (clear_rows s) a = (if \<exists>i j. unat (scr_y s) \<le> j \<and> j < 25 \<and> i < 80
      \<and> unat a = 0xB8000 + 2 * (80 * j + i) then 0x20 else phys s a)"
  using assms
proof (induction "25 - unat (scr_y s)" arbitrary: s)
  case 0
  then have "scr_y s = 25" by (simp add: word_le_nat_alt flip: unat_eq_iff_eq)
  then show ?case by (subst clear_rows.simps) auto
next
  case (Suc n)
  let ?s = "clear_row (s\<lparr>scr_x := 0\<rparr>)\<lparr>scr_y := scr_y s + 1\<rparr>"
  have lt: "scr_y s < 25" using Suc.hyps(2) by (simp add: word_less_nat_alt)
  then have u: "unat (scr_y s + 1) = Suc (unat (scr_y s))" by (simp add: word_less_nat_alt unat_word_ariths)
  have eq: "clear_rows s = clear_rows ?s" using lt by (subst clear_rows.simps) (simp add: Let_def)
  have "n = 25 - unat (scr_y ?s)" "scr_y ?s \<le> 25"
    using Suc.hyps(2) lt u by (simp_all add: word_less_nat_alt word_le_nat_alt)
  note IH = Suc.hyps(1) [OF this]
  have here: "phys ?s a = (if \<exists>i<80. unat a = 0xB8000 + 2 * (80 * unat (scr_y s) + i) then 0x20 else phys s a)"
    using clear_row_spec [of "s\<lparr>scr_x := 0\<rparr>" a] by auto
  have split: "(\<exists>i j. unat (scr_y s) \<le> j \<and> j < 25 \<and> P i j) \<longleftrightarrow>
      (\<exists>i. P i (unat (scr_y s))) \<or> (\<exists>i j. unat (scr_y ?s) \<le> j \<and> j < 25 \<and> P i j)" for P
    using ex_from_split [of "unat (scr_y s)" 25 "\<lambda>j. \<exists>i. P i j"] lt u by (auto simp: word_less_nat_alt)
  show ?case unfolding eq IH here by (simp only: split) auto
qed

text \<open>The whole screen is blank afterwards: 2000 cells, row by row.\<close>

definition on_screen :: "u32 \<Rightarrow> bool" where
  "on_screen a \<longleftrightarrow> 0xB8000 \<le> unat a \<and> unat a < 0xB8000 + 4000"

lemma clear_screen_spec:
  "phys (clear_screen s) a = (if on_screen a \<and> even (unat a) then 0x20 else phys s a)"
  "scr_x (clear_screen s) = 0" "scr_y (clear_screen s) = 0"
proof -
  have "(\<exists>i j. j < 25 \<and> i < 80 \<and> unat a = 0xB8000 + 2 * (80 * j + i)) \<longleftrightarrow> on_screen a \<and> even (unat a)"
  proof
    assume "on_screen a \<and> even (unat a)"
    then obtain k where k: "unat a = 2 * k" "0xB8000 \<le> 2 * k" "2 * k < 0xB8000 + 4000"
      by (auto simp: on_screen_def elim!: evenE)
    let ?k = "k - 0x5C000"
    have "?k mod 80 < 80" "?k div 80 < 25" "?k = 80 * (?k div 80) + ?k mod 80"
      using k by (simp_all add: less_mult_imp_div_less)
    moreover have "unat a = 0xB8000 + 2 * ?k" using k by simp
    ultimately show "\<exists>i j. j < 25 \<and> i < 80 \<and> unat a = 0xB8000 + 2 * (80 * j + i)" by metis
  qed (auto simp: on_screen_def)
  then show "phys (clear_screen s) a = (if on_screen a \<and> even (unat a) then 0x20 else phys s a)"
    using clear_rows_spec [of "s\<lparr>scr_y := 0\<rparr>" a] by (simp add: clear_screen_def)
qed (simp_all add: clear_screen_def)


section \<open>Printing\<close>

definition cursor_ok :: "('a screen_scheme) \<Rightarrow> bool" where
  "cursor_ok s \<longleftrightarrow> scr_x s < 80 \<and> scr_y s < 25"

text \<open>Everything but the screen: the memory outside the 4000 bytes of the cells.\<close>

definition same_beyond :: "('a screen_scheme) \<Rightarrow> ('a screen_scheme) \<Rightarrow> bool" where
  "same_beyond s s' \<longleftrightarrow> (\<forall>a. \<not> on_screen a \<longrightarrow> phys s' a = phys s a)"

lemma same_beyond_trans: "same_beyond s t \<Longrightarrow> same_beyond t u \<Longrightarrow> same_beyond s u"
  by (simp add: same_beyond_def)

lemma cell_on_screen:
  assumes "x < 80" and "y < 25"
  shows "on_screen (cell_addr x y)" and "on_screen (cell_addr x y + 1)"
    and "unat (cell_addr x y + 1) = unat (cell_addr x y) + 1"
proof -
  have b: "2 * (80 * unat y + unat x) + 1 < 4000" using assms by (simp add: word_less_nat_alt)
  then show u: "unat (cell_addr x y + 1) = unat (cell_addr x y) + 1"
    by (intro unat_plus_one) (simp add: unat_cell_addr)
  show "on_screen (cell_addr x y)" "on_screen (cell_addr x y + 1)"
    unfolding on_screen_def u unat_cell_addr using b by simp_all
qed

lemma put_char_ok:
  assumes "cursor_ok s"
  shows "cursor_ok (put_char s c)" and "same_beyond s (put_char s c)"
proof -
  have x: "scr_x s < 80" "scr_y s < 25" using assms by (simp_all add: cursor_ok_def)
  have other: "set_cell_char (phys s) (cell_addr (scr_x s) (scr_y s)) c a = phys s a" if "\<not> on_screen a" for a
    using that cell_on_screen [OF x] by (intro set_cell_other) auto
  show "cursor_ok (put_char s c)"
    by (auto simp: cursor_ok_def put_char_def Let_def clear_screen_spec x not_le)
  show "same_beyond s (put_char s c)"
    by (auto simp: same_beyond_def put_char_def Let_def clear_screen_spec other)
qed

lemma print_literal_ok:
  assumes "cursor_ok s"
  shows "cursor_ok (print_literal s cs) \<and> same_beyond s (print_literal s cs)"
  using assms
proof (induction cs arbitrary: s)
  case Nil
  then show ?case by (simp add: print_literal_def same_beyond_def)
next
  case (Cons c cs)
  from Cons.IH [OF put_char_ok(1) [OF Cons.prems]] show ?case
    using put_char_ok(2) [OF Cons.prems, of c] same_beyond_trans by (auto simp: print_literal_def)
qed

text \<open>A terminated string away from the screen is printed character by character.\<close>

definition off_screen :: "u32 \<Rightarrow> nat \<Rightarrow> bool" where
  "off_screen a n \<longleftrightarrow> (\<forall>i\<le>n. \<not> on_screen (a + of_nat i))"

lemma off_screenI:
  assumes "unat a + n < 0xB8000 \<or> 0xB8000 + 4000 \<le> unat a \<and> unat a + n < addr_space"
  shows "off_screen a n"
  unfolding off_screen_def on_screen_def
proof (intro allI impI)
  fix i assume "i \<le> n"
  then have "unat (a + of_nat i) = unat a + i" using assms by (intro unat_plus_of_nat) auto
  then show "\<not> (0xB8000 \<le> unat (a + of_nat i) \<and> unat (a + of_nat i) < 0xB8000 + 4000)"
    using assms \<open>i \<le> n\<close> by auto
qed

lemma cstring_cong:
  assumes "cstring m p cs" and "\<And>i. i \<le> length cs \<Longrightarrow> m' (p + of_nat i) = m (p + of_nat i)"
  shows "cstring m' p cs"
  using assms
proof (induction cs arbitrary: p)
  case (Cons c cs)
  have "cstring m' (p + 1) cs"
  proof (rule Cons.IH)
    show "cstring m (p + 1) cs" using Cons.prems(1) by simp
    show "m' (p + 1 + of_nat i) = m (p + 1 + of_nat i)" if "i \<le> length cs" for i
      using Cons.prems(2) [of "Suc i"] that by (simp add: add.assoc)
  qed
  then show ?case using Cons.prems(1) Cons.prems(2) [of 0] by simp
qed auto

lemma printf_cstring:
  assumes "cursor_ok s" and "cstring (phys s) p cs" and "off_screen p (length cs)"
  shows "printf s p = Some (print_literal s cs)"
  using assms
proof (induction cs arbitrary: s p)
  case Nil
  then show ?case by (subst printf.simps) (simp add: print_literal_def)
next
  case (Cons c cs)
  have step: "printf s p = printf (put_char s c) (p + 1)"
    using Cons.prems(2) by (subst printf.simps) auto
  have off: "\<not> on_screen (p + 1 + of_nat i)" if "i \<le> length cs" for i
    using Cons.prems(3) that unfolding off_screen_def by (auto dest!: spec [of _ "Suc i"] simp: add.assoc)
  have "cstring (phys s) (p + 1) cs" using Cons.prems(2) by simp
  then have "cstring (phys (put_char s c)) (p + 1) cs"
    by (rule cstring_cong) (use off put_char_ok(2) [OF Cons.prems(1)] in \<open>auto simp: same_beyond_def\<close>)
  with Cons.IH [OF put_char_ok(1) [OF Cons.prems(1)]] off show ?case
    unfolding step by (simp add: off_screen_def print_literal_def)
qed

section \<open>Decimal output\<close>

text \<open>The number a list of ASCII digits denotes.\<close>

definition digit :: "u8 \<Rightarrow> bool" where
  "digit c \<longleftrightarrow> 0x30 \<le> c \<and> c \<le> 0x39"

definition decimal_value :: "u8 list \<Rightarrow> nat" where
  "decimal_value cs = foldl (\<lambda>a c. 10 * a + (unat c - 0x30)) 0 cs"

lemma digit_char:
  "digit (0x30 + v mod 10)" "unat (0x30 + v mod 10 :: u8) - 0x30 = unat v mod 10"
  "0x30 + v mod 10 \<noteq> (0 :: u8)"
proof -
  have "unat v mod 10 < 10" by simp
  then have u: "unat (0x30 + v mod 10 :: u8) = 0x30 + unat v mod 10"
    by (simp add: unat_word_ariths unat_mod)
  then show "digit (0x30 + v mod 10)" "unat (0x30 + v mod 10 :: u8) - 0x30 = unat v mod 10"
    using \<open>unat v mod 10 < 10\<close> by (simp_all add: digit_def word_le_nat_alt)
  show "0x30 + v mod 10 \<noteq> (0 :: u8)" using u by (metis add_is_0 unat_0 zero_neq_numeral)
qed

lemma uint8_t_to_string_cases:
  shows "unat v < 10 \<Longrightarrow> cstring (uint8_t_to_string m v b) b [0x30 + v mod 10]"
    and "10 \<le> unat v \<Longrightarrow> unat v < 100 \<Longrightarrow>
      cstring (uint8_t_to_string m v b) b [0x30 + v div 10 mod 10, 0x30 + v mod 10]"
    and "100 \<le> unat v \<Longrightarrow>
      cstring (uint8_t_to_string m v b) b [0x30 + v div 10 div 10 mod 10, 0x30 + v div 10 mod 10, 0x30 + v mod 10]"
proof -
  have gt: "x > 0 \<longleftrightarrow> unat x \<noteq> 0" for x :: u8 by (simp add: word_greater_zero_iff unat_eq_0)
  have d: "unat (v div 10) = unat v div 10" "unat (v div 10 div 10) = unat v div 100"
    "unat (v div 10 div 10 div 10) = unat v div 1000" by (simp_all add: unat_div div_mult2_eq [symmetric])
  have lt: "unat v < 256" by (rule unat_u8_lt)
  show "cstring (uint8_t_to_string m v b) b [0x30 + v mod 10]" if "unat v < 10"
    using that d digit_char(3) [of v]
    by (simp add: uint8_t_to_string_def digits_loop.simps reverse_loop.simps gt Let_def)
  show "cstring (uint8_t_to_string m v b) b [0x30 + v div 10 mod 10, 0x30 + v mod 10]"
    if "10 \<le> unat v" "unat v < 100"
    using that d digit_char(3) [of v] digit_char(3) [of "v div 10"]
    by (simp add: uint8_t_to_string_def digits_loop.simps reverse_loop.simps gt Let_def)
  show "cstring (uint8_t_to_string m v b) b
      [0x30 + v div 10 div 10 mod 10, 0x30 + v div 10 mod 10, 0x30 + v mod 10]" if "100 \<le> unat v"
    using that d lt div_greater_zero_iff [of "unat v" 100] div_greater_zero_iff [of "unat v" 10]
      digit_char(3) [of v] digit_char(3) [of "v div 10"] digit_char(3) [of "v div 10 div 10"]
    by (simp add: uint8_t_to_string_def digits_loop.simps reverse_loop.simps gt Let_def)
qed

section \<open>Properties\<close>

text \<open>
  C11: Printing a terminated string that does not lie in the video memory returns; it has the
  effect of its characters one by one, leaves the cursor inside the 80 by 25 screen whatever the
  characters are, and changes no byte outside the 4000 bytes of the screen.
\<close>
theorem printf_stays_on_screen:
  assumes "cursor_ok s" and "cstring (phys s) p cs" and "off_screen p (length cs)"
  shows "printf s p = Some (print_literal s cs) \<and> cursor_ok (print_literal s cs)
    \<and> (\<forall>a. \<not> on_screen a \<longrightarrow> phys (print_literal s cs) a = phys s a)"
  using printf_cstring [OF assms] print_literal_ok [OF assms(1), of cs] by (simp add: same_beyond_def)

definition demo_screen :: screen where
  "demo_screen = \<lparr>phys = (\<lambda>_. 0)(0x1000 := 0x48, 0x1001 := 0x0A), trace = [], memory_map = 0, max_blocks = 0,
     used_blocks = 0, first = 0, scr_x = 79, scr_y = 23\<rparr>"

lemma printf_stays_on_screen_witness:
  "\<exists>s'. printf demo_screen 0x1000 = Some s' \<and> scr_x s' = 0 \<and> scr_y s' = 0 \<and> phys s' 0x1000 = 0x48"
proof -
  have ok: "cursor_ok demo_screen" by (simp add: cursor_ok_def demo_screen_def)
  have str: "cstring (phys demo_screen) 0x1000 [0x48, 0x0A]" by (simp add: demo_screen_def)
  have "off_screen 0x1000 (length [0x48, 0x0A :: u8])"
    by (rule off_screenI) simp
  from printf_stays_on_screen [OF ok str this]
  have "printf demo_screen 0x1000 = Some (print_literal demo_screen [0x48, 0x0A])
      \<and> phys (print_literal demo_screen [0x48, 0x0A]) 0x1000 = 0x48"
    by (simp add: on_screen_def) (simp add: demo_screen_def)
  moreover have "scr_x (print_literal demo_screen [0x48, 0x0A]) = 0 \<and> scr_y (print_literal demo_screen [0x48, 0x0A]) = 0"
    by (simp add: print_literal_def put_char_def demo_screen_def Let_def clear_screen_spec)
  ultimately show ?thesis by blast
qed

text \<open>
  \<^verbatim>\<open>clear_screen\<close> ends, writes a blank into each of the 2000 cells, keeps every attribute
  byte and every byte outside the screen, and homes the cursor.
\<close>
theorem clear_screen_blanks:
  "phys (clear_screen s) a = (if on_screen a \<and> even (unat a) then 0x20 else phys s a)
   \<and> scr_x (clear_screen s) = 0 \<and> scr_y (clear_screen s) = 0"
  by (simp add: clear_screen_spec)

text \<open>
  \<^verbatim>\<open>uint8_t_to_string\<close> leaves in its 4-byte buffer a terminated string of one to three
  decimal digits that denotes the value.
\<close>
theorem uint8_t_to_string_decimal:
  "\<exists>cs. cstring (uint8_t_to_string m v b) b cs \<and> decimal_value cs = unat v
     \<and> list_all digit cs \<and> cs \<noteq> [] \<and> List.length cs \<le> 3"
proof -
  note digits = digit_char(1) [of v] digit_char(1) [of "v div 10"] digit_char(1) [of "v div 10 div 10"]
    digit_char(2) [of v] digit_char(2) [of "v div 10"] digit_char(2) [of "v div 10 div 10"]
  have d: "unat (v div 10) = unat v div 10" "unat (v div 10 div 10) = unat v div 100"
    by (simp_all add: unat_div div_mult2_eq [symmetric])
  consider "unat v < 10" | "10 \<le> unat v" "unat v < 100" | "100 \<le> unat v" "unat v < 256"
    using unat_u8_lt [of v] by linarith
  then show ?thesis
  proof cases
    case 1
    then show ?thesis
      using uint8_t_to_string_cases(1) [of v m b] digits
      by (intro exI [of _ "[0x30 + v mod 10]"]) (simp add: decimal_value_def)
  next
    case 2
    then show ?thesis
      using uint8_t_to_string_cases(2) [of v m b] digits d
      by (intro exI [of _ "[0x30 + v div 10 mod 10, 0x30 + v mod 10]"]) (simp add: decimal_value_def)
  next
    case 3
    have "10 * (10 * (unat v div 100) + unat v div 10 mod 10) + unat v mod 10 = unat v"
      using div_mult2_eq [of "unat v" 10 10] by simp
    then show ?thesis
      using 3 uint8_t_to_string_cases(3) [of v m b] digits d
      by (intro exI [of _ "[0x30 + v div 10 div 10 mod 10, 0x30 + v div 10 mod 10, 0x30 + v mod 10]"])
        (simp add: decimal_value_def)
  qed
qed

end
