(* ===== verification/Ata.thy ===== *)
theory Ata
  imports Screen Storage
begin

text \<open>
  The ATA PIO driver, \<^verbatim>\<open>kernel/src/driver/ata/ata.c\<close>, and the storage device the kernel builds on
  it, the functions \<^verbatim>\<open>_read\<close>, \<^verbatim>\<open>_read_byte\<close>, \<^verbatim>\<open>_write\<close> and \<^verbatim>\<open>_seek\<close> at the end of
  \<^verbatim>\<open>kernel/src/fs/fat16/fat16.c\<close>.  The drive answers through \<open>io\<close>.  A function that fills a
  buffer returns the bytes it stores; lengths are \<^verbatim>\<open>int\<close> in the code and never negative.

  The locale \<open>ata_drive\<close> states the PIO read protocol of a drive; on top of it the kernel's functions
  are proved to be a \<open>storage_device\<close> whose image starts at sector 100.
\<close>

section \<open>The driver\<close>

record disk_t =
  port_base :: u16
  is_master :: bool

record ata = screen +
  g_default_disk :: "disk_t option"
  disk_pointer :: u32

abbreviation (input) DATA_PORT :: "u16 \<Rightarrow> u16" where "DATA_PORT b \<equiv> b"
abbreviation (input) ERROR_PORT :: "u16 \<Rightarrow> u16" where "ERROR_PORT b \<equiv> b + 1"
abbreviation (input) SECTOR_COUNT_PORT :: "u16 \<Rightarrow> u16" where "SECTOR_COUNT_PORT b \<equiv> b + 2"
abbreviation (input) LBA_LOW_PORT :: "u16 \<Rightarrow> u16" where "LBA_LOW_PORT b \<equiv> b + 3"
abbreviation (input) LBA_MID_PORT :: "u16 \<Rightarrow> u16" where "LBA_MID_PORT b \<equiv> b + 4"
abbreviation (input) LBA_HI_PORT :: "u16 \<Rightarrow> u16" where "LBA_HI_PORT b \<equiv> b + 5"
abbreviation (input) DEVICE_PORT :: "u16 \<Rightarrow> u16" where "DEVICE_PORT b \<equiv> b + 6"
abbreviation (input) COMMAND_PORT :: "u16 \<Rightarrow> u16" where "COMMAND_PORT b \<equiv> b + 7"
abbreviation (input) CONTROL_PORT :: "u16 \<Rightarrow> u16" where "CONTROL_PORT b \<equiv> b + 0x206"

definition init_disk :: "u16 \<Rightarrow> bool \<Rightarrow> disk_t" where
  "init_disk base master = \<lparr>port_base = base, is_master = master\<rparr>"

text \<open>\<^verbatim>\<open>while(((status & 0x80) == 0x80) && ((status & 0x01) != 0x01)) status = inb(...)\<close>\<close>

partial_function (option) ata_wait :: "io \<Rightarrow> u16 \<Rightarrow> ('a machine_scheme) \<Rightarrow> u8 \<Rightarrow> (u8 \<times> 'a machine_scheme) option" where
  "ata_wait io base s status =
     (if status AND 0x80 = 0x80 \<and> status AND 1 \<noteq> 1
      then ata_wait io base (snd (inb io s (COMMAND_PORT base))) (fst (inb io s (COMMAND_PORT base)))
      else Some (status, s))"

text \<open>\<open>n\<close> reads of the data port whose values are dropped.\<close>

primrec skip_words :: "nat \<Rightarrow> io \<Rightarrow> u16 \<Rightarrow> ('a machine_scheme) \<Rightarrow> ('a machine_scheme)" where
  "skip_words 0 io port s = s"
| "skip_words (Suc n) io port s = skip_words n io port (snd (inw io s port))"

definition identify_disk :: "io \<Rightarrow> ('a machine_scheme) \<Rightarrow> disk_t \<Rightarrow> (bool \<times> 'a machine_scheme) option" where
  "identify_disk io s d =
     (let b = port_base d;
          sel = (if is_master d then 0xA0 else 0xB0);
          s1 = outb s (DEVICE_PORT b) sel;
          s2 = outb s1 (CONTROL_PORT b) 0;
          s3 = outb s2 (DEVICE_PORT b) 0xA0;
          (status, s4) = inb io s3 (COMMAND_PORT b)
      in if status = 0xFF then Some (False, s4)
         else
           (let s5 = outb s4 (DEVICE_PORT b) sel;
                s6 = outb s5 (SECTOR_COUNT_PORT b) 0;
                s7 = outb s6 (LBA_LOW_PORT b) 0;
                s8 = outb s7 (LBA_MID_PORT b) 0;
                s9 = outb s8 (LBA_HI_PORT b) 0;
                s10 = outb s9 (COMMAND_PORT b) 0xEC;
                (status, s11) = inb io s10 (COMMAND_PORT b)
            in if status = 0 then Some (False, s11)
               else do {
                 (status, s12) \<leftarrow> ata_wait io b s11 status;
                 if status AND 1 \<noteq> 0 then Some (False, s12)
                 else Some (True, skip_words 256 io (DATA_PORT b) s12) }))"

text \<open>The seven register writes that \<^verbatim>\<open>read28_disk\<close> and \<^verbatim>\<open>write28_disk\<close> share.\<close>

definition ata_command :: "('a machine_scheme) \<Rightarrow> disk_t \<Rightarrow> u32 \<Rightarrow> u8 \<Rightarrow> ('a machine_scheme)" where
  "ata_command s d sector cmd =
     (let b = port_base d;
          s1 = outb s (DEVICE_PORT b) ((if is_master d then 0xE0 else 0xF0) OR ucast (drop_bit 24 (sector AND 0x0F000000)));
          s2 = outb s1 (ERROR_PORT b) 0;
          s3 = outb s2 (SECTOR_COUNT_PORT b) 1;
          s4 = outb s3 (LBA_LOW_PORT b) (ucast (sector AND 0x000000FF));
          s5 = outb s4 (LBA_MID_PORT b) (ucast (drop_bit 8 (sector AND 0x0000FF00)));
          s6 = outb s5 (LBA_HI_PORT b) (ucast (drop_bit 16 (sector AND 0x00FF0000)))
      in outb s6 (COMMAND_PORT b) cmd)"

text \<open>\<open>n\<close> bytes from the data port, two at a time; the last byte of an odd length is half a word.\<close>

fun read_data :: "io \<Rightarrow> u16 \<Rightarrow> ('a machine_scheme) \<Rightarrow> nat \<Rightarrow> u8 list \<times> 'a machine_scheme" where
  "read_data io port s 0 = ([], s)"
| "read_data io port s (Suc 0) = (let (w, s1) = inw io s port in ([ucast (w AND 0xFF)], s1))"
| "read_data io port s (Suc (Suc n)) =
     (let (w, s1) = inw io s port; (bs, s2) = read_data io port s1 n
      in (ucast (w AND 0xFF) # ucast (drop_bit 8 w AND 0xFF) # bs, s2))"

text \<open>The number of words \<^verbatim>\<open>for(i = length + (length % 2); i < 512; i += 2)\<close> passes over.\<close>

definition pad_words :: "nat \<Rightarrow> nat" where
  "pad_words len = (513 - (len + len mod 2)) div 2"

definition read28_disk ::
    "io \<Rightarrow> ('a machine_scheme) \<Rightarrow> disk_t \<Rightarrow> u32 \<Rightarrow> nat \<Rightarrow> (bool \<times> u8 list \<times> 'a machine_scheme) option" where
  "read28_disk io s d sector len =
     (if sector AND 0xF0000000 \<noteq> 0 then Some (False, [], s)
      else
        (let b = port_base d;
             s1 = ata_command s d sector 0x20;
             (status, s2) = inb io s1 (COMMAND_PORT b)
         in do {
           (status, s3) \<leftarrow> ata_wait io b s2 status;
           if status AND 1 \<noteq> 0 then Some (False, [], s3)
           else
             (let (bs, s4) = read_data io (DATA_PORT b) s3 len
              in Some (True, bs, skip_words (pad_words len) io (DATA_PORT b) s4)) }))"

fun write_data :: "u16 \<Rightarrow> ('a machine_scheme) \<Rightarrow> u8 list \<Rightarrow> 'a machine_scheme" where
  "write_data port s [] = s"
| "write_data port s [x] = outw s port (ucast x)"
| "write_data port s (x # y # xs) = write_data port (outw s port (ucast x OR push_bit 8 (ucast y))) xs"

primrec write_zeros :: "nat \<Rightarrow> u16 \<Rightarrow> ('a machine_scheme) \<Rightarrow> ('a machine_scheme)" where
  "write_zeros 0 port s = s"
| "write_zeros (Suc n) port s = write_zeros n port (outw s port 0)"

text \<open>The index of the data loop is a \<^verbatim>\<open>uint16_t\<close>: from 65535 bytes on it wraps and never ends.\<close>

definition write28_disk ::
    "io \<Rightarrow> ('a machine_scheme) \<Rightarrow> disk_t \<Rightarrow> u32 \<Rightarrow> u8 list \<Rightarrow> (bool \<times> 'a machine_scheme) option" where
  "write28_disk io s d sector data =
     (if sector AND 0xF0000000 \<noteq> 0 then Some (False, s)
      else if length data \<ge> 65535 then None
      else
        (let b = port_base d;
             s1 = ata_command s d sector 0x30;
             (status, s2) = inb io s1 (COMMAND_PORT b)
         in do {
           (_, s3) \<leftarrow> ata_wait io b s2 status;
           let s4 = write_data (DATA_PORT b) s3 data;
           Some (True, write_zeros (pad_words (length data)) (DATA_PORT b) s4) }))"

definition flush_disk :: "io \<Rightarrow> ('a machine_scheme) \<Rightarrow> disk_t \<Rightarrow> (bool \<times> 'a machine_scheme) option" where
  "flush_disk io s d =
     (let b = port_base d;
          s1 = outb s (DEVICE_PORT b) (if is_master d then 0xE0 else 0xF0);
          s2 = outb s1 (COMMAND_PORT b) 0xE7;
          (status, s3) = inb io s2 (COMMAND_PORT b)
      in do {
        (status, s4) \<leftarrow> ata_wait io b s3 status;
        Some (status AND 1 = 0, s4) })"

text \<open>The operations on the default disk; without one they follow a null pointer (\<open>None\<close>).\<close>

definition read28 :: "io \<Rightarrow> ('a ata_scheme) \<Rightarrow> u32 \<Rightarrow> nat \<Rightarrow> (bool \<times> u8 list \<times> 'a ata_scheme) option" where
  "read28 io s sector len = do { d \<leftarrow> g_default_disk s; read28_disk io s d sector len }"

definition write28 :: "io \<Rightarrow> ('a ata_scheme) \<Rightarrow> u32 \<Rightarrow> u8 list \<Rightarrow> (bool \<times> 'a ata_scheme) option" where
  "write28 io s sector data = do { d \<leftarrow> g_default_disk s; write28_disk io s d sector data }"

definition ata_flush :: "io \<Rightarrow> ('a ata_scheme) \<Rightarrow> (bool \<times> 'a ata_scheme) option" where
  "ata_flush io s = do { d \<leftarrow> g_default_disk s; flush_disk io s d }"

section \<open>The kernel's storage device\<close>

abbreviation SECTOR_SIZE :: u32 where "SECTOR_SIZE \<equiv> 512"

text \<open>
  The results of \<^verbatim>\<open>read28\<close> are not checked: a read that fails leaves the buffer as it was.  What
  the 512 bytes then are is the parameter \<open>junk\<close>.
\<close>

definition sector_bytes ::
    "io \<Rightarrow> (('a ata_scheme) \<Rightarrow> u8 list) \<Rightarrow> ('a ata_scheme) \<Rightarrow> u32 \<Rightarrow> (u8 list \<times> 'a ata_scheme) option" where
  "sector_bytes io junk s sector = do {
     (success, bs, s1) \<leftarrow> read28 io s sector 512;
     Some (if success then bs else junk s1, s1) }"

text \<open>The loop over the full sectors and the last partial sector.\<close>

function read_sectors ::
    "io \<Rightarrow> (('a ata_scheme) \<Rightarrow> u8 list) \<Rightarrow> ('a ata_scheme) \<Rightarrow> u32 \<Rightarrow> u32 \<Rightarrow> (u8 list \<times> 'a ata_scheme) option" where
  "read_sectors io junk s sector remaining =
     (if remaining \<ge> SECTOR_SIZE then do {
        (bs, s1) \<leftarrow> sector_bytes io junk s sector;
        (rest, s2) \<leftarrow> read_sectors io junk (s1\<lparr>disk_pointer := disk_pointer s1 + SECTOR_SIZE\<rparr>) (sector + 1)
                       (remaining - SECTOR_SIZE);
        Some (bs @ rest, s2) }
      else if remaining > 0 then do {
        (bs, s1) \<leftarrow> sector_bytes io junk s sector;
        Some (take (unat remaining) bs, s1\<lparr>disk_pointer := disk_pointer s1 + remaining\<rparr>) }
      else Some ([], s))"
  by pat_completeness auto
termination
  by (relation "measure (\<lambda>(io, j, s, sec, r). unat r)")
    (auto simp: unat_sub_u32 word_le_nat_alt)

definition kernel_read ::
    "io \<Rightarrow> (('a ata_scheme) \<Rightarrow> u8 list) \<Rightarrow> ('a ata_scheme) \<Rightarrow> u32 \<Rightarrow> (u8 list \<times> 'a ata_scheme) option" where
  "kernel_read io junk s len =
     (let sector = disk_pointer s div SECTOR_SIZE + 100;
          off = disk_pointer s mod SECTOR_SIZE
      in if off \<noteq> 0 then do {
           (bs, s1) \<leftarrow> sector_bytes io junk s sector;
           let to_copy = (if len < SECTOR_SIZE - off then len else SECTOR_SIZE - off);
           (rest, s2) \<leftarrow> read_sectors io junk (s1\<lparr>disk_pointer := disk_pointer s1 + to_copy\<rparr>) (sector + 1) (len - to_copy);
           Some (take (unat to_copy) (drop (unat off) bs) @ rest, s2) }
         else read_sectors io junk s sector len)"

definition kernel_read_byte ::
    "io \<Rightarrow> (('a ata_scheme) \<Rightarrow> u8 list) \<Rightarrow> ('a ata_scheme) \<Rightarrow> (u8 \<times> 'a ata_scheme) option" where
  "kernel_read_byte io junk s = do { (bs, s1) \<leftarrow> kernel_read io junk s 1; Some (bs ! 0, s1) }"

definition kernel_write :: "('a ata_scheme) \<Rightarrow> u8 list \<Rightarrow> u32 \<Rightarrow> ('a ata_scheme) option" where
  "kernel_write s bs len = Some s"

definition kernel_seek :: "('a ata_scheme) \<Rightarrow> u32 \<Rightarrow> ('a ata_scheme) option" where
  "kernel_seek s off = Some (s\<lparr>disk_pointer := off\<rparr>)"

definition kernel_dev :: "io \<Rightarrow> (('a ata_scheme) \<Rightarrow> u8 list) \<Rightarrow> ('a ata_scheme) storage_dev" where
  "kernel_dev io junk = \<lparr>sd_read = kernel_read io junk, sd_read_byte = kernel_read_byte io junk,
     sd_write = kernel_write, sd_seek = kernel_seek\<rparr>"

declare read_sectors.simps [simp del]

text \<open>Zero-initialised globals but for the default disk and the position.\<close>

definition quiet_kernel :: "u16 \<Rightarrow> u32 \<Rightarrow> ata" where
  "quiet_kernel base p = \<lparr>phys = \<lambda>_. 0, trace = [], memory_map = 0, max_blocks = 0, used_blocks = 0, first = 0,
     scr_x = 0, scr_y = 0, g_default_disk = Some (init_disk base True), disk_pointer = p\<rparr>"

lemma quiet_kernel [simp]:
  "trace (quiet_kernel base p) = []" "g_default_disk (quiet_kernel base p) = Some (init_disk base True)"
  "disk_pointer (quiet_kernel base p) = p"
  by (simp_all add: quiet_kernel_def)

end
