(* ===== verification/Ata_Drive.thy ===== *)
theory Ata_Drive
  imports Ata
begin

text \<open>
  The contract of an ATA drive in PIO mode, and what the kernel makes of it: \<^verbatim>\<open>read28_disk\<close>
  returns the sector, and the functions \<^verbatim>\<open>_read\<close>, \<^verbatim>\<open>_read_byte\<close>, \<^verbatim>\<open>_seek\<close> provide the
  storage device the FAT16 driver relies on.
\<close>

section \<open>Bytes of words\<close>

lemma mask_bytes:
  fixes w :: u16 and x :: u32
  shows "ucast (w AND 0xFF) = byte_of 0 w" and "ucast (drop_bit 8 w AND 0xFF) = byte_of 1 w"
    and "ucast (x AND 0x000000FF) = byte_of 0 x" and "ucast (drop_bit 8 (x AND 0x0000FF00)) = byte_of 1 x"
    and "ucast (drop_bit 16 (x AND 0x00FF0000)) = byte_of 2 x"
    and "ucast (drop_bit 24 (x AND 0x0F000000)) = byte_of 3 x AND 0x0F"
proof -
  have m: "(0xFF :: u16) = mask 8" "(0x000000FF :: u32) = mask 8" "(0x0000FF00 :: u32) = push_bit 8 (mask 8)"
    "(0x00FF0000 :: u32) = push_bit 16 (mask 8)" "(0x0F000000 :: u32) = push_bit 24 (mask 4)" "(0x0F :: u8) = mask 4"
    by (simp_all add: mask_numeral)
  show "ucast (w AND 0xFF) = byte_of 0 w" "ucast (drop_bit 8 w AND 0xFF) = byte_of 1 w"
    unfolding m by (rule bit_word_eqI, auto simp: byte_of_def bit_simps)+
  show "ucast (x AND 0x000000FF) = byte_of 0 x" "ucast (drop_bit 8 (x AND 0x0000FF00)) = byte_of 1 x"
    "ucast (drop_bit 16 (x AND 0x00FF0000)) = byte_of 2 x"
    "ucast (drop_bit 24 (x AND 0x0F000000)) = byte_of 3 x AND 0x0F"
    unfolding m by (rule bit_word_eqI, auto simp: byte_of_def bit_simps)+
qed

section \<open>The PIO read protocol\<close>

text \<open>
  READ SECTOR(S) with a 28-bit address and a count of one, as the registers are written, newest
  event first: device and bits 24-27, features, count, bits 0-7, 8-15, 16-23, command 0x20.
\<close>

definition read_command :: "u16 \<Rightarrow> bool \<Rightarrow> u32 \<Rightarrow> cpu_event list" where
  "read_command b master lba =
     [Out8 (b + 7) 0x20, Out8 (b + 5) (byte_of 2 lba), Out8 (b + 4) (byte_of 1 lba),
      Out8 (b + 3) (byte_of 0 lba), Out8 (b + 2) 1, Out8 (b + 1) 0,
      Out8 (b + 6) ((if master then 0xE0 else 0xF0) OR (byte_of 3 lba AND 0x0F))]"

text \<open>
  A drive at port \<open>base\<close> with \<open>sectors\<close> sectors whose contents are \<open>platter\<close>.  Its state is read off
  the history of events: \<open>idle\<close>; \<open>busy n lba\<close>, a read command accepted and \<open>n\<close> status reads to go
  until the data is there; \<open>transfer lba k\<close>, \<open>k\<close> words of the sector handed over.
\<close>

locale ata_drive =
  fixes io :: io and base :: u16 and master :: bool and platter :: "nat \<Rightarrow> u8" and sectors :: nat
    and idle :: "cpu_event list \<Rightarrow> bool"
    and busy :: "nat \<Rightarrow> u32 \<Rightarrow> cpu_event list \<Rightarrow> bool"
    and transfer :: "u32 \<Rightarrow> nat \<Rightarrow> cpu_event list \<Rightarrow> bool"
  assumes command: "idle h \<Longrightarrow> unat lba < sectors \<Longrightarrow> \<exists>n. busy n lba (read_command base master lba @ h)"
    and busy_status: "busy (Suc n) lba h \<Longrightarrow> v = ucast (io h (base + 7)) \<Longrightarrow>
      v AND 0x80 = 0x80 \<and> v AND 1 = 0 \<and> busy n lba (In8 (base + 7) v # h)"
    and ready_status: "busy 0 lba h \<Longrightarrow> v = ucast (io h (base + 7)) \<Longrightarrow>
      v AND 0x80 = 0 \<and> v AND 1 = 0 \<and> transfer lba 0 (In8 (base + 7) v # h)"
    and word: "transfer lba k h \<Longrightarrow> k < 256 \<Longrightarrow> w = ucast (io h base) \<Longrightarrow>
      byte_of 0 w = platter (512 * unat lba + 2 * k) \<and> byte_of 1 w = platter (512 * unat lba + 2 * k + 1)
      \<and> transfer lba (Suc k) (In16 base w # h)"
    and finished: "transfer lba 256 h \<Longrightarrow> idle h"
    and lba28: "sectors \<le> 2 ^ 28"
begin

lemma wait_ready:
  assumes "busy n lba (trace s)"
  shows "\<exists>v t. ata_wait io base (snd (inb io s (base + 7))) (fst (inb io s (base + 7))) = Some (v, s\<lparr>trace := t\<rparr>)
    \<and> v AND 1 = 0 \<and> transfer lba 0 t"
  using assms
proof (induction n arbitrary: s)
  case 0
  from ready_status [OF 0 refl] show ?case
    by (subst ata_wait.simps) (auto simp: inb_def cpu_def Let_def)
next
  case (Suc n)
  let ?s = "snd (inb io s (base + 7))"
  from busy_status [OF Suc.prems refl] have "busy n lba (trace ?s)" "fst (inb io s (base + 7)) AND 0x80 = 0x80"
    "fst (inb io s (base + 7)) AND 1 \<noteq> 1"
    by (simp_all add: inb_def cpu_def Let_def)
  with Suc.IH [of ?s] show ?case
    by (subst ata_wait.simps) (simp add: inb_def cpu_def Let_def)
qed

lemma read_words:
  assumes "transfer lba k (trace s)" and "k + n \<le> 256"
  shows "\<exists>t. read_data io base s (2 * n) = (bytes_at platter (512 * unat lba + 2 * k) (2 * n), s\<lparr>trace := t\<rparr>)
    \<and> transfer lba (k + n) t"
  using assms
proof (induction n arbitrary: s k)
  case 0
  then show ?case by (auto intro!: exI [of _ "trace s"])
next
  case (Suc n)
  let ?w = "ucast (io (trace s) base) :: u16"
  have k: "k < 256" using Suc.prems(2) by simp
  note w = word [OF Suc.prems(1) k refl]
  have b: "ucast (?w AND 0xFF) = byte_of 0 ?w" "ucast (drop_bit 8 ?w AND 0xFF) = byte_of 1 ?w"
    by (rule mask_bytes)+
  have bytes: "bytes_at platter p (Suc (Suc (2 * n))) = platter p # platter (p + 1) # bytes_at platter (p + 2) (2 * n)" for p
    using bytes_at_append [of platter p 2 "2 * n"] by (simp add: bytes_at_def numeral_2_eq_2)
  have "transfer lba (Suc k) (trace (snd (inw io s base)))" using w by (simp add: inw_def cpu_def Let_def)
  from Suc.IH [OF this] Suc.prems(2) obtain t where t:
    "read_data io base (snd (inw io s base)) (2 * n)
      = (bytes_at platter (512 * unat lba + 2 * k + 2) (2 * n), s\<lparr>trace := t\<rparr>)"
    "transfer lba (k + Suc n) t"
    by (auto simp: inw_def cpu_def Let_def)
  show ?case
    using t w b by (intro exI [of _ t]) (simp add: bytes inw_def Let_def)
qed


lemma lba_in_range:
  assumes "unat (lba :: u32) < sectors"
  shows "lba AND 0xF0000000 = 0"
proof -
  have "unat lba < 2 ^ 28" using assms lba28 by simp
  then have "take_bit 28 lba = lba"
    by (simp add: unat_eq_iff_eq [symmetric] unsigned_take_bit_eq take_bit_nat_eq_self)
  then have "\<not> bit lba n" if "28 \<le> n" for n using that by (metis bit_take_bit_iff linorder_not_le)
  moreover have e: "(0xF0000000 :: u32) = push_bit 28 (mask 4)" by (simp add: mask_numeral)
  ultimately show ?thesis unfolding e by (intro bit_word_eqI) (auto simp: bit_simps)
qed

abbreviation (input) the_disk :: disk_t where "the_disk \<equiv> \<lparr>port_base = base, is_master = master\<rparr>"

lemma command_trace: "ata_command s the_disk lba 0x20 = s\<lparr>trace := read_command base master lba @ trace s\<rparr>"
  unfolding ata_command_def mask_bytes read_command_def Let_def outb_def cpu_def by simp

lemma read28_disk_sector:
  assumes "idle (trace s)" and "unat lba < sectors"
  shows "\<exists>t. read28_disk io s the_disk lba 512 = Some (True, bytes_at platter (512 * unat lba) 512, s\<lparr>trace := t\<rparr>)
    \<and> idle t"
proof -
  let ?s = "ata_command s the_disk lba 0x20"
  obtain n where "busy n lba (trace ?s)" using command [OF assms] by (auto simp: command_trace)
  from wait_ready [OF this] obtain v t where v: "v AND 1 = 0" "transfer lba 0 t"
    "ata_wait io base (snd (inb io ?s (base + 7))) (fst (inb io ?s (base + 7))) = Some (v, ?s\<lparr>trace := t\<rparr>)"
    by blast
  from read_words [of lba 0 "?s\<lparr>trace := t\<rparr>" 256] v(2) obtain t' where
    "read_data io base (?s\<lparr>trace := t\<rparr>) 512 = (bytes_at platter (512 * unat lba) 512, ?s\<lparr>trace := t'\<rparr>)"
    "transfer lba 256 t'" by auto
  then show ?thesis
    using v finished lba_in_range [OF assms(2)]
    by (intro exI [of _ t']) (simp add: read28_disk_def Let_def split_beta pad_words_def command_trace)
qed

section \<open>The storage device\<close>

definition kernel_ok :: "('a ata_scheme) \<Rightarrow> bool" where
  "kernel_ok s \<longleftrightarrow> g_default_disk s = Some the_disk \<and> idle (trace s)"

lemma sector_bytes_platter:
  assumes "kernel_ok s" and "unat lba < sectors"
  shows "\<exists>t. sector_bytes io junk s lba = Some (bytes_at platter (512 * unat lba) 512, s\<lparr>trace := t\<rparr>)
    \<and> kernel_ok (s\<lparr>trace := t\<rparr>)"
  using read28_disk_sector [of s lba] assms by (auto simp: sector_bytes_def read28_def kernel_ok_def)

lemma kernel_ok_pointer [simp]: "kernel_ok (s\<lparr>disk_pointer := p\<rparr>) = kernel_ok s"
  by (simp add: kernel_ok_def)

lemma read_sectors_platter:
  assumes "kernel_ok s" and "512 * unat sector + unat remaining \<le> 512 * sectors"
  shows "\<exists>t. read_sectors io junk s sector remaining
      = Some (bytes_at platter (512 * unat sector) (unat remaining), s\<lparr>trace := t, disk_pointer := disk_pointer s + remaining\<rparr>)
    \<and> kernel_ok (s\<lparr>trace := t\<rparr>)"
  using assms
proof (induction "unat remaining" arbitrary: s sector remaining rule: less_induct)
  case less
  consider "remaining \<ge> 512" | "0 < remaining" "remaining < 512" | "remaining = 0"
    by (metis not_le word_neq_0_conv)
  then show ?case
  proof cases
    case 1
    then have r: "512 \<le> unat remaining" by (simp add: word_le_nat_alt)
    then have r': "unat (remaining - 512) = unat remaining - 512" by (simp add: unat_sub_u32)
    have lt: "unat sector < sectors" using less.prems(2) r by simp
    then have sec: "unat (sector + 1) = unat sector + 1" using lba28 by (intro unat_plus_one) simp
    obtain t where t: "sector_bytes io junk s sector = Some (bytes_at platter (512 * unat sector) 512, s\<lparr>trace := t\<rparr>)"
      "kernel_ok (s\<lparr>trace := t\<rparr>)" using sector_bytes_platter [OF less.prems(1) lt] by blast
    let ?s = "s\<lparr>trace := t, disk_pointer := disk_pointer s + 512\<rparr>"
    have "unat (remaining - 512) < unat remaining" "kernel_ok ?s"
      "512 * unat (sector + 1) + unat (remaining - 512) \<le> 512 * sectors"
      using t(2) r r' sec less.prems(2) by simp_all
    from less.hyps [OF this] obtain t' where t':
      "read_sectors io junk ?s (sector + 1) (remaining - 512) = Some
         (bytes_at platter (512 * unat (sector + 1)) (unat (remaining - 512)),
          s\<lparr>trace := t', disk_pointer := disk_pointer s + remaining\<rparr>)" "kernel_ok (s\<lparr>trace := t'\<rparr>)"
      by (auto simp: kernel_ok_def)
    have at: "bytes_at platter (512 * unat (sector + 1)) (unat (remaining - 512))
        = bytes_at platter (512 * unat sector + 512) (unat remaining - 512)"
      unfolding r' sec by (simp add: algebra_simps)
    have "bytes_at platter (512 * unat sector) (unat remaining)
        = bytes_at platter (512 * unat sector) 512 @ bytes_at platter (512 * unat sector + 512) (unat remaining - 512)"
      using bytes_at_append [of platter "512 * unat sector" 512 "unat remaining - 512"] r by simp
    then show ?thesis
      using 1 t t' [unfolded at] by (subst read_sectors.simps) (auto simp: kernel_ok_def)
  next
    case 2
    then have r: "0 < unat remaining" "unat remaining < 512" by (simp_all add: word_less_nat_alt unat_gt_0)
    then have "unat sector < sectors" using less.prems(2) by simp
    then obtain t where "sector_bytes io junk s sector = Some (bytes_at platter (512 * unat sector) 512, s\<lparr>trace := t\<rparr>)"
      "kernel_ok (s\<lparr>trace := t\<rparr>)" using sector_bytes_platter [OF less.prems(1)] by blast
    then show ?thesis
      using 2 r by (subst read_sectors.simps) (auto simp: take_bytes_at min_def intro!: exI [of _ t])
  next
    case 3
    then show ?thesis
      using less.prems(1) by (subst read_sectors.simps) (auto intro!: exI [of _ "trace s"])
  qed
qed

text \<open>The image the FAT16 driver sees starts at sector 100 (\<^verbatim>\<open>sector += 100\<close>).\<close>

definition image_limit :: nat where
  "image_limit = min (512 * (sectors - 100)) (2 ^ 32 - 1)"

definition fs_image :: "nat \<Rightarrow> u8" where
  "fs_image i = platter (512 * 100 + i)"

lemma bytes_at_fs_image: "bytes_at fs_image p n = bytes_at platter (51200 + p) n"
  by (rule nth_equalityI) (simp_all add: fs_image_def add.assoc)

lemma kernel_read_image:
  assumes "kernel_ok s" and "unat (disk_pointer s) + unat len \<le> image_limit"
  shows "\<exists>t. kernel_read io junk s len
      = Some (bytes_at fs_image (unat (disk_pointer s)) (unat len), s\<lparr>trace := t, disk_pointer := disk_pointer s + len\<rparr>)
    \<and> kernel_ok (s\<lparr>trace := t\<rparr>)"
proof -
  let ?p = "unat (disk_pointer s)" and ?sec = "disk_pointer s div 512 + 100" and ?off = "disk_pointer s mod 512"
  have lim: "?p + unat len \<le> 512 * (sectors - 100)"
    using assms(2) by (auto simp: image_limit_def)
  have off: "unat ?off = ?p mod 512" and "unat (disk_pointer s div 512) = ?p div 512"
    by (simp_all add: unat_mod unat_div)
  then have sec: "unat ?sec = ?p div 512 + 100"
    using unsigned_less [of "disk_pointer s", where ?'a = nat] by (subst unat_plus_if') (auto simp: less_mult_imp_div_less)
  have p: "512 * (?p div 512) + ?p mod 512 = ?p" by simp
  have img: "bytes_at fs_image ?p n = bytes_at platter (512 * unat ?sec + ?p mod 512) n" for n
    unfolding bytes_at_fs_image sec by (rule arg_cong [where f = "\<lambda>x. bytes_at platter x n"]) simp
  show ?thesis
  proof (cases "?off = 0")
    case True
    then have z: "?p mod 512 = 0" using off by simp
    show ?thesis
    proof (cases "len = 0")
      case True
      then show ?thesis using assms(1) \<open>?off = 0\<close>
        by (auto simp: kernel_read_def read_sectors.simps intro!: exI [of _ "trace s"])
    next
      case False
      then have "0 < unat len" by (simp add: unat_gt_0)
      then have "512 * unat ?sec + unat len \<le> 512 * sectors" using lim sec z p by linarith
      from read_sectors_platter [OF assms(1) this, of junk] show ?thesis
        using True by (simp add: kernel_read_def img z)
    qed
  next
    case False
    then have z: "0 < ?p mod 512" using off by (metis neq0_conv unat_eq_zero)
    have lt: "unat ?sec < sectors" using lim sec z p by linarith
    have "unat (?sec + 1) = unat ?sec + 1" using lt lba28 by (intro unat_plus_one) simp
    then have sec1: "512 * unat (?sec + 1) = 512 * unat ?sec + 512" by simp
    define c where "c = (if len < 512 - ?off then len else 512 - ?off)"
    have o: "unat (512 - ?off) = 512 - ?p mod 512"
      using off by (subst unat_sub_u32) (auto simp: word_le_nat_alt)
    then have c: "unat c = min (unat len) (512 - ?p mod 512)" "unat (len - c) = unat len - unat c"
      by (auto simp: c_def word_less_nat_alt min_def unat_sub_u32 word_le_nat_alt)
    obtain t where t: "sector_bytes io junk s ?sec = Some (bytes_at platter (512 * unat ?sec) 512, s\<lparr>trace := t\<rparr>)"
      "kernel_ok (s\<lparr>trace := t\<rparr>)" using sector_bytes_platter [OF assms(1) lt] by blast
    let ?s = "s\<lparr>trace := t, disk_pointer := disk_pointer s + c\<rparr>"
    have k: "kernel_ok ?s" using t(2) by (simp add: kernel_ok_def)
    have "512 * unat (?sec + 1) + unat (len - c) \<le> 512 * sectors"
      using lim sec p lt unfolding sec1 c by (auto simp: min_def)
    from read_sectors_platter [OF k this, of junk] obtain t' where t':
      "read_sectors io junk ?s (?sec + 1) (len - c)
        = Some (bytes_at platter (512 * unat ?sec + 512) (unat len - unat c), s\<lparr>trace := t', disk_pointer := disk_pointer s + len\<rparr>)"
      "kernel_ok (s\<lparr>trace := t'\<rparr>)"
      unfolding sec1 c(2) by (auto simp: kernel_ok_def)
    have "bytes_at fs_image ?p (unat len) = take (unat c) (drop (unat ?off) (bytes_at platter (512 * unat ?sec) 512))
        @ bytes_at platter (512 * unat ?sec + 512) (unat len - unat c)"
    proof (cases "unat len \<le> 512 - ?p mod 512")
      case True
      then show ?thesis by (simp add: img off c drop_bytes_at take_bytes_at min_def)
    next
      case False
      then have l: "unat len = (512 - ?p mod 512) + (unat len - (512 - ?p mod 512))" "unat c = 512 - ?p mod 512"
        by (simp_all add: c)
      show ?thesis unfolding img by (subst l(1), subst bytes_at_append) (simp add: l(2) off drop_bytes_at take_bytes_at)
    qed
    then show ?thesis
      using False t(1) t' by (auto simp: kernel_read_def Let_def c_def [symmetric])
  qed
qed

lemma kernel_storage: "storage_device (kernel_dev io junk) kernel_ok (\<lambda>s. unat (disk_pointer s)) fs_image image_limit"
proof
  fix s :: "'a ata_scheme" and n :: u32
  assume s: "kernel_ok s" and n: "unat (disk_pointer s) + unat n \<le> image_limit"
  then have "unat (disk_pointer s + n) = unat (disk_pointer s) + unat n"
    by (subst unat_plus_if') (auto simp: image_limit_def)
  with kernel_read_image [OF s n, of junk]
  show "\<exists>d'. sd_read (kernel_dev io junk) s n = Some (bytes_at fs_image (unat (disk_pointer s)) (unat n), d')
      \<and> kernel_ok d' \<and> unat (disk_pointer d') = unat (disk_pointer s) + unat n"
    by (auto simp: kernel_dev_def kernel_ok_def)
next
  fix s :: "'a ata_scheme"
  assume s: "kernel_ok s" and n: "unat (disk_pointer s) + 1 \<le> image_limit"
  then have "unat (disk_pointer s + 1) = unat (disk_pointer s) + 1"
    by (intro unat_plus_one) (auto simp: image_limit_def)
  with kernel_read_image [OF s, of 1 junk] n
  show "\<exists>d'. sd_read_byte (kernel_dev io junk) s = Some (fs_image (unat (disk_pointer s)), d')
      \<and> kernel_ok d' \<and> unat (disk_pointer d') = unat (disk_pointer s) + 1"
    by (auto simp: kernel_dev_def kernel_read_byte_def kernel_ok_def)
qed (auto simp: kernel_dev_def kernel_seek_def)

sublocale kernel: storage_device "kernel_dev io junk" kernel_ok "\<lambda>s. unat (disk_pointer s)" fs_image image_limit
  for junk by (rule kernel_storage)

end

end
