(* ===== verification/Pio_Drive.thy ===== *)
theory Pio_Drive
  imports Ata_Drive
begin

text \<open>
  A drive that meets \<open>ata_drive\<close>, for any contents: it keeps the address registers, is busy for one
  status read after a READ SECTOR(S) command and then hands the sector over.  Its state is computed
  from the events the processor has produced, newest first.
\<close>

datatype pio_phase = Idle | Busy nat u32 | Transfer u32 nat

record pio =
  lba_low :: u8
  lba_mid :: u8
  lba_hi :: u8
  device :: u8
  phase :: pio_phase

definition reset_pio :: pio where
  "reset_pio = \<lparr>lba_low = 0, lba_mid = 0, lba_hi = 0, device = 0, phase = Idle\<rparr>"

definition pio_lba :: "pio \<Rightarrow> u32" where
  "pio_lba d = ucast (lba_low d) OR push_bit 8 (ucast (lba_mid d)) OR push_bit 16 (ucast (lba_hi d))
     OR push_bit 24 (ucast (device d AND 0x0F))"

definition pio_out :: "u16 \<Rightarrow> u16 \<Rightarrow> u8 \<Rightarrow> pio \<Rightarrow> pio" where
  "pio_out b p v d =
     (if p = b + 3 then d\<lparr>lba_low := v\<rparr>
      else if p = b + 4 then d\<lparr>lba_mid := v\<rparr>
      else if p = b + 5 then d\<lparr>lba_hi := v\<rparr>
      else if p = b + 6 then d\<lparr>device := v\<rparr>
      else if p = b + 7 \<and> v = 0x20 then d\<lparr>phase := Busy 1 (pio_lba d)\<rparr>
      else d)"

definition pio_status_read :: "pio \<Rightarrow> pio" where
  "pio_status_read d =
     (case phase d of Busy (Suc n) l \<Rightarrow> d\<lparr>phase := Busy n l\<rparr>
      | Busy 0 l \<Rightarrow> d\<lparr>phase := Transfer l 0\<rparr>
      | _ \<Rightarrow> d)"

definition pio_word_read :: "pio \<Rightarrow> pio" where
  "pio_word_read d = (case phase d of Transfer l k \<Rightarrow> d\<lparr>phase := Transfer l (Suc k)\<rparr> | _ \<Rightarrow> d)"

fun pio_state :: "u16 \<Rightarrow> cpu_event list \<Rightarrow> pio" where
  "pio_state b [] = reset_pio"
| "pio_state b (Out8 p v # h) = pio_out b p v (pio_state b h)"
| "pio_state b (In8 p v # h) = (if p = b + 7 then pio_status_read (pio_state b h) else pio_state b h)"
| "pio_state b (In16 p v # h) = (if p = b then pio_word_read (pio_state b h) else pio_state b h)"
| "pio_state b (_ # h) = pio_state b h"

definition pio_io :: "u16 \<Rightarrow> (nat \<Rightarrow> u8) \<Rightarrow> io" where
  "pio_io b platter h p =
     (if p = b + 7 then (case phase (pio_state b h) of Busy (Suc n) l \<Rightarrow> 0x80 | _ \<Rightarrow> 0x58)
      else if p = b then
        (case phase (pio_state b h) of
           Transfer l k \<Rightarrow> ucast (platter (512 * unat l + 2 * k)) OR push_bit 8 (ucast (platter (512 * unat l + 2 * k + 1)))
         | _ \<Rightarrow> 0)
      else 0)"

definition pio_idle :: "u16 \<Rightarrow> cpu_event list \<Rightarrow> bool" where
  "pio_idle b h \<longleftrightarrow> (case phase (pio_state b h) of Idle \<Rightarrow> True | Transfer l k \<Rightarrow> k = 256 | _ \<Rightarrow> False)"

definition pio_busy :: "u16 \<Rightarrow> nat \<Rightarrow> u32 \<Rightarrow> cpu_event list \<Rightarrow> bool" where
  "pio_busy b n l h \<longleftrightarrow> phase (pio_state b h) = Busy n l"

definition pio_transfer :: "u16 \<Rightarrow> u32 \<Rightarrow> nat \<Rightarrow> cpu_event list \<Rightarrow> bool" where
  "pio_transfer b l k h \<longleftrightarrow> phase (pio_state b h) = Transfer l k"

lemma pio_lba_bytes:
  assumes "unat (l :: u32) < 2 ^ 28"
  shows "ucast (byte_of 0 l) OR push_bit 8 (ucast (byte_of 1 l)) OR push_bit 16 (ucast (byte_of 2 l))
    OR push_bit 24 (ucast (((if m then 0xE0 else 0xF0) OR byte_of 3 l AND 0x0F) AND 0x0F)) = l"
proof -
  have "take_bit 28 l = l"
    using assms by (simp add: unat_eq_iff_eq [symmetric] unsigned_take_bit_eq take_bit_nat_eq_self)
  then have hi: "\<not> bit l n" if "28 \<le> n" for n using that by (metis bit_take_bit_iff linorder_not_le)
  then have lt: "n < 28" if "bit l n" for n using that by (meson not_less)
  have e: "(0x0F :: u8) = mask 4" "(0xE0 :: u8) = push_bit 5 (mask 3)" "(0xF0 :: u8) = push_bit 4 (mask 4)"
    by (simp_all add: mask_numeral)
  have m: "((if m then 0xE0 else 0xF0) OR byte_of 3 l AND 0x0F) AND 0x0F = byte_of 3 l AND mask 4"
    unfolding e by (rule bit_word_eqI) (auto simp: bit_simps)
  show ?thesis unfolding m
    by (rule bit_word_eqI) (auto simp: bit_simps byte_of_def not_less le_add_diff_inverse2 dest: lt)
qed

lemma pio_drive:
  assumes "sectors \<le> 2 ^ 28"
  shows "ata_drive (pio_io b platter) b master platter sectors (pio_idle b) (pio_busy b) (pio_transfer b)"
proof
  fix h and lba :: u32
  assume "pio_idle b h" and "unat lba < sectors"
  then have "unat lba < 2 ^ 28" using assms by simp
  from pio_lba_bytes [OF this, of master]
  have "pio_busy b 1 lba (read_command b master lba @ h)"
    by (simp add: pio_busy_def read_command_def pio_out_def pio_lba_def)
  then show "\<exists>n. pio_busy b n lba (read_command b master lba @ h)" ..
next
  fix k h and lba :: u32 and w :: u16
  let ?p = "\<lambda>i. platter (512 * unat lba + i)"
  assume t: "pio_transfer b lba k h" and w: "w = ucast (pio_io b platter h b)"
  then have "w = ucast (ucast (?p (2 * k)) OR push_bit 8 (ucast (?p (2 * k + 1))) :: u32)"
    by (simp add: pio_io_def pio_transfer_def add.assoc)
  also have "\<dots> = ucast (?p (2 * k)) OR push_bit 8 (ucast (?p (2 * k + 1)))"
    by (rule bit_word_eqI) (auto simp: bit_simps)
  finally have e: "w = \<dots>" .
  have "byte_of 0 w = ?p (2 * k)" "byte_of 1 w = ?p (2 * k + 1)"
    unfolding e by (rule bit_word_eqI, auto simp: byte_of_def bit_simps dest: bit_imp_le_length)+
  then show "byte_of 0 w = platter (512 * unat lba + 2 * k) \<and> byte_of 1 w = platter (512 * unat lba + 2 * k + 1)
      \<and> pio_transfer b lba (Suc k) (In16 b w # h)"
    using t by (simp add: pio_transfer_def pio_word_read_def add.assoc)
qed (use assms in \<open>auto simp: pio_busy_def pio_transfer_def pio_idle_def pio_io_def pio_status_read_def\<close>)

interpretation pio: ata_drive "pio_io b platter" b master platter "2 ^ 28" "pio_idle b" "pio_busy b" "pio_transfer b"
  for b platter master by (rule pio_drive) simp

end
