(* ===== verification/Disk_Stack.thy ===== *)
theory Disk_Stack
  imports Fat16_Read Pio_Drive
begin

text \<open>
  The disk stack put together: port input and output, the ATA driver, the kernel's storage device and
  the FAT16 driver.  Against any drive that meets \<open>ata_drive\<close>, \<^verbatim>\<open>read28_disk\<close> returns sectors,
  \<^verbatim>\<open>_read\<close> returns bytes of the image, and \<^verbatim>\<open>fat16_read\<close> returns the bytes of the file in the
  order of its cluster chain.  The witnesses run on the drive of \<open>Pio_Drive\<close>.
\<close>

lemma pio_idle_start [simp]: "pio_idle b []"
  by (simp add: pio_idle_def reset_pio_def)

section \<open>The driver\<close>

text \<open>
  Against a drive that follows the PIO read protocol, \<^verbatim>\<open>read28_disk\<close> of a whole sector
  succeeds, returns the 512 bytes of that sector and leaves the drive idle.
\<close>

theorem read28_disk_reads_sector:
  assumes "ata_drive io base master platter sectors idle busy transfer"
    and "idle (trace s)" and "unat lba < sectors"
  shows "\<exists>t. read28_disk io s (init_disk base master) lba 512
      = Some (True, bytes_at platter (512 * unat lba) 512, s\<lparr>trace := t\<rparr>) \<and> idle t"
  unfolding init_disk_def by (rule ata_drive.read28_disk_sector [OF assms])

theorem read28_disk_reads_sector_witness:
  "\<exists>t. read28_disk (pio_io 0x1F0 (\<lambda>i. of_nat i)) (quiet_kernel 0x1F0 0) (init_disk 0x1F0 True) 7 512
      = Some (True, bytes_at (\<lambda>i. of_nat i) 3584 512, (quiet_kernel 0x1F0 0)\<lparr>trace := t\<rparr>) \<and> pio_idle 0x1F0 t"
  using read28_disk_reads_sector [OF pio_drive [of 8 "0x1F0" "\<lambda>i. of_nat i" True], of "quiet_kernel 0x1F0 0" 7] by simp

text \<open>\<open>n\<close> more status reads.\<close>

primrec poll :: "nat \<Rightarrow> io \<Rightarrow> u16 \<Rightarrow> u8 \<times> 'a machine_scheme \<Rightarrow> u8 \<times> 'a machine_scheme" where
  "poll 0 io base r = r"
| "poll (Suc n) io base r = poll n io base (inb io (snd r) (base + 7))"

definition still_busy :: "u8 \<Rightarrow> bool" where
  "still_busy v \<longleftrightarrow> v AND 0x80 = 0x80 \<and> v AND 1 \<noteq> 1"

lemma ata_wait_poll:
  "\<not> still_busy (fst (poll n io base (v, s))) \<Longrightarrow> \<exists>r. ata_wait io base s v = Some r"
proof (induction n arbitrary: s v)
  case 0
  then show ?case by (subst ata_wait.simps) (auto simp: still_busy_def)
next
  case (Suc n)
  obtain v' s' where e: "inb io s (base + 7) = (v', s')" by fastforce
  with Suc.prems have "\<not> still_busy (fst (poll n io base (v', s')))" by simp
  from Suc.IH [OF this] e show ?case by (subst ata_wait.simps) simp
qed

lemma ata_wait_result:
  assumes "ata_wait io base s v = Some r"
  shows "\<exists>n. \<not> still_busy (fst (poll n io base (v, s)))"
  using assms
proof (induction rule: ata_wait.raw_induct [rotated, consumes 1, case_names step])
  case (step f io base s v r)
  show ?case
  proof (cases "still_busy v")
    case True
    obtain v' s' where e: "inb io s (base + 7) = (v', s')" by fastforce
    then have "f io base s' v' = Some r" using True step(2) by (simp add: still_busy_def)
    from step(1) [OF this] obtain n where "\<not> still_busy (fst (poll n io base (v', s')))" ..
    then show ?thesis using e by (intro exI [of _ "Suc n"]) simp
  next
    case False
    then show ?thesis by (intro exI [of _ 0]) simp
  qed
qed

text \<open>
  C16: The wait loop shared by the ATA operations returns exactly when, after finitely many
  status reads, the drive drops its busy bit or raises its error bit; there is no timeout.
\<close>

theorem ata_wait_terminates_iff:
  "(\<exists>r. ata_wait io base s v = Some r) \<longleftrightarrow> (\<exists>n. \<not> still_busy (fst (poll n io base (v, s))))"
  using ata_wait_poll ata_wait_result by blast

section \<open>The storage device\<close>

text \<open>
  C15: \<^verbatim>\<open>_read\<close>, at any position and length inside the disk, returns the bytes of the file
  system image, which starts at sector 100, and moves the pointer behind them.
\<close>

theorem kernel_read_returns_image:
  assumes "ata_drive io base master platter sectors idle busy transfer"
    and "g_default_disk s = Some (init_disk base master)" and "idle (trace s)"
    and "unat (disk_pointer s) + unat len \<le> min (512 * (sectors - 100)) (2 ^ 32 - 1)"
  shows "\<exists>t. kernel_read io junk s len
      = Some (bytes_at (\<lambda>i. platter (51200 + i)) (unat (disk_pointer s)) (unat len),
          s\<lparr>trace := t, disk_pointer := disk_pointer s + len\<rparr>) \<and> idle t"
  using ata_drive.kernel_read_image [OF assms(1), of s len junk] assms(2,3,4)
  by (auto simp: ata_drive.kernel_ok_def [OF assms(1)] ata_drive.fs_image_def [OF assms(1), abs_def]
      ata_drive.image_limit_def [OF assms(1)] init_disk_def)

theorem kernel_read_returns_image_witness:
  "\<exists>t. kernel_read (pio_io 0x1F0 (\<lambda>i. of_nat i)) (\<lambda>_. []) (quiet_kernel 0x1F0 500) 1500
      = Some (bytes_at (\<lambda>i. of_nat (51200 + i)) 500 1500,
          (quiet_kernel 0x1F0 500)\<lparr>trace := t, disk_pointer := 2000\<rparr>) \<and> pio_idle 0x1F0 t"
  using kernel_read_returns_image [OF pio_drive [of "2 ^ 28" "0x1F0" "\<lambda>i. of_nat i" True],
      of "quiet_kernel 0x1F0 500" 1500 "\<lambda>_. []"] by simp

section \<open>Files\<close>

text \<open>The contract of the kernel's device, from the contract of the drive.\<close>

lemma kernel_device:
  assumes "ata_drive io base master platter sectors idle busy transfer"
  shows "storage_device (kernel_dev io junk)
    (\<lambda>s. g_default_disk s = Some (init_disk base master) \<and> idle (trace s)) (\<lambda>s. unat (disk_pointer s))
    (\<lambda>i. platter (51200 + i)) (min (512 * (sectors - 100)) (2 ^ 32 - 1))"
  using ata_drive.kernel_storage [OF assms, of junk]
  unfolding ata_drive.kernel_ok_def [OF assms, abs_def] ata_drive.fs_image_def [OF assms, abs_def]
    ata_drive.image_limit_def [OF assms] init_disk_def by simp

text \<open>
  C14: \<^verbatim>\<open>fat16_read\<close> on an open handle returns the next \<open>count\<close> bytes of the file (fewer at its
  end), taken from the disk in the order of the cluster chain, and leaves the handle standing for the
  rest of the file; it returns although the loop follows links read from the disk.
\<close>

theorem fat16_read_returns_stream:
  assumes "ata_drive io base master platter sectors idle busy transfer"
    and "g_default_disk (disk s) = Some (init_disk base master)" and "idle (trace (disk s))"
    and "img = (\<lambda>i. platter (51200 + i))" and "limit = min (512 * (sectors - 100)) (2 ^ 32 - 1)"
    and "volume_ok s limit" and "check_handle s h" and "length (handles s) = 16"
    and "handle_ok s img limit (handles s ! h)" and "buf \<noteq> 0"
  shows "\<exists>h' d. fat16_read (kernel_dev io junk) s h buf count
      = Some (sint (of_nat (length (take (unat count) (stream s img (handles s ! h)))) :: u32),
          take (unat count) (stream s img (handles s ! h)), s\<lparr>disk := d, handles := (handles s)[h := h']\<rparr>)
    \<and> handle_ok s img limit h' \<and> stream s img h' = drop (unat count) (stream s img (handles s ! h))
    \<and> idle (trace d)"
proof -
  note stream = storage_device.fat16_read_stream [OF kernel_device [OF assms(1), of junk], folded assms(4,5),
      where s = s and i = h and buf = buf and count = count]
  have "\<exists>h' d. fat16_read (kernel_dev io junk) s h buf count
      = Some (sint (of_nat (length (take (unat count) (stream s img (handles s ! h)))) :: u32),
          take (unat count) (stream s img (handles s ! h)), s\<lparr>disk := d, handles := (handles s)[h := h']\<rparr>)
    \<and> (g_default_disk d = Some (init_disk base master) \<and> idle (trace d)) \<and> handle_ok s img limit h'
    \<and> stream s img h' = drop (unat count) (stream s img (handles s ! h)) \<and> mode h' = mode (handles s ! h)"
    by (rule stream) (use assms(2-) in simp_all)
  then show ?thesis by blast
qed

text \<open>A volume with clusters of one sector; file with two clusters, 2 and 3, and 600 bytes to read.\<close>

definition sample_platter :: "nat \<Rightarrow> u8" where
  "sample_platter i = (if i = 51716 then 3 else if i = 51717 then 0 else of_nat (i div 512))"

definition sample_handle :: entry_handle where
  "sample_handle = \<lparr>mode = MODE_R, pos_entry = 0, cluster = 2, offset = 0, remaining_bytes = 600\<rparr>"

definition sample_volume :: "ata fat16" where
  "sample_volume = \<lparr>bpb = zero_bpb\<lparr>bytes_per_sector := 512, sectors_per_cluster := 1\<rparr>,
     layout = \<lparr>vol_offset = 0, start_fat_region = 512, start_root_directory_region = 1024,
       start_data_region = 1536, data_cluster_count = 5000\<rparr>,
     handles = sample_handle # replicate 15 blank_handle, disk = quiet_kernel 0x1F0 0\<rparr>"

lemma sample_volume:
  "cluster_bytes sample_volume = 512" "data_pos sample_volume 2 0 = 1536" "data_pos sample_volume 3 0 = 2048"
  "fat_pos sample_volume 2 = 516" "fat_pos sample_volume 3 = 518"
  "next_in_fat sample_volume (\<lambda>i. sample_platter (51200 + i)) 2 = 3"
  by (simp_all add: sample_volume_def cluster_bytes_def zero_bpb_def data_pos_def fat_pos_def next_in_fat_def
      le16_def sample_platter_def)

lemma sample_volume_ok: "volume_ok sample_volume 4294967295"
  by (simp add: volume_ok_def sample_volume)

lemma sample_handle_ok: "handle_ok sample_volume (\<lambda>i. sample_platter (51200 + i)) 4294967295 sample_handle"
proof -
  have "chain_ok sample_volume (\<lambda>i. sample_platter (51200 + i)) 4294967295 3 88"
    by (subst chain_ok.simps) (simp add: sample_volume cluster_ok_def)
  then have "chain_ok sample_volume (\<lambda>i. sample_platter (51200 + i)) 4294967295 2 600"
    by (subst chain_ok.simps) (simp add: sample_volume cluster_ok_def)
  then show ?thesis by (simp add: handle_ok_def sample_handle_def sample_volume)
qed

lemma sample_fields [simp]:
  "disk sample_volume = quiet_kernel 0x1F0 0" "handles sample_volume ! 0 = sample_handle"
  "length (handles sample_volume) = 16" "check_handle sample_volume 0"
  by (simp_all add: sample_volume_def check_handle_def sample_handle_def)

theorem fat16_read_returns_stream_witness:
  "\<exists>h' d. fat16_read (kernel_dev (pio_io 0x1F0 sample_platter) (\<lambda>_. [])) sample_volume 0 0x5000 600
      = Some (600, stream sample_volume (\<lambda>i. sample_platter (51200 + i)) sample_handle,
          sample_volume\<lparr>disk := d, handles := (handles sample_volume)[0 := h']\<rparr>)"
  using fat16_read_returns_stream [OF pio_drive [of "2 ^ 28" "0x1F0" sample_platter True], where s = sample_volume
      and img = "\<lambda>i. sample_platter (51200 + i)" and limit = 4294967295 and h = 0 and buf = "0x5000" and junk = "\<lambda>_. []"
      and count = 600] sample_volume_ok sample_handle_ok
  by (auto simp: sample_handle_def)

text \<open>
  Reading \<open>m\<close> bytes and then \<open>n\<close> bytes through a handle delivers the bytes that reading
  \<open>m + n\<close> at once delivers, and leaves the same rest of the file.
\<close>

theorem fat16_read_in_pieces:
  assumes "ata_drive io base master platter sectors idle busy transfer"
    and "g_default_disk (disk s) = Some (init_disk base master)" and "idle (trace (disk s))"
    and "img = (\<lambda>i. platter (51200 + i))" and "limit = min (512 * (sectors - 100)) (2 ^ 32 - 1)"
    and "volume_ok s limit" and "check_handle s h" and "length (handles s) = 16"
    and "handle_ok s img limit (handles s ! h)" and "buf \<noteq> 0" and "buf' \<noteq> 0" and "unat m + unat n < 2 ^ 32"
  shows "\<exists>r1 r2 r bs1 bs2 s1 s2 s'. fat16_read (kernel_dev io junk) s h buf m = Some (r1, bs1, s1)
    \<and> fat16_read (kernel_dev io junk) s1 h buf' n = Some (r2, bs2, s2)
    \<and> fat16_read (kernel_dev io junk) s h buf (m + n) = Some (r, bs1 @ bs2, s')
    \<and> stream s2 img (handles s2 ! h) = stream s' img (handles s' ! h)"
  by (rule storage_device.fat16_read_twice [OF kernel_device [OF assms(1), of junk], folded assms(4,5)])
    (use assms(2-) in simp_all)

theorem fat16_read_in_pieces_witness:
  "\<exists>r1 r2 r bs1 bs2 s1 s2 s'.
      fat16_read (kernel_dev (pio_io 0x1F0 sample_platter) (\<lambda>_. [])) sample_volume 0 0x5000 500 = Some (r1, bs1, s1)
    \<and> fat16_read (kernel_dev (pio_io 0x1F0 sample_platter) (\<lambda>_. [])) s1 0 0x6000 100 = Some (r2, bs2, s2)
    \<and> fat16_read (kernel_dev (pio_io 0x1F0 sample_platter) (\<lambda>_. [])) sample_volume 0 0x5000 600 = Some (r, bs1 @ bs2, s')"
  using fat16_read_in_pieces [OF pio_drive [of "2 ^ 28" "0x1F0" sample_platter True], where s = sample_volume
      and img = "\<lambda>i. sample_platter (51200 + i)" and limit = 4294967295 and h = 0 and buf = "0x5000" and buf' = "0x6000"
      and m = 500 and n = 100 and junk = "\<lambda>_. []"] sample_volume_ok sample_handle_ok
  by auto

end
