(* ===== verification/Fat16_Dir.thy ===== *)
theory Fat16_Dir
  imports Fat16_Read
begin

text \<open>
  Directories: the root directory in the image is a list of entries, \<open>lookup\<close> is the search the
  driver promises on such a list, and the search of \<^verbatim>\<open>fat16_rootdir.c\<close> is proved to be it.  Opening
  a file of the root directory then yields a handle that stands for the file's bytes.
\<close>

section \<open>Directories as lists\<close>

text \<open>Deleted and long-name entries are passed over, an entry starting with 0 ends the directory.\<close>

fun lookup :: "dir_entry list \<Rightarrow> u8 list \<Rightarrow> nat option" where
  "lookup [] nm = None"
| "lookup (e # es) nm =
     (if name e ! 0 = AVAILABLE_DIR_ENTRY then map_option Suc (lookup es nm)
      else if name e ! 0 = 0 then None
      else if attribute e AND VFAT_DIR_ENTRY = VFAT_DIR_ENTRY then map_option Suc (lookup es nm)
      else if nm = name e then Some 0
      else map_option Suc (lookup es nm))"

definition root_start :: "'d fat16 \<Rightarrow> nat" where
  "root_start s = unat (root_directory_pos s 0)"

definition root_entry :: "'d fat16 \<Rightarrow> (nat \<Rightarrow> u8) \<Rightarrow> nat \<Rightarrow> dir_entry" where
  "root_entry s img i = dir_entry_of (bytes_at img (root_start s + 32 * i) 32)"

definition root_entries :: "'d fat16 \<Rightarrow> (nat \<Rightarrow> u8) \<Rightarrow> dir_entry list" where
  "root_entries s img = map (root_entry s img) [0..<unat (root_entry_count (bpb s))]"

text \<open>The root directory lies on the device.\<close>

definition root_ok :: "'d fat16 \<Rightarrow> nat \<Rightarrow> bool" where
  "root_ok s limit \<longleftrightarrow> root_start s + 32 * unat (root_entry_count (bpb s)) \<le> limit \<and> limit < addr_space"

lemma lookup_less: "lookup es nm = Some k \<Longrightarrow> k < length es"
  by (induction es nm arbitrary: k rule: lookup.induct) (auto split: if_splits)

lemma lookup_found: "lookup es nm = Some k \<Longrightarrow> name (es ! k) = nm"
  by (induction es nm arbitrary: k rule: lookup.induct) (auto split: if_splits)

lemma root_entries_disk [simp]:
  "root_start (s\<lparr>disk := d\<rparr>) = root_start s" "root_entry (s\<lparr>disk := d\<rparr>) = root_entry s"
  "root_entries (s\<lparr>disk := d\<rparr>) = root_entries s"
  by (auto simp: fun_eq_iff root_start_def root_entry_def root_entries_def)

lemma length_root_entries [simp]: "length (root_entries s img) = unat (root_entry_count (bpb s))"
  by (simp add: root_entries_def)

lemma nth_root_entries: "i < unat (root_entry_count (bpb s)) \<Longrightarrow> root_entries s img ! i = root_entry s img i"
  by (simp add: root_entries_def)

lemma drop_root_entries:
  "i < unat (root_entry_count (bpb s)) \<Longrightarrow> drop i (root_entries s img) = root_entry s img i # drop (Suc i) (root_entries s img)"
  by (subst Cons_nth_drop_Suc [symmetric]) (simp_all add: nth_root_entries)

lemma unat_plus_one_u16: "unat (i :: u16) + 1 < 65536 \<Longrightarrow> unat (i + 1) = unat i + 1"
  by (simp add: unat_word_ariths)

lemma root_pos_at:
  assumes "root_ok s limit" and "i \<le> unat (root_entry_count (bpb s))"
  shows "unat (root_directory_pos s (of_nat i)) = root_start s + 32 * i"
proof -
  have i: "i < 65536" using assms(2) unat_u16_lt [of "root_entry_count (bpb s)"] by simp
  have u: "unat (ucast (of_nat i :: u16) * 32 :: u32) = 32 * i"
    using i by (subst unat_mult_u32) simp_all
  have e: "root_directory_pos s (of_nat i) = root_directory_pos s 0 + ucast (of_nat i :: u16) * 32"
    by (simp add: root_directory_pos_def)
  show ?thesis
    unfolding e root_start_def
    by (subst unat_add_u32) (use assms in \<open>auto simp: u root_ok_def root_start_def\<close>)
qed

text \<open>What the search returns, when entry \<open>i\<close> is the first one looked at.\<close>

definition found :: "'d fat16 \<Rightarrow> 'd \<Rightarrow> u16 \<Rightarrow> nat option \<Rightarrow> (int \<times> u16 \<times> 'd fat16) option" where
  "found s d i r = (case r of Some k \<Rightarrow> Some (0, i + of_nat k, s\<lparr>disk := d\<rparr>) | None \<Rightarrow> Some (- 1, 0, s\<lparr>disk := d\<rparr>))"

lemma found_simps [simp]:
  "found s d i None = Some (- 1, 0, s\<lparr>disk := d\<rparr>)" "found s d i (Some k) = Some (0, i + of_nat k, s\<lparr>disk := d\<rparr>)"
  "found (s\<lparr>disk := d'\<rparr>) d i r = found s d i r" "found s d i (map_option Suc r) = found s d (i + 1) r"
  by (simp_all add: found_def algebra_simps split: option.splits)

text \<open>The handle of a file of the root directory opened for reading.\<close>

definition read_handle :: "'d fat16 \<Rightarrow> (nat \<Rightarrow> u8) \<Rightarrow> entry_handle \<Rightarrow> nat \<Rightarrow> entry_handle" where
  "read_handle s img h k = h\<lparr>mode := MODE_R, pos_entry := root_directory_pos s (of_nat k),
     cluster := starting_cluster (root_entry s img k), offset := 0, remaining_bytes := entry_size (root_entry s img k)\<rparr>"

context storage_device
begin

lemma read_root_entry:
  assumes "ok (disk s)" and "pos (disk s) = root_start s + 32 * i" and "root_ok s limit"
    and "i < unat (root_entry_count (bpb s))"
  obtains d where "dev_read dev s SIZEOF_DIR_ENTRY = Some (bytes_at img (root_start s + 32 * i) 32, s\<lparr>disk := d\<rparr>)"
    "ok d" "pos d = root_start s + 32 * Suc i"
proof -
  have "pos (disk s) + unat (32 :: u32) \<le> limit"
    using assms(2,3,4) by (simp add: root_ok_def)
  from read_image [OF assms(1) this] obtain d where
    "sd_read dev (disk s) 32 = Some (bytes_at img (pos (disk s)) 32, d)" "ok d" "pos d = pos (disk s) + 32"
    by auto
  then show ?thesis using assms(2) by (intro that [of d]) (simp_all add: dev_read_def)
qed

lemma find_root_loop_lookup:
  assumes "ok (disk s)" and "pos (disk s) = root_start s + 32 * unat i" and "root_ok s limit"
  shows "\<exists>d. ok d \<and> find_root_loop dev s nm i = found s d i (lookup (drop (unat i) (root_entries s img)) nm)"
  using assms
proof (induction "unat (root_entry_count (bpb s)) - unat i" arbitrary: i s)
  case 0
  then have "\<not> i < root_entry_count (bpb s)" "drop (unat i) (root_entries s img) = []"
    by (simp_all add: word_less_nat_alt)
  then show ?case using 0 by (intro exI [of _ "disk s"]) (simp add: find_root_loop.simps [of dev s nm i])
next
  case (Suc n)
  then have lt: "i < root_entry_count (bpb s)" "unat i < unat (root_entry_count (bpb s))"
    by (simp_all add: word_less_nat_alt)
  then have i1: "unat (i + 1) = Suc (unat i)"
    using unat_u16_lt [of "root_entry_count (bpb s)"] by (subst unat_plus_one_u16) simp_all
  obtain d where d: "dev_read dev s 32 = Some (bytes_at img (root_start s + 32 * unat i) 32, s\<lparr>disk := d\<rparr>)"
    "ok d" "pos d = root_start s + 32 * Suc (unat i)"
    by (rule read_root_entry [OF Suc.prems lt(2)])
  let ?e = "root_entry s img (unat i)" and ?es = "drop (Suc (unat i)) (root_entries s img)"
  have n: "n = unat (root_entry_count (bpb (s\<lparr>disk := d\<rparr>))) - unat (i + 1)" using Suc.hyps(2) i1 by simp
  obtain d' where rest: "ok d'" "find_root_loop dev (s\<lparr>disk := d\<rparr>) nm (i + 1) = found s d' (i + 1) (lookup ?es nm)"
    using Suc.hyps(1) [OF n] d Suc.prems(3) i1 by (auto simp: root_ok_def)
  have step: "find_root_loop dev s nm i =
      (if name ?e ! 0 = AVAILABLE_DIR_ENTRY then find_root_loop dev (s\<lparr>disk := d\<rparr>) nm (i + 1)
       else if name ?e ! 0 = 0 then Some (- 1, 0, s\<lparr>disk := d\<rparr>)
       else if attribute ?e AND VFAT_DIR_ENTRY = VFAT_DIR_ENTRY then find_root_loop dev (s\<lparr>disk := d\<rparr>) nm (i + 1)
       else if nm = name ?e then Some (0, i, s\<lparr>disk := d\<rparr>)
       else find_root_loop dev (s\<lparr>disk := d\<rparr>) nm (i + 1))"
    using lt(1) d(1) by (subst find_root_loop.simps) (simp add: root_entry_def Let_def)
  consider "name ?e ! 0 = AVAILABLE_DIR_ENTRY \<or> (name ?e ! 0 \<noteq> 0 \<and>
      (attribute ?e AND VFAT_DIR_ENTRY = VFAT_DIR_ENTRY \<or> nm \<noteq> name ?e))"
    | "name ?e ! 0 \<noteq> AVAILABLE_DIR_ENTRY" "name ?e ! 0 = 0 \<or>
      name ?e ! 0 \<noteq> 0 \<and> attribute ?e AND VFAT_DIR_ENTRY \<noteq> VFAT_DIR_ENTRY \<and> nm = name ?e"
    by blast
  then show ?case
  proof cases
    case 1
    then show ?thesis unfolding step drop_root_entries [OF lt(2)] rest(2)
      using rest(1) by (intro exI [of _ d']) auto
  next
    case 2
    then show ?thesis unfolding step drop_root_entries [OF lt(2)]
      using d(2) by (intro exI [of _ d]) auto
  qed
qed

lemma find_root_lookup:
  assumes "ok (disk s)" and "root_ok s limit"
  obtains d where "ok d" "find_root_directory_entry dev s nm = found s d 0 (lookup (root_entries s img) nm)"
proof -
  obtain d0 where d0: "sd_seek dev (disk s) (root_directory_pos s 0) = Some d0" "ok d0" "pos d0 = root_start s"
    using seek_pos [OF assms(1)] by (auto simp: root_start_def)
  from find_root_loop_lookup [of "s\<lparr>disk := d0\<rparr>" 0 nm] d0 assms(2) obtain d where
    d: "ok d" "find_root_loop dev (s\<lparr>disk := d0\<rparr>) nm 0 = found s d 0 (lookup (root_entries s img) nm)"
    by (auto simp: root_ok_def)
  show ?thesis
    using d d0(1) by (intro that [of d])
      (simp_all add: find_root_directory_entry_def move_to_root_directory_region_def dev_seek_def Let_def)
qed

lemma open_entry_in_root_lookup:
  assumes "ok (disk s)" and "root_ok s limit"
  shows "\<exists>d. ok d \<and> open_entry_in_root dev s h nm MODE_R is_file =
    (case lookup (root_entries s img) nm of
       None \<Rightarrow> Some (- 1, h, s\<lparr>disk := d\<rparr>)
     | Some k \<Rightarrow>
         if entry_refused (root_entry s img k) MODE_R is_file
         then Some (- 1, h\<lparr>pos_entry := root_directory_pos s (of_nat k)\<rparr>, s\<lparr>disk := d\<rparr>)
         else Some (0, read_handle s img h k, s\<lparr>disk := d\<rparr>))"
proof -
  obtain d where d: "ok d" "find_root_directory_entry dev s nm = found s d 0 (lookup (root_entries s img) nm)"
    by (rule find_root_lookup [OF assms])
  show ?thesis
  proof (cases "lookup (root_entries s img) nm")
    case None
    then show ?thesis using d by (intro exI [of _ d]) (simp add: open_entry_in_root_def)
  next
    case (Some k)
    then have k: "k < unat (root_entry_count (bpb s))" using lookup_less by fastforce
    let ?p = "root_directory_pos s (of_nat k)"
    have p: "unat ?p = root_start s + 32 * k" using assms(2) k by (intro root_pos_at) simp_all
    have "unat ?p + unat (32 :: u32) \<le> limit" using assms(2) k by (simp add: p root_ok_def)
    moreover have unat_32: "unat (32 :: u32) = 32" by simp
    ultimately obtain d1 d2 where r: "sd_seek dev d ?p = Some d1" "sd_read dev d1 32 = Some (bytes_at img (unat ?p) 32, d2)" "ok d2"
      using seek_read [OF d(1), of ?p 32] by (metis unat_32)
    show ?thesis
      using Some d(2) r
      by (intro exI [of _ d2]) (simp add: open_entry_in_root_def move_to_root_directory_region_def
          dev_seek_def dev_read_def Let_def p position_handle_def root_entry_def read_handle_def)
  qed
qed

lemmas open_file_in_root_lookup = open_entry_in_root_lookup [where is_file = True, folded open_file_in_root_def]
lemmas open_directory_in_root_lookup = open_entry_in_root_lookup [where is_file = False, folded open_directory_in_root_def]

text \<open>\<^verbatim>\<open>fat16_open\<close> of a path in the root directory, for reading, with a handle to spare.\<close>

lemma fat16_open_root:
  assumes "ok (disk s)" and "root_ok s limit" and "is_in_root path = Some True"
    and "to_short_filename (replicate 11 0) path = Some nm" and "h = find_available_handle s" and "h < HANDLE_COUNT"
  shows "\<exists>d. ok d \<and> fat16_open dev s path MODE_R =
    (case lookup (root_entries s img) nm of
       None \<Rightarrow> Some (- 1, s\<lparr>disk := d, handles := (handles s)[h := (handles s ! h)\<lparr>mode := 0\<rparr>]\<rparr>)
     | Some k \<Rightarrow>
         if entry_refused (root_entry s img k) MODE_R True
         then Some (- 1, s\<lparr>disk := d, handles := (handles s)[h := (handles s ! h)
                \<lparr>pos_entry := root_directory_pos s (of_nat k), mode := 0\<rparr>]\<rparr>)
         else Some (0, s\<lparr>disk := d, handles := (handles s)[h := read_handle s img (handles s ! h) k]\<rparr>))"
proof -
  obtain d where d: "ok d" "open_file_in_root dev s (handles s ! h) nm MODE_R =
    (case lookup (root_entries s img) nm of
       None \<Rightarrow> Some (- 1, handles s ! h, s\<lparr>disk := d\<rparr>)
     | Some k \<Rightarrow>
         if entry_refused (root_entry s img k) MODE_R True
         then Some (- 1, (handles s ! h)\<lparr>pos_entry := root_directory_pos s (of_nat k)\<rparr>, s\<lparr>disk := d\<rparr>)
         else Some (0, read_handle s img (handles s ! h) k, s\<lparr>disk := d\<rparr>))"
    using open_file_in_root_lookup [OF assms(1,2)] by blast
  show ?thesis
    using d(1) assms(6) by (intro exI [of _ d])
      (simp add: fat16_open_def Let_def assms(3,4) assms(5) [symmetric] d(2) set_handle_def split: option.splits)
qed

end

text \<open>The bytes of a file, in the order of its cluster chain.\<close>

definition file_bytes :: "'d fat16 \<Rightarrow> (nat \<Rightarrow> u8) \<Rightarrow> dir_entry \<Rightarrow> u8 list" where
  "file_bytes s img e = map (chain_byte s img (starting_cluster e)) [0..<unat (entry_size e)]"

lemma stream_read_handle [simp]: "stream s img (read_handle s img h k) = file_bytes s img (root_entry s img k)"
  by (simp add: stream_def read_handle_def file_bytes_def)

lemma handle_ok_read_handle:
  "handle_ok s img limit (read_handle s img h k) \<longleftrightarrow>
    (entry_size (root_entry s img k) \<noteq> 0 \<longrightarrow> 0 < unat (cluster_bytes s)
      \<and> chain_ok s img limit (starting_cluster (root_entry s img k)) (unat (entry_size (root_entry s img k))))"
  by (simp add: handle_ok_def read_handle_def)

context storage_device
begin

text \<open>Opening and then reading the whole file delivers its bytes.\<close>

lemma open_read_root:
  assumes "ok (disk s)" and "volume_ok s limit" and "root_ok s limit" and "is_in_root path = Some True"
    and "to_short_filename (replicate 11 0) path = Some nm" and "lookup (root_entries s img) nm = Some k"
    and "\<not> entry_refused (root_entry s img k) MODE_R True"
    and "entry_size (root_entry s img k) \<noteq> 0 \<longrightarrow>
      chain_ok s img limit (starting_cluster (root_entry s img k)) (unat (entry_size (root_entry s img k)))"
    and "h = find_available_handle s" and "h < HANDLE_COUNT" and "length (handles s) = HANDLE_COUNT" and "buf \<noteq> 0"
  shows "\<exists>s1 r s2. fat16_open dev s path MODE_R = Some (0, s1)
    \<and> fat16_read dev s1 h buf (entry_size (root_entry s img k)) = Some (r, file_bytes s img (root_entry s img k), s2)"
proof -
  let ?e = "root_entry s img k" and ?hd = "read_handle s img (handles s ! h) k"
  obtain d where d: "ok d" "fat16_open dev s path MODE_R = Some (0, s\<lparr>disk := d, handles := (handles s)[h := ?hd]\<rparr>)"
    using fat16_open_root [OF assms(1,3,4,5,9,10)] assms(6,7) by auto
  let ?s = "s\<lparr>disk := d, handles := (handles s)[h := ?hd]\<rparr>"
  have hd: "handles ?s ! h = ?hd" using assms(10,11) by simp
  have "ok (disk ?s)" "volume_ok ?s limit" "check_handle ?s h" "length (handles ?s) = HANDLE_COUNT"
    using d assms(2,10,11) by (simp_all add: check_handle_def read_handle_def)
  moreover have "handle_ok ?s img limit (handles ?s ! h)"
    unfolding hd using assms(2,8) by (simp add: handle_ok_read_handle volume_ok_def)
  ultimately obtain r s2 where "fat16_read dev ?s h buf (entry_size ?e)
      = Some (r, take (unat (entry_size ?e)) (stream ?s img (handles ?s ! h)), s2)"
    using fat16_read_stream [where s = ?s and i = h and buf = buf and count = "entry_size ?e"] assms(12) by blast
  moreover have "take (unat (entry_size ?e)) (stream ?s img (handles ?s ! h)) = file_bytes s img ?e"
    unfolding hd by (simp add: file_bytes_def)
  ultimately show ?thesis using d(2) by auto
qed

end

end
