(* ===== verification/Fat16_Init.thy ===== *)
theory Fat16_Init
  imports Fat16_Read
begin

text \<open>
  Mounting: what \<^verbatim>\<open>fat16_read_bpb\<close> and \<^verbatim>\<open>fat16_init\<close> make of the boot sector in the image of the
  device, \<open>o\<close> bytes from its start.
\<close>

section \<open>The boot sector in the image\<close>

definition boot16 :: "(nat \<Rightarrow> u8) \<Rightarrow> nat \<Rightarrow> u16" where
  "boot16 img p = le16 (bytes_at img p 2)"

definition boot32 :: "(nat \<Rightarrow> u8) \<Rightarrow> nat \<Rightarrow> u32" where
  "boot32 img p = le32 (bytes_at img p 4)"

definition jump_ok :: "(nat \<Rightarrow> u8) \<Rightarrow> nat \<Rightarrow> bool" where
  "jump_ok img q \<longleftrightarrow> img q = 0xEB \<and> img (q + 2) = 0x90 \<or> img q = 0xE9"

definition boot_ok :: "(nat \<Rightarrow> u8) \<Rightarrow> nat \<Rightarrow> bool" where
  "boot_ok img q \<longleftrightarrow> jump_ok img q \<and> boot16 img (q + 11) = 512
     \<and> img (q + 13) \<in> {1, 2, 4, 8, 16, 32, 64, 128}
     \<and> (boot16 img (q + 19) \<noteq> 0) = (boot32 img (q + 32) = 0)"

definition boot_bpb :: "(nat \<Rightarrow> u8) \<Rightarrow> nat \<Rightarrow> fat16_bpb" where
  "boot_bpb img q = \<lparr>oem_name = bytes_at img (q + 3) 8, bytes_per_sector = boot16 img (q + 11),
     sectors_per_cluster = img (q + 13), reserved_sector_count = boot16 img (q + 14), num_fats = img (q + 16),
     root_entry_count = boot16 img (q + 17), sector_count = ucast (boot16 img (q + 19)), fat_size = boot16 img (q + 22),
     volume_id = (if img (q + 38) = 0x29 then boot32 img (q + 39) else 0),
     vol_label = (if img (q + 38) = 0x29 then bytes_at img (q + 43) 11 else replicate 11 0),
     fs_type = (if img (q + 38) = 0x29 then bytes_at img (q + 54) 8 else replicate 8 0)\<rparr>"

section \<open>Reading it\<close>

context storage_device
begin

text \<open>The device is ready and stands at \<open>p\<close>; one lemma for each way to move on.\<close>

definition at :: "'d \<Rightarrow> nat \<Rightarrow> bool" where
  "at d p \<longleftrightarrow> ok d \<and> pos d = p"

lemma at_read:
  assumes "at d p" and "unat n = k" and "p + k = p'" and "p' \<le> limit"
  obtains d' where "sd_read dev d n = Some (bytes_at img p k, d')" "at d' p'"
  using read_image [of d n] assms by (auto simp: at_def)

lemma at_read_byte:
  assumes "at d p" and "p + 1 = p'" and "p' \<le> limit"
  obtains d' where "sd_read_byte dev d = Some (img p, d')" "at d' p'"
  using read_byte_image [of d] assms by (auto simp: at_def)

lemma at_seek:
  assumes "ok d"
  obtains d' where "sd_seek dev d p = Some d'" "at d' (unat p)"
  using seek_pos [of d p] assms by (auto simp: at_def)

lemma at_skip_bytes:
  assumes "at d p" and "p + n \<le> limit"
  shows "\<exists>d'. (\<forall>s. disk s = d \<longrightarrow> skip_bytes n dev s = Some (s\<lparr>disk := d'\<rparr>)) \<and> at d' (p + n)"
  using assms
proof (induction n arbitrary: d p)
  case 0
  then show ?case by (intro exI [of _ d]) auto
next
  case (Suc n)
  obtain d1 where d1: "sd_read_byte dev d = Some (img p, d1)" "at d1 (p + 1)"
    by (rule at_read_byte [OF Suc.prems(1) refl]) (use Suc.prems(2) in simp)
  have "p + 1 + n \<le> limit" using Suc.prems(2) by simp
  from Suc.IH [OF d1(2) this] obtain d2 where
    "\<forall>s. disk s = d1 \<longrightarrow> skip_bytes n dev s = Some (s\<lparr>disk := d2\<rparr>)" "at d2 (p + 1 + n)" by blast
  with d1 show ?case by (intro exI [of _ d2]) (simp add: dev_read_byte_def)
qed

lemma at_skip:
  assumes "at d p" and "p + n = p'" and "p' \<le> limit"
  obtains d' where "\<And>s. disk s = d \<Longrightarrow> skip_bytes n dev s = Some (s\<lparr>disk := d'\<rparr>)" "at d' p'"
  using at_skip_bytes [of d p n] assms by blast

lemmas step_defs = dev_read_def dev_read_byte_def dev_seek_def boot16_def boot32_def

lemma read_volume_info_boot:
  assumes "at (disk s) (q + 36)" and "q + 62 \<le> limit"
  shows "\<exists>d. ok d \<and> read_volume_info dev s = Some (0, s\<lparr>disk := d, bpb := (bpb s)
    \<lparr>volume_id := (if img (q + 38) = 0x29 then boot32 img (q + 39) else volume_id (bpb s)),
     vol_label := (if img (q + 38) = 0x29 then bytes_at img (q + 43) 11 else vol_label (bpb s)),
     fs_type := (if img (q + 38) = 0x29 then bytes_at img (q + 54) 8 else fs_type (bpb s))\<rparr>\<rparr>)"
proof -
  obtain d1 where d1: "\<And>s'. disk s' = disk s \<Longrightarrow> skip_bytes 2 dev s' = Some (s'\<lparr>disk := d1\<rparr>)" "at d1 (q + 38)"
    by (rule at_skip [OF assms(1), where n = 2 and p' = "q + 38"]) (use assms(2) in simp_all)
  obtain d2 where d2: "sd_read_byte dev d1 = Some (img (q + 38), d2)" "at d2 (q + 39)"
    by (rule at_read_byte [OF d1(2), where p' = "q + 39"]) (use assms(2) in simp_all)
  obtain d3 where d3: "sd_read dev d2 4 = Some (bytes_at img (q + 39) 4, d3)" "at d3 (q + 43)"
    by (rule at_read [OF d2(2), where n = 4 and k = 4 and p' = "q + 43"]) (use assms(2) in simp_all)
  obtain d4 where d4: "sd_read dev d3 11 = Some (bytes_at img (q + 43) 11, d4)" "at d4 (q + 54)"
    by (rule at_read [OF d3(2), where n = 11 and k = 11 and p' = "q + 54"]) (use assms(2) in simp_all)
  obtain d5 where d5: "sd_read dev d4 8 = Some (bytes_at img (q + 54) 8, d5)" "at d5 (q + 62)"
    by (rule at_read [OF d4(2), where n = 8 and k = 8 and p' = "q + 62"]) (use assms(2) in simp_all)
  show ?thesis
  proof (cases "img (q + 38) = 0x29")
    case True
    then show ?thesis
      using d5(2) by (intro exI [of _ d5])
        (simp add: read_volume_info_def d1(1) d2(1) d3(1) d4(1) d5(1) step_defs Let_def at_def)
  next
    case False
    then show ?thesis
      using d2(2) by (intro exI [of _ d2]) (simp add: read_volume_info_def d1(1) d2(1) step_defs at_def)
  qed
qed

lemma read_geometry_boot:
  assumes "at (disk s) (q + 14)" and "q + 62 \<le> limit"
    and "(boot16 img (q + 19) \<noteq> 0) = (boot32 img (q + 32) = 0)" and "volume_id (bpb s) = 0"
    and "vol_label (bpb s) = replicate 11 0" and "fs_type (bpb s) = replicate 8 0"
    and "oem_name (bpb s) = bytes_at img (q + 3) 8" and "bytes_per_sector (bpb s) = boot16 img (q + 11)"
    and "sectors_per_cluster (bpb s) = img (q + 13)"
  shows "\<exists>d. ok d \<and> read_geometry dev s = Some (0, s\<lparr>disk := d, bpb := boot_bpb img q\<rparr>)"
proof -
  obtain d1 where d1: "sd_read dev (disk s) 2 = Some (bytes_at img (q + 14) 2, d1)" "at d1 (q + 16)"
    by (rule at_read [OF assms(1), where n = 2 and k = 2 and p' = "q + 16"]) (use assms(2) in simp_all)
  obtain d2 where d2: "sd_read dev d1 1 = Some (bytes_at img (q + 16) 1, d2)" "at d2 (q + 17)"
    by (rule at_read [OF d1(2), where n = 1 and k = 1 and p' = "q + 17"]) (use assms(2) in simp_all)
  obtain d3 where d3: "sd_read dev d2 2 = Some (bytes_at img (q + 17) 2, d3)" "at d3 (q + 19)"
    by (rule at_read [OF d2(2), where n = 2 and k = 2 and p' = "q + 19"]) (use assms(2) in simp_all)
  obtain d4 where d4: "sd_read dev d3 2 = Some (bytes_at img (q + 19) 2, d4)" "at d4 (q + 21)"
    by (rule at_read [OF d3(2), where n = 2 and k = 2 and p' = "q + 21"]) (use assms(2) in simp_all)
  obtain d5 where d5: "sd_read_byte dev d4 = Some (img (q + 21), d5)" "at d5 (q + 22)"
    by (rule at_read_byte [OF d4(2), where p' = "q + 22"]) (use assms(2) in simp_all)
  obtain d6 where d6: "sd_read dev d5 2 = Some (bytes_at img (q + 22) 2, d6)" "at d6 (q + 24)"
    by (rule at_read [OF d5(2), where n = 2 and k = 2 and p' = "q + 24"]) (use assms(2) in simp_all)
  obtain d7 where d7: "\<And>s' :: 'd fat16. disk s' = d6 \<Longrightarrow> skip_bytes 8 dev s' = Some (s'\<lparr>disk := d7\<rparr>)" "at d7 (q + 32)"
    by (rule at_skip [OF d6(2), where n = 8 and p' = "q + 32"]) (use assms(2) in simp_all)
  obtain d8 where d8: "sd_read dev d7 4 = Some (bytes_at img (q + 32) 4, d8)" "at d8 (q + 36)"
    by (rule at_read [OF d7(2), where n = 4 and k = 4 and p' = "q + 36"]) (use assms(2) in simp_all)
  let ?b = "(bpb s)\<lparr>reserved_sector_count := boot16 img (q + 14), num_fats := img (q + 16),
    root_entry_count := boot16 img (q + 17), sector_count := ucast (boot16 img (q + 19)), fat_size := boot16 img (q + 22)\<rparr>"
  have z: "(ucast (boot16 img (q + 19)) :: u32) = 0 \<longleftrightarrow> boot16 img (q + 19) = 0"
    by (simp add: unat_eq_iff_eq [symmetric])
  have geo: "read_geometry dev s = read_volume_info dev (s\<lparr>bpb := ?b, disk := d8\<rparr>)"
    using assms(3) z
    by (cases "boot16 img (q + 19) = 0") (simp_all add: read_geometry_def d1(1) d2(1) d3(1) d4(1) d5(1) d6(1) d7(1) d8(1) dev_read_def dev_read_byte_def boot16_def [symmetric]
        boot32_def [symmetric] Let_def)
  have "at (disk (s\<lparr>bpb := ?b, disk := d8\<rparr>)) (q + 36)" using d8(2) by simp
  from read_volume_info_boot [OF this assms(2)] show ?thesis
    unfolding geo using assms(4-9) by (auto simp: boot_bpb_def)
qed

lemma read_jump_boot:
  assumes "at (disk s) q" and "q + 3 \<le> limit"
  shows "\<exists>d. ok d \<and> read_jump dev s = Some (jump_ok img q, s\<lparr>disk := d\<rparr>) \<and> (jump_ok img q \<longrightarrow> at d (q + 3))"
proof -
  obtain d1 where d1: "sd_read_byte dev (disk s) = Some (img q, d1)" "at d1 (q + 1)"
    by (rule at_read_byte [OF assms(1), where p' = "q + 1"]) (use assms(2) in simp_all)
  obtain d2 where d2: "sd_read_byte dev d1 = Some (img (q + 1), d2)" "at d2 (q + 2)"
    by (rule at_read_byte [OF d1(2), where p' = "q + 2"]) (use assms(2) in simp_all)
  obtain d3 where d3: "sd_read_byte dev d2 = Some (img (q + 2), d3)" "at d3 (q + 3)"
    by (rule at_read_byte [OF d2(2), where p' = "q + 3"]) (use assms(2) in simp_all)
  have ok: "ok d1" "ok d3" using d1(2) d3(2) by (simp_all add: at_def)
  show ?thesis
    using d1(1) d2(1) d3 ok
    by (cases "img q = 0xEB \<or> img q = 0xE9") (auto simp: read_jump_def dev_read_byte_def jump_ok_def)
qed

lemma read_bpb_boot:
  assumes "ok (disk s)" and "q = unat (vol_offset (layout s))" and "q + 62 \<le> limit" and "boot_ok img q"
  shows "\<exists>d. ok d \<and> fat16_read_bpb dev s = Some (0, s\<lparr>disk := d, bpb := boot_bpb img q\<rparr>)"
proof -
  obtain d0 where d0: "sd_seek dev (disk s) (vol_offset (layout s)) = Some d0" "at d0 q"
    unfolding assms(2) by (rule at_seek [OF assms(1)])
  let ?s0 = "s\<lparr>bpb := zero_bpb, disk := d0\<rparr>"
  obtain d1 where d1: "read_jump dev ?s0 = Some (True, ?s0\<lparr>disk := d1\<rparr>)" "at d1 (q + 3)"
    using read_jump_boot [of ?s0 q] d0(2) assms(3,4) by (auto simp: boot_ok_def)
  obtain d2 where d2: "sd_read dev d1 8 = Some (bytes_at img (q + 3) 8, d2)" "at d2 (q + 11)"
    by (rule at_read [OF d1(2), where n = 8 and k = 8 and p' = "q + 11"]) (use assms(3) in simp_all)
  obtain d3 where d3: "sd_read dev d2 2 = Some (bytes_at img (q + 11) 2, d3)" "at d3 (q + 13)"
    by (rule at_read [OF d2(2), where n = 2 and k = 2 and p' = "q + 13"]) (use assms(3) in simp_all)
  obtain d4 where d4: "sd_read dev d3 1 = Some (bytes_at img (q + 13) 1, d4)" "at d4 (q + 14)"
    by (rule at_read [OF d3(2), where n = 1 and k = 1 and p' = "q + 14"]) (use assms(3) in simp_all)
  let ?b = "zero_bpb\<lparr>oem_name := bytes_at img (q + 3) 8, bytes_per_sector := boot16 img (q + 11),
    sectors_per_cluster := img (q + 13)\<rparr>"
  have bpb: "fat16_read_bpb dev s = read_geometry dev (s\<lparr>disk := d4, bpb := ?b\<rparr>)"
    using assms(4) d0(1) d1(1)
    by (auto simp: fat16_read_bpb_def dev_seek_def d2(1) d3(1) d4(1) dev_read_def Let_def boot_ok_def
        boot16_def [symmetric])
  have "at (disk (s\<lparr>disk := d4, bpb := ?b\<rparr>)) (q + 14)" using d4(2) by simp
  from read_geometry_boot [OF this assms(3)] show ?thesis
    unfolding bpb using assms(4) by (simp add: boot_ok_def zero_bpb_def)
qed

lemma read_bpb_bad_jump:
  assumes "ok (disk s)" and "q = unat (vol_offset (layout s))" and "q + 62 \<le> limit" and "\<not> jump_ok img q"
  shows "\<exists>d. fat16_read_bpb dev s = Some (INAVLID_JUMP_INSTRUCTION, s\<lparr>disk := d, bpb := zero_bpb\<rparr>)"
proof -
  obtain d0 where d0: "sd_seek dev (disk s) (vol_offset (layout s)) = Some d0" "at d0 q"
    unfolding assms(2) by (rule at_seek [OF assms(1)])
  let ?s0 = "s\<lparr>bpb := zero_bpb, disk := d0\<rparr>"
  obtain d1 where d1: "read_jump dev ?s0 = Some (False, ?s0\<lparr>disk := d1\<rparr>)"
    using read_jump_boot [of ?s0 q] d0(2) assms(3,4) by auto
  then show ?thesis
    using d0(1) by (intro exI [of _ d1]) (simp add: fat16_read_bpb_def dev_seek_def)
qed

end

section \<open>Mounting\<close>

definition boot_root_sectors :: "(nat \<Rightarrow> u8) \<Rightarrow> nat \<Rightarrow> u32" where
  "boot_root_sectors img q = of_nat (unat (boot16 img (q + 17)) * 32 div 512)"

definition boot_clusters :: "(nat \<Rightarrow> u8) \<Rightarrow> nat \<Rightarrow> u32" where
  "boot_clusters img q =
     (ucast (boot16 img (q + 19)) - (ucast (boot16 img (q + 14)) + ucast (img (q + 16)) * ucast (boot16 img (q + 22))
        + boot_root_sectors img q)) div ucast (img (q + 13))"

definition boot_layout :: "(nat \<Rightarrow> u8) \<Rightarrow> u32 \<Rightarrow> fat16_layout" where
  "boot_layout img off =
     (let q = unat off;
          fat = of_nat (unat (boot16 img (q + 14)) * 512);
          root = fat + of_nat (unat (img (q + 16)) * unat (boot16 img (q + 22)) * 512)
      in \<lparr>vol_offset = off, start_fat_region = fat, start_root_directory_region = root,
          start_data_region = root + boot_root_sectors img q * 512, data_cluster_count = boot_clusters img q\<rparr>)"

text \<open>What the arithmetic of \<^verbatim>\<open>fat16_init\<close> yields on the boot sector.\<close>

lemma boot_geometry:
  fixes off :: u32
  defines "q \<equiv> unat off"
  shows "(ucast (root_entry_count (boot_bpb img q)) * 32) div 512 = boot_root_sectors img q"
    and "(sector_count (boot_bpb img q) - (ucast (reserved_sector_count (boot_bpb img q))
      + ucast (num_fats (boot_bpb img q)) * ucast (fat_size (boot_bpb img q)) + boot_root_sectors img q))
      div ucast (sectors_per_cluster (boot_bpb img q)) = boot_clusters img q"
    and "ucast (reserved_sector_count (boot_bpb img q)) * 512 = start_fat_region (boot_layout img off)"
    and "ucast (num_fats (boot_bpb img q)) * ucast (fat_size (boot_bpb img q)) * 512 + start_fat_region (boot_layout img off)
      = start_root_directory_region (boot_layout img off)"
    and "boot_root_sectors img q * 512 + start_root_directory_region (boot_layout img off)
      = start_data_region (boot_layout img off)"
proof -
  have e: "unat (boot16 img (q + 17)) * 32 < addr_space" "unat (boot16 img (q + 17)) * 32 div 512 < addr_space"
    using unat_u16_lt [of "boot16 img (q + 17)"] by simp_all
  have "(ucast (boot16 img (q + 17)) * 32) div 512 = boot_root_sectors img q"
    unfolding unat_eq_iff_eq [symmetric] boot_root_sectors_def unat_of_nat_u32 [OF e(2)] unat_div
    by (subst unat_mult_u32) (use e in simp_all)
  then show "(ucast (root_entry_count (boot_bpb img q)) * 32) div 512 = boot_root_sectors img q"
    by (simp add: boot_bpb_def)
qed (simp_all add: boot_clusters_def boot_bpb_def boot_layout_def Let_def q_def)

context storage_device
begin

lemma fat16_init_boot:
  assumes "ok (disk s)" and "unat off + 62 \<le> limit" and "boot_ok img (unat off)"
    and "4085 \<le> boot_clusters img (unat off)" and "boot_clusters img (unat off) < 65525"
  shows "\<exists>d. ok d \<and> fat16_init dev s off = Some (0, s\<lparr>bpb := boot_bpb img (unat off), layout := boot_layout img off,
    handles := replicate 16 blank_handle, disk := d\<rparr>)"
proof -
  let ?q = "unat off" and ?s = "s\<lparr>layout := layout s\<lparr>vol_offset := off\<rparr>\<rparr>"
  obtain d where d: "ok d" "fat16_read_bpb dev ?s = Some (0, ?s\<lparr>disk := d, bpb := boot_bpb img ?q\<rparr>)"
    using read_bpb_boot [of ?s ?q] assms(1,2,3) by auto
  have b: "bytes_per_sector (boot_bpb img ?q) = 512" "sectors_per_cluster (boot_bpb img ?q) \<noteq> 0"
    using assms(3) by (auto simp: boot_ok_def boot_bpb_def)
  show ?thesis
    using d(1) b(2) assms(4,5)
    by (intro exI [of _ d]) (simp add: fat16_init_def d(2) b(1) Let_def boot_geometry [where off = off], simp add: boot_layout_def Let_def not_less not_le)
qed

text \<open>No jump instruction: the result 0 is taken for success and the zeroed block size divides.\<close>

lemma fat16_init_bad_jump:
  assumes "ok (disk s)" and "unat off + 62 \<le> limit" and "\<not> jump_ok img (unat off)"
  shows "fat16_init dev s off = None"
proof -
  let ?s = "s\<lparr>layout := layout s\<lparr>vol_offset := off\<rparr>\<rparr>"
  obtain d where "fat16_read_bpb dev ?s = Some (0, ?s\<lparr>disk := d, bpb := zero_bpb\<rparr>)"
    using read_bpb_bad_jump [of ?s "unat off"] assms by auto
  then show ?thesis by (simp add: fat16_init_def zero_bpb_def)
qed

end

end
