(* ===== verification/Fat16_File.thy ===== *)
theory Fat16_File
  imports Disk_Stack Fat16_Dir Fat16_Init
begin

text \<open>
  Files by name, over the whole disk stack: opening a path of the root directory searches the
  directory on the disk, and reading the handle delivers the file.
\<close>

section \<open>A volume with one file\<close>

text \<open>The directory entry \<^verbatim>\<open>HELLO.TXT\<close>: cluster 2, 600 bytes.\<close>

definition hello_entry :: "u8 list" where
  "hello_entry = [0x48, 0x45, 0x4C, 0x4C, 0x4F, 0x20, 0x20, 0x20, 0x54, 0x58, 0x54, 0x20] @ replicate 14 0
     @ [2, 0, 0x58, 2, 0, 0]"

definition hello_platter :: "nat \<Rightarrow> u8" where
  "hello_platter i =
     (if i = 51716 then 3 else if i = 51717 then 0
      else if 52224 \<le> i \<and> i < 52256 then hello_entry ! (i - 52224)
      else if 52256 \<le> i \<and> i < 52736 then 0 else of_nat (i div 512))"

definition hello_volume :: "ata fat16" where
  "hello_volume = sample_volume\<lparr>bpb := (bpb sample_volume)\<lparr>root_entry_count := 16\<rparr>, handles := replicate 16 blank_handle\<rparr>"


abbreviation (input) hello_img :: "nat \<Rightarrow> u8" where "hello_img \<equiv> \<lambda>i. hello_platter (51200 + i)"

lemma hello_volume:
  "cluster_bytes hello_volume = 512" "data_pos hello_volume 2 0 = 1536" "data_pos hello_volume 3 0 = 2048"
  "fat_pos hello_volume 2 = 516" "fat_pos hello_volume 3 = 518" "root_start hello_volume = 1024"
  "unat (root_entry_count (bpb hello_volume)) = 16"
  "next_in_fat hello_volume hello_img 2 = 3"
  "disk hello_volume = quiet_kernel 0x1F0 0" "handles hello_volume = replicate 16 blank_handle"
  by (simp_all add: hello_volume_def sample_volume_def cluster_bytes_def zero_bpb_def data_pos_def fat_pos_def next_in_fat_def
      le16_def hello_platter_def root_start_def root_directory_pos_def)

lemma hello_root_entry:
  "root_entry hello_volume hello_img 0 = \<lparr>name = take 11 hello_entry, attribute = 0x20, starting_cluster = 2, entry_size = 600\<rparr>"
proof -
  have "bytes_at hello_img 1024 32 = hello_entry"
    by (rule nth_equalityI) (simp_all add: hello_platter_def hello_entry_def)
  then show ?thesis
    by (simp add: root_entry_def hello_volume dir_entry_of_def) (simp add: hello_entry_def le16_def le32_def)
qed

lemma hello_entries:
  "\<exists>es. root_entries hello_volume hello_img = root_entry hello_volume hello_img 0 # root_entry hello_volume hello_img 1 # es"
  using drop_root_entries [of 0 hello_volume hello_img] drop_root_entries [of 1 hello_volume hello_img]
  by (intro exI [of _ "drop 2 (root_entries hello_volume hello_img)"]) (simp add: hello_volume numeral_2_eq_2)

lemma hello_end: "name (root_entry hello_volume hello_img 1) ! 0 = 0"
  by (simp add: root_entry_def hello_volume dir_entry_of_def hello_platter_def)


lemma hello_missing: "lookup (root_entries hello_volume hello_img) (pad 8 [0x41] @ pad 3 []) = None"
proof -
  have "take 11 hello_entry ! 0 = 0x48" "take 11 hello_entry \<noteq> pad 8 [0x41] @ pad 3 []"
    by (simp_all add: hello_entry_def pad_def)
  then show ?thesis using hello_entries hello_end by (auto simp: hello_root_entry)
qed


lemma hello_handle: "find_available_handle hello_volume = 0"
  by (simp add: find_available_handle_def hello_volume blank_handle_def upt_conv_Cons)


section \<open>Properties\<close>



text \<open>
  C23: Opening a name the root directory does not hold, or holds as a volume label or a
  subdirectory, fails with -1, leaves every other handle alone and the slot free.
\<close>

theorem open_missing_file:
  assumes "ata_drive io base master platter sectors idle busy transfer"
    and "g_default_disk (disk s) = Some (init_disk base master)" and "idle (trace (disk s))"
    and "img = (\<lambda>i. platter (51200 + i))" and "limit = min (512 * (sectors - 100)) (2 ^ 32 - 1)"
    and "root_ok s limit" and "length (handles s) = 16"
    and "is_in_root path = Some True" and "to_short_filename (replicate 11 0) path = Some nm"
    and "case lookup (root_entries s img) nm of None \<Rightarrow> True
      | Some k \<Rightarrow> attribute (root_entry s img k) AND VOULME \<noteq> 0 \<or> attribute (root_entry s img k) AND SUBDIR \<noteq> 0"
    and "h = find_available_handle s" and "h < 16"
  shows "\<exists>s1. fat16_open (kernel_dev io junk) s path MODE_R = Some (- 1, s1)
    \<and> mode (handles s1 ! h) = 0 \<and> (\<forall>i. i \<noteq> h \<longrightarrow> handles s1 ! i = handles s ! i)"
proof -
  obtain d where d: "fat16_open (kernel_dev io junk) s path MODE_R =
    (case lookup (root_entries s img) nm of
       None \<Rightarrow> Some (- 1, s\<lparr>disk := d, handles := (handles s)[h := (handles s ! h)\<lparr>mode := 0\<rparr>]\<rparr>)
     | Some k \<Rightarrow>
         if entry_refused (root_entry s img k) MODE_R True
         then Some (- 1, s\<lparr>disk := d, handles := (handles s)[h := (handles s ! h)
                \<lparr>pos_entry := root_directory_pos s (of_nat k), mode := 0\<rparr>]\<rparr>)
         else Some (0, s\<lparr>disk := d, handles := (handles s)[h := read_handle s img (handles s ! h) k]\<rparr>))"
    using storage_device.fat16_open_root [OF kernel_device [OF assms(1), of junk], folded assms(4,5), OF _ assms(6,8,9,11,12)]
      assms(2,3) by blast
  have "entry_refused e MODE_R True" if "attribute e AND VOULME \<noteq> 0 \<or> attribute e AND SUBDIR \<noteq> 0" for e
    using that by (auto simp: entry_refused_def)
  then show ?thesis
    using assms(7,10,12) unfolding d by (auto split: option.splits)
qed

theorem open_missing_file_witness:
  "\<exists>s1. fat16_open (kernel_dev (pio_io 0x1F0 hello_platter) (\<lambda>_. [])) hello_volume [0x2F, 0x41] MODE_R = Some (- 1, s1)"
proof -
  have "well_formed [0x41] [] (strip_slash [0x2F, 0x41])"
    by (simp add: well_formed_def strip_slash_def ch_Cons valid_chars_def is_character_valid_def)
  then have short: "to_short_filename (replicate 11 0) [0x2F, 0x41] = Some (pad 8 [0x41] @ pad 3 [])"
    by (metis to_short_filename_complete length_replicate)
  have root: "is_in_root [0x2F, 0x41] = Some True" by (subst is_in_root_iff) (simp_all add: ch_Cons)
  show ?thesis
    using open_missing_file [OF pio_drive [of "2 ^ 28" "0x1F0" hello_platter True], where s = hello_volume
      and img = hello_img and limit = 4294967295 and path = "[0x2F, 0x41]" and nm = "pad 8 [0x41] @ pad 3 []"
      and h = 0 and junk = "\<lambda>_. []"] short root hello_missing hello_handle
    by (auto simp: hello_volume root_ok_def)
qed

section \<open>Mounting\<close>





text \<open>
  C25: On a disk without a jump instruction where its boot sector should be, \<^verbatim>\<open>fat16_init\<close> does
  not return: the error code for it is 0, which is taken for success, and the division by the zeroed
  block size faults.
\<close>

theorem fat16_init_divides_by_zero:
  assumes "ata_drive io base master platter sectors idle busy transfer"
    and "g_default_disk (disk s) = Some (init_disk base master)" and "idle (trace (disk s))"
    and "unat off + 62 \<le> min (512 * (sectors - 100)) (2 ^ 32 - 1)"
    and "\<not> jump_ok (\<lambda>i. platter (51200 + i)) (unat off)"
  shows "fat16_init (kernel_dev io junk) s off = None"
  using storage_device.fat16_init_bad_jump [OF kernel_device [OF assms(1), of junk] _ assms(4,5)] assms(2,3) by blast

theorem fat16_init_divides_by_zero_witness:
  "fat16_init (kernel_dev (pio_io 0x1F0 (\<lambda>_. 0)) (\<lambda>_. [])) sample_volume 0 = None"
  using fat16_init_divides_by_zero [OF pio_drive [of "2 ^ 28" "0x1F0" "\<lambda>_. 0" True], where s = sample_volume and off = 0
      and junk = "\<lambda>_. []"] by (simp add: jump_ok_def)

end
