(* ===== verification/Fat16_Subdir.thy ===== *)
theory Fat16_Subdir
  imports Fat16_File
begin

text \<open>
  Subdirectories: the entries of a directory lie along its cluster chain, and the search of
  \<^verbatim>\<open>fat16_subdir.c\<close> is \<open>lookup\<close> on the list of them.  On it rest opening and reading a file \<^verbatim>\<open>/DIR/FILE\<close>
  over the disk stack, and what becomes of longer paths.
\<close>

section \<open>A directory along its chain\<close>

definition cluster_entry :: "'d fat16 \<Rightarrow> (nat \<Rightarrow> u8) \<Rightarrow> u16 \<Rightarrow> nat \<Rightarrow> dir_entry" where
  "cluster_entry s img c i = dir_entry_of (bytes_at img (unat (data_pos s c 0) + 32 * i) 32)"

definition per_cluster :: "'d fat16 \<Rightarrow> nat" where
  "per_cluster s = unat (cluster_bytes s) div 32"

definition cluster_entries :: "'d fat16 \<Rightarrow> (nat \<Rightarrow> u8) \<Rightarrow> u16 \<Rightarrow> dir_entry list" where
  "cluster_entries s img c = map (cluster_entry s img c) [0..<per_cluster s]"

text \<open>The entries of the \<open>k\<close> clusters from \<open>c\<close> on.\<close>

primrec dir_entries :: "'d fat16 \<Rightarrow> (nat \<Rightarrow> u8) \<Rightarrow> u16 \<Rightarrow> nat \<Rightarrow> dir_entry list" where
  "dir_entries s img c 0 = []"
| "dir_entries s img c (Suc k) = cluster_entries s img c @ dir_entries s img (next_in_fat s img c) k"

text \<open>The chain of \<open>c\<close> has \<open>k\<close> clusters, all on the device, and then an end mark.\<close>

primrec dir_ok :: "'d fat16 \<Rightarrow> (nat \<Rightarrow> u8) \<Rightarrow> nat \<Rightarrow> u16 \<Rightarrow> nat \<Rightarrow> bool" where
  "dir_ok s img limit c 0 \<longleftrightarrow> c \<ge> 0xFFF8"
| "dir_ok s img limit c (Suc k) \<longleftrightarrow> c < 0xFFF8 \<and> cluster_ok s limit c \<and> dir_ok s img limit (next_in_fat s img c) k"

definition whole_entries :: "'d fat16 \<Rightarrow> bool" where
  "whole_entries s \<longleftrightarrow> unat (cluster_bytes s) mod 32 = 0"

lemma length_cluster_entries [simp]: "length (cluster_entries s img c) = per_cluster s"
  by (simp add: cluster_entries_def)

lemma drop_cluster_entries:
  "i < per_cluster s \<Longrightarrow> drop i (cluster_entries s img c) = cluster_entry s img c i # drop (Suc i) (cluster_entries s img c)"
  by (subst Cons_nth_drop_Suc [symmetric]) (simp_all add: cluster_entries_def)

lemma dir_disk [simp]:
  "cluster_entry (s\<lparr>disk := d\<rparr>) = cluster_entry s" "per_cluster (s\<lparr>disk := d\<rparr>) = per_cluster s"
  "cluster_entries (s\<lparr>disk := d\<rparr>) = cluster_entries s" "whole_entries (s\<lparr>disk := d\<rparr>) = whole_entries s"
  by (auto simp: fun_eq_iff cluster_entry_def per_cluster_def cluster_entries_def whole_entries_def)

lemma dir_entries_disk [simp]: "dir_entries (s\<lparr>disk := d\<rparr>) img c k = dir_entries s img c k"
  by (induction k arbitrary: c) simp_all

lemma dir_ok_disk [simp]: "dir_ok (s\<lparr>disk := d\<rparr>) img limit c k = dir_ok s img limit c k"
  by (induction k arbitrary: c) (simp_all add: cluster_ok_def)

text \<open>What is still to be read behind entry \<open>i\<close> of cluster \<open>c\<close>.\<close>

definition entries_from :: "'d fat16 \<Rightarrow> (nat \<Rightarrow> u8) \<Rightarrow> u16 \<Rightarrow> nat \<Rightarrow> nat \<Rightarrow> dir_entry list" where
  "entries_from s img c i k = drop i (cluster_entries s img c) @ dir_entries s img (next_in_fat s img c) k"

text \<open>The handle stands before entry \<open>i\<close> of its cluster, in a chain with \<open>k\<close> more clusters.\<close>

definition dir_handle :: "'d fat16 \<Rightarrow> (nat \<Rightarrow> u8) \<Rightarrow> nat \<Rightarrow> entry_handle \<Rightarrow> nat \<Rightarrow> nat \<Rightarrow> bool" where
  "dir_handle s img limit h i k \<longleftrightarrow> dir_ok s img limit (cluster h) (Suc k) \<and> i \<le> per_cluster s
     \<and> unat (offset h) = 32 * i"

lemma dir_handle_disk [simp]: "dir_handle (s\<lparr>disk := d\<rparr>) img limit h i k = dir_handle s img limit h i k"
  "entries_from (s\<lparr>disk := d\<rparr>) img c i k = entries_from s img c i k"
  by (simp_all add: dir_handle_def entries_from_def del: dir_ok.simps)

context storage_device
begin

text \<open>One entry, inside the cluster.\<close>

lemma read_entry_here:
  assumes "ok (disk s)" and "volume_ok s limit" and "whole_entries s" and dh: "dir_handle s img limit h i k"
    and i: "i < per_cluster s"
  obtains d where "read_entry_from_subdir dev s e0 h
      = Some (0, cluster_entry s img (cluster h) i, h\<lparr>offset := offset h + 32\<rparr>, s\<lparr>disk := d\<rparr>)" "ok d"
    "dir_handle s img limit (h\<lparr>offset := offset h + 32\<rparr>) (Suc i) k"
proof -
  have csz: "unat (cluster_bytes s) = 32 * per_cluster s"
    using assms(3) by (simp add: per_cluster_def whole_entries_def) (metis mult_div_mod_eq add.right_neutral)
  have small: "unat (cluster_bytes s) < 65536" using assms(2) by (simp add: volume_ok_def)
  have off: "unat (offset h) = 32 * i" and ck: "cluster_ok s limit (cluster h)"
    using dh by (simp_all add: dir_handle_def)
  have ne: "ucast (offset h) \<noteq> cluster_bytes s"
    using off i csz by (metis nat_mult_eq_cancel1 less_irrefl unat_ucast_u16_u32 zero_less_numeral)
  have p: "unat (data_pos s (cluster h) (offset h)) = unat (data_pos s (cluster h) 0) + 32 * i"
    using data_pos_offset [OF ck assms(2), of "offset h"] off i csz by simp
  have u32: "unat (32 :: u32) = 32" by simp
  have "unat (data_pos s (cluster h) (offset h)) + unat (32 :: u32) \<le> limit"
    using ck i csz by (simp add: p cluster_ok_def)
  then obtain d1 d2 where r: "sd_seek dev (disk s) (data_pos s (cluster h) (offset h)) = Some d1"
    "sd_read dev d1 32 = Some (bytes_at img (unat (data_pos s (cluster h) 0) + 32 * i) 32, d2)" "ok d2"
    using seek_read [OF assms(1), of "data_pos s (cluster h) (offset h)" 32] unfolding u32 p by metis
  have "unat (offset h + 32) = 32 * Suc i"
    using off i csz small by (simp add: unat_word_ariths)
  then have "dir_handle s img limit (h\<lparr>offset := offset h + 32\<rparr>) (Suc i) k"
    using dh i by (simp add: dir_handle_def)
  then show ?thesis
    using r ne by (intro that [of d2])
      (simp_all add: read_entry_from_subdir_def move_to_data_region_def dev_seek_def dev_read_def Let_def cluster_entry_def)
qed

text \<open>Behind the last entry of a cluster the next cluster is entered, or the directory ends.\<close>

lemma read_entry_next:
  assumes "ok (disk s)" and "volume_ok s limit" and "whole_entries s" and dh: "dir_handle s img limit h (per_cluster s) k"
  obtains d where "ok d" "next_in_fat s img (cluster h) \<ge> 0xFFF8" "k = 0"
      "read_entry_from_subdir dev s e0 h = Some (- 1, e0, h, s\<lparr>disk := d\<rparr>)"
  | d h' k' where "ok d" "k = Suc k'" "h' = h\<lparr>cluster := next_in_fat s img (cluster h), offset := 0\<rparr>"
      "dir_handle s img limit h' 0 k'"
      "read_entry_from_subdir dev s e0 h = read_entry_from_subdir dev (s\<lparr>disk := d\<rparr>) e0 h'"
proof -
  have csz: "unat (cluster_bytes s) = 32 * per_cluster s"
    using assms(3) by (simp add: per_cluster_def whole_entries_def) (metis mult_div_mod_eq add.right_neutral)
  have ck: "cluster_ok s limit (cluster h)" and rest: "dir_ok s img limit (next_in_fat s img (cluster h)) k"
    and off: "unat (offset h) = 32 * per_cluster s"
    using dh by (simp_all add: dir_handle_def)
  have eq: "ucast (offset h) = cluster_bytes s"
    by (simp add: off csz flip: unat_eq_iff_eq)
  have fat: "unat (fat_pos s (cluster h)) + 2 \<le> limit" using ck by (simp add: cluster_ok_def)
  obtain d where d: "get_next_cluster dev s (cluster h) = Some (0, next_in_fat s img (cluster h), s\<lparr>disk := d\<rparr>)" "ok d"
    by (rule next_cluster [OF assms(1) fat])
  show ?thesis
  proof (cases k)
    case 0
    then show ?thesis using that(1) [of d] d eq rest by (simp add: read_entry_from_subdir_def)
  next
    case (Suc k')
    let ?n = "next_in_fat s img (cluster h)"
    have n: "?n < 0xFFF8" "\<not> 0xFFF8 \<le> ?n" using rest Suc by auto
    obtain d' where d': "move_to_data_region dev (s\<lparr>disk := d\<rparr>) ?n 0 = Some (data_pos s ?n 0, s\<lparr>disk := d'\<rparr>)" "ok d'"
      using seek_data [of "s\<lparr>disk := d\<rparr>" ?n 0] d(2) by auto
    have csz0: "cluster_bytes s \<noteq> 0" using assms(2) by (auto simp: volume_ok_def)
    show ?thesis
      by (rule that(2) [of d' k' "h\<lparr>cluster := ?n, offset := 0\<rparr>"])
        (use d d' n eq rest Suc csz0 in \<open>simp_all add: read_entry_from_subdir_def dir_handle_def\<close>)
  qed
qed

text \<open>Together: the next entry of the list, or its end.\<close>

lemma read_entry_list:
  assumes "ok (disk s)" and "volume_ok s limit" and "whole_entries s" and dh: "dir_handle s img limit h i k"
  shows "case entries_from s img (cluster h) i k of
      [] \<Rightarrow> \<exists>d. read_entry_from_subdir dev s e0 h = Some (- 1, e0, h, s\<lparr>disk := d\<rparr>) \<and> ok d
    | e # es \<Rightarrow> \<exists>d c' o' i' k'. read_entry_from_subdir dev s e0 h = Some (0, e, h\<lparr>cluster := c', offset := o'\<rparr>, s\<lparr>disk := d\<rparr>)
        \<and> ok d \<and> dir_handle s img limit (h\<lparr>cluster := c', offset := o'\<rparr>) i' k' \<and> entries_from s img c' i' k' = es"
proof -
  have here: "\<exists>d c' o' i' k'. read_entry_from_subdir dev s e0 h
        = Some (0, cluster_entry s img (cluster h) i, h\<lparr>cluster := c', offset := o'\<rparr>, s\<lparr>disk := d\<rparr>)
      \<and> ok d \<and> dir_handle s img limit (h\<lparr>cluster := c', offset := o'\<rparr>) i' k'
      \<and> entries_from s img c' i' k' = entries_from s img (cluster h) (Suc i) k"
    if "ok (disk s)" "dir_handle s img limit h i k" "i < per_cluster s" "volume_ok s limit" "whole_entries s" for s h i k
  proof -
    note prems = that(1,4,5,2,3)
    obtain d where d: "read_entry_from_subdir dev s e0 h
        = Some (0, cluster_entry s img (cluster h) i, h\<lparr>offset := offset h + 32\<rparr>, s\<lparr>disk := d\<rparr>)" "ok d"
      "dir_handle s img limit (h\<lparr>offset := offset h + 32\<rparr>) (Suc i) k"
      by (rule read_entry_here [OF prems])
    have "h\<lparr>cluster := cluster h, offset := offset h + 32\<rparr> = h\<lparr>offset := offset h + 32\<rparr>" by simp
    then show ?thesis using d by metis
  qed
  show ?thesis
  proof (cases "i < per_cluster s")
    case True
    then show ?thesis using here [OF assms(1) dh True assms(2,3)]
      by (simp add: entries_from_def drop_cluster_entries)
  next
    case False
    then have i: "i = per_cluster s" using dh by (simp add: dir_handle_def)
    have pc: "0 < per_cluster s"
      using assms(2,3) by (auto simp: per_cluster_def volume_ok_def whole_entries_def dest: mod_less)
    from read_entry_next [OF assms(1-3) dh [unfolded i], of e0] show ?thesis
    proof cases
      case (1 d)
      then show ?thesis by (auto simp: entries_from_def i)
    next
      case (2 d h' k')
      then have "\<exists>d2 c' o' i' k''. read_entry_from_subdir dev (s\<lparr>disk := d\<rparr>) e0 h'
          = Some (0, cluster_entry s img (cluster h') 0, h'\<lparr>cluster := c', offset := o'\<rparr>, s\<lparr>disk := d2\<rparr>)
        \<and> ok d2 \<and> dir_handle s img limit (h'\<lparr>cluster := c', offset := o'\<rparr>) i' k''
        \<and> entries_from s img c' i' k'' = entries_from s img (cluster h') (Suc 0) k'"
        using here [of "s\<lparr>disk := d\<rparr>" h' 0 k'] pc assms(2,3) by simp
      moreover have "entries_from s img (cluster h) i k
          = cluster_entry s img (cluster h') 0 # entries_from s img (cluster h') (Suc 0) k'"
        using 2(2,3) pc drop_cluster_entries [of 0 s img "cluster h'"] by (simp add: entries_from_def i)
      ultimately show ?thesis using 2(3,5) by simp
    qed
  qed
qed

lemma set_same_place [simp]: "h\<lparr>cluster := cluster h, offset := offset h\<rparr> = h"
  by simp

text \<open>The search of the driver is \<open>lookup\<close>.\<close>

lemma find_subdir_loop_lookup:
  assumes "ok (disk s)" and "volume_ok s limit" and "whole_entries s" and "dir_handle s img limit h i k"
  shows "\<exists>d e c' o'. ok d \<and> find_subdir_loop dev s e0 h nm =
    (case lookup (entries_from s img (cluster h) i k) nm of
       None \<Rightarrow> Some (- 1, e, h\<lparr>cluster := c', offset := o'\<rparr>, s\<lparr>disk := d\<rparr>)
     | Some j \<Rightarrow> Some (0, entries_from s img (cluster h) i k ! j, h\<lparr>cluster := c', offset := o'\<rparr>, s\<lparr>disk := d\<rparr>))"
  using assms
proof (induction "length (entries_from s img (cluster h) i k)" arbitrary: s e0 h i k)
  case 0
  then have nil: "entries_from s img (cluster h) i k = []" by simp
  obtain d where "read_entry_from_subdir dev s e0 h = Some (- 1, e0, h, s\<lparr>disk := d\<rparr>)" "ok d"
    using read_entry_list [OF 0(2-5), of e0] nil by auto
  then show ?case
    by (intro exI [of _ d] exI [of _ e0] exI [of _ "cluster h"] exI [of _ "offset h"])
      (subst find_subdir_loop.simps, simp add: nil)
next
  case (Suc n)
  then obtain e es where L: "entries_from s img (cluster h) i k = e # es" "n = length es"
    by (cases "entries_from s img (cluster h) i k") auto
  obtain d c' o' i' k' where r: "read_entry_from_subdir dev s e0 h = Some (0, e, h\<lparr>cluster := c', offset := o'\<rparr>, s\<lparr>disk := d\<rparr>)"
    "ok d" "dir_handle s img limit (h\<lparr>cluster := c', offset := o'\<rparr>) i' k'" "entries_from s img c' i' k' = es"
    using read_entry_list [OF Suc(3-6), of e0] L(1) by auto
  let ?s = "s\<lparr>disk := d\<rparr>" and ?h = "h\<lparr>cluster := c', offset := o'\<rparr>"
  have "n = length (entries_from ?s img (cluster ?h) i' k')" "ok (disk ?s)" "volume_ok ?s limit" "whole_entries ?s"
    "dir_handle ?s img limit ?h i' k'" using L r Suc(4,5) by simp_all
  from Suc(1) [OF this, of e] obtain d2 e2 c2 o2 where rest0: "ok d2" "find_subdir_loop dev ?s e ?h nm =
    (case lookup (entries_from ?s img (cluster ?h) i' k') nm of
       None \<Rightarrow> Some (- 1, e2, ?h\<lparr>cluster := c2, offset := o2\<rparr>, ?s\<lparr>disk := d2\<rparr>)
     | Some j \<Rightarrow> Some (0, entries_from ?s img (cluster ?h) i' k' ! j, ?h\<lparr>cluster := c2, offset := o2\<rparr>, ?s\<lparr>disk := d2\<rparr>))"
    by blast
  have rest: "ok d2" "find_subdir_loop dev ?s e ?h nm =
    (case lookup es nm of
       None \<Rightarrow> Some (- 1, e2, h\<lparr>cluster := c2, offset := o2\<rparr>, s\<lparr>disk := d2\<rparr>)
     | Some j \<Rightarrow> Some (0, es ! j, h\<lparr>cluster := c2, offset := o2\<rparr>, s\<lparr>disk := d2\<rparr>))"
    using rest0 r(4) by (simp_all cong: option.case_cong)
  have step: "find_subdir_loop dev s e0 h nm =
      (if name e ! 0 = AVAILABLE_DIR_ENTRY then find_subdir_loop dev ?s e ?h nm
       else if name e ! 0 = 0 then Some (- 1, e, ?h, ?s)
       else if attribute e AND VFAT_DIR_ENTRY = VFAT_DIR_ENTRY then find_subdir_loop dev ?s e ?h nm
       else if nm = name e then Some (0, e, ?h, ?s)
       else find_subdir_loop dev ?s e ?h nm)"
    by (subst find_subdir_loop.simps) (simp add: r(1))
  have again: "(case map_option Suc x of
       None \<Rightarrow> Some (- 1, e2, h\<lparr>cluster := c2, offset := o2\<rparr>, s\<lparr>disk := d2\<rparr>)
     | Some j \<Rightarrow> Some (0, (e # es) ! j, h\<lparr>cluster := c2, offset := o2\<rparr>, s\<lparr>disk := d2\<rparr>))
     = (case x of
       None \<Rightarrow> Some (- 1 :: int, e2, h\<lparr>cluster := c2, offset := o2\<rparr>, s\<lparr>disk := d2\<rparr>)
     | Some j \<Rightarrow> Some (0, es ! j, h\<lparr>cluster := c2, offset := o2\<rparr>, s\<lparr>disk := d2\<rparr>))" for x
    by (cases x) simp_all
  consider "name e ! 0 = AVAILABLE_DIR_ENTRY \<or> (name e ! 0 \<noteq> 0 \<and>
      (attribute e AND VFAT_DIR_ENTRY = VFAT_DIR_ENTRY \<or> nm \<noteq> name e))"
    | "name e ! 0 \<noteq> AVAILABLE_DIR_ENTRY" "name e ! 0 = 0 \<or>
      name e ! 0 \<noteq> 0 \<and> attribute e AND VFAT_DIR_ENTRY \<noteq> VFAT_DIR_ENTRY \<and> nm = name e"
    by blast
  then show ?case
  proof cases
    case 1
    then have "lookup (e # es) nm = map_option Suc (lookup es nm)"
      "find_subdir_loop dev s e0 h nm = find_subdir_loop dev ?s e ?h nm" unfolding step by auto
    then show ?thesis unfolding L(1) using rest again
      by (intro exI [of _ d2] exI [of _ e2] exI [of _ c2] exI [of _ o2]) simp
  next
    case 2
    then show ?thesis unfolding step L(1) using r(2)
      by (intro exI [of _ d] exI [of _ e] exI [of _ c'] exI [of _ o']) auto
  qed
qed

lemma find_entry_in_subdir_lookup:
  assumes "ok (disk s)" and "volume_ok s limit" and "whole_entries s"
    and "dir_ok s img limit (cluster h) (Suc k)" and "offset h = 0"
  obtains d e p where "ok d" "find_entry_in_subdir dev s e0 p0 h nm =
    (case lookup (dir_entries s img (cluster h) (Suc k)) nm of
       None \<Rightarrow> Some (- 1, e, p0, h, s\<lparr>disk := d\<rparr>)
     | Some j \<Rightarrow> Some (0, dir_entries s img (cluster h) (Suc k) ! j, p, h, s\<lparr>disk := d\<rparr>))"
proof -
  let ?es = "dir_entries s img (cluster h) (Suc k)"
  have "dir_handle s img limit h 0 k" using assms(4,5) by (simp add: dir_handle_def)
  moreover have es: "entries_from s img (cluster h) 0 k = ?es" by (simp add: entries_from_def)
  ultimately obtain d e c' o' where f: "ok d" "find_subdir_loop dev s e0 h nm =
    (case lookup ?es nm of
       None \<Rightarrow> Some (- 1, e, h\<lparr>cluster := c', offset := o'\<rparr>, s\<lparr>disk := d\<rparr>)
     | Some j \<Rightarrow> Some (0, ?es ! j, h\<lparr>cluster := c', offset := o'\<rparr>, s\<lparr>disk := d\<rparr>))"
    using find_subdir_loop_lookup [OF assms(1-3), of h 0 k e0 nm] unfolding es by blast
  have same: "h\<lparr>cluster := c', offset := o', cluster := cluster h, offset := 0\<rparr> = h"
    using assms(5) by (cases h) simp
  obtain d2 where d2: "move_to_data_region dev (s\<lparr>disk := d\<rparr>) c' o' = Some (data_pos s c' o', s\<lparr>disk := d2\<rparr>)" "ok d2"
    using seek_data [of "s\<lparr>disk := d\<rparr>" c' o'] f(1) by auto
  show ?thesis
  proof (cases "lookup ?es nm")
    case None
    then show ?thesis using f same
      by (intro that [of d e]) (simp_all add: find_entry_in_subdir_def del: dir_entries.simps)
  next
    case (Some j)
    then show ?thesis using f same d2
      by (intro that [of d2 e "data_pos s c' o' - 32"]) (simp_all add: find_entry_in_subdir_def del: dir_entries.simps)
  qed
qed

end

text \<open>A handle on the file of entry \<open>e\<close>, opened for reading.\<close>

definition file_handle :: "dir_entry \<Rightarrow> u32 \<Rightarrow> entry_handle" where
  "file_handle e p = \<lparr>mode = MODE_R, pos_entry = p, cluster = starting_cluster e, offset = 0, remaining_bytes = entry_size e\<rparr>"

lemma stream_file_handle [simp]: "stream s img (file_handle e p) = file_bytes s img e"
  by (simp add: stream_def file_handle_def file_bytes_def)

lemma handle_ok_file_handle:
  "handle_ok s img limit (file_handle e p) \<longleftrightarrow> (entry_size e \<noteq> 0 \<longrightarrow> 0 < unat (cluster_bytes s)
      \<and> chain_ok s img limit (starting_cluster e) (unat (entry_size e)))"
  by (simp add: handle_ok_def file_handle_def)

text \<open>The root directory has a directory \<open>dn\<close> that holds the file \<open>fn\<close> with entry \<open>e\<close>.\<close>

definition file_in_dir :: "'d fat16 \<Rightarrow> (nat \<Rightarrow> u8) \<Rightarrow> nat \<Rightarrow> u8 list \<Rightarrow> u8 list \<Rightarrow> dir_entry \<Rightarrow> bool" where
  "file_in_dir s img limit dn fn e \<longleftrightarrow> (\<exists>j k i. lookup (root_entries s img) dn = Some j
     \<and> \<not> entry_refused (root_entry s img j) MODE_R False
     \<and> dir_ok s img limit (starting_cluster (root_entry s img j)) k
     \<and> lookup (dir_entries s img (starting_cluster (root_entry s img j)) k) fn = Some i
     \<and> e = dir_entries s img (starting_cluster (root_entry s img j)) k ! i
     \<and> \<not> entry_refused e MODE_R True)"

context storage_device
begin

lemma open_file_in_subdir_found:
  assumes "ok (disk s)" and "volume_ok s limit" and "whole_entries s"
    and "dir_ok s img limit (cluster h) (Suc k)" and "offset h = 0"
    and "lookup (dir_entries s img (cluster h) (Suc k)) nm = Some i"
    and "e = dir_entries s img (cluster h) (Suc k) ! i" and "\<not> entry_refused e MODE_R True"
  obtains d p where "ok d" "open_file_in_subdir dev s h nm MODE_R = Some (0, file_handle e p, s\<lparr>disk := d\<rparr>)"
proof -
  obtain d e' p where f: "ok d" "find_entry_in_subdir dev s blank_entry 0 h nm = Some (0, e, p, h, s\<lparr>disk := d\<rparr>)"
    using find_entry_in_subdir_lookup [OF assms(1-5), of blank_entry 0 nm] unfolding assms(6) option.case assms(7)
    by metis
  have "h\<lparr>mode := MODE_R, pos_entry := p, cluster := starting_cluster e, offset := 0, remaining_bytes := entry_size e\<rparr>
      = file_handle e p" by (cases h) (simp add: file_handle_def)
  then show ?thesis using f assms(8)
    by (intro that [of d p]) (simp_all add: open_file_in_subdir_def open_entry_in_subdir_def position_handle_def)
qed

end

section \<open>Walking a path\<close>

text \<open>
  The strings \<^verbatim>\<open>/D/F\<close> and \<^verbatim>\<open>/A/B/F\<close>; a component holds no slash and no terminator.  A directory fits the
  array of the walk if it has at most 11 characters.
\<close>

definition component :: "u8 list \<Rightarrow> bool" where
  "component c \<longleftrightarrow> SLASH \<notin> set c \<and> 0 \<notin> set c"

definition dir_component :: "u8 list \<Rightarrow> bool" where
  "dir_component c \<longleftrightarrow> component c \<and> length c \<le> 11"

definition path2 :: "u8 list \<Rightarrow> u8 list \<Rightarrow> u8 list" where
  "path2 d f = SLASH # d @ SLASH # f"

definition path3 :: "u8 list \<Rightarrow> u8 list \<Rightarrow> u8 list \<Rightarrow> u8 list" where
  "path3 a b f = SLASH # a @ SLASH # b @ SLASH # f"

lemma get_subdir_path2:
  assumes "dir_component d" and "component f" and "length (path2 d f) < 65536"
  shows "get_subdir nm 0 (path2 d f) = Some (0, SLASH # d, of_nat (1 + length d))"
    and "get_subdir nm (of_nat (1 + length d)) (path2 d f) = Some (- 2, nm, of_nat (1 + length d))"
    and "drop (unat (of_nat (1 + length d) :: u16)) (path2 d f) = SLASH # f"
proof -
  have nz: "0 \<notin> set (path2 d f)" using assms(1,2) by (auto simp: path2_def component_def dir_component_def)
  show "get_subdir nm 0 (path2 d f) = Some (0, SLASH # d, of_nat (1 + length d))"
    using get_subdir_inner [of "path2 d f" "[]" d f nm] assms nz by (simp add: path2_def component_def dir_component_def)
  show "get_subdir nm (of_nat (1 + length d)) (path2 d f) = Some (- 2, nm, of_nat (1 + length d))"
    using get_subdir_last [of "path2 d f" "SLASH # d" f nm] assms nz by (simp add: path2_def component_def dir_component_def)
  have "unat (of_nat (1 + length d) :: u16) = 1 + length d"
    using assms(3) by (intro unat_of_nat_u16) (simp add: path2_def)
  then show "drop (unat (of_nat (1 + length d) :: u16)) (path2 d f) = SLASH # f"
    by (simp add: path2_def)
qed

lemma get_subdir_path3:
  assumes "dir_component a" and "dir_component b" and "component f" and "length (path3 a b f) < 65536"
  shows "get_subdir nm 0 (path3 a b f) = Some (0, SLASH # a, of_nat (1 + length a))"
    and "get_subdir nm (of_nat (1 + length a)) (path3 a b f) = Some (0, SLASH # b, of_nat (2 + length a + length b))"
    and "get_subdir nm (of_nat (2 + length a + length b)) (path3 a b f) = Some (- 2, nm, of_nat (2 + length a + length b))"
    and "drop (unat (of_nat (2 + length a + length b) :: u16)) (path3 a b f) = SLASH # f"
proof -
  let ?p = "path3 a b f"
  have nz: "0 \<notin> set ?p" using assms(1-3) by (auto simp: path3_def component_def dir_component_def)
  show "get_subdir nm 0 ?p = Some (0, SLASH # a, of_nat (1 + length a))"
    using get_subdir_inner [of ?p "[]" a "b @ SLASH # f" nm] assms nz by (simp add: path3_def component_def dir_component_def)
  show "get_subdir nm (of_nat (1 + length a)) ?p = Some (0, SLASH # b, of_nat (2 + length a + length b))"
    using get_subdir_inner [of ?p "SLASH # a" b f nm] assms nz by (simp add: path3_def component_def dir_component_def add.assoc)
  show "get_subdir nm (of_nat (2 + length a + length b)) ?p = Some (- 2, nm, of_nat (2 + length a + length b))"
    using get_subdir_last [of ?p "SLASH # a @ SLASH # b" f nm] assms nz by (simp add: path3_def component_def dir_component_def)
  have "unat (of_nat (2 + length a + length b) :: u16) = 2 + length a + length b"
    using assms(4) by (intro unat_of_nat_u16) (simp add: path3_def)
  then show "drop (unat (of_nat (2 + length a + length b) :: u16)) ?p = SLASH # f"
    by (simp add: path3_def)
qed

lemma not_in_root:
  assumes "dir_component d" and "component f" and "length (path2 d f) < 65536"
  shows "is_in_root (path2 d f) = Some False"
  using get_subdir_path2(1) [OF assms] by (simp add: is_in_root_def)

text \<open>What the walk does with two components, and with three: the second of three never matters.\<close>

lemma navigate_path2:
  assumes "dir_component d" and "component f" and "length (path2 d f) < 65536"
    and "to_short_filename en (SLASH # d) = Some dn" and "to_short_filename dn (SLASH # f) = Some fn"
  shows "navigate_to_subdir dev s h en (path2 d f) = do {
     (r, h', s') \<leftarrow> open_directory_in_root dev s h dn;
     if r < 0 then Some (- 1, h', dn, s') else Some (0, h', fn, s') }"
proof -
  have loop: "navigate_loop dev s' h' dn sn (of_nat (1 + length d)) (path2 d f) = Some (0, h', fn, s')" for h' s' sn
    by (subst navigate_loop.simps)
      (simp only: get_subdir_path2 [OF assms(1-3)] assms(5) Option.bind.simps prod.case option.case, simp)
  show ?thesis
    unfolding navigate_to_subdir_def get_subdir_path2(1) [OF assms(1-3)] Option.bind.simps prod.case assms(4) option.case loop
    by simp
qed

lemma navigate_path3:
  assumes "dir_component a" and "dir_component b" and "component f" and "length (path3 a b f) < 65536"
  shows "navigate_to_subdir dev s h en (path3 a b f) =
    (case to_short_filename en (SLASH # a) of
       None \<Rightarrow> Some (- 1, h, en, s)
     | Some an \<Rightarrow> do {
         (r, h1, s1) \<leftarrow> open_directory_in_root dev s h an;
         if r < 0 then Some (- 1, h1, an, s1)
         else
           (case to_short_filename an (SLASH # f) of
              None \<Rightarrow> Some (- 1, h1, an, s1)
            | Some fn \<Rightarrow> do {
                (_, h2, s2) \<leftarrow> open_directory_in_subdir dev s1 h1 fn;
                case to_short_filename fn (SLASH # f) of
                  None \<Rightarrow> Some (- 1, h2, fn, s2)
                | Some fn' \<Rightarrow> Some (0, h2, fn', s2) }) })"
proof -
  note g = get_subdir_path3 [OF assms]
  let ?i1 = "of_nat (1 + length a) :: u16" and ?i2 = "of_nat (2 + length a + length b) :: u16"
  have last: "navigate_loop dev s2 h2 fn sn ?i2 (path3 a b f) =
     (case to_short_filename fn (SLASH # f) of None \<Rightarrow> Some (- 1, h2, fn, s2) | Some fn' \<Rightarrow> Some (0, h2, fn', s2))"
    for s2 h2 fn sn
    by (subst navigate_loop.simps) (simp only: g Option.bind.simps prod.case, simp split: option.split)
  have loop: "navigate_loop dev s1 h1 an sn ?i1 (path3 a b f) =
     (case to_short_filename an (SLASH # f) of
        None \<Rightarrow> Some (- 1, h1, an, s1)
      | Some fn \<Rightarrow> do {
          (_, h2, s2) \<leftarrow> open_directory_in_subdir dev s1 h1 fn;
          case to_short_filename fn (SLASH # f) of
            None \<Rightarrow> Some (- 1, h2, fn, s2)
          | Some fn' \<Rightarrow> Some (0, h2, fn', s2) })" for s1 h1 an sn
    by (subst navigate_loop.simps) (simp only: g Option.bind.simps prod.case last, simp cong: option.case_cong)
  show ?thesis
    unfolding navigate_to_subdir_def g(1) Option.bind.simps prod.case loop by simp
qed

text \<open>
  C13: A path \<^verbatim>\<open>/A/B/F\<close> is opened as if its second directory were any other: the walk enters the
  component behind the one it has read, so \<^verbatim>\<open>/A/B/F\<close> and \<^verbatim>\<open>/A/C/F\<close> give the same result, in every
  state and on every device, for directories \<^verbatim>\<open>A\<close>, \<^verbatim>\<open>B\<close>, \<^verbatim>\<open>C\<close> of at most 11 characters (longer ones
  overrun an array, \<open>long_directory_overruns\<close>) and paths that a 16-bit index can reach.
\<close>

theorem nested_path_misread:
  assumes "dir_component a" and "dir_component b" and "dir_component c" and "component f"
    and "length (path3 a b f) < 65536" and "length (path3 a c f) < 65536"
  shows "fat16_open dev s (path3 a b f) m = fat16_open dev s (path3 a c f) m"
proof -
  have "is_in_root (path3 a b f) = Some False" "is_in_root (path3 a c f) = Some False"
    using get_subdir_path3(1) [OF assms(1,2,4,5)] get_subdir_path3(1) [OF assms(1,3,4,6)]
    by (simp_all add: is_in_root_def)
  then show ?thesis
    unfolding fat16_open_def navigate_path3 [OF assms(1,2,4,5)] navigate_path3 [OF assms(1,3,4,6)] by simp
qed

theorem nested_path_misread_witness:
  "fat16_open (kernel_dev (pio_io 0x1F0 hello_platter) (\<lambda>_. [])) hello_volume (path3 [0x41] [0x42] [0x46]) MODE_R
    = fat16_open (kernel_dev (pio_io 0x1F0 hello_platter) (\<lambda>_. [])) hello_volume (path3 [0x41] [0x43] [0x46]) MODE_R"
  by (rule nested_path_misread) (simp_all add: dir_component_def component_def path3_def)

text \<open>
  A directory of 12 characters or more, as in \<^verbatim>\<open>/ABCDEFGH.IJK/F\<close>, is copied past the end of the array, before
  its name is looked up at all.
\<close>

theorem long_directory_overruns:
  assumes "component d" and "component f" and "length (path2 d f) < 65536" and "12 \<le> length d"
    and "m = MODE_R \<or> m = MODE_W \<or> m = MODE_A"
  shows "fat16_open dev s (path2 d f) m = None"
proof -
  have "0 \<notin> set (path2 d f)" using assms(1,2) by (auto simp: path2_def component_def)
  then have "get_subdir [] 0 (path2 d f) = None"
    using get_subdir_inner [of "path2 d f" "[]" d f "[]"] assms by (simp add: path2_def component_def)
  then show ?thesis using assms(5) by (auto simp: fat16_open_def is_in_root_def)
qed

section \<open>Opening a file of a directory\<close>

context storage_device
begin

text \<open>The walk to the directory and the search in it.\<close>

lemma walk_to_file:
  assumes "ok (disk s)" and "volume_ok s limit" and "root_ok s limit" and "whole_entries s"
    and "file_in_dir s img limit dn fn e"
  obtains hd d1 d2 p where "open_directory_in_root dev s h dn = Some (0, hd, s\<lparr>disk := d1\<rparr>)"
    "open_file_in_subdir dev (s\<lparr>disk := d1\<rparr>) hd fn MODE_R = Some (0, file_handle e p, s\<lparr>disk := d2\<rparr>)" "ok d2"
proof -
  obtain j k i where e: "lookup (root_entries s img) dn = Some j"
    "\<not> entry_refused (root_entry s img j) MODE_R False"
    "dir_ok s img limit (starting_cluster (root_entry s img j)) k"
    "lookup (dir_entries s img (starting_cluster (root_entry s img j)) k) fn = Some i"
    "e = dir_entries s img (starting_cluster (root_entry s img j)) k ! i" "\<not> entry_refused e MODE_R True"
    using assms(5) by (auto simp: file_in_dir_def)
  let ?hd = "read_handle s img h j"
  obtain k' where k: "k = Suc k'" using e(4) by (cases k) auto
  obtain d1 where d1: "ok d1" "open_directory_in_root dev s h dn = Some (0, ?hd, s\<lparr>disk := d1\<rparr>)"
    using open_directory_in_root_lookup [OF assms(1,3), of h dn] e(1,2) by auto
  have hd: "cluster ?hd = starting_cluster (root_entry s img j)" "offset ?hd = 0" by (simp_all add: read_handle_def)
  have "ok (disk (s\<lparr>disk := d1\<rparr>))" "volume_ok (s\<lparr>disk := d1\<rparr>) limit" "whole_entries (s\<lparr>disk := d1\<rparr>)"
    "dir_ok (s\<lparr>disk := d1\<rparr>) img limit (cluster ?hd) (Suc k')" "offset ?hd = 0"
    "lookup (dir_entries (s\<lparr>disk := d1\<rparr>) img (cluster ?hd) (Suc k')) fn = Some i"
    "e = dir_entries (s\<lparr>disk := d1\<rparr>) img (cluster ?hd) (Suc k') ! i" "\<not> entry_refused e MODE_R True"
    using assms(2,4) d1(1) e k hd by (simp_all del: dir_entries.simps dir_ok.simps)
  from open_file_in_subdir_found [OF this] obtain d2 p where
    "ok d2" "open_file_in_subdir dev (s\<lparr>disk := d1\<rparr>) ?hd fn MODE_R = Some (0, file_handle e p, s\<lparr>disk := d2\<rparr>)"
    by auto
  with d1(2) show ?thesis using that by blast
qed

lemma open_read_subdir:
  assumes "ok (disk s)" and "volume_ok s limit" and "root_ok s limit" and "whole_entries s"
    and "dir_component d" and "component f" and "length (path2 d f) < 65536"
    and "to_short_filename (replicate 11 0) (SLASH # d) = Some dn" and "to_short_filename dn (SLASH # f) = Some fn"
    and "file_in_dir s img limit dn fn e"
    and "entry_size e \<noteq> 0 \<longrightarrow> chain_ok s img limit (starting_cluster e) (unat (entry_size e))"
    and "h = find_available_handle s" and "h < HANDLE_COUNT" and "length (handles s) = HANDLE_COUNT" and "buf \<noteq> 0"
    and "\<forall>i<HANDLE_COUNT. mode (handles s ! i) = 0 \<or> mode (handles s ! i) = MODE_R"
  shows "\<exists>s1 r s2. fat16_open dev s (path2 d f) MODE_R = Some (int h, s1)
    \<and> fat16_read dev s1 h buf (entry_size e) = Some (r, file_bytes s img e, s2)"
proof -
  obtain hd d1 d2 p where o: "navigate_to_subdir dev s blank_handle (replicate 11 0) (path2 d f) = Some (0, hd, fn, s\<lparr>disk := d1\<rparr>)"
    "open_file_in_subdir dev (s\<lparr>disk := d1\<rparr>) hd fn MODE_R = Some (0, file_handle e p, s\<lparr>disk := d2\<rparr>)" "ok d2"
    by (rule walk_to_file [OF assms(1-4,10), of blank_handle]) (simp add: navigate_path2 [OF assms(5-9)])
  let ?s = "s\<lparr>disk := d2, handles := (handles s)[h := file_handle e p]\<rparr>"
  have "\<not> conflict ?s h MODE_R"
    using assms(13,14,16)
    by (auto simp: conflict_def list_ex_iff nth_list_update file_handle_def split: if_splits)
  then have opened: "fat16_open dev s (path2 d f) MODE_R = Some (int h, ?s)"
    using o assms(13) not_in_root [OF assms(5-7)]
    by (simp add: fat16_open_def Let_def assms(12) [symmetric] set_handle_def)
  have hd: "handles ?s ! h = file_handle e p" using assms(13,14) by simp
  have "ok (disk ?s)" "volume_ok ?s limit" "check_handle ?s h" "length (handles ?s) = HANDLE_COUNT"
    using o(3) assms(2,13,14) by (simp_all add: check_handle_def file_handle_def)
  moreover have "handle_ok ?s img limit (handles ?s ! h)"
    unfolding hd using assms(2,11) by (simp add: handle_ok_file_handle volume_ok_def)
  ultimately obtain r s2 where "fat16_read dev ?s h buf (entry_size e)
      = Some (r, take (unat (entry_size e)) (stream ?s img (handles ?s ! h)), s2)"
    using fat16_read_stream [where s = ?s and i = h and buf = buf and count = "entry_size e"] assms(15) by blast
  moreover have "take (unat (entry_size e)) (stream ?s img (handles ?s ! h)) = file_bytes s img e"
    unfolding hd by (simp add: file_bytes_def)
  ultimately show ?thesis using opened by auto
qed

end

section \<open>Properties\<close>

text \<open>
  C12: Over the ATA stack, opening \<^verbatim>\<open>/DIR/FILE\<close> for reading finds the directory in the root directory
  and the file along the cluster chain of the directory, returns the index of the handle, and reading as
  many bytes as the directory entry says delivers exactly the bytes of the file.  The name of the directory
  has at most 11 characters, and the other handles are closed or open for reading.
\<close>

theorem open_read_subdir_file:
  assumes "ata_drive io base master platter sectors idle busy transfer"
    and "g_default_disk (disk s) = Some (init_disk base master)" and "idle (trace (disk s))"
    and "img = (\<lambda>i. platter (51200 + i))" and "limit = min (512 * (sectors - 100)) (2 ^ 32 - 1)"
    and "volume_ok s limit" and "root_ok s limit" and "whole_entries s" and "length (handles s) = 16"
    and "dir_component d" and "component f" and "length (path2 d f) < 65536"
    and "to_short_filename (replicate 11 0) (SLASH # d) = Some dn" and "to_short_filename dn (SLASH # f) = Some fn"
    and "file_in_dir s img limit dn fn e"
    and "entry_size e \<noteq> 0 \<longrightarrow> chain_ok s img limit (starting_cluster e) (unat (entry_size e))"
    and "h = find_available_handle s" and "h < 16" and "buf \<noteq> 0"
    and "\<forall>i<16. mode (handles s ! i) = 0 \<or> mode (handles s ! i) = MODE_R"
  shows "\<exists>s1 r s2. fat16_open (kernel_dev io junk) s (path2 d f) MODE_R = Some (int h, s1)
    \<and> fat16_read (kernel_dev io junk) s1 h buf (entry_size e) = Some (r, file_bytes s img e, s2)"
  by (rule storage_device.open_read_subdir [OF kernel_device [OF assms(1), of junk], folded assms(4,5),
        OF _ assms(6,7,8,10-17)]) (use assms(2-) in simp_all)

text \<open>A volume with the directory \<^verbatim>\<open>BOOT\<close> in cluster 2, which holds \<^verbatim>\<open>KERNEL0.ELF\<close>: 600 bytes, clusters 3 and 4.\<close>

definition boot_dir_entry :: "u8 list" where
  "boot_dir_entry = [0x42, 0x4F, 0x4F, 0x54, 0x20, 0x20, 0x20, 0x20, 0x20, 0x20, 0x20, 0x10] @ replicate 14 0
     @ [2, 0, 0, 0, 0, 0]"

definition kernel_entry :: "u8 list" where
  "kernel_entry = [0x4B, 0x45, 0x52, 0x4E, 0x45, 0x4C, 0x30, 0x20, 0x45, 0x4C, 0x46, 0x20] @ replicate 14 0
     @ [3, 0, 0x58, 2, 0, 0]"

definition tree_img :: "nat \<Rightarrow> u8" where
  "tree_img i =
     (if i = 516 \<or> i = 517 then 0xFF else if i = 518 then 4 else if i = 519 then 0
      else if 1024 \<le> i \<and> i < 1056 then boot_dir_entry ! (i - 1024)
      else if 1056 \<le> i \<and> i < 1536 then 0
      else if 1536 \<le> i \<and> i < 1568 then kernel_entry ! (i - 1536)
      else if 1568 \<le> i \<and> i < 2048 then 0 else of_nat i)"

definition tree_platter :: "nat \<Rightarrow> u8" where
  "tree_platter i = (if i < 51200 then 0 else tree_img (i - 51200))"

lemma tree_platter_img: "(\<lambda>i. tree_platter (51200 + i)) = tree_img"
  by (simp add: tree_platter_def fun_eq_iff)

lemma tree_volume:
  "data_pos hello_volume 4 0 = 2560" "fat_pos hello_volume 4 = 520"
  "next_in_fat hello_volume tree_img 2 = 0xFFFF" "next_in_fat hello_volume tree_img 3 = 4" "whole_entries hello_volume"
  "per_cluster hello_volume = 16"
  by (simp_all add: hello_volume_def sample_volume_def cluster_bytes_def zero_bpb_def data_pos_def fat_pos_def next_in_fat_def
      le16_def tree_img_def whole_entries_def per_cluster_def)

lemma tree_entries:
  "root_entry hello_volume tree_img 0
     = \<lparr>name = take 11 boot_dir_entry, attribute = 0x10, starting_cluster = 2, entry_size = 0\<rparr>"
  "cluster_entry hello_volume tree_img 2 0
     = \<lparr>name = take 11 kernel_entry, attribute = 0x20, starting_cluster = 3, entry_size = 600\<rparr>"
proof -
  have "bytes_at tree_img 1024 32 = boot_dir_entry"
    by (rule nth_equalityI) (simp_all add: tree_img_def boot_dir_entry_def)
  then show "root_entry hello_volume tree_img 0
     = \<lparr>name = take 11 boot_dir_entry, attribute = 0x10, starting_cluster = 2, entry_size = 0\<rparr>"
    by (simp add: root_entry_def hello_volume dir_entry_of_def) (simp add: boot_dir_entry_def le16_def le32_def)
  have "bytes_at tree_img 1536 32 = kernel_entry"
    by (rule nth_equalityI) (simp_all add: tree_img_def kernel_entry_def)
  then show "cluster_entry hello_volume tree_img 2 0
     = \<lparr>name = take 11 kernel_entry, attribute = 0x20, starting_cluster = 3, entry_size = 600\<rparr>"
    by (simp add: cluster_entry_def hello_volume dir_entry_of_def) (simp add: kernel_entry_def le16_def le32_def)
qed

lemma tree_file:
  "file_in_dir hello_volume tree_img 4294967295 (take 11 boot_dir_entry) (take 11 kernel_entry)
     (cluster_entry hello_volume tree_img 2 0)"
proof -
  have nb: "take 11 boot_dir_entry ! 0 = 0x42" and nk: "take 11 kernel_entry ! 0 = 0x4B"
    by (simp_all add: boot_dir_entry_def kernel_entry_def)
  have "root_entries hello_volume tree_img = root_entry hello_volume tree_img 0 # drop 1 (root_entries hello_volume tree_img)"
    using drop_root_entries [of 0 hello_volume tree_img] by (simp add: hello_volume)
  moreover have "lookup (root_entry hello_volume tree_img 0 # es) (take 11 boot_dir_entry) = Some 0" for es
    using nb by (simp add: tree_entries)
  ultimately have l: "lookup (root_entries hello_volume tree_img) (take 11 boot_dir_entry) = Some 0" by metis
  obtain es where d: "cluster_entries hello_volume tree_img 2 = cluster_entry hello_volume tree_img 2 0 # es"
    using drop_cluster_entries [of 0 hello_volume tree_img 2] by (simp add: tree_volume)
  show ?thesis
    unfolding file_in_dir_def
    by (rule exI [of _ 0], rule exI [of _ 1], rule exI [of _ 0]) (use l d nk in \<open>simp add: tree_entries entry_refused_def tree_volume hello_volume cluster_ok_def\<close>)
qed

lemma tree_chain: "chain_ok hello_volume tree_img 4294967295 3 600"
proof -
  have "chain_ok hello_volume tree_img 4294967295 4 88"
    by (subst chain_ok.simps) (simp add: hello_volume tree_volume cluster_ok_def)
  then show ?thesis
    by (subst chain_ok.simps) (simp add: hello_volume tree_volume cluster_ok_def)
qed

text \<open>The names \<^verbatim>\<open>BOOT\<close> and \<^verbatim>\<open>KERNEL0.ELF\<close>.\<close>

definition boot_name :: "u8 list" where
  "boot_name = [0x42, 0x4F, 0x4F, 0x54]"

definition kernel_name :: "u8 list" where
  "kernel_name = [0x4B, 0x45, 0x52, 0x4E, 0x45, 0x4C, 0x30, DOT, 0x45, 0x4C, 0x46]"

lemma tree_names:
  "dir_component boot_name" "component kernel_name" "length (path2 boot_name kernel_name) = 17"
  "length (take 11 boot_dir_entry) = 11"
  "length en = 11 \<Longrightarrow> to_short_filename en (SLASH # boot_name) = Some (take 11 boot_dir_entry)"
  "length en = 11 \<Longrightarrow> to_short_filename en (SLASH # kernel_name) = Some (take 11 kernel_entry)"
proof -
  show "dir_component boot_name" "component kernel_name" "length (path2 boot_name kernel_name) = 17"
    "length (take 11 boot_dir_entry) = 11"
    by (simp_all add: dir_component_def component_def boot_name_def kernel_name_def path2_def boot_dir_entry_def)
  have "well_formed boot_name [] (strip_slash (SLASH # boot_name))"
    by (simp add: well_formed_def strip_slash_def ch_Cons valid_chars_def is_character_valid_def boot_name_def)
  moreover have "pad 8 boot_name @ pad 3 [] = take 11 boot_dir_entry"
    by (simp add: pad_def boot_dir_entry_def boot_name_def numeral_nat)
  ultimately show "length en = 11 \<Longrightarrow> to_short_filename en (SLASH # boot_name) = Some (take 11 boot_dir_entry)"
    by (metis to_short_filename_complete)
  have "well_formed (take 7 kernel_name) (drop 8 kernel_name) (strip_slash (SLASH # kernel_name))"
    by (simp add: well_formed_def strip_slash_def ch_Cons valid_chars_def is_character_valid_def kernel_name_def)
  moreover have "pad 8 (take 7 kernel_name) @ pad 3 (drop 8 kernel_name) = take 11 kernel_entry"
    by (simp add: pad_def kernel_entry_def kernel_name_def numeral_nat)
  ultimately show "length en = 11 \<Longrightarrow> to_short_filename en (SLASH # kernel_name) = Some (take 11 kernel_entry)"
    by (metis to_short_filename_complete)
qed

theorem open_read_subdir_file_witness:
  "\<exists>s1 r s2. fat16_open (kernel_dev (pio_io 0x1F0 tree_platter) (\<lambda>_. [])) hello_volume (path2 boot_name kernel_name) MODE_R
      = Some (0, s1)
    \<and> fat16_read (kernel_dev (pio_io 0x1F0 tree_platter) (\<lambda>_. [])) s1 0 0x5000 600
      = Some (r, file_bytes hello_volume tree_img (cluster_entry hello_volume tree_img 2 0), s2)"
  using open_read_subdir_file [OF pio_drive [of "2 ^ 28" "0x1F0" tree_platter True], where s = hello_volume
      and img = tree_img and limit = 4294967295 and d = boot_name and f = kernel_name
      and dn = "take 11 boot_dir_entry" and fn = "take 11 kernel_entry"
      and e = "cluster_entry hello_volume tree_img 2 0" and h = 0 and buf = "0x5000" and junk = "\<lambda>_. []"]
    tree_names tree_file tree_chain hello_handle tree_volume(5)
  by (simp add: hello_volume volume_ok_def root_ok_def tree_platter_img tree_entries blank_handle_def)

end
