(* ===== verification/Boot_Disk.thy ===== *)
theory Boot_Disk
  imports Fat16_Subdir
begin

text \<open>
  The disk driver of the boot loader, \<^verbatim>\<open>bootloader/src/stage2/ata.c\<close>, written out as the source has it,
  and the proof that it is the kernel's driver: the same device accesses, the same bytes, the same
  position.  Hence it meets the same contract of a storage device.  \<^verbatim>\<open>default_disk\<close> and
  \<^verbatim>\<open>disk_pointer\<close> are the fields of the record \<^verbatim>\<open>ata\<close>, the structure \<^verbatim>\<open>Disk\<close> is \<^verbatim>\<open>disk_t\<close>.
\<close>

section \<open>ata.c of the boot loader\<close>

definition boot_init_disk :: "u16 \<Rightarrow> bool \<Rightarrow> disk_t" where
  "boot_init_disk base master = \<lparr>port_base = base, is_master = master\<rparr>"

definition boot_identify_disk :: "io \<Rightarrow> ('a ata_scheme) \<Rightarrow> disk_t \<Rightarrow> (bool \<times> 'a ata_scheme) option" where
  "boot_identify_disk io s d =
     (let b = port_base d;
          sel = (if is_master d then 0xA0 else 0xB0);
          s0 = s\<lparr>disk_pointer := 0\<rparr>;
          s1 = outb s0 (DEVICE_PORT b) sel;
          s2 = outb s1 (CONTROL_PORT b) 0;
          s3 = outb s2 (DEVICE_PORT b) 0xA0;
          (status, s4) = inb io s3 (COMMAND_PORT b)
      in if status = 0xFF then Some (False, s4)
         else
           (let s5 = outb s4 (DEVICE_PORT b) sel;
                s6 = outb s5 (SECTOR_COUNT_PORT b) 0;
                s7 = outb s6 (LBA_LOW_PORT b) 0;
                s8 = outb s7 (LBA_MID_PORT b) 0;
                s9 = outb s8 (LBA_HI_PORT b) 0;
                s10 = outb s9 (COMMAND_PORT b) 0xEC;
                (status, s11) = inb io s10 (COMMAND_PORT b)
            in if status = 0 then Some (False, s11)
               else do {
                 (status, s12) \<leftarrow> ata_wait io b s11 status;
                 if status AND 1 \<noteq> 0 then Some (False, s12)
                 else Some (True, skip_words 256 io (DATA_PORT b) s12) }))"

text \<open>\<open>n\<close> more turns of \<^verbatim>\<open>for(int i = 0; i < 512; i += 2)\<close>.\<close>

primrec boot_read_words :: "nat \<Rightarrow> io \<Rightarrow> u16 \<Rightarrow> ('a machine_scheme) \<Rightarrow> u8 list \<times> 'a machine_scheme" where
  "boot_read_words 0 io port s = ([], s)"
| "boot_read_words (Suc n) io port s =
     (let (r_data, s1) = inw io s port;
          (bs, s2) = boot_read_words n io port s1
      in (ucast (r_data AND 0x00FF) # ucast (drop_bit 8 r_data AND 0x00FF) # bs, s2))"

definition boot_read28 :: "io \<Rightarrow> ('a machine_scheme) \<Rightarrow> disk_t \<Rightarrow> u32 \<Rightarrow> (bool \<times> u8 list \<times> 'a machine_scheme) option" where
  "boot_read28 io s d sector =
     (if sector AND 0xF0000000 \<noteq> 0 then Some (False, [], s)
      else
        (let b = port_base d;
             s1 = outb s (DEVICE_PORT b) ((if is_master d then 0xE0 else 0xF0) OR ucast (drop_bit 24 (sector AND 0x0F000000)));
             s2 = outb s1 (ERROR_PORT b) 0;
             s3 = outb s2 (SECTOR_COUNT_PORT b) 1;
             s4 = outb s3 (LBA_LOW_PORT b) (ucast (sector AND 0x000000FF));
             s5 = outb s4 (LBA_MID_PORT b) (ucast (drop_bit 8 (sector AND 0x0000FF00)));
             s6 = outb s5 (LBA_HI_PORT b) (ucast (drop_bit 16 (sector AND 0x00FF0000)));
             s7 = outb s6 (COMMAND_PORT b) 0x20;
             (status, s8) = inb io s7 (COMMAND_PORT b)
         in do {
           (status, s9) \<leftarrow> ata_wait io b s8 status;
           if status AND 1 \<noteq> 0 then Some (False, [], s9)
           else (let (bs, s10) = boot_read_words 256 io (DATA_PORT b) s9 in Some (True, bs, s10)) }))"

text \<open>
  \<^verbatim>\<open>read28(default_disk, \<dots>)\<close> into a buffer of 512 bytes, the result ignored; \<open>junk\<close> is what the buffer
  holds when the read fails.
\<close>

definition boot_buffer :: "io \<Rightarrow> (('a ata_scheme) \<Rightarrow> u8 list) \<Rightarrow> ('a ata_scheme) \<Rightarrow> u32 \<Rightarrow> (u8 list \<times> 'a ata_scheme) option" where
  "boot_buffer io junk s sector = do {
     d \<leftarrow> g_default_disk s;
     (success, bs, s1) \<leftarrow> boot_read28 io s d sector;
     Some (if success then bs else junk s1, s1) }"

function boot_full_sectors ::
    "io \<Rightarrow> (('a ata_scheme) \<Rightarrow> u8 list) \<Rightarrow> ('a ata_scheme) \<Rightarrow> u32 \<Rightarrow> u32 \<Rightarrow> (u8 list \<times> u32 \<times> u32 \<times> 'a ata_scheme) option" where
  "boot_full_sectors io junk s sector remaining =
     (if remaining \<ge> 512 then do {
        (bs, s1) \<leftarrow> boot_buffer io junk s sector;
        (rest, sector', remaining', s2) \<leftarrow> boot_full_sectors io junk (s1\<lparr>disk_pointer := disk_pointer s1 + 512\<rparr>) (sector + 1)
          (remaining - 512);
        Some (bs @ rest, sector', remaining', s2) }
      else Some ([], sector, remaining, s))"
  by pat_completeness auto
termination
  by (relation "measure (\<lambda>(io, j, s, sec, r). unat r)") (auto simp: unat_sub_u32 word_le_nat_alt)

declare boot_full_sectors.simps [simp del]

definition boot_read :: "io \<Rightarrow> (('a ata_scheme) \<Rightarrow> u8 list) \<Rightarrow> ('a ata_scheme) \<Rightarrow> u32 \<Rightarrow> (u8 list \<times> 'a ata_scheme) option" where
  "boot_read io junk s len =
     (let sector = disk_pointer s div 512 + 100;
          off = disk_pointer s mod 512
      in do {
        (bs1, sector1, remaining1, s1) \<leftarrow>
          (if off \<noteq> 0 then do {
             (bs, s1) \<leftarrow> boot_buffer io junk s sector;
             let to_copy = (if len < 512 - off then len else 512 - off);
             Some (take (unat to_copy) (drop (unat off) bs), sector + 1, len - to_copy,
               s1\<lparr>disk_pointer := disk_pointer s1 + to_copy\<rparr>) }
           else Some ([], sector, len, s));
        (bs2, sector2, remaining2, s2) \<leftarrow> boot_full_sectors io junk s1 sector1 remaining1;
        if remaining2 > 0 then do {
          (bs, s3) \<leftarrow> boot_buffer io junk s2 sector2;
          Some (bs1 @ bs2 @ take (unat remaining2) bs, s3\<lparr>disk_pointer := disk_pointer s3 + remaining2\<rparr>) }
        else Some (bs1 @ bs2, s2) })"

definition boot_read_byte :: "io \<Rightarrow> (('a ata_scheme) \<Rightarrow> u8 list) \<Rightarrow> ('a ata_scheme) \<Rightarrow> (u8 \<times> 'a ata_scheme) option" where
  "boot_read_byte io junk s = do { (bs, s1) \<leftarrow> boot_read io junk s 1; Some (bs ! 0, s1) }"

definition boot_seek :: "('a ata_scheme) \<Rightarrow> u32 \<Rightarrow> ('a ata_scheme) option" where
  "boot_seek s off = Some (s\<lparr>disk_pointer := off\<rparr>)"

text \<open>The three functions as a device; the boot loader never writes.\<close>

definition boot_dev :: "io \<Rightarrow> (('a ata_scheme) \<Rightarrow> u8 list) \<Rightarrow> ('a ata_scheme) storage_dev" where
  "boot_dev io junk = \<lparr>sd_read = boot_read io junk, sd_read_byte = boot_read_byte io junk,
     sd_write = (\<lambda>s bs len. Some s), sd_seek = boot_seek\<rparr>"

section \<open>It is the kernel's driver\<close>

lemma boot_read_words_data: "boot_read_words n io port s = read_data io port s (2 * n)"
proof (induction n arbitrary: s)
  case (Suc n)
  have "2 * Suc n = Suc (Suc (2 * n))" by simp
  then show ?case by (simp only: read_data.simps boot_read_words.simps Suc.IH)
qed simp

lemma boot_read28_disk: "boot_read28 io s d sector = read28_disk io s d sector 512"
proof -
  have p: "pad_words 512 = 0" by (simp add: pad_words_def)
  have w: "boot_read_words 256 io port s = read_data io port s 512" for port and s :: "'a machine_scheme"
    using boot_read_words_data [of 256] by simp
  show ?thesis
    unfolding boot_read28_def read28_disk_def ata_command_def Let_def w p skip_words.simps by simp
qed

text \<open>
  Identifying a disk in the boot loader is what the kernel does, after the position has been reset.
\<close>

lemma boot_identify_is_kernel:
  "boot_identify_disk io s d = identify_disk io (s\<lparr>disk_pointer := 0\<rparr>) d"
  by (simp add: boot_identify_disk_def identify_disk_def Let_def)

lemma boot_buffer_sector: "boot_buffer io junk s sector = sector_bytes io junk s sector"
  by (cases "g_default_disk s") (simp_all add: boot_buffer_def sector_bytes_def read28_def boot_read28_disk)

lemma boot_full_sectors_rest:
  "do { (bs, sector', remaining', s') \<leftarrow> boot_full_sectors io junk s sector remaining;
        if remaining' > 0 then do {
          (bs', s3) \<leftarrow> boot_buffer io junk s' sector';
          Some (bs0 @ bs @ take (unat remaining') bs', s3\<lparr>disk_pointer := disk_pointer s3 + remaining'\<rparr>) }
        else Some (bs0 @ bs, s') }
   = do { (bs, s') \<leftarrow> read_sectors io junk s sector remaining; Some (bs0 @ bs, s') }"
proof (induction io junk s sector remaining arbitrary: bs0 rule: boot_full_sectors.induct)
  case (1 io junk s sector remaining)
  show ?case
  proof (cases "remaining \<ge> 512")
    case False
    then show ?thesis
      by (subst boot_full_sectors.simps, subst read_sectors.simps)
        (cases "sector_bytes io junk s sector"; auto simp: boot_buffer_sector word_greater_zero_iff)
  next
    case True
    show ?thesis
    proof (cases "sector_bytes io junk s sector")
      case None
      then show ?thesis using True
        by (subst boot_full_sectors.simps, subst read_sectors.simps) (simp add: boot_buffer_sector)
    next
      case (Some r)
      obtain bs s1 where r: "r = (bs, s1)" by fastforce
      let ?s = "s1\<lparr>disk_pointer := disk_pointer s1 + 512\<rparr>"
      have IH: "do { (bs, sector', remaining', s') \<leftarrow> boot_full_sectors io junk ?s (sector + 1) (remaining - 512);
            if remaining' > 0 then do {
              (bs', s3) \<leftarrow> boot_buffer io junk s' sector';
              Some ((bs0 @ bs1) @ bs @ take (unat remaining') bs', s3\<lparr>disk_pointer := disk_pointer s3 + remaining'\<rparr>) }
            else Some ((bs0 @ bs1) @ bs, s') }
         = do { (bs, s') \<leftarrow> read_sectors io junk ?s (sector + 1) (remaining - 512); Some ((bs0 @ bs1) @ bs, s') }" for bs1
        using 1(1) [OF True, of "(bs, s1)" bs s1 "bs0 @ bs1"] Some r by (simp add: boot_buffer_sector)
      show ?thesis
        using True Some r IH [of bs]
        by (subst boot_full_sectors.simps, subst read_sectors.simps, simp only: boot_buffer_sector,
          cases "boot_full_sectors io junk ?s (sector + 1) (remaining - 512)";
          cases "read_sectors io junk ?s (sector + 1) (remaining - 512)") (auto split: if_splits)
    qed
  qed
qed

text \<open>
  C31: The boot loader's reader and the kernel's are the same function: the same sectors are read in the
  same order and the same bytes are delivered, from every state, against every drive.
\<close>

theorem boot_read_is_kernel_read: "boot_read io junk s len = kernel_read io junk s len"
proof -
  note rest = boot_full_sectors_rest [of io junk]
  show ?thesis
  proof (cases "disk_pointer s mod 512 = 0")
    case True
    then show ?thesis
      using rest [of s "disk_pointer s div 512 + 100" len "[]"]
      by (simp add: boot_read_def kernel_read_def Let_def)
  next
    case False
    then show ?thesis
      by (cases "sector_bytes io junk s (disk_pointer s div 512 + 100)")
        (auto simp: boot_read_def kernel_read_def Let_def boot_buffer_sector rest split: prod.split)
  qed
qed

lemma boot_dev_is_kernel_dev: "boot_dev io junk = kernel_dev io junk"
  by (simp add: boot_dev_def kernel_dev_def fun_eq_iff boot_read_is_kernel_read boot_read_byte_def
    kernel_read_byte_def kernel_write_def boot_seek_def kernel_seek_def)

end
