(* ===== verification/Boot_Fat16.thy ===== *)
theory Boot_Fat16
  imports Boot_Disk
begin

text \<open>
  The FAT16 reader of the boot loader, \<^verbatim>\<open>bootloader/src/stage2/fat16.c\<close>.  Most of its functions are the
  kernel's with \<^verbatim>\<open>read\<close>, \<^verbatim>\<open>read_byte\<close> and \<^verbatim>\<open>seek\<close> in place of the function pointers of the device; each of
  these is the kernel's definition at the device \<^verbatim>\<open>boot_dev\<close>, which is made of the three.  Written out
  are the functions that differ: mounting (which forgets the offset and ignores errors), short names
  (any character is accepted), the walk of a path (whose failures come back as the \<^verbatim>\<open>bool\<close> 255, never
  negative), listing and reading a file by its path.

  The record \<^verbatim>\<open>fat16\<close> holds \<^verbatim>\<open>bpb\<close>, \<^verbatim>\<open>layout\<close> and, as \<open>disk\<close>, the rest of the state; its handle table
  is the kernel's and not used.
\<close>

type_synonym 'a boot = "('a ata_scheme) fat16"
type_synonym 'a junk = "('a ata_scheme) \<Rightarrow> u8 list"

section \<open>Mounting\<close>

definition zero_layout :: fat16_layout where
  "zero_layout = \<lparr>vol_offset = 0, start_fat_region = 0, start_root_directory_region = 0, start_data_region = 0,
     data_cluster_count = 0\<rparr>"

definition boot_read_bpb :: "io \<Rightarrow> 'a junk \<Rightarrow> 'a boot \<Rightarrow> (bool \<times> 'a boot) option" where
  "boot_read_bpb io junk s =
     (let dev = boot_dev io junk;
          s = s\<lparr>bpb := zero_bpb, layout := zero_layout\<rparr>
      in do {
        s0 \<leftarrow> dev_seek dev s (vol_offset (layout s));
        (jump_ok, s1) \<leftarrow> read_jump dev s0;
        if \<not> jump_ok then Some (False, s1)
        else do {
          (bs, s2) \<leftarrow> dev_read dev s1 8;
          let s2 = s2\<lparr>bpb := bpb s2\<lparr>oem_name := bs\<rparr>\<rparr>;
          (bs, s3) \<leftarrow> dev_read dev s2 2;
          let s3 = s3\<lparr>bpb := bpb s3\<lparr>bytes_per_sector := le16 bs\<rparr>\<rparr>;
          if bytes_per_sector (bpb s3) \<noteq> 512 then Some (False, s3)
          else do {
            (bs, s4) \<leftarrow> dev_read dev s3 1;
            let s4 = s4\<lparr>bpb := bpb s4\<lparr>sectors_per_cluster := bs ! 0\<rparr>\<rparr>;
            if bs ! 0 \<noteq> 1 \<and> bs ! 0 \<noteq> 2 \<and> bs ! 0 \<noteq> 4 \<and> bs ! 0 \<noteq> 8 \<and> bs ! 0 \<noteq> 16 \<and> bs ! 0 \<noteq> 32
               \<and> bs ! 0 \<noteq> 64 \<and> bs ! 0 \<noteq> 128
            then Some (False, s4)
            else do { (r, s5) \<leftarrow> read_geometry dev s4; Some (r = 0, s5) } } } })"

text \<open>Printing while the file system state is held: on the screen of the disk's state.\<close>

definition boot_print :: "'a boot \<Rightarrow> string \<Rightarrow> 'a boot" where
  "boot_print s cs = s\<lparr>disk := print_literal (disk s) (literal cs)\<rparr>"

definition boot_print_value :: "u32 \<Rightarrow> 'a boot \<Rightarrow> string \<Rightarrow> u32 \<Rightarrow> 'a boot option" where
  "boot_print_value foo s cs v = do {
     let s1 = boot_print s cs;
     d \<leftarrow> print_hex32 foo (disk s1) v;
     Some (boot_print (s1\<lparr>disk := d\<rparr>) ''\<newline>'') }"

definition boot_print_layout :: "u32 \<Rightarrow> 'a boot \<Rightarrow> 'a boot option" where
  "boot_print_layout foo s = do {
     let s1 = boot_print s ''FAT16: FILE SYSTEM LAYOUT:\<newline>'';
     s2 \<leftarrow> boot_print_value foo s1 ''   START_FAT_REGION='' (start_fat_region (layout s1));
     s3 \<leftarrow> boot_print_value foo s2 ''   START_ROOT_DIRECTORY_REGION='' (start_root_directory_region (layout s2));
     s4 \<leftarrow> boot_print_value foo s3 ''   START_DATA_REGION='' (start_data_region (layout s3));
     s5 \<leftarrow> boot_print_value foo s4 ''   START_FAT_REGION='' (start_fat_region (layout s4));
     boot_print_value foo s5 ''   DATA_CLUSTER_COUNT='' (data_cluster_count (layout s5)) }"

text \<open>The result is a \<^verbatim>\<open>bool\<close>, an unsigned byte.  \<open>None\<close> stands for a division by zero, too.\<close>

definition boot_fat16_init :: "io \<Rightarrow> 'a junk \<Rightarrow> u32 \<Rightarrow> 'a boot \<Rightarrow> u32 \<Rightarrow> (u8 \<times> 'a boot) option" where
  "boot_fat16_init io junk foo s off = do {
     (ret, s1) \<leftarrow> boot_read_bpb io junk (s\<lparr>layout := layout s\<lparr>vol_offset := off\<rparr>\<rparr>);
     if bytes_per_sector (bpb s1) = 0 then None
     else
       (let b = bpb s1;
            root_directory_sector_count = (ucast (root_entry_count b) * 32) div ucast (bytes_per_sector b) :: u32;
            data_sector_count = sector_count b - (ucast (reserved_sector_count b)
              + ucast (num_fats b) * ucast (fat_size b) + root_directory_sector_count)
        in if sectors_per_cluster b = 0 then None
           else
             (let count = data_sector_count div ucast (sectors_per_cluster b);
                  s2 = s1\<lparr>layout := layout s1\<lparr>data_cluster_count := count\<rparr>\<rparr>
              in if count < 4085 \<or> count \<ge> 65525 then Some (100, s2)
                 else
                   (let fat = ucast (reserved_sector_count b) * ucast (bytes_per_sector b);
                        root = ucast (num_fats b) * ucast (fat_size b) * ucast (bytes_per_sector b) + fat;
                        data = root_directory_sector_count * ucast (bytes_per_sector b) + root
                    in do {
                      s3 \<leftarrow> boot_print_layout foo (s2\<lparr>layout := layout s2\<lparr>start_fat_region := fat,
                        start_root_directory_region := root, start_data_region := data\<rparr>\<rparr>);
                      Some (0, s3) }))) }"

section \<open>The functions shared with the kernel\<close>

definition boot_move_to_root_directory_region :: "io \<Rightarrow> 'a junk \<Rightarrow> 'a boot \<Rightarrow> u16 \<Rightarrow> (u32 \<times> 'a boot) option" where
  "boot_move_to_root_directory_region io junk = move_to_root_directory_region (boot_dev io junk)"

definition boot_move_to_fat_region :: "io \<Rightarrow> 'a junk \<Rightarrow> 'a boot \<Rightarrow> u16 \<Rightarrow> (u32 \<times> 'a boot) option" where
  "boot_move_to_fat_region io junk = move_to_fat_region (boot_dev io junk)"

definition boot_move_to_data_region :: "io \<Rightarrow> 'a junk \<Rightarrow> 'a boot \<Rightarrow> u16 \<Rightarrow> u16 \<Rightarrow> (u32 \<times> 'a boot) option" where
  "boot_move_to_data_region io junk = move_to_data_region (boot_dev io junk)"

definition boot_read_entry_from_subdir ::
    "io \<Rightarrow> 'a junk \<Rightarrow> 'a boot \<Rightarrow> dir_entry \<Rightarrow> entry_handle \<Rightarrow> (int \<times> dir_entry \<times> entry_handle \<times> 'a boot) option" where
  "boot_read_entry_from_subdir io junk = read_entry_from_subdir (boot_dev io junk)"

definition boot_find_entry_in_subdir ::
    "io \<Rightarrow> 'a junk \<Rightarrow> 'a boot \<Rightarrow> dir_entry \<Rightarrow> u32 \<Rightarrow> entry_handle \<Rightarrow> u8 list
     \<Rightarrow> (int \<times> dir_entry \<times> u32 \<times> entry_handle \<times> 'a boot) option" where
  "boot_find_entry_in_subdir io junk = find_entry_in_subdir (boot_dev io junk)"

definition boot_open_entry_in_subdir ::
    "io \<Rightarrow> 'a junk \<Rightarrow> 'a boot \<Rightarrow> entry_handle \<Rightarrow> u8 list \<Rightarrow> u8 \<Rightarrow> bool \<Rightarrow> (int \<times> entry_handle \<times> 'a boot) option" where
  "boot_open_entry_in_subdir io junk = open_entry_in_subdir (boot_dev io junk)"

definition boot_get_next_cluster :: "io \<Rightarrow> 'a junk \<Rightarrow> 'a boot \<Rightarrow> u16 \<Rightarrow> (int \<times> u16 \<times> 'a boot) option" where
  "boot_get_next_cluster io junk = get_next_cluster (boot_dev io junk)"

definition boot_read_from_handle ::
    "io \<Rightarrow> 'a junk \<Rightarrow> 'a boot \<Rightarrow> entry_handle \<Rightarrow> u32 \<Rightarrow> (int \<times> u8 list \<times> entry_handle \<times> 'a boot) option" where
  "boot_read_from_handle io junk = read_from_handle (boot_dev io junk)"

definition boot_open_file_in_subdir ::
    "io \<Rightarrow> 'a junk \<Rightarrow> 'a boot \<Rightarrow> entry_handle \<Rightarrow> u8 list \<Rightarrow> u8 \<Rightarrow> (int \<times> entry_handle \<times> 'a boot) option" where
  "boot_open_file_in_subdir io junk s h filename m = boot_open_entry_in_subdir io junk s h filename m True"

definition boot_open_directory_in_subdir ::
    "io \<Rightarrow> 'a junk \<Rightarrow> 'a boot \<Rightarrow> entry_handle \<Rightarrow> u8 list \<Rightarrow> (int \<times> entry_handle \<times> 'a boot) option" where
  "boot_open_directory_in_subdir io junk s h dirname = boot_open_entry_in_subdir io junk s h dirname MODE_R False"

definition boot_get_subdir :: "u8 list \<Rightarrow> u16 \<Rightarrow> u8 list \<Rightarrow> (int \<times> u8 list \<times> u16) option" where
  "boot_get_subdir = get_subdir"

definition boot_ls_in_subdir ::
    "io \<Rightarrow> 'a junk \<Rightarrow> 'a boot \<Rightarrow> u32 \<Rightarrow> u8 list \<Rightarrow> entry_handle \<Rightarrow> (int \<times> u32 \<times> u8 list \<times> 'a boot) option" where
  "boot_ls_in_subdir io junk = ls_in_subdir (boot_dev io junk)"

definition boot_find_root_directory_entry :: "io \<Rightarrow> 'a junk \<Rightarrow> 'a boot \<Rightarrow> u8 list \<Rightarrow> (int \<times> u16 \<times> 'a boot) option" where
  "boot_find_root_directory_entry io junk = find_root_directory_entry (boot_dev io junk)"

definition boot_open_entry_in_root ::
    "io \<Rightarrow> 'a junk \<Rightarrow> 'a boot \<Rightarrow> entry_handle \<Rightarrow> u8 list \<Rightarrow> u8 \<Rightarrow> bool \<Rightarrow> (int \<times> entry_handle \<times> 'a boot) option" where
  "boot_open_entry_in_root io junk = open_entry_in_root (boot_dev io junk)"

definition boot_open_directory_in_root ::
    "io \<Rightarrow> 'a junk \<Rightarrow> 'a boot \<Rightarrow> entry_handle \<Rightarrow> u8 list \<Rightarrow> (int \<times> entry_handle \<times> 'a boot) option" where
  "boot_open_directory_in_root io junk s h dirname = boot_open_entry_in_root io junk s h dirname MODE_R False"

definition boot_ls_in_root :: "io \<Rightarrow> 'a junk \<Rightarrow> 'a boot \<Rightarrow> u32 \<Rightarrow> u8 list \<Rightarrow> (int \<times> u32 \<times> u8 list \<times> 'a boot) option" where
  "boot_ls_in_root io junk = ls_in_root (boot_dev io junk)"

definition boot_is_in_root :: "u8 list \<Rightarrow> bool option" where
  "boot_is_in_root path = map_option (\<lambda>(ret, _, _). ret < 0) (boot_get_subdir [] 0 path)"

section \<open>Short names\<close>

function boot_base_loop :: "u8 list \<Rightarrow> u8 list \<Rightarrow> nat \<Rightarrow> base_exit" where
  "boot_base_loop long short i =
     (if i < 9 then
        if ch long i = 0 then Base_Done (blanks short i (11 - i))
        else if ch long i = DOT then Base_Dot short i
        else boot_base_loop long (short[i := ch long i]) (i + 1)
      else Base_Bad)"
  by pat_completeness auto
termination by (relation "measure (\<lambda>(l, s, i). 9 - i)") auto

function boot_ext_loop :: "u8 list \<Rightarrow> nat \<Rightarrow> u8 list \<Rightarrow> nat \<Rightarrow> u8 list \<times> nat" where
  "boot_ext_loop long sep short i =
     (if i < 3 then
        if ch long (sep + 1 + i) = 0 then (short, i)
        else boot_ext_loop long sep (short[8 + i := ch long (sep + 1 + i)]) (i + 1)
      else (short, i))"
  by pat_completeness auto
termination by (relation "measure (\<lambda>(l, p, s, i). 3 - i)") auto

declare boot_base_loop.simps [simp del] boot_ext_loop.simps [simp del]

definition boot_to_short_filename :: "u8 list \<Rightarrow> u8 list \<Rightarrow> u8 list option" where
  "boot_to_short_filename short long_filename =
     (let long = (if ch long_filename 0 = SLASH then tl long_filename else long_filename)
      in if ch long 0 = 0 then None
         else
           (case boot_base_loop long short 0 of
              Base_Bad \<Rightarrow> None
            | Base_Done short' \<Rightarrow> Some short'
            | Base_Dot short1 sep \<Rightarrow>
                (let (short2, i) = boot_ext_loop long sep (blanks short1 sep (8 - sep)) 0
                 in if i = 3 \<and> ch long (sep + 4) \<noteq> 0 then None
                    else Some (blanks short2 (8 + i) (3 - i)))))"

section \<open>Paths and files\<close>

text \<open>\<^verbatim>\<open>return -1\<close> from a function of type \<^verbatim>\<open>bool\<close> is the byte 255.\<close>

partial_function (option) boot_navigate_loop ::
    "io \<Rightarrow> 'a junk \<Rightarrow> 'a boot \<Rightarrow> entry_handle \<Rightarrow> u8 list \<Rightarrow> u8 list \<Rightarrow> u16 \<Rightarrow> u8 list
     \<Rightarrow> (u8 \<times> entry_handle \<times> u8 list \<times> 'a boot) option" where
  "boot_navigate_loop io junk s h entry_name subdir_name index path = do {
     (ret, subdir_name', index') \<leftarrow> boot_get_subdir subdir_name index path;
     case boot_to_short_filename entry_name (drop (unat index') path) of
       None \<Rightarrow> Some (255, h, entry_name, s)
     | Some entry_name' \<Rightarrow>
         if ret < 0 then Some (0, h, entry_name', s)
         else do {
           (_, h', s') \<leftarrow> boot_open_directory_in_subdir io junk s h entry_name';
           boot_navigate_loop io junk s' h' entry_name' subdir_name' index' path } }"

definition boot_navigate_to_subdir ::
    "io \<Rightarrow> 'a junk \<Rightarrow> 'a boot \<Rightarrow> entry_handle \<Rightarrow> u8 list \<Rightarrow> u8 list \<Rightarrow> (u8 \<times> entry_handle \<times> u8 list \<times> 'a boot) option" where
  "boot_navigate_to_subdir io junk s h entry_name path = do {
     (ret, subdir_name, index) \<leftarrow> boot_get_subdir [] 0 path;
     if ret < 0 then Some (255, h, entry_name, s)
     else
       (case boot_to_short_filename entry_name subdir_name of
          None \<Rightarrow> Some (255, h, entry_name, s)
        | Some entry_name' \<Rightarrow> do {
            (r, h', s') \<leftarrow> boot_open_directory_in_root io junk s h entry_name';
            if r < 0 then Some (255, h', entry_name', s')
            else boot_navigate_loop io junk s' h' entry_name' subdir_name index path }) }"

text \<open>
  \<^verbatim>\<open>fat16_read\<close>: the result of the walk is an unsigned byte, so the test \<^verbatim>\<open>< 0\<close> fails whatever it is.  The
  local variables \<^verbatim>\<open>handle\<close> and \<^verbatim>\<open>filename\<close> start with the arbitrary contents \<open>h0\<close> and \<open>n0\<close>.  The result
  is the number of bytes as a byte; the bytes themselves, which go to the buffer, are the second component.
\<close>

definition boot_fat16_read ::
    "io \<Rightarrow> 'a junk \<Rightarrow> 'a boot \<Rightarrow> entry_handle \<Rightarrow> u8 list \<Rightarrow> u8 list \<Rightarrow> u8 \<Rightarrow> u32 \<Rightarrow> (u8 \<times> u8 list \<times> 'a boot) option" where
  "boot_fat16_read io junk s h0 n0 filepath m count = do {
     (walked, handle, filename, s1) \<leftarrow> boot_navigate_to_subdir io junk s h0 n0 filepath;
     if uint walked < 0 then Some (0, [], s1)
     else do {
       (r, handle', s2) \<leftarrow> boot_open_file_in_subdir io junk s1 handle filename m;
       if r < 0 then Some (0, [], s2)
       else do {
         (n, bs, _, s3) \<leftarrow> boot_read_from_handle io junk s2 handle' count;
         Some (of_int n, bs, s3) } } }"

text \<open>\<^verbatim>\<open>fat16_ls\<close>, which checks neither its pointers nor the slash; \<open>h0\<close> and \<open>n0\<close> as above.\<close>

definition boot_fat16_ls ::
    "io \<Rightarrow> 'a junk \<Rightarrow> 'a boot \<Rightarrow> entry_handle \<Rightarrow> u8 list \<Rightarrow> u32 \<Rightarrow> u8 list \<Rightarrow> u8 list
     \<Rightarrow> (int \<times> u32 \<times> u8 list \<times> 'a boot) option" where
  "boot_fat16_ls io junk s h0 n0 index filename dir_path = do {
     (ret, index', nm, s1) \<leftarrow>
       (if ch dir_path 1 = 0 then boot_ls_in_root io junk s index n0
        else do {
          in_root \<leftarrow> boot_is_in_root dir_path;
          (r, handle, s1) \<leftarrow>
            (if in_root then
               (case boot_to_short_filename n0 dir_path of
                  None \<Rightarrow> Some (- 1, h0, s)
                | Some dirname \<Rightarrow> boot_open_directory_in_root io junk s h0 dirname)
             else do {
               (walked, handle, dirname, s1) \<leftarrow> boot_navigate_to_subdir io junk s h0 n0 dir_path;
               if uint walked < 0 then Some (- 1, handle, s1)
               else boot_open_directory_in_subdir io junk s1 handle dirname });
          if r < 0 then Some (- 1, index, n0, s1)
          else boot_ls_in_subdir io junk s1 index n0 handle });
     Some (ret, index', if ret = 1 then ls_format nm else filename, s1) }"

end
