(* ===== verification/Console.thy ===== *)
theory Console
  imports Screen "HOL-Library.Monad_Syntax"
begin

text \<open>
  What printing leaves alone: every field of the state but the memory and the cursor (\<open>blind\<close> erases
  those), and of the memory everything but the screen and the literal that \<^verbatim>\<open>print_hex\<close> patches.
\<close>

section \<open>The other fields of the state\<close>

definition blind :: "('a screen_scheme) \<Rightarrow> ('a screen_scheme)" where
  "blind s = s\<lparr>phys := \<lambda>_. 0, scr_x := 0, scr_y := 0\<rparr>"

lemma blind_update [simp]:
  "blind (s\<lparr>phys := m\<rparr>) = blind s" "blind (s\<lparr>scr_x := x\<rparr>) = blind s" "blind (s\<lparr>scr_y := y\<rparr>) = blind s"
  by (simp_all add: blind_def)

lemma blind_clear_row [simp]: "blind (clear_row s) = blind s"
  by (induction s rule: clear_row.induct) (subst clear_row.simps, simp)

lemma blind_clear_rows [simp]: "blind (clear_rows s) = blind s"
  by (induction s rule: clear_rows.induct) (subst clear_rows.simps, simp add: Let_def)

lemma blind_clear_screen [simp]: "blind (clear_screen s) = blind s"
  by (simp add: clear_screen_def)

lemma blind_put_char [simp]: "blind (put_char s c) = blind s"
  by (simp add: put_char_def Let_def)

lemma blind_print_literal [simp]: "blind (print_literal s cs) = blind s"
  unfolding print_literal_def by (induction cs arbitrary: s) simp_all

lemma print_literal_machine [simp]: "trace (print_literal s cs) = trace s"
proof -
  have "trace x = trace (blind x)" for x :: "'a screen_scheme" by (simp add: blind_def)
  then show ?thesis by (metis blind_print_literal)
qed

section \<open>Hexadecimal output\<close>

text \<open>The literal that \<^verbatim>\<open>print_hex\<close> patches: away from the screen, terminated.\<close>

definition hex_literal_ok :: "u32 \<Rightarrow> ('a screen_scheme) \<Rightarrow> bool" where
  "hex_literal_ok foo s \<longleftrightarrow> off_screen foo 2 \<and> phys s (foo + 2) = 0"

lemma hex_digit_char: "v < 16 \<Longrightarrow> hex_digit v \<noteq> 0"
proof -
  let ?ds = "[0x30, 0x31, 0x32, 0x33, 0x34, 0x35, 0x36, 0x37, 0x38, 0x39, 0x41, 0x42, 0x43, 0x44, 0x45, 0x46] :: u8 list"
  assume "v < 16"
  then have "?ds ! unat v \<in> set ?ds" by (intro nth_mem) (simp add: word_less_nat_alt)
  then show ?thesis by (auto simp: hex_digit_def simp del: nth_Cons_numeral)
qed

lemma nibble_less: "(h :: u8) AND 0xF < 16"
proof -
  have "h AND 0xF = take_bit 4 h" by (simp add: take_bit_eq_mask mask_numeral)
  then show ?thesis using take_bit_nat_less_exp [of 4 "unat h"] by (simp add: word_less_nat_alt unsigned_take_bit_eq)
qed

definition same_but :: "u32 \<Rightarrow> ('a screen_scheme) \<Rightarrow> ('a screen_scheme) \<Rightarrow> bool" where
  "same_but foo s s' \<longleftrightarrow> (\<forall>a. \<not> on_screen a \<and> a \<noteq> foo \<and> a \<noteq> foo + 1 \<longrightarrow> phys s' a = phys s a)"

lemma print_hex_ok:
  assumes "cursor_ok s" and "hex_literal_ok foo s"
  obtains s' where "print_hex foo s h = Some s'" "cursor_ok s'" "hex_literal_ok foo s'" "blind s' = blind s" "same_but foo s s'"
proof -
  let ?cs = "[hex_digit (drop_bit 4 h AND 0xF), hex_digit (h AND 0xF)]"
  let ?s = "s\<lparr>phys := (phys s)(foo := ?cs ! 0, foo + 1 := ?cs ! 1)\<rparr>"
  have "cursor_ok ?s" using assms(1) by (simp add: cursor_ok_def)
  moreover have "cstring (phys ?s) foo ?cs"
    using assms(2) nibble_less hex_digit_char by (simp add: hex_literal_ok_def add.commute)
  moreover have "off_screen foo (length ?cs)" using assms(2) by (simp add: hex_literal_ok_def numeral_2_eq_2)
  ultimately have p: "printf ?s foo = Some (print_literal ?s ?cs)" by (rule printf_cstring)
  have ok: "cursor_ok (print_literal ?s ?cs)" "same_beyond ?s (print_literal ?s ?cs)"
    using print_literal_ok [OF \<open>cursor_ok ?s\<close>] by blast+
  have "\<not> on_screen (foo + 2)" using assms(2) by (auto simp: hex_literal_ok_def off_screen_def dest!: spec [of _ 2])
  then show ?thesis
    using p ok assms(2)
    by (intro that [of "print_literal ?s ?cs"]) (auto simp: print_hex_def hex_literal_ok_def same_beyond_def same_but_def)
qed

lemma print_hex32_ok:
  assumes "cursor_ok s" and "hex_literal_ok foo s"
  obtains s' where "print_hex32 foo s h = Some s'" "cursor_ok s'" "hex_literal_ok foo s'" "blind s' = blind s" "same_but foo s s'"
proof -
  obtain s1 where 1: "print_hex foo s (ucast (drop_bit 24 h)) = Some s1" "cursor_ok s1" "hex_literal_ok foo s1"
    "blind s1 = blind s" "same_but foo s s1" by (rule print_hex_ok [OF assms])
  obtain s2 where 2: "print_hex foo s1 (ucast (drop_bit 16 h)) = Some s2" "cursor_ok s2" "hex_literal_ok foo s2"
    "blind s2 = blind s1" "same_but foo s1 s2" by (rule print_hex_ok [OF 1(2,3)])
  obtain s3 where 3: "print_hex foo s2 (ucast (drop_bit 8 h)) = Some s3" "cursor_ok s3" "hex_literal_ok foo s3"
    "blind s3 = blind s2" "same_but foo s2 s3" by (rule print_hex_ok [OF 2(2,3)])
  obtain s4 where 4: "print_hex foo s3 (ucast h) = Some s4" "cursor_ok s4" "hex_literal_ok foo s4"
    "blind s4 = blind s3" "same_but foo s3 s4" by (rule print_hex_ok [OF 3(2,3)])
  show ?thesis
    using 1 2 3 4 by (intro that [of s4]) (simp_all add: print_hex32_def same_but_def)
qed

end
