(* ===== verification/Boot_Main.thy ===== *)
theory Boot_Main
  imports Boot_Fat16 Console
begin

text \<open>
  The second stage of the boot loader, \<^verbatim>\<open>bootloader/src/stage2/main.c\<close>: it looks for a disk, mounts the
  file system, reads the kernel to 0xFF000 and jumps to 0x100000, which is byte 0x1000 of the file.
  Its \<^verbatim>\<open>screen.c\<close> and \<^verbatim>\<open>common.c\<close> are copies of the kernel's.
\<close>

section \<open>screen.c and common.c\<close>

definition boot_printf :: "('a screen_scheme) \<Rightarrow> u32 \<Rightarrow> ('a screen_scheme) option" where
  "boot_printf = printf"

definition boot_print_hex :: "u32 \<Rightarrow> ('a screen_scheme) \<Rightarrow> u8 \<Rightarrow> ('a screen_scheme) option" where
  "boot_print_hex = print_hex"

definition boot_print_hex32 :: "u32 \<Rightarrow> ('a screen_scheme) \<Rightarrow> u32 \<Rightarrow> ('a screen_scheme) option" where
  "boot_print_hex32 = print_hex32"

definition boot_clear_screen :: "('a screen_scheme) \<Rightarrow> ('a screen_scheme)" where
  "boot_clear_screen = clear_screen"

definition boot_memset :: "mem \<Rightarrow> u32 \<Rightarrow> u8 \<Rightarrow> u32 \<Rightarrow> mem \<times> u32" where
  "boot_memset = memset"

definition boot_memcpy :: "mem \<Rightarrow> u32 \<Rightarrow> u32 \<Rightarrow> u32 \<Rightarrow> mem" where
  "boot_memcpy = memcpy"

definition boot_memcmp :: "mem \<Rightarrow> u32 \<Rightarrow> u32 \<Rightarrow> u32 \<Rightarrow> int" where
  "boot_memcmp = memcmp"

text \<open>Here the difference of the bytes is returned as a \<^verbatim>\<open>bool\<close>, an unsigned byte.\<close>

definition boot_strcmp :: "mem \<Rightarrow> u32 \<Rightarrow> u32 \<Rightarrow> u8 option" where
  "boot_strcmp m a b = map_option of_int (strcmp m a b)"

section \<open>main.c\<close>

definition boot_say :: "('a ata_scheme) \<Rightarrow> string \<Rightarrow> ('a ata_scheme)" where
  "boot_say s cs = print_literal s (literal cs @ [0x0A])"

text \<open>A disk that identifies itself becomes the default disk; the second one found wins.\<close>

definition try_disk :: "io \<Rightarrow> ('a ata_scheme) \<Rightarrow> disk_t \<Rightarrow> string \<Rightarrow> ('a ata_scheme) option" where
  "try_disk io s d message = do {
     (found, s1) \<leftarrow> boot_identify_disk io s d;
     Some (if found then (boot_say s1 message)\<lparr>g_default_disk := Some d\<rparr> else s1) }"

definition find_boot_disk :: "io \<Rightarrow> ('a ata_scheme) \<Rightarrow> ('a ata_scheme) option" where
  "find_boot_disk io s = do {
     let s1 = boot_clear_screen s;
     let s2 = boot_say s1 ''BOOT DISK INIT...'';
     s3 \<leftarrow> try_disk io s2 (boot_init_disk 0x1F0 True) ''USING ATA0M AS BOOT DISK'';
     try_disk io s3 (boot_init_disk 0x1F0 False) ''USING ATA0S AS BOOT DISK'' }"

definition KERNEL_BUFFER :: u32 where "KERNEL_BUFFER = 0x100000 - 0x1000"

definition KERNEL_PATH :: "u8 list" where
  "KERNEL_PATH = literal ''/BOOT/KERNEL0.ELF''"

text \<open>The results of both calls are ignored; the bytes read land in the buffer.\<close>

definition load_kernel ::
    "io \<Rightarrow> 'a junk \<Rightarrow> u32 \<Rightarrow> u32 \<Rightarrow> 'a boot \<Rightarrow> entry_handle \<Rightarrow> u8 list \<Rightarrow> 'a boot option" where
  "load_kernel io junk foo ksize s h0 n0 = do {
     (_, s1) \<leftarrow> boot_fat16_init io junk foo s 0;
     (_, bs, s2) \<leftarrow> boot_fat16_read io junk s1 h0 n0 KERNEL_PATH MODE_R ksize;
     Some (s2\<lparr>disk := disk s2\<lparr>phys := store (phys (disk s2)) KERNEL_BUFFER bs\<rparr>\<rparr>) }"

text \<open>
  \<^verbatim>\<open>stage2_main\<close> up to the call of the entry: the address called and the state there.  The kernel does
  not return; the message and the endless loop behind the call are not modelled.
\<close>

definition stage2_main ::
    "io \<Rightarrow> 'a junk \<Rightarrow> u32 \<Rightarrow> u32 \<Rightarrow> 'a boot \<Rightarrow> entry_handle \<Rightarrow> u8 list \<Rightarrow> (u32 \<times> 'a boot) option" where
  "stage2_main io junk foo ksize s h0 n0 = do {
     d \<leftarrow> find_boot_disk io (disk s);
     s1 \<leftarrow> load_kernel io junk foo ksize (s\<lparr>disk := d\<rparr>) h0 n0;
     Some (0x100000, s1) }"

section \<open>Short names and the walk\<close>






section \<open>Mounting\<close>










section \<open>Loading the kernel\<close>









section \<open>A bootable volume\<close>









end
