(* ===== verification/Fat16_Run.thy ===== *)
theory Fat16_Run
  imports Fat16_Subdir
begin

text \<open>
  Runs of the file operations of \<^verbatim>\<open>kernel/src/fs/fat16/fat16.c\<close> on any device: what every sequence of
  opening, closing, reading, listing and asking for sizes keeps.  The table of handles keeps its shape
  and its modes, the parameters of the volume never change, and the conflict check of \<^verbatim>\<open>fat16_open\<close>
  does its work on files in subdirectories.
\<close>

section \<open>What the inner functions leave alone\<close>

text \<open>They touch the device only; of a handle they keep the mode and the file.\<close>

definition volume_of :: "'d fat16 \<Rightarrow> fat16_bpb \<times> fat16_layout \<times> entry_handle list" where
  "volume_of s = (bpb s, layout s, handles s)"

definition file_of :: "entry_handle \<Rightarrow> u8 \<times> u32" where
  "file_of h = (mode h, pos_entry h)"

lemma volume_of_disk [simp]: "volume_of (s\<lparr>disk := d\<rparr>) = volume_of s"
  by (simp add: volume_of_def)

lemma file_of_moved [simp]:
  "file_of (h\<lparr>cluster := c\<rparr>) = file_of h" "file_of (h\<lparr>offset := i\<rparr>) = file_of h"
  "file_of (h\<lparr>remaining_bytes := n\<rparr>) = file_of h"
  by (simp_all add: file_of_def)

lemma file_of_mode: "file_of h' = file_of h \<Longrightarrow> mode h' = mode h"
  by (simp add: file_of_def)

named_theorems volume

lemma dev_ops_volume [volume]:
  "dev_seek dev s p = Some s' \<Longrightarrow> volume_of s' = volume_of s"
  "dev_read dev s n = Some (bs, s') \<Longrightarrow> volume_of s' = volume_of s"
  "dev_read_byte dev s = Some (b, s') \<Longrightarrow> volume_of s' = volume_of s"
  by (auto simp: dev_seek_def dev_read_def dev_read_byte_def bind_eq_Some_conv)

lemma move_volume [volume]:
  "move_to_root_directory_region dev s i = Some (p, s') \<Longrightarrow> volume_of s' = volume_of s"
  "move_to_fat_region dev s c = Some (p, s') \<Longrightarrow> volume_of s' = volume_of s"
  "move_to_data_region dev s c off = Some (p, s') \<Longrightarrow> volume_of s' = volume_of s"
  by (auto simp: move_to_root_directory_region_def move_to_fat_region_def move_to_data_region_def Let_def bind_eq_Some_conv
    dest!: volume)

lemma get_next_cluster_volume [volume]: "get_next_cluster dev s c = Some (r, n, s') \<Longrightarrow> volume_of s' = volume_of s"
  by (auto simp: get_next_cluster_def bind_eq_Some_conv dest!: volume)

lemma read_loop_volume:
  assumes "read_loop dev s h count bs = Some z"
  shows "volume_of (snd (snd (snd z))) = volume_of s \<and> file_of (fst (snd (snd z))) = file_of h"
  using assms
proof (induction dev s h count bs z rule: read_loop.raw_induct [rotated, consumes 1, case_names 1])
  case (1 loop dev s h count bs z)
  then show ?case
    by (cases z) (auto simp: bind_eq_Some_conv Let_def split: if_splits prod.splits dest!: volume)
qed

lemma read_from_handle_volume [volume]:
  "read_from_handle dev s h count = Some (r, bs, h', s') \<Longrightarrow> volume_of s' = volume_of s \<and> file_of h' = file_of h"
  by (auto simp: read_from_handle_def bind_eq_Some_conv split: if_splits
    dest!: volume dest: read_loop_volume)

lemma find_root_loop_volume:
  assumes "find_root_loop dev s nm i = Some z"
  shows "volume_of (snd (snd z)) = volume_of s"
  using assms
proof (induction dev s nm i z rule: find_root_loop.raw_induct [rotated, consumes 1, case_names 1])
  case (1 loop dev s nm i z)
  then show ?case
    by (cases z) (auto simp: bind_eq_Some_conv Let_def split: if_splits dest!: volume)
qed

lemma find_root_volume [volume]: "find_root_directory_entry dev s nm = Some (r, i, s') \<Longrightarrow> volume_of s' = volume_of s"
  by (auto simp: find_root_directory_entry_def bind_eq_Some_conv dest!: volume dest: find_root_loop_volume)

lemma append_loop_volume:
  assumes "append_loop dev s c off n = Some z"
  shows "volume_of (snd (snd z)) = volume_of s"
  using assms
proof (induction dev s c off n z rule: append_loop.raw_induct [rotated, consumes 1, case_names 1])
  case (1 loop dev s c off n z)
  then show ?case
    by (cases z) (auto simp: bind_eq_Some_conv split: if_splits dest!: volume)
qed

lemma position_handle_volume [volume]:
  "position_handle dev s h e m = Some (h', s') \<Longrightarrow> volume_of s' = volume_of s \<and> file_of h' = file_of h"
  by (auto simp: position_handle_def bind_eq_Some_conv split: if_splits
    dest!: volume dest: append_loop_volume)

text \<open>Opening an entry sets the mode of the handle, or fails and leaves it.\<close>

lemma open_entry_in_root_volume [volume]:
  assumes "open_entry_in_root dev s h nm m is_file = Some (r, h', s')"
  shows "volume_of s' = volume_of s \<and> (r = 0 \<and> mode h' = m \<or> r = - 1 \<and> mode h' = mode h)"
proof -
  obtain r1 i s1 where f: "find_root_directory_entry dev s nm = Some (r1, i, s1)"
    using assms unfolding open_entry_in_root_def by (auto simp only: bind_eq_Some_conv split_paired_Ex)
  show ?thesis
  proof (cases "r1 < 0")
    case True
    then show ?thesis using assms find_root_volume [OF f] by (simp add: open_entry_in_root_def f)
  next
    case False
    then obtain p s2 bs s3 where "move_to_root_directory_region dev s1 i = Some (p, s2)" "dev_read dev s2 32 = Some (bs, s3)"
      using assms unfolding open_entry_in_root_def f Let_def by (auto simp: bind_eq_Some_conv)
    note e = this
    have "volume_of s3 = volume_of s" using find_root_volume [OF f] e by (auto dest!: volume)
    then show ?thesis
      using assms False
      by (auto simp: open_entry_in_root_def f e Let_def bind_eq_Some_conv split: if_split_asm dest!: position_handle_volume file_of_mode)
  qed
qed

lemma read_entry_volume [volume]:
  "read_entry_from_subdir dev s e h = Some (r, e', h', s') \<Longrightarrow> volume_of s' = volume_of s \<and> file_of h' = file_of h"
  by (auto simp: read_entry_from_subdir_def bind_eq_Some_conv split: if_splits dest!: volume)

lemma find_subdir_loop_volume:
  assumes "find_subdir_loop dev s e h nm = Some z"
  shows "volume_of (snd (snd (snd z))) = volume_of s \<and> file_of (fst (snd (snd z))) = file_of h"
  using assms
proof (induction dev s e h nm z rule: find_subdir_loop.raw_induct [rotated, consumes 1, case_names 1])
  case (1 loop dev s e h nm z)
  then show ?case
    by (cases z) (auto simp: bind_eq_Some_conv split: if_splits dest!: volume)
qed

lemma find_entry_volume [volume]:
  "find_entry_in_subdir dev s e p h nm = Some (r, e', p', h', s') \<Longrightarrow> volume_of s' = volume_of s \<and> file_of h' = file_of h"
  by (auto simp: find_entry_in_subdir_def bind_eq_Some_conv split: if_splits
    dest!: volume find_subdir_loop_volume)

lemma open_entry_in_subdir_volume [volume]:
  "open_entry_in_subdir dev s h nm m is_file = Some (r, h', s') \<Longrightarrow>
     volume_of s' = volume_of s \<and> (r = 0 \<and> mode h' = m \<or> r = - 1 \<and> mode h' = mode h)"
  by (auto simp: file_of_def open_entry_in_subdir_def bind_eq_Some_conv split: if_splits dest!: volume)

lemma subdir_entry_size_volume [volume]:
  "subdir_entry_size dev s h nm = Some (n, h', s') \<Longrightarrow> volume_of s' = volume_of s \<and> file_of h' = file_of h"
  by (auto simp: subdir_entry_size_def bind_eq_Some_conv dest!: volume)

lemma navigate_loop_volume:
  assumes "navigate_loop dev s h en sn i path = Some z"
  shows "volume_of (snd (snd (snd z))) = volume_of s"
  using assms
proof (induction dev s h en sn i path z rule: navigate_loop.raw_induct [rotated, consumes 1, case_names 1])
  case (1 loop dev s h en sn i path z)
  then show ?case
    by (cases z) (auto simp: open_directory_in_subdir_def bind_eq_Some_conv split: if_splits prod.splits option.splits
      dest!: volume)
qed

lemma navigate_volume [volume]: "navigate_to_subdir dev s h en path = Some (r, h', nm, s') \<Longrightarrow> volume_of s' = volume_of s"
  by (auto simp: navigate_to_subdir_def open_directory_in_root_def bind_eq_Some_conv
    split: if_splits prod.splits option.splits dest!: volume dest: navigate_loop_volume)

lemma skip_entries_volume [volume]: "skip_entries n dev s e h = Some (r, e', h', s') \<Longrightarrow> volume_of s' = volume_of s"
proof (induction n arbitrary: s e h)
  case (Suc n)
  then show ?case by (auto simp: bind_eq_Some_conv split: if_splits dest!: read_entry_volume)
qed simp

lemma ls_volume [volume]:
  "ls_in_subdir dev s i nm h = Some (r, i', nm', s') \<Longrightarrow> volume_of s' = volume_of s"
  "ls_in_root dev s i nm = Some (r, i', nm', s') \<Longrightarrow> volume_of s' = volume_of s"
  by (auto simp: ls_in_subdir_def ls_in_root_def bind_eq_Some_conv Let_def split: if_splits dest!: volume)

section \<open>Runs of the file operations\<close>

text \<open>\<open>opened\<close> restricts the paths that are opened.\<close>

inductive fat_run :: "'d storage_dev \<Rightarrow> (u8 list \<Rightarrow> bool) \<Rightarrow> 'd fat16 \<Rightarrow> 'd fat16 \<Rightarrow> bool"
  for dev opened s0 where
  mounted: "fat_run dev opened s0 s0"
| opens: "fat_run dev opened s0 s \<Longrightarrow> opened path \<Longrightarrow> fat16_open dev s path m = Some (r, s') \<Longrightarrow> fat_run dev opened s0 s'"
| closes: "fat_run dev opened s0 s \<Longrightarrow> fat16_close s h = (c, s') \<Longrightarrow> fat_run dev opened s0 s'"
| reads: "fat_run dev opened s0 s \<Longrightarrow> fat16_read dev s h buf n = Some (r, bs, s') \<Longrightarrow> fat_run dev opened s0 s'"
| sizes: "fat_run dev opened s0 s \<Longrightarrow> fat16_size dev s path = Some (r, s') \<Longrightarrow> fat_run dev opened s0 s'"
| lists: "fat_run dev opened s0 s \<Longrightarrow> fat16_ls dev s i f p = Some (r, i', f', s') \<Longrightarrow> fat_run dev opened s0 s'"

text \<open>Each operation changes at most one slot of the table: closed by \<open>free_slot\<close>, opened in a free slot, or moved.\<close>

definition freed :: "'d fat16 \<Rightarrow> 'd fat16 \<Rightarrow> nat \<Rightarrow> bool" where
  "freed s s' k \<longleftrightarrow> (\<exists>h. mode h = 0 \<and> handles s' = (handles s)[k := h])"

definition unopened :: "'d fat16 \<Rightarrow> 'd fat16 \<Rightarrow> bool" where
  "unopened s s' \<longleftrightarrow> handles s' = handles s \<or> (\<exists>k. freed s s' k)"

definition moved :: "'d fat16 \<Rightarrow> 'd fat16 \<Rightarrow> bool" where
  "moved s s' \<longleftrightarrow> (\<exists>k h. file_of h = file_of (handles s ! k) \<and> handles s' = (handles s)[k := h])"

definition opened_as :: "'d fat16 \<Rightarrow> 'd fat16 \<Rightarrow> nat \<Rightarrow> u8 \<Rightarrow> bool" where
  "opened_as s s' k m \<longleftrightarrow> (\<exists>h. mode h = m \<and> handles s' = (handles s)[k := h])"

definition same_params :: "'d fat16 \<Rightarrow> 'd fat16 \<Rightarrow> bool" where
  "same_params s s' \<longleftrightarrow> bpb s' = bpb s \<and> layout s' = layout s"

lemma volume_of_params: "volume_of s' = volume_of s \<Longrightarrow> same_params s s' \<and> handles s' = handles s"
  by (simp add: volume_of_def same_params_def)

lemma close_slot: "fat16_close s h = (r, s') \<Longrightarrow> same_params s s' \<and> unopened s s'"
  unfolding unopened_def freed_def
  by (auto simp: fat16_close_def same_params_def split: if_splits
    intro!: exI [of _ "(handles s ! h)\<lparr>mode := 0\<rparr>"] exI [of _ h])

lemma set_handle_Some: "set_handle s k h = Some s' \<longleftrightarrow> k < 16 \<and> s' = s\<lparr>handles := (handles s)[k := h]\<rparr>"
  by (auto simp: set_handle_def)

lemma read_slot:
  assumes "fat16_read dev s k buf n = Some (r, bs, s')"
  shows "same_params s s' \<and> (unopened s s' \<or> moved s s')"
proof (cases "check_handle s k \<and> buf \<noteq> 0")
  case False
  then have "s' = s" using assms unfolding fat16_read_def by (auto split: if_split_asm)
  then show ?thesis by (simp add: same_params_def unopened_def)
next
  case True
  then obtain h s1 where h: "read_from_handle dev s (handles s ! k) n = Some (r, bs, h, s1)" "s' = s1\<lparr>handles := (handles s1)[k := h]\<rparr>"
    using assms by (auto simp: fat16_read_def bind_eq_Some_conv set_handle_Some)
  then have "file_of h = file_of (handles s ! k)" "handles s1 = handles s" "same_params s s1"
    using read_from_handle_volume [OF h(1)] volume_of_params by blast+
  then show ?thesis using h(2) by (auto simp: moved_def same_params_def)
qed

lemma ls_slot:
  assumes "fat16_ls dev s i f p = Some (r, i', f', s')"
  shows "volume_of s' = volume_of s"
proof -
  consider "p = None" | path where "p = Some path" "is_in_root path = None"
    | path where "p = Some path" "is_in_root path = Some True" | path where "p = Some path" "is_in_root path = Some False"
    by (cases p; cases "is_in_root (the p)"; cases "the (is_in_root (the p))") auto
  then show ?thesis
    by cases (use assms in \<open>auto simp: fat16_ls_def open_directory_in_root_def open_directory_in_subdir_def bind_eq_Some_conv
      split: option.splits if_split_asm dest!: volume\<close>)
qed

text \<open>Asking for a size uses a free slot for the directory and closes it again.\<close>

lemma close_stored:
  assumes "k < length (handles s)" and "k < 16"
  shows "\<exists>h'. mode h' = 0 \<and> snd (fat16_close (s\<lparr>handles := (handles s)[k := h]\<rparr>) k) = s\<lparr>handles := (handles s)[k := h']\<rparr>"
proof (cases "mode h = 0")
  case True
  then show ?thesis using assms by (intro exI [of _ h]) (simp add: fat16_close_def check_handle_def)
next
  case False
  then show ?thesis using assms by (intro exI [of _ "h\<lparr>mode := 0\<rparr>"]) (simp add: fat16_close_def check_handle_def)
qed

lemma root_size_volume:
  assumes "root_directory_entry_size dev s nm = Some (n, s')"
  shows "volume_of s' = volume_of s"
proof -
  obtain r i s1 where f: "find_root_directory_entry dev s nm = Some (r, i, s1)"
    using assms unfolding root_directory_entry_size_def by (auto simp only: bind_eq_Some_conv split_paired_Ex)
  show ?thesis
    using assms find_root_volume [OF f]
    by (cases "r < 0") (auto simp: root_directory_entry_size_def f bind_eq_Some_conv dest!: volume)
qed

lemma size_slot:
  assumes "fat16_size dev s path = Some (r, s')" and len: "length (handles s) = 16"
  shows "same_params s s' \<and> unopened s s'"
proof (cases "is_in_root path = Some True")
  case True
  show ?thesis
  proof (cases "to_short_filename (replicate 11 0) path")
    case None
    then show ?thesis using assms True by (simp add: fat16_size_def same_params_def unopened_def)
  next
    case (Some nm)
    then have e: "do { (sz, s1) \<leftarrow> root_directory_entry_size dev s nm;
        Some (sint sz, snd (fat16_close s1 (find_available_handle s))) } = Some (r, s')"
      using assms True by (simp add: fat16_size_def Let_def)
    then obtain sz s1 where s1: "root_directory_entry_size dev s nm = Some (sz, s1)"
      "s' = snd (fat16_close s1 (find_available_handle s))" by (auto simp: bind_eq_Some_conv)
    have "same_params s s1 \<and> handles s1 = handles s" by (rule volume_of_params [OF root_size_volume [OF s1(1)]])
    then show ?thesis using close_slot [of s1 "find_available_handle s" _ s'] s1(2)
      by (cases "fat16_close s1 (find_available_handle s)") (auto simp: same_params_def unopened_def freed_def)
  qed
next
  case False
  let ?k = "find_available_handle s"
  have sub: "is_in_root path = Some False"
    using assms(1) False by (cases "is_in_root path") (simp_all add: fat16_size_def)
  obtain r1 dh nm s1 where nav: "navigate_to_subdir dev s blank_handle (replicate 11 0) path = Some (r1, dh, nm, s1)"
    using assms(1) sub unfolding fat16_size_def Let_def by (auto simp: bind_eq_Some_conv)
  note v1 = volume_of_params [OF navigate_volume [OF nav]]
  show ?thesis
  proof (cases "r1 < 0")
    case True
    then show ?thesis using assms sub nav v1 by (simp add: fat16_size_def unopened_def)
  next
    case False
    let ?s2 = "s1\<lparr>handles := (handles s1)[?k := dh]\<rparr>"
    obtain sz eh s3 where k: "?k < 16" and entry: "subdir_entry_size dev ?s2 (handles ?s2 ! ?k) nm = Some (sz, eh, s3)"
      and s': "s' = snd (fat16_close (s3\<lparr>handles := (handles s3)[?k := eh]\<rparr>) ?k)"
      using assms sub nav False by (auto simp: fat16_size_def Let_def bind_eq_Some_conv set_handle_Some)
    have v3: "same_params ?s2 s3 \<and> handles s3 = handles ?s2"
      using subdir_entry_size_volume [OF entry] volume_of_params by blast
    have "?k < length (handles s3)" using k v1 v3 len by simp
    from close_stored [OF this k, of eh] obtain h' where "mode h' = 0" "s' = s3\<lparr>handles := (handles s3)[?k := h']\<rparr>"
      unfolding s' by blast
    then show ?thesis using v1 v3 by (auto simp: same_params_def unopened_def freed_def)
  qed
qed

text \<open>Opening a file fills a slot that was free, or closes it again.\<close>

lemma find_SomeD: "find P xs = Some x \<Longrightarrow> P x"
  by (auto simp: find_Some_iff)

lemma find_available_free:
  assumes "find_available_handle s < 16"
  shows "mode (handles s ! find_available_handle s) = 0"
  using assms by (auto simp: find_available_handle_def split: option.splits dest: find_SomeD)

definition access_mode :: "u8 \<Rightarrow> bool" where
  "access_mode m \<longleftrightarrow> m = MODE_R \<or> m = MODE_W \<or> m = MODE_A"

lemma open_slot_root:
  assumes "fat16_open dev s path m = Some (r, s')" and "is_in_root path = Some True"
  shows "same_params s s' \<and> (unopened s s' \<or> access_mode m \<and> opened_as s s' (find_available_handle s) m)"
proof (cases "access_mode m \<and> to_short_filename (replicate 11 0) path \<noteq> None")
  case False
  then show ?thesis
    using assms by (auto simp: fat16_open_def access_mode_def same_params_def unopened_def split: option.splits if_split_asm)
next
  case True
  let ?k = "find_available_handle s"
  obtain nm where nm: "to_short_filename (replicate 11 0) path = Some nm" using True by auto
  have e: "do {
       (r, eh, s1) \<leftarrow> open_entry_in_root dev s (handles s ! ?k) nm m True;
       if r < 0 then do { s2 \<leftarrow> set_handle s1 ?k (eh\<lparr>mode := 0\<rparr>); Some (- 1, s2) }
       else do { s2 \<leftarrow> set_handle s1 ?k eh; Some (0, s2) } } = Some (r, s')"
    using assms True nm by (auto simp: fat16_open_def access_mode_def open_file_in_root_def Let_def split: if_split_asm)
  then obtain r1 eh s1 where o: "open_entry_in_root dev s (handles s ! ?k) nm m True = Some (r1, eh, s1)"
    by (auto simp only: bind_eq_Some_conv split_paired_Ex)
  have s': "s' = s1\<lparr>handles := (handles s1)[?k := (if r1 < 0 then eh\<lparr>mode := 0\<rparr> else eh)]\<rparr>"
    using e by (auto simp: o bind_eq_Some_conv set_handle_Some split: if_split_asm)
  have v: "same_params s s1 \<and> handles s1 = handles s" "r1 = 0 \<and> mode eh = m \<or> r1 = - 1 \<and> mode eh = mode (handles s ! ?k)"
    using open_entry_in_root_volume [OF o] volume_of_params [of s1 s] by auto
  show ?thesis
  proof (cases "r1 < 0")
    case r: True
    have "freed s s' ?k" unfolding freed_def using v s' r by (intro exI [of _ "eh\<lparr>mode := 0\<rparr>"]) simp
    then show ?thesis using v s' by (auto simp: same_params_def unopened_def)
  next
    case False
    then show ?thesis using v s' True by (auto simp: same_params_def opened_as_def)
  qed
qed

lemma open_slot_subdir:
  assumes "fat16_open dev s path m = Some (r, s')" and "is_in_root path \<noteq> Some True" and len: "length (handles s) = 16"
  shows "same_params s s' \<and> (unopened s s'
    \<or> access_mode m \<and> opened_as s s' (find_available_handle s) m \<and> \<not> conflict s' (find_available_handle s) m)"
proof (cases "access_mode m")
  case False
  then show ?thesis using assms by (auto simp: fat16_open_def access_mode_def same_params_def unopened_def split: if_split_asm)
next
  case True
  let ?k = "find_available_handle s"
  have below: "is_in_root path = Some False"
    using assms(1,2) True by (cases "is_in_root path") (auto simp: fat16_open_def access_mode_def)
  obtain r1 dh nm s1 where nav: "navigate_to_subdir dev s blank_handle (replicate 11 0) path = Some (r1, dh, nm, s1)"
    using assms(1) below True unfolding fat16_open_def Let_def access_mode_def by (auto simp: bind_eq_Some_conv)
  note v1 = volume_of_params [OF navigate_volume [OF nav]]
  show ?thesis
  proof (cases "r1 < 0")
    case r1: True
    then show ?thesis using assms(1) below True nav v1 by (auto simp: fat16_open_def access_mode_def unopened_def)
  next
    case r1: False
    then obtain r2 eh s2 where sub: "open_entry_in_subdir dev s1 dh nm m True = Some (r2, eh, s2)"
      and res: "(if r2 < 0 then Some (- 1, s2)
                 else do {
                   s3 \<leftarrow> set_handle s2 ?k eh;
                   if conflict s3 ?k m then do { s4 \<leftarrow> set_handle s3 ?k ((handles s3 ! ?k)\<lparr>mode := 0\<rparr>); Some (- 1, s4) }
                   else Some (int ?k, s3) }) = Some (r, s')"
      using assms(1) below True nav by (auto simp: fat16_open_def access_mode_def open_file_in_subdir_def Let_def bind_eq_Some_conv)
    note o = open_entry_in_subdir_volume [OF sub]
    have v2: "same_params s s2" "handles s2 = handles s"
      using volume_of_params [of s2 s1] o v1 by (auto simp: same_params_def)
    show ?thesis
    proof (cases "r2 < 0")
      case r2: True
      then show ?thesis using res v2 by (auto simp: unopened_def same_params_def)
    next
      case r2: False
      let ?s3 = "s2\<lparr>handles := (handles s2)[?k := eh]\<rparr>"
      have m: "mode eh = m" using o r2 by auto
      show ?thesis
      proof (cases "conflict ?s3 ?k m")
        case c: True
        then have "freed s s' ?k" "same_params s s'"
          using res r2 v2 unfolding freed_def same_params_def
          by (auto simp: bind_eq_Some_conv set_handle_Some intro!: exI [of _ "(handles ?s3 ! ?k)\<lparr>mode := 0\<rparr>"])
        then show ?thesis by (auto simp: unopened_def)
      next
        case False
        then have "s' = ?s3" using res r2 by (auto simp: bind_eq_Some_conv set_handle_Some)
        then show ?thesis using False True v2 m by (auto simp: opened_as_def same_params_def)
      qed
    qed
  qed
qed

section \<open>Invariants of runs\<close>

text \<open>The well-formed states: sixteen handles, each closed or open in one of the three modes.\<close>

definition volume_type :: "'d fat16 \<Rightarrow> bool" where
  "volume_type s \<longleftrightarrow> length (handles s) = 16 \<and> (\<forall>h \<in> set (handles s). mode h = 0 \<or> access_mode (mode h))"

lemma volume_type_update:
  assumes "volume_type s" and "handles s' = (handles s)[k := h]" and "k < 16 \<longrightarrow> mode h = 0 \<or> access_mode (mode h)"
  shows "volume_type s'"
proof (cases "k < 16")
  case True
  then show ?thesis using assms set_update_subset_insert [of "handles s" k h] by (fastforce simp: volume_type_def)
next
  case False
  then show ?thesis using assms by (simp add: volume_type_def list_update_beyond)
qed

lemma volume_type_steps:
  assumes "volume_type s"
  shows "unopened s s' \<Longrightarrow> volume_type s'" "moved s s' \<Longrightarrow> volume_type s'"
    "opened_as s s' k m \<Longrightarrow> access_mode m \<Longrightarrow> volume_type s'"
proof -
  show "unopened s s' \<Longrightarrow> volume_type s'"
    using assms volume_type_update [OF assms] by (auto simp: unopened_def freed_def volume_type_def)
  show "opened_as s s' k m \<Longrightarrow> access_mode m \<Longrightarrow> volume_type s'"
    using volume_type_update [OF assms] by (auto simp: opened_as_def)
  show "moved s s' \<Longrightarrow> volume_type s'"
  proof -
    assume "moved s s'"
    then obtain k h where m: "mode h = mode (handles s ! k)" "handles s' = (handles s)[k := h]"
      by (auto simp: moved_def file_of_def)
    have "k < 16 \<longrightarrow> mode h = 0 \<or> access_mode (mode h)"
      using assms m(1) nth_mem [of k "handles s"] by (simp add: volume_type_def)
    then show ?thesis by (rule volume_type_update [OF assms m(2)])
  qed
qed

lemma open_slot:
  assumes "fat16_open dev s path m = Some (r, s')" and "length (handles s) = 16"
  shows "same_params s s' \<and> (unopened s s' \<or> access_mode m \<and> opened_as s s' (find_available_handle s) m)"
  using open_slot_root [OF assms(1)] open_slot_subdir [OF assms(1) _ assms(2)] by blast

lemma fat_run_type:
  assumes "fat_run dev opened s0 s" and "volume_type s0"
  shows "volume_type s \<and> bpb s = bpb s0 \<and> layout s = layout s0"
  using assms
proof (induction rule: fat_run.induct)
  case (opens s path m r s')
  then show ?case using open_slot [OF opens.hyps(3)] volume_type_steps [of s s'] by (auto simp: volume_type_def same_params_def)
next
  case (closes s h c s')
  then show ?case using close_slot [OF closes.hyps(2)] volume_type_steps [of s s'] by (auto simp: same_params_def)
next
  case (reads s h buf n r bs s')
  then show ?case using read_slot [OF reads.hyps(2)] volume_type_steps [of s s'] by (auto simp: same_params_def volume_type_def)
next
  case (sizes s path r s')
  then show ?case using size_slot [OF sizes.hyps(2)] volume_type_steps [of s s'] by (auto simp: volume_type_def same_params_def)
next
  case (lists s i f p r i' f' s')
  then show ?case using ls_slot [OF lists.hyps(2)] by (auto simp: volume_of_def volume_type_def)
qed simp

text \<open>
  C32: Whatever the device does and whatever the program calls, opening, closing, reading, listing and asking
  for sizes keep the type of the volume's state: sixteen handles, each closed or open for reading, writing
  or appending, and the parameters read when it was mounted.
\<close>

theorem fat_run_keeps_type:
  assumes "fat_run dev opened s0 s" and "volume_type s0"
  shows "volume_type s \<and> bpb s = bpb s0 \<and> layout s = layout s0"
  by (rule fat_run_type [OF assms])

text \<open>A first run: the file of the volume of \<^verbatim>\<open>tree_platter\<close> is opened.\<close>

abbreviation (input) tree_dev :: "ata storage_dev" where
  "tree_dev \<equiv> kernel_dev (pio_io 0x1F0 tree_platter) (\<lambda>_. [])"

lemma tree_opened:
  "\<exists>s. fat16_open tree_dev hello_volume (path2 boot_name kernel_name) MODE_R = Some (0, s)"
proof -
  note dev = kernel_device [OF pio_drive [of "2 ^ 28" "0x1F0" tree_platter True], of "\<lambda>_. []", folded tree_platter_img]
  show ?thesis
    using storage_device.open_read_subdir [OF dev, where s = hello_volume and d = boot_name and f = kernel_name
        and dn = "take 11 boot_dir_entry" and fn = "take 11 kernel_entry"
        and e = "cluster_entry hello_volume tree_img 2 0" and h = 0 and buf = "0x5000"]
      tree_names tree_file tree_chain hello_handle tree_volume(5)
    by (simp add: hello_volume volume_ok_def root_ok_def tree_platter_img tree_entries blank_handle_def) blast
qed

lemma tree_run:
  assumes "opened (path2 boot_name kernel_name)"
  shows "\<exists>s. fat16_open tree_dev hello_volume (path2 boot_name kernel_name) MODE_R = Some (0, s)
    \<and> fat_run tree_dev opened hello_volume s"
  using tree_opened fat_run.opens [of tree_dev opened hello_volume, OF fat_run.mounted, OF assms] by blast

lemma closed_handles:
  assumes "handles s = replicate 16 blank_handle"
  shows "volume_type s"
  using assms by (simp add: volume_type_def blank_handle_def)

theorem fat_run_keeps_type_witness:
  "\<exists>s. fat16_open tree_dev hello_volume (path2 boot_name kernel_name) MODE_R = Some (0, s)
    \<and> volume_type s \<and> bpb s = bpb hello_volume \<and> layout s = layout hello_volume"
  using tree_run [of "\<lambda>_. True"] fat_run_keeps_type [OF _ closed_handles [OF hello_volume(10)], of tree_dev "\<lambda>_. True"] by auto

text \<open>Two handles on the same directory entry are both open for reading.\<close>

definition exclusive :: "'d fat16 \<Rightarrow> bool" where
  "exclusive s \<longleftrightarrow> (\<forall>i < 16. \<forall>j < 16. i \<noteq> j \<and> mode (handles s ! i) \<noteq> 0 \<and> mode (handles s ! j) \<noteq> 0
     \<and> pos_entry (handles s ! i) = pos_entry (handles s ! j) \<longrightarrow> mode (handles s ! i) = MODE_R)"

lemma exclusive_cong:
  assumes "exclusive s"
    and "\<And>i. i < 16 \<Longrightarrow> mode (handles s' ! i) = 0 \<or> file_of (handles s' ! i) = file_of (handles s ! i)"
  shows "exclusive s'"
  unfolding exclusive_def
proof (intro allI impI)
  fix i j :: nat
  assume i: "i < 16" and j: "j < 16" and both: "i \<noteq> j \<and> mode (handles s' ! i) \<noteq> 0 \<and> mode (handles s' ! j) \<noteq> 0
    \<and> pos_entry (handles s' ! i) = pos_entry (handles s' ! j)"
  have "file_of (handles s' ! i) = file_of (handles s ! i)" "file_of (handles s' ! j) = file_of (handles s ! j)"
    using assms(2) [OF i] assms(2) [OF j] both by auto
  then show "mode (handles s' ! i) = MODE_R" using assms(1) i j both unfolding exclusive_def file_of_def by (metis prod.inject)
qed

lemma nth_slot: "i < length hs \<Longrightarrow> hs[k := h] ! i = (if k = i then h else hs ! i)"
  by (cases "k = i") simp_all

lemma exclusive_unopened:
  assumes "exclusive s" and "unopened s s'" and "length (handles s) = 16"
  shows "exclusive s'"
proof (rule exclusive_cong [OF assms(1)])
  fix i :: nat assume "i < 16"
  then show "mode (handles s' ! i) = 0 \<or> file_of (handles s' ! i) = file_of (handles s ! i)"
    using assms(2,3) by (auto simp: unopened_def freed_def nth_slot)
qed

lemma exclusive_moved:
  assumes "exclusive s" and "moved s s'" and "length (handles s) = 16"
  shows "exclusive s'"
proof (rule exclusive_cong [OF assms(1)])
  fix i :: nat assume "i < 16"
  then show "mode (handles s' ! i) = 0 \<or> file_of (handles s' ! i) = file_of (handles s ! i)"
    using assms(2,3) by (auto simp: moved_def nth_slot)
qed

lemma exclusive_opened:
  assumes "exclusive s" and "opened_as s s' k m" and "\<not> conflict s' k m" and "length (handles s) = 16" and "access_mode m"
  shows "exclusive s'"
proof -
  obtain h where h: "mode h = m" "handles s' = (handles s)[k := h]" using assms(2) by (auto simp: opened_as_def)
  have at: "handles s' ! i = (if i = k then h else handles s ! i)" if "i < 16" for i
    using that h(2) assms(4) by (simp add: nth_list_update)
  have free: "m = MODE_R \<and> mode (handles s' ! i) = MODE_R"
    if "i < 16" "i \<noteq> k" "k < 16" "mode (handles s' ! i) \<noteq> 0" "pos_entry (handles s' ! k) = pos_entry (handles s' ! i)" for i
    using assms(3) that unfolding conflict_def list_ex_iff by auto
  show ?thesis
    unfolding exclusive_def
  proof (intro allI impI)
    fix i j :: nat
    assume i: "i < 16" and j: "j < 16" and both: "i \<noteq> j \<and> mode (handles s' ! i) \<noteq> 0 \<and> mode (handles s' ! j) \<noteq> 0
      \<and> pos_entry (handles s' ! i) = pos_entry (handles s' ! j)"
    consider "i = k" | "j = k" | "i \<noteq> k" "j \<noteq> k" by blast
    then show "mode (handles s' ! i) = MODE_R"
    proof cases
      case 1
      then show ?thesis using free [of j] both i j at [OF i] h(1) by simp
    next
      case 2
      then show ?thesis using free [of i] both i j by simp
    next
      case 3
      then show ?thesis using assms(1) both i j at [OF i] at [OF j] by (simp add: exclusive_def)
    qed
  qed
qed

text \<open>
  C33: As long as only files below subdirectories are opened, every run keeps open files exclusive: two handles
  on the same directory entry are both open for reading, so no writer shares its file.
\<close>

theorem fat_run_keeps_exclusive:
  assumes "fat_run dev (\<lambda>path. is_in_root path \<noteq> Some True) s0 s" and "volume_type s0" and "exclusive s0"
  shows "exclusive s"
proof -
  have len: "length (handles t) = 16" if "fat_run dev (\<lambda>path. is_in_root path \<noteq> Some True) s0 t" for t
    using fat_run_type [OF that assms(2)] by (simp add: volume_type_def)
  show ?thesis
    using assms(1)
  proof (induction rule: fat_run.induct)
    case (opens s path m r s')
    then show ?case using open_slot_subdir [OF opens.hyps(3,2) len] exclusive_unopened [of s s'] exclusive_opened len by blast
  next
    case (closes s h c s')
    then show ?case using close_slot [OF closes.hyps(2)] exclusive_unopened [of s s'] len by blast
  next
    case (reads s h buf n r bs s')
    then show ?case using read_slot [OF reads.hyps(2)] exclusive_unopened [of s s'] exclusive_moved [of s s'] len by blast
  next
    case (sizes s path r s')
    then show ?case using size_slot [OF sizes.hyps(2) len] exclusive_unopened [of s s'] len by blast
  next
    case (lists s i f p r i' f' s')
    have "unopened s s'" using volume_of_params [OF ls_slot [OF lists.hyps(2)]] by (simp add: unopened_def)
    then show ?case using exclusive_unopened [OF lists.IH] len [OF lists.hyps(1)] by blast
  qed (rule assms(3))
qed

theorem fat_run_keeps_exclusive_witness:
  "\<exists>s. fat16_open tree_dev hello_volume (path2 boot_name kernel_name) MODE_R = Some (0, s) \<and> exclusive s"
proof -
  have "exclusive hello_volume" by (simp add: exclusive_def hello_volume blank_handle_def)
  moreover have "is_in_root (path2 boot_name kernel_name) \<noteq> Some True"
    using not_in_root [OF tree_names(1,2)] tree_names(3) by simp
  ultimately show ?thesis
    using tree_run [of "\<lambda>path. is_in_root path \<noteq> Some True"]
      fat_run_keeps_exclusive [OF _ closed_handles [OF hello_volume(10)], of tree_dev] by blast
qed

end
