(* ===== verification/Gdt.thy ===== *)
theory Gdt
  imports Ata
begin

text \<open>
  The global descriptor table and the task state segment, \<^verbatim>\<open>kernel/src/memory/gdt.c\<close>.  The
  addresses the linker gives \<^verbatim>\<open>gdt_entries\<close> and \<^verbatim>\<open>g_tss\<close> are parameters.  The functions
  \<open>seg_base\<close>, \<open>seg_limit\<close>, \<open>seg_dpl\<close> read a descriptor the way the processor does; the lemmas show
  that \<^verbatim>\<open>gdt_set_entry\<close> encodes what they decode and which segments are installed.
\<close>

section \<open>State\<close>

record gdt_register =
  gdt_size :: u16
  gdt_address :: u32

record gdt_entry =
  limit_low :: u16
  base_low :: u16
  base_middle :: u8
  access :: u8
  granularity :: u8
  base_high :: u8

text \<open>The task state segment; the upper halves of the selector fields, which are unused, are left out.\<close>

record task_state =
  tss_previous_task :: u16
  tss_esp0 :: u32
  tss_ss0 :: u16
  tss_esp1 :: u32
  tss_ss1 :: u16
  tss_esp2 :: u32
  tss_ss2 :: u16
  tss_cr3 :: u32
  tss_eip :: u32
  tss_eflags :: u32
  tss_eax :: u32
  tss_ecx :: u32
  tss_edx :: u32
  tss_ebx :: u32
  tss_esp :: u32
  tss_ebp :: u32
  tss_esi :: u32
  tss_edi :: u32
  tss_es :: u16
  tss_cs :: u16
  tss_ss :: u16
  tss_ds :: u16
  tss_fs :: u16
  tss_gs :: u16
  tss_ldt_selector :: u16
  tss_debug_flag :: u16
  tss_io_map :: u16

record gdt = ata +
  gdt_entries :: "gdt_entry list"
  g_gdt :: gdt_register
  g_tss :: task_state

abbreviation KERNEL_CODE_SEGMENT :: u16 where "KERNEL_CODE_SEGMENT \<equiv> 0x08"
abbreviation KERNEL_DATA_SEGMENT :: u16 where "KERNEL_DATA_SEGMENT \<equiv> 0x10"
abbreviation TSS_SEGMENT :: u16 where "TSS_SEGMENT \<equiv> 0x28"
abbreviation SIZEOF_TSS :: u32 where "SIZEOF_TSS \<equiv> 104"

definition zero_tss :: task_state where
  "zero_tss = \<lparr>tss_previous_task = 0, tss_esp0 = 0, tss_ss0 = 0, tss_esp1 = 0, tss_ss1 = 0, tss_esp2 = 0,
     tss_ss2 = 0, tss_cr3 = 0, tss_eip = 0, tss_eflags = 0, tss_eax = 0, tss_ecx = 0, tss_edx = 0,
     tss_ebx = 0, tss_esp = 0, tss_ebp = 0, tss_esi = 0, tss_edi = 0, tss_es = 0, tss_cs = 0, tss_ss = 0, tss_ds = 0,
     tss_fs = 0, tss_gs = 0, tss_ldt_selector = 0, tss_debug_flag = 0, tss_io_map = 0\<rparr>"

section \<open>Operations\<close>

definition make_entry :: "u32 \<Rightarrow> u32 \<Rightarrow> u8 \<Rightarrow> u8 \<Rightarrow> gdt_entry" where
  "make_entry base limit acc flags =
     \<lparr>limit_low = ucast (limit AND 0xFFFF), base_low = ucast (base AND 0xFFFF),
      base_middle = ucast (drop_bit 16 base AND 0xFF), access = acc,
      granularity = ucast (drop_bit 16 limit AND 0x0F) OR (flags AND 0xF0),
      base_high = ucast (drop_bit 24 base AND 0xFF)\<rparr>"

text \<open>\<open>None\<close>: the index is outside the table.\<close>

definition gdt_set_entry :: "('a gdt_scheme) \<Rightarrow> int \<Rightarrow> u32 \<Rightarrow> u32 \<Rightarrow> u8 \<Rightarrow> u8 \<Rightarrow> ('a gdt_scheme) option" where
  "gdt_set_entry s index base limit acc flags =
     (if 0 \<le> index \<and> index < 6
      then Some (s\<lparr>gdt_entries := (gdt_entries s)[nat index := make_entry base limit acc flags]\<rparr>)
      else None)"

text \<open>\<open>segments_load_gdt\<close> and \<open>segments_load_registers\<close> are the assembly of \<^verbatim>\<open>gdt_asm.asm\<close>.\<close>

definition segments_load_gdt :: "('a machine_scheme) \<Rightarrow> gdt_register \<Rightarrow> ('a machine_scheme)" where
  "segments_load_gdt s g = cpu s (Lgdt (gdt_size g) (gdt_address g))"

definition segments_load_registers :: "('a machine_scheme) \<Rightarrow> ('a machine_scheme)" where
  "segments_load_registers s = cpu s (Load_segments 0x10 0x08)"

definition segments_install_gdt :: "u32 \<Rightarrow> u32 \<Rightarrow> ('a gdt_scheme) \<Rightarrow> ('a gdt_scheme) option" where
  "segments_install_gdt entries_addr tss_addr s = do {
     let s1 = s\<lparr>g_gdt := \<lparr>gdt_size = 8 * 6 - 1, gdt_address = entries_addr\<rparr>,
                g_tss := zero_tss\<lparr>tss_ss0 := KERNEL_DATA_SEGMENT\<rparr>\<rparr>;
     s2 \<leftarrow> gdt_set_entry s1 0 0 0 0 0;
     s3 \<leftarrow> gdt_set_entry s2 1 0 0xFFFFF 0x9A 0xCF;
     s4 \<leftarrow> gdt_set_entry s3 2 0 0xFFFFF 0x92 0xCF;
     s5 \<leftarrow> gdt_set_entry s4 3 0 0xFFFFF 0x9A 0xCF;
     s6 \<leftarrow> gdt_set_entry s5 4 0 0xFFFFF 0x93 0xCF;
     s7 \<leftarrow> gdt_set_entry s6 5 tss_addr SIZEOF_TSS 0x89 0x40;
     let s8 = segments_load_registers (segments_load_gdt s7 (g_gdt s7));
     let s9 = s8\<lparr>g_tss := (g_tss s8)\<lparr>tss_esp0 := 0x90000, tss_ss0 := 0x10, tss_cs := 0x08, tss_ss := 0x10,
       tss_ds := 0x10, tss_es := 0x10, tss_fs := 0x10, tss_gs := 0x10\<rparr>\<rparr>;
     Some (cpu s9 (Ltr TSS_SEGMENT)) }"

section \<open>What the processor reads in a descriptor\<close>

definition seg_base :: "gdt_entry \<Rightarrow> u32" where
  "seg_base e = ucast (base_low e) OR push_bit 16 (ucast (base_middle e)) OR push_bit 24 (ucast (base_high e))"

definition seg_limit20 :: "gdt_entry \<Rightarrow> u32" where
  "seg_limit20 e = ucast (limit_low e) OR push_bit 16 (ucast (granularity e AND 0x0F))"

text \<open>The offset of the last byte: the limit counts bytes, or pages when the granularity bit is set.\<close>

definition seg_last :: "gdt_entry \<Rightarrow> u32" where
  "seg_last e = (if bit (granularity e) 7 then push_bit 12 (seg_limit20 e) OR 0xFFF else seg_limit20 e)"

definition seg_dpl :: "gdt_entry \<Rightarrow> u8" where
  "seg_dpl e = drop_bit 5 (access e) AND 3"

lemma nibbles: "(0xFFFF :: u32) = mask 16" "(0xFF :: u32) = mask 8" "(0x0F :: u32) = mask 4" "(0x0F :: u8) = mask 4"
  "(0xF0 :: u8) = push_bit 4 (mask 4)"
  by (simp_all add: mask_numeral)

lemma gdt_entry_fields:
  "seg_base (make_entry base limit acc flags) = base"
  "seg_limit20 (make_entry base limit acc flags) = take_bit 20 limit"
  "granularity (make_entry base limit acc flags) AND 0xF0 = flags AND 0xF0"
proof -
  show "seg_base (make_entry base limit acc flags) = base"
  proof (rule bit_word_eqI)
    fix n assume "n < LENGTH(32)"
    then consider "n < 16" | "16 \<le> n" "n < 24" | "24 \<le> n" "n < 32" by fastforce
    then show "bit (seg_base (make_entry base limit acc flags)) n = bit base n"
      unfolding seg_base_def make_entry_def nibbles by cases (auto simp: bit_simps)
  qed
  show "seg_limit20 (make_entry base limit acc flags) = take_bit 20 limit"
    unfolding seg_limit20_def make_entry_def nibbles
    by (rule bit_word_eqI) (auto simp: bit_simps not_less le_add_diff_inverse2)
  show "granularity (make_entry base limit acc flags) AND 0xF0 = flags AND 0xF0"
    unfolding make_entry_def nibbles
    by (rule bit_word_eqI) (auto simp: bit_simps)
qed

text \<open>
  C19: A descriptor written by \<^verbatim>\<open>gdt_set_entry\<close> reads back, field by field, as the base, the low
  20 bits of the limit, the access byte and the upper four flag bits it was given.
\<close>

theorem gdt_entry_roundtrip:
  "seg_base (make_entry base limit acc flags) = base
    \<and> seg_limit20 (make_entry base limit acc flags) = take_bit 20 limit
    \<and> access (make_entry base limit acc flags) = acc
    \<and> granularity (make_entry base limit acc flags) AND 0xF0 = flags AND 0xF0"
  using gdt_entry_fields by (simp add: make_entry_def)

text \<open>
  \<^verbatim>\<open>segments_install_gdt\<close> returns with six descriptors: the null descriptor, four flat
  segments (base 0, last offset 2^32 - 1) and the task state segment at its address; the register
  holds the table's address and its size minus one, and is loaded before the segments.  All four
  segments, the two meant for user programs too, have privilege level 0.
\<close>

theorem segments_install_gdt_flat:
  assumes "length (gdt_entries s) = 6"
  shows "\<exists>s'. segments_install_gdt entries_addr tss_addr s = Some s'
    \<and> gdt_entries s' ! 0 = make_entry 0 0 0 0
    \<and> (\<forall>i \<in> {1, 2, 3, 4}. seg_base (gdt_entries s' ! i) = 0 \<and> seg_last (gdt_entries s' ! i) = - 1
          \<and> seg_dpl (gdt_entries s' ! i) = 0)
    \<and> seg_base (gdt_entries s' ! 5) = tss_addr \<and> seg_last (gdt_entries s' ! 5) = SIZEOF_TSS
    \<and> length (gdt_entries s') = 6 \<and> g_gdt s' = \<lparr>gdt_size = 47, gdt_address = entries_addr\<rparr>
    \<and> tss_esp0 (g_tss s') = 0x90000 \<and> tss_ss0 (g_tss s') = KERNEL_DATA_SEGMENT
    \<and> trace s' = [Ltr 0x28, Load_segments 0x10 0x08, Lgdt 47 entries_addr] @ trace s"
proof -
  have len: "n < 6 \<Longrightarrow> n < length (gdt_entries s)" for n using assms by simp
  have tss: "seg_base (make_entry tss_addr SIZEOF_TSS 0x89 0x40) = tss_addr"
    "seg_last (make_entry tss_addr SIZEOF_TSS 0x89 0x40) = SIZEOF_TSS"
    by (simp only: gdt_entry_fields) (simp add: seg_last_def seg_limit20_def make_entry_def)
  have flat: "seg_base (make_entry 0 0xFFFFF acc 0xCF) = 0" "seg_last (make_entry 0 0xFFFFF acc 0xCF) = - 1"
    "seg_dpl (make_entry 0 0xFFFFF acc 0xCF) = drop_bit 5 acc AND 3" for acc
    by (simp add: gdt_entry_fields, simp_all add: seg_last_def seg_limit20_def seg_dpl_def make_entry_def)
  show ?thesis
    by (simp add: segments_install_gdt_def gdt_set_entry_def Let_def segments_load_gdt_def segments_load_registers_def
        cpu_def assms len tss flat nth_list_update)
qed

text \<open>The zero-initialised globals.\<close>

definition zero_gdt :: gdt where
  "zero_gdt = ata.extend (quiet_kernel 0x1F0 0) (gdt.fields (replicate 6 (make_entry 0 0 0 0)) \<lparr>gdt_size = 0, gdt_address = 0\<rparr> zero_tss)"

lemma zero_gdt [simp]: "gdt_entries zero_gdt = replicate 6 (make_entry 0 0 0 0)" "trace zero_gdt = []"
  by (simp_all add: zero_gdt_def gdt.defs ata.defs)

theorem segments_install_gdt_flat_witness:
  "\<exists>s'. segments_install_gdt 0x8000 0x9000 zero_gdt = Some s' \<and> seg_base (gdt_entries s' ! 5) = 0x9000
    \<and> seg_last (gdt_entries s' ! 3) = - 1"
  using segments_install_gdt_flat [of zero_gdt "0x8000" "0x9000"] by auto

end
