(* ===== verification/Pic.thy ===== *)
theory Pic
  imports Port
begin

text \<open>
  The interrupt controllers: \<^verbatim>\<open>kernel/src/hardware/pic.c\<close>, and the two 8259 chips it programs as
  an automaton over the port writes (initialisation words ICW1 to ICW4, mask register, in-service
  register, non-specific end of interrupt).
\<close>

section \<open>pic.c\<close>

abbreviation PIC_CONFIRM :: u8 where "PIC_CONFIRM \<equiv> 0x20"
abbreviation PIC_1_OFFSET :: u32 where "PIC_1_OFFSET \<equiv> 0x20"
abbreviation PIC_2_OFFSET :: u32 where "PIC_2_OFFSET \<equiv> 0x28"
abbreviation PIC_2_END :: u32 where "PIC_2_END \<equiv> PIC_2_OFFSET + 7"
abbreviation PIC_1_COMMAND :: u16 where "PIC_1_COMMAND \<equiv> 0x20"
abbreviation PIC_1_DATA :: u16 where "PIC_1_DATA \<equiv> 0x21"
abbreviation PIC_2_COMMAND :: u16 where "PIC_2_COMMAND \<equiv> 0xA0"
abbreviation PIC_2_DATA :: u16 where "PIC_2_DATA \<equiv> 0xA1"

definition pic_confirm :: "('a machine_scheme) \<Rightarrow> u32 \<Rightarrow> ('a machine_scheme)" where
  "pic_confirm s interrupt =
     (if interrupt < PIC_1_OFFSET \<or> interrupt > PIC_2_END then s
      else if interrupt < PIC_2_OFFSET then outb s PIC_1_COMMAND PIC_CONFIRM
      else outb s PIC_2_COMMAND PIC_CONFIRM)"

definition pic_remap :: "('a machine_scheme) \<Rightarrow> u32 \<Rightarrow> u32 \<Rightarrow> ('a machine_scheme)" where
  "pic_remap s offset1 offset2 =
     (let s1 = outb s PIC_1_COMMAND (0x10 + 0x01);
          s2 = outb s1 PIC_2_COMMAND (0x10 + 0x01);
          s3 = outb s2 PIC_1_DATA (ucast offset1);
          s4 = outb s3 PIC_2_DATA (ucast offset2);
          s5 = outb s4 PIC_1_DATA 4;
          s6 = outb s5 PIC_2_DATA 2;
          s7 = outb s6 PIC_1_DATA 0x01;
          s8 = outb s7 PIC_2_DATA 0x01;
          s9 = outb s8 PIC_1_DATA 0xFD;
          s10 = outb s9 PIC_2_DATA 0xFF
      in cpu s10 Sti)"

section \<open>The 8259\<close>

datatype icw_phase = Ready | Want2 | Want3 | Want4

record i8259 =
  icw :: icw_phase
  vector_base :: u8
  cascade :: u8
  icw4 :: u8
  imr :: u8
  isr :: u8

text \<open>The end of interrupt clears the in-service bit of highest priority, the lowest that is set.\<close>

definition clear_lowest :: "u8 \<Rightarrow> u8" where
  "clear_lowest x = x AND (x - 1)"

definition write_command :: "u8 \<Rightarrow> i8259 \<Rightarrow> i8259" where
  "write_command v p =
     (if bit v 4 then p\<lparr>icw := Want2, imr := 0, isr := 0\<rparr>
      else if v = PIC_CONFIRM then p\<lparr>isr := clear_lowest (isr p)\<rparr>
      else p)"

text \<open>ICW1 announces ICW4 with bit 0 and cascading with bit 1 clear; the kernel's 0x11 does both.\<close>

definition write_data_register :: "u8 \<Rightarrow> i8259 \<Rightarrow> i8259" where
  "write_data_register v p =
     (case icw p of
        Want2 \<Rightarrow> p\<lparr>vector_base := v AND 0xF8, icw := Want3\<rparr>
      | Want3 \<Rightarrow> p\<lparr>cascade := v, icw := Want4\<rparr>
      | Want4 \<Rightarrow> p\<lparr>icw4 := v, icw := Ready\<rparr>
      | Ready \<Rightarrow> p\<lparr>imr := v\<rparr>)"

text \<open>The chip with its command register at \<open>base\<close>, after the events of a trace.\<close>

fun chip :: "u16 \<Rightarrow> i8259 \<Rightarrow> cpu_event list \<Rightarrow> i8259" where
  "chip base p [] = p"
| "chip base p (Out8 port v # h) =
     (if port = base then write_command v (chip base p h)
      else if port = base + 1 then write_data_register v (chip base p h)
      else chip base p h)"
| "chip base p (_ # h) = chip base p h"

text \<open>
  C18: Whatever state the two chips are in, after \<^verbatim>\<open>pic_remap\<close> both are initialised, deliver
  their lines from the given vectors (rounded down to multiples of eight) on, are cascaded over line 2
  in 8086 mode, have nothing in service, and only line 1, the keyboard's, is unmasked; interrupts are
  enabled last.
\<close>

theorem pic_remap_programs_chips:
  "chip PIC_1_COMMAND p1 (trace (pic_remap s offset1 offset2))
      = \<lparr>icw = Ready, vector_base = ucast offset1 AND 0xF8, cascade = 4, icw4 = 1, imr = 0xFD, isr = 0\<rparr>
    \<and> chip PIC_2_COMMAND p2 (trace (pic_remap s offset1 offset2))
      = \<lparr>icw = Ready, vector_base = ucast offset2 AND 0xF8, cascade = 2, icw4 = 1, imr = 0xFF, isr = 0\<rparr>
    \<and> hd (trace (pic_remap s offset1 offset2)) = Sti"
  by (simp add: pic_remap_def Let_def write_command_def write_data_register_def bit_numeral_rec)

lemma pic_confirm_chips:
  "chip PIC_1_COMMAND p (trace (pic_confirm s n)) =
     (if 0x20 \<le> n \<and> n < 0x28 then write_command PIC_CONFIRM (chip PIC_1_COMMAND p (trace s))
      else chip PIC_1_COMMAND p (trace s))"
  "chip PIC_2_COMMAND p (trace (pic_confirm s n)) =
     (if 0x28 \<le> n \<and> n \<le> 0x2F then write_command PIC_CONFIRM (chip PIC_2_COMMAND p (trace s))
      else chip PIC_2_COMMAND p (trace s))"
  by (auto simp: pic_confirm_def not_less not_le word_less_nat_alt word_le_nat_alt)

lemma pic_confirm_frame [simp]: "phys (pic_confirm s n) = phys s" "phys (pic_remap s a b) = phys s"
  by (simp_all add: pic_confirm_def pic_remap_def Let_def)

end
