(* ===== verification/Interrupts.thy ===== *)
theory Interrupts
  imports Gdt Pic
begin

text \<open>
  Interrupt gates and dispatch, \<^verbatim>\<open>kernel/src/hardware/interrupts.c\<close>.  A handler is a function
  pointer: its address.  What the code at an address does is the parameter \<open>call\<close> of the dispatcher;
  a call may change the saved registers and the machine, or not return (\<open>None\<close>).  The addresses of
  the entry stubs in \<^verbatim>\<open>interrupt_handler.asm\<close> and of the table are parameters too.
\<close>

section \<open>State\<close>

record cpu_state =
  eax :: u32
  ebx :: u32
  ecx :: u32
  edx :: u32
  esi :: u32
  edi :: u32
  ebp :: u32
  esp :: u32
  error_code :: u32

record idt_descriptor =
  offset_low :: u16
  segment_selector :: u16
  reserved :: u8
  type_attribute :: u8
  offset_high :: u16

record idt_register =
  idt_size :: u16
  idt_address :: u32

record intr = gdt +
  interrupt_handers :: "u32 list"
  hardware_interrupt_offset :: u16
  idt_descriptors :: "idt_descriptor list"
  idt :: idt_register

type_synonym 's code = "u32 \<Rightarrow> cpu_state \<Rightarrow> 's \<Rightarrow> (cpu_state \<times> 's) option"

section \<open>Operations\<close>

definition register_interrupt_handler :: "('a intr_scheme) \<Rightarrow> u8 \<Rightarrow> u32 \<Rightarrow> ('a intr_scheme)" where
  "register_interrupt_handler s n handler =
     s\<lparr>interrupt_handers := (interrupt_handers s)[unat n := handler]\<rparr>"

definition make_gate :: "u32 \<Rightarrow> idt_descriptor" where
  "make_gate address =
     \<lparr>offset_low = ucast (address AND 0xFFFF), segment_selector = 0x08, reserved = 0,
      type_attribute = push_bit 7 1 OR push_bit 6 0 OR push_bit 5 0 OR 0xE,
      offset_high = ucast (drop_bit 16 address AND 0xFFFF)\<rparr>"

text \<open>Every call passes a constant index below 256.\<close>

definition interrupts_init_descriptor :: "('a intr_scheme) \<Rightarrow> nat \<Rightarrow> u32 \<Rightarrow> ('a intr_scheme)" where
  "interrupts_init_descriptor s index address =
     s\<lparr>idt_descriptors := (idt_descriptors s)[index := make_gate address]\<rparr>"

definition gate_vectors :: "nat list" where
  "gate_vectors = [0x00, 0x01, 0x02, 0x03, 0x04, 0x05, 0x06, 0x07, 0x08, 0x09, 0x0A, 0x0B, 0x0C, 0x0D, 0x0E, 0x0F,
     0x21, 0x31, 0x80]"

text \<open>\<open>stub n\<close> is the address of \<^verbatim>\<open>handle_irq_n\<close>.\<close>

definition install_idt :: "(nat \<Rightarrow> u32) \<Rightarrow> u32 \<Rightarrow> ('a intr_scheme) \<Rightarrow> ('a intr_scheme)" where
  "install_idt stub table s =
     (let s1 = s\<lparr>interrupt_handers := replicate 256 0\<rparr>;
          s2 = fold (\<lambda>n s. interrupts_init_descriptor s n (stub n)) gate_vectors s1;
          s3 = s2\<lparr>idt := \<lparr>idt_size = 8 * 256, idt_address = table\<rparr>\<rparr>;
          s4 = cpu s3 (Lidt (idt_size (idt s3)) (idt_address (idt s3)))
      in pic_remap s4 0x20 0x28)"

text \<open>The table has 256 entries; the stubs pass no other number.\<close>

definition interrupt_handler ::
    "('a intr_scheme) code \<Rightarrow> cpu_state \<Rightarrow> u32 \<Rightarrow> ('a intr_scheme) \<Rightarrow> (cpu_state \<times> 'a intr_scheme) option" where
  "interrupt_handler call c interrupt s =
     (if interrupt \<ge> 256 then None
      else do {
        (c1, s1) \<leftarrow>
          (if interrupt_handers s ! unat interrupt \<noteq> 0 then do {
             (c1, s1) \<leftarrow> call (interrupt_handers s ! unat interrupt) c s;
             Some (c1, pic_confirm s1 interrupt) }
           else Some (c, s));
        let lo = (ucast (hardware_interrupt_offset s1) :: u32);
        Some (c1,
          (if lo \<le> interrupt \<and> interrupt < lo + 16 then
            (let s2 = outb_slow s1 0x20 0x20
             in if lo + 8 \<le> interrupt then outb_slow s2 0xA0 0x20 else s2)
          else s1)) })"

section \<open>Gates\<close>

text \<open>What the processor reads in a gate.\<close>

definition gate_offset :: "idt_descriptor \<Rightarrow> u32" where
  "gate_offset g = ucast (offset_low g) OR push_bit 16 (ucast (offset_high g))"

definition gate_present :: "idt_descriptor \<Rightarrow> bool" where
  "gate_present g \<longleftrightarrow> bit (type_attribute g) 7"

definition gate_dpl :: "idt_descriptor \<Rightarrow> u8" where
  "gate_dpl g = drop_bit 5 (type_attribute g) AND 3"

definition no_gate :: idt_descriptor where
  "no_gate = \<lparr>offset_low = 0, segment_selector = 0, reserved = 0, type_attribute = 0, offset_high = 0\<rparr>"

lemma make_gate_fields [simp]:
  "gate_offset (make_gate a) = a" "gate_present (make_gate a)" "gate_dpl (make_gate a) = 0"
  "segment_selector (make_gate a) = 8" "\<not> gate_present no_gate"
proof -
  show "gate_offset (make_gate a) = a"
  proof (rule bit_word_eqI)
    fix n assume "n < LENGTH(32)"
    then consider "n < 16" | "16 \<le> n" "n < 32" by fastforce
    then show "bit (gate_offset (make_gate a)) n = bit a n"
      unfolding gate_offset_def make_gate_def nibbles by cases (auto simp: bit_simps)
  qed
qed (simp_all add: gate_present_def gate_dpl_def make_gate_def no_gate_def bit_numeral_rec)

lemma install_gates:
  assumes "length (idt_descriptors s) = 256"
  shows "idt_descriptors (fold (\<lambda>n s. interrupts_init_descriptor s n (stub n)) vs s)
    = map (\<lambda>n. if n \<in> set vs then make_gate (stub n) else idt_descriptors s ! n) [0..<256]"
  using assms
proof (induction vs arbitrary: s)
  case Nil
  then show ?case by (auto intro!: nth_equalityI)
next
  case (Cons v vs)
  let ?s = "interrupts_init_descriptor s v (stub v)"
  have "length (idt_descriptors ?s) = 256" using Cons.prems by (simp add: interrupts_init_descriptor_def)
  from Cons.IH [OF this] Cons.prems show ?case
    by (auto simp: interrupts_init_descriptor_def nth_list_update)
qed

lemma install_frame:
  "interrupt_handers (fold (\<lambda>n s. interrupts_init_descriptor s n (stub n)) vs s) = interrupt_handers s"
  "trace (fold (\<lambda>n s. interrupts_init_descriptor s n (stub n)) vs s) = trace s"
  by (induction vs arbitrary: s) (simp_all add: interrupts_init_descriptor_def)

lemma intr_cpu_frame [simp]:
  "interrupt_handers (cpu s e) = interrupt_handers s" "idt_descriptors (cpu s e) = idt_descriptors s"
  "idt (cpu s e) = idt s" "hardware_interrupt_offset (cpu s e) = hardware_interrupt_offset s"
  "gdt_entries (cpu s e) = gdt_entries s" "g_tss (cpu s e) = g_tss s" "g_gdt (cpu s e) = g_gdt s"
  by (simp_all add: cpu_def)

lemma intr_pic_frame [simp]:
  "interrupt_handers (pic_remap s a b) = interrupt_handers s" "idt_descriptors (pic_remap s a b) = idt_descriptors s"
  "idt (pic_remap s a b) = idt s" "interrupt_handers (pic_confirm s n) = interrupt_handers s"
  "idt_descriptors (pic_confirm s n) = idt_descriptors s" "idt (pic_confirm s n) = idt s"
  "hardware_interrupt_offset (pic_confirm s n) = hardware_interrupt_offset s"
  by (simp_all add: pic_remap_def pic_confirm_def Let_def outb_def)

text \<open>
  After \<^verbatim>\<open>install_idt\<close> exactly the vectors 0 to 15, 33, 49 and 128 have a present gate; each
  leads to its stub in the kernel's code segment and has privilege level 0, vector 128 of the system
  calls included; no handler is registered; the table is loaded and then the chips are programmed.
\<close>

theorem install_idt_gates:
  assumes "idt_descriptors s = replicate 256 no_gate"
  shows "(\<forall>v < 256. gate_present (idt_descriptors (install_idt stub table s) ! v)
        = (v \<le> 15 \<or> v = 33 \<or> v = 49 \<or> v = 128))
    \<and> (\<forall>v < 256. gate_present (idt_descriptors (install_idt stub table s) ! v) \<longrightarrow>
        gate_offset (idt_descriptors (install_idt stub table s) ! v) = stub v
        \<and> segment_selector (idt_descriptors (install_idt stub table s) ! v) = KERNEL_CODE_SEGMENT
        \<and> gate_dpl (idt_descriptors (install_idt stub table s) ! v) = 0)
    \<and> interrupt_handers (install_idt stub table s) = replicate 256 0
    \<and> (\<exists>t. trace (install_idt stub table s) = t @ Lidt 2048 table # trace s)"
proof -
  have gates: "idt_descriptors (install_idt stub table s)
      = map (\<lambda>n. if n \<in> set gate_vectors then make_gate (stub n) else no_gate) [0..<256]"
    using assms by (simp add: install_idt_def Let_def install_gates cong: map_cong)
  have vs: "v \<in> set gate_vectors \<longleftrightarrow> v \<le> 15 \<or> v = 33 \<or> v = 49 \<or> v = 128" for v
    by (simp add: gate_vectors_def) arith
  have "\<exists>t. trace (pic_remap x a b) = t @ trace x" for x :: "'a intr_scheme" and a b
    by (simp add: pic_remap_def Let_def)
  from this [of "cpu (fold (\<lambda>n s. interrupts_init_descriptor s n (stub n)) gate_vectors (s\<lparr>interrupt_handers := replicate 256 0\<rparr>)
      \<lparr>idt := \<lparr>idt_size = 2048, idt_address = table\<rparr>\<rparr>) (Lidt 2048 table)" "0x20" "0x28"]
  have tr: "\<exists>t. trace (install_idt stub table s) = t @ Lidt 2048 table # trace s"
    by (simp add: install_idt_def Let_def install_frame)
  show ?thesis
    unfolding gates using tr by (simp add: vs install_idt_def Let_def install_frame)
qed

text \<open>The zero-initialised globals.\<close>

definition zero_intr :: intr where
  "zero_intr = gdt.extend zero_gdt (intr.fields (replicate 256 0) 0 (replicate 256 no_gate) \<lparr>idt_size = 0, idt_address = 0\<rparr>)"

lemma zero_intr [simp]: "idt_descriptors zero_intr = replicate 256 no_gate" "trace zero_intr = []"
  "interrupt_handers zero_intr = replicate 256 0" "hardware_interrupt_offset zero_intr = 0"
  by (simp_all add: zero_intr_def intr.defs gdt.defs zero_gdt_def ata.defs)

theorem install_idt_gates_witness:
  "gate_present (idt_descriptors (install_idt (\<lambda>n. of_nat n) 0x7000 zero_intr) ! 33)
    \<and> gate_offset (idt_descriptors (install_idt (\<lambda>n. of_nat n) 0x7000 zero_intr) ! 128) = 128"
  using install_idt_gates [of zero_intr "\<lambda>n. of_nat n" "0x7000"] by simp

section \<open>Dispatch\<close>

text \<open>
  Dispatching interrupt \<open>n\<close> runs the registered handler, hands its registers back and
  acknowledges: with a handler, vectors 0x20 to 0x27 the first chip and 0x28 to 0x2F the second chip
  only, whose cascade line on the first stays in service; the exceptions 0 to 15, handled or not, the
  first chip and from 8 on the second, since \<^verbatim>\<open>hardware_interrupt_offset\<close> is never set.
\<close>

theorem interrupt_handler_acknowledges:
  assumes "n < 256"
    and "if interrupt_handers s ! unat n = 0 then c1 = c \<and> s1 = s
      else call (interrupt_handers s ! unat n) c s = Some (c1, s1)"
    and "hardware_interrupt_offset s1 = 0" and "handled = (interrupt_handers s ! unat n \<noteq> 0)"
  shows "\<exists>s'. interrupt_handler call c n s = Some (c1, s') \<and> phys s' = phys s1
    \<and> chip PIC_1_COMMAND p (trace s') =
        (if n < 16 \<or> handled \<and> 0x20 \<le> n \<and> n < 0x28
         then write_command PIC_CONFIRM (chip PIC_1_COMMAND p (trace s1)) else chip PIC_1_COMMAND p (trace s1))
    \<and> chip PIC_2_COMMAND p (trace s') =
        (if 8 \<le> n \<and> n < 16 \<or> handled \<and> 0x28 \<le> n \<and> n \<le> 0x2F
         then write_command PIC_CONFIRM (chip PIC_2_COMMAND p (trace s1)) else chip PIC_2_COMMAND p (trace s1))"
proof (cases "interrupt_handers s ! unat n = 0")
  case True
  then show ?thesis
    using assms by (auto simp: interrupt_handler_def outb_slow_def Let_def not_le not_less cpu_def)
next
  case False
  define s2 where "s2 = pic_confirm s1 n"
  have low: "n < 16 \<Longrightarrow> s2 = s1" by (simp add: s2_def pic_confirm_def word_less_nat_alt)
  have "interrupt_handler call c n s = Some (c1,
      if n < 16 then (if 8 \<le> n then outb_slow (outb_slow s2 0x20 0x20) 0xA0 0x20 else outb_slow s2 0x20 0x20) else s2)"
    using False assms by (simp add: interrupt_handler_def Let_def s2_def not_le)
  moreover have "phys s2 = phys s1" by (simp add: s2_def)
  moreover note pic_confirm_chips [of p s1 n, folded s2_def]
  ultimately show ?thesis
    using False assms(4) low by (cases "n < 16") (auto simp: word_less_nat_alt word_le_nat_alt)
qed

definition zero_cpu :: cpu_state where
  "zero_cpu = \<lparr>eax = 0, ebx = 0, ecx = 0, edx = 0, esi = 0, edi = 0, ebp = 0, esp = 0, error_code = 0\<rparr>"

theorem interrupt_handler_acknowledges_witness:
  "\<exists>s'. interrupt_handler (\<lambda>a c s. Some (c, s)) zero_cpu 0x21 (register_interrupt_handler zero_intr 0x21 0x9000)
      = Some (zero_cpu, s')
    \<and> isr (chip PIC_1_COMMAND \<lparr>icw = Ready, vector_base = 0x20, cascade = 4, icw4 = 1, imr = 0, isr = 2\<rparr> (trace s')) = 0"
  using interrupt_handler_acknowledges [of "0x21" "register_interrupt_handler zero_intr 0x21 0x9000" zero_cpu zero_cpu
      "register_interrupt_handler zero_intr 0x21 0x9000" "\<lambda>a c s. Some (c, s)" True
      "\<lparr>icw = Ready, vector_base = 0x20, cascade = 4, icw4 = 1, imr = 0, isr = 2\<rparr>"]
  by (auto simp: register_interrupt_handler_def write_command_def clear_lowest_def bit_numeral_rec)

end
