(* ===== verification/Slot_Table.thy ===== *)
theory Slot_Table
  imports Prelude
begin

text \<open>
  The contract of a table of slots: \<open>acquire\<close> hands out a free slot or reports that there is none,
  \<open>release\<close> makes one free again.  A run of the two keeps track of the slots held; the locale proves
  once that no slot is held twice.
\<close>

inductive slot_run ::
    "('s \<Rightarrow> nat option \<times> 's) \<Rightarrow> ('s \<Rightarrow> nat \<Rightarrow> 's option) \<Rightarrow> 's \<Rightarrow> nat set \<Rightarrow> 's \<Rightarrow> bool"
  for acquire release s0 where
  start: "slot_run acquire release s0 {} s0"
| taken: "slot_run acquire release s0 H s \<Longrightarrow> acquire s = (Some i, s') \<Longrightarrow> slot_run acquire release s0 (insert i H) s'"
| failed: "slot_run acquire release s0 H s \<Longrightarrow> acquire s = (None, s') \<Longrightarrow> slot_run acquire release s0 H s'"
| released: "slot_run acquire release s0 H s \<Longrightarrow> release s i = Some s' \<Longrightarrow> slot_run acquire release s0 (H - {i}) s'"

locale slot_table =
  fixes ok :: "'s \<Rightarrow> bool" and free :: "'s \<Rightarrow> nat set"
    and acquire :: "'s \<Rightarrow> nat option \<times> 's" and release :: "'s \<Rightarrow> nat \<Rightarrow> 's option"
  assumes acquire_slot: "ok s \<Longrightarrow> acquire s = (Some i, s') \<Longrightarrow> i \<in> free s \<and> free s' = free s - {i} \<and> ok s'"
    and acquire_none: "ok s \<Longrightarrow> acquire s = (None, s') \<Longrightarrow> free s = {} \<and> s' = s"
    and release_slot: "ok s \<Longrightarrow> release s i = Some s' \<Longrightarrow> free s' = insert i (free s) \<and> ok s'"
begin

lemma run_disjoint:
  assumes "slot_run acquire release s0 H s" and "ok s0"
  shows "ok s \<and> H \<inter> free s = {}"
  using assms
proof (induction rule: slot_run.induct)
  case (taken H s i s')
  then show ?case using acquire_slot [OF _ taken.hyps(2)] by auto
next
  case (failed H s s')
  then show ?case using acquire_none [OF _ failed.hyps(2)] by auto
next
  case (released H s i s')
  then show ?case using release_slot [OF _ released.hyps(2)] by auto
qed simp

lemma run_never_twice:
  assumes "slot_run acquire release s0 H s" and "ok s0" and "acquire s = (Some i, s')"
  shows "i \<notin> H"
  using run_disjoint [OF assms(1,2)] acquire_slot [OF _ assms(3)] by auto

text \<open>Without a release the held and the free slots are those free at the start.\<close>

lemma taken_from_free:
  assumes "slot_run acquire (\<lambda>_ _. None) s0 H s" and "ok s0"
  shows "ok s \<and> H \<subseteq> free s0 \<and> free s \<subseteq> free s0"
  using assms
proof (induction rule: slot_run.induct)
  case (taken H s i s')
  then show ?case using acquire_slot [OF _ taken.hyps(2)] by auto
next
  case (failed H s s')
  then show ?case using acquire_none [OF _ failed.hyps(2)] by auto
qed simp_all

end

end
