(* ===== verification/Fd.thy ===== *)
theory Fd
  imports Interrupts Slot_Table
begin

text \<open>
  File descriptors, \<^verbatim>\<open>kernel/src/fd.c\<close>.  A descriptor is free when its index is \<^verbatim>\<open>0x100\<close>.  A
  pointer into the table is its position (\<open>None\<close> the null pointer).  \<open>call_write\<close> is what the
  function at an address does with a buffer and a length; \<open>foo\<close> is where the literal lies that
  \<^verbatim>\<open>print_hex\<close> patches.
\<close>

section \<open>State\<close>

datatype fd_kind = FD_FILE | FD_DL | FD_DEVICE

record file_descriptor =
  fd_index :: int
  fd_type :: fd_kind
  fd_object :: u32
  fd_seek :: int
  fd_read :: u32
  fd_write :: u32
  fd_close :: u32

record fds = intr +
  g_file_descriptors :: "file_descriptor list"
  fd_count :: int
  fd_stdin :: "nat option"
  fd_stdout :: "nat option"

abbreviation FD_TABLE :: nat where "FD_TABLE \<equiv> 0xFF"
abbreviation FD_FREE :: int where "FD_FREE \<equiv> 0x100"

definition zero_fd :: file_descriptor where
  "zero_fd = \<lparr>fd_index = 0, fd_type = FD_FILE, fd_object = 0, fd_seek = 0, fd_read = 0, fd_write = 0, fd_close = 0\<rparr>"

section \<open>Operations\<close>

text \<open>\<open>printf_addr\<close> is the address of \<^verbatim>\<open>syscall_printf\<close>.\<close>

definition fd_init :: "u32 \<Rightarrow> ('a fds_scheme) \<Rightarrow> ('a fds_scheme)" where
  "fd_init printf_addr s =
     (let g = g_file_descriptors s;
          g1 = g[0 := (g ! 0)\<lparr>fd_index := 0\<rparr>];
          g2 = g1[1 := (g1 ! 1)\<lparr>fd_index := 1\<rparr>];
          g3 = g2[1 := (g2 ! 1)\<lparr>fd_write := printf_addr\<rparr>]
      in s\<lparr>fd_count := 0, fd_stdin := Some 0, fd_stdout := Some 1, g_file_descriptors := g3\<rparr>)"

definition create_fd :: "('a fds_scheme) \<Rightarrow> nat option \<times> 'a fds_scheme" where
  "create_fd s =
     (case find (\<lambda>i. fd_index (g_file_descriptors s ! i) = FD_FREE) [0..<FD_TABLE] of
        Some i \<Rightarrow> (Some i, s\<lparr>g_file_descriptors :=
          (g_file_descriptors s)[i := (g_file_descriptors s ! i)\<lparr>fd_index := int i\<rparr>]\<rparr>)
      | None \<Rightarrow> (None, s))"

text \<open>\<open>None\<close>: the descriptor is outside the table.\<close>

definition close_fd :: "('a fds_scheme) \<Rightarrow> int \<Rightarrow> ('a fds_scheme) option" where
  "close_fd s fd =
     (if 0 \<le> fd \<and> fd < int FD_TABLE
      then Some (s\<lparr>g_file_descriptors := (g_file_descriptors s)[nat fd := zero_fd\<lparr>fd_index := FD_FREE\<rparr>]\<rparr>)
      else None)"

definition syscall_read :: "cpu_state \<Rightarrow> ('a fds_scheme) \<Rightarrow> (cpu_state \<times> 'a fds_scheme) option" where
  "syscall_read c s = Some (c, s)"

definition syscall_seek :: "cpu_state \<Rightarrow> ('a fds_scheme) \<Rightarrow> (cpu_state \<times> 'a fds_scheme) option" where
  "syscall_seek c s = Some (c, s)"

definition syscall_write ::
    "u32 \<Rightarrow> (u32 \<Rightarrow> u32 \<Rightarrow> u32 \<Rightarrow> 'a fds_scheme \<Rightarrow> ('a fds_scheme) option) \<Rightarrow> cpu_state \<Rightarrow> ('a fds_scheme)
     \<Rightarrow> (cpu_state \<times> 'a fds_scheme) option" where
  "syscall_write foo call_write c s =
     (let fd_idx = ebx c; buffer = ecx c; len = edx c
      in if unat fd_idx \<ge> FD_TABLE then None
         else
           (let fd = g_file_descriptors s ! unat fd_idx
            in do {
              s1 \<leftarrow> print_hex32 foo s (fd_write fd);
              if fd_write fd \<noteq> 0 then do { s2 \<leftarrow> call_write (fd_write fd) buffer len s1; Some (c, s2) }
              else do {
                let s2 = print_literal s1 (literal ''Unknow FD '');
                s3 \<leftarrow> print_hex32 foo s2 fd_idx;
                Some (c, print_literal s3 [0x0A]) } }))"

section \<open>The table\<close>

text \<open>The descriptors that can be handed out.\<close>

definition free_fds :: "('a fds_scheme) \<Rightarrow> nat set" where
  "free_fds s = {i. i < FD_TABLE \<and> fd_index (g_file_descriptors s ! i) = FD_FREE}"

lemma create_fd_cases:
  assumes "length (g_file_descriptors s) = FD_TABLE"
  obtains "free_fds s = {}" "create_fd s = (None, s)"
  | i s' where "create_fd s = (Some i, s')" "i \<in> free_fds s" "\<forall>j \<in> free_fds s. i \<le> j"
      "free_fds s' = free_fds s - {i}" "fd_index (g_file_descriptors s' ! i) = int i"
      "\<forall>j. j \<noteq> i \<longrightarrow> g_file_descriptors s' ! j = g_file_descriptors s ! j"
      "length (g_file_descriptors s') = FD_TABLE"
proof (cases "find (\<lambda>i. fd_index (g_file_descriptors s ! i) = FD_FREE) [0..<FD_TABLE]")
  case None
  then have "\<forall>i < FD_TABLE. fd_index (g_file_descriptors s ! i) \<noteq> FD_FREE"
    by (simp add: find_None_iff del: upt_rec_numeral)
  then show ?thesis
    by (intro that(1)) (auto simp: create_fd_def None free_fds_def simp del: upt_rec_numeral)
next
  case (Some i)
  then obtain k where k: "k < length [0..<FD_TABLE]" "fd_index (g_file_descriptors s ! ([0..<FD_TABLE] ! k)) = FD_FREE"
    "i = [0..<FD_TABLE] ! k" "\<forall>j<k. fd_index (g_file_descriptors s ! ([0..<FD_TABLE] ! j)) \<noteq> FD_FREE"
    unfolding find_Some_iff by blast
  have i: "i < FD_TABLE" "i = k" using k(1,3) by (simp_all del: upt_rec_numeral)
  let ?s = "s\<lparr>g_file_descriptors := (g_file_descriptors s)[i := (g_file_descriptors s ! i)\<lparr>fd_index := int i\<rparr>]\<rparr>"
  have least: "\<forall>j \<in> free_fds s. i \<le> j"
  proof
    fix j assume "j \<in> free_fds s"
    then show "i \<le> j" using k(4) i by (auto simp: free_fds_def not_less [symmetric] simp del: upt_rec_numeral)
  qed
  have "int i \<noteq> FD_FREE" using i by simp
  then have "free_fds ?s = free_fds s - {i}"
    using assms i by (auto simp: free_fds_def nth_list_update)
  then show ?thesis
    using Some k(2,3) i assms least
    by (intro that(2) [of i ?s]) (auto simp: create_fd_def free_fds_def simp del: upt_rec_numeral)
qed

lemma close_fd_free:
  assumes "length (g_file_descriptors s) = FD_TABLE" and "close_fd s fd = Some s'"
  shows "free_fds s' = insert (nat fd) (free_fds s)" and "length (g_file_descriptors s') = FD_TABLE"
    and "\<forall>j. j \<noteq> nat fd \<longrightarrow> g_file_descriptors s' ! j = g_file_descriptors s ! j"
  using assms by (auto simp: close_fd_def free_fds_def nth_list_update split: if_splits)

text \<open>The table of file descriptors meets the contract of a slot table.\<close>

definition fds_ok :: "('a fds_scheme) \<Rightarrow> bool" where
  "fds_ok s \<longleftrightarrow> length (g_file_descriptors s) = FD_TABLE"

interpretation fd: slot_table fds_ok free_fds create_fd "\<lambda>s i. close_fd s (int i)"
proof
  fix s s' :: "'a fds_scheme" and i
  assume s: "fds_ok s"
  then have len: "length (g_file_descriptors s) = FD_TABLE" by (simp add: fds_ok_def)
  show "create_fd s = (Some i, s') \<Longrightarrow> i \<in> free_fds s \<and> free_fds s' = free_fds s - {i} \<and> fds_ok s'"
    by (rule create_fd_cases [OF len]) (auto simp: fds_ok_def)
  show "create_fd s = (None, s') \<Longrightarrow> free_fds s = {} \<and> s' = s"
    by (rule create_fd_cases [OF len]) auto
  show "close_fd s (int i) = Some s' \<Longrightarrow> free_fds s' = insert i (free_fds s) \<and> fds_ok s'"
    using close_fd_free [OF len, of "int i" s'] by (simp add: fds_ok_def)
qed

text \<open>
  C20: In every run of \<^verbatim>\<open>create_fd\<close> and \<^verbatim>\<open>close_fd\<close> on the table, a descriptor handed out and not
  closed is never handed out again.
\<close>

theorem create_fd_never_twice:
  assumes "slot_run create_fd (\<lambda>s i. close_fd s (int i)) s0 held s"
    and "length (g_file_descriptors s0) = 255" and "create_fd s = (Some i, s')"
  shows "i \<notin> held \<and> i < 255"
  using fd.run_never_twice [OF assms(1) _ assms(3)] fd.run_disjoint [OF assms(1)]
    fd.acquire_slot [OF _ assms(3)] assms(2)
  by (auto simp: fds_ok_def free_fds_def)

text \<open>The zero-initialised globals.\<close>

definition zero_fds :: fds where
  "zero_fds = intr.extend zero_intr (fds.fields (replicate 255 zero_fd) 0 None None)"

lemma zero_fds [simp]: "g_file_descriptors zero_fds = replicate 255 zero_fd" "trace zero_fds = []"
  by (simp_all add: zero_fds_def fds.defs intr.defs zero_intr_def gdt.defs zero_gdt_def ata.defs)

text \<open>Close descriptor 7, and it is the first to be handed out; the next request fails.\<close>

theorem create_fd_never_twice_witness:
  "\<exists>s s'. slot_run create_fd (\<lambda>s i. close_fd s (int i)) zero_fds {} s \<and> create_fd s = (Some 7, s') \<and> 7 \<notin> ({} :: nat set)"
proof -
  define s where "s = zero_fds\<lparr>g_file_descriptors := (replicate 255 zero_fd)[7 := zero_fd\<lparr>fd_index := FD_FREE\<rparr>]\<rparr>"
  have c: "close_fd zero_fds (int 7) = Some s" by (simp add: close_fd_def s_def)
  have r: "slot_run create_fd (\<lambda>s i. close_fd s (int i)) zero_fds ({} - {7}) s"
    using slot_run.released [OF slot_run.start, of "\<lambda>s i. close_fd s (int i)" zero_fds 7 s create_fd] c by simp
  have len: "length (g_file_descriptors s) = FD_TABLE" and free: "free_fds s = {7}"
    by (auto simp: s_def free_fds_def nth_list_update zero_fd_def split: if_splits)
  from create_fd_cases [OF len] free obtain s' where s': "create_fd s = (Some 7, s')" by (metis insert_not_empty singletonD)
  have "7 \<notin> {} - {7 :: nat}" using create_fd_never_twice [OF r _ s'] by simp
  then show ?thesis using r s' by auto
qed

text \<open>
  From the state \<^verbatim>\<open>fd_init\<close> leaves, no call of \<^verbatim>\<open>create_fd\<close> ever succeeds before some
  descriptor has been closed: the table is zeroed and index 0 does not mean free.
\<close>

theorem create_fd_fails_after_init:
  assumes "g_file_descriptors s = replicate 255 zero_fd"
    and "slot_run create_fd (\<lambda>_ _. None) (fd_init printf_addr s) held s'"
  shows "held = {} \<and> fst (create_fd s') = None"
proof -
  have ok: "fds_ok (fd_init printf_addr s)" using assms(1) by (simp add: fds_ok_def fd_init_def Let_def)
  have "free_fds (fd_init printf_addr s) = {}"
    using assms(1) by (auto simp: free_fds_def fd_init_def Let_def nth_list_update zero_fd_def split: if_splits)
  then have "held = {}" "free_fds s' = {}" "fds_ok s'" using fd.taken_from_free [OF assms(2) ok] by auto
  then show ?thesis by (intro conjI, simp, elim create_fd_cases [of s', unfolded fds_ok_def [symmetric]]) auto
qed

theorem create_fd_fails_after_init_witness: "fst (create_fd (fd_init 0x9000 zero_fds)) = None"
  using create_fd_fails_after_init [OF _ slot_run.start, of zero_fds] by simp

end
