(* ===== verification/Syscalls.thy ===== *)
theory Syscalls
  imports Fd Console
begin

text \<open>
  System calls, \<^verbatim>\<open>kernel/src/syscalls.c\<close>: the table of handlers, indexed by \<^verbatim>\<open>eax\<close>, and what
  becomes of \<^verbatim>\<open>int 0x80\<close> when the gate, the dispatcher, this table, the descriptors and the screen
  work together.
\<close>

record sys = fds +
  handlers :: "u32 list"

definition register_syscall_handler :: "('a sys_scheme) \<Rightarrow> u32 \<Rightarrow> u32 \<Rightarrow> ('a sys_scheme)" where
  "register_syscall_handler s n handler =
     (if n \<le> 0xFF then s\<lparr>handlers := (handlers s)[unat n := handler]\<rparr> else s)"

text \<open>\<open>None\<close> for a number past the table: the caller's \<^verbatim>\<open>eax\<close> is not checked.\<close>

definition syscall :: "u32 \<Rightarrow> ('a sys_scheme) code \<Rightarrow> cpu_state \<Rightarrow> ('a sys_scheme) \<Rightarrow> (cpu_state \<times> 'a sys_scheme) option" where
  "syscall foo call c s =
     (let n = eax c
      in if n \<ge> 256 then None
         else if handlers s ! unat n = 0 then do {
           let s1 = print_literal s (literal ''Unhandled syscall 0x'');
           s2 \<leftarrow> print_hex32 foo s1 n;
           Some (c, print_literal s2 [0x0A]) }
         else call (handlers s ! unat n) c s)"

section \<open>int 0x80\<close>

text \<open>The code at the addresses of \<^verbatim>\<open>syscall\<close>, \<^verbatim>\<open>syscall_write\<close> and \<^verbatim>\<open>syscall_printf\<close>; what is at other
  addresses is the parameter \<open>other\<close>.\<close>

definition printf_code ::
    "u32 \<Rightarrow> (u32 \<Rightarrow> u32 \<Rightarrow> u32 \<Rightarrow> 'a sys_scheme \<Rightarrow> ('a sys_scheme) option) \<Rightarrow> u32 \<Rightarrow> u32 \<Rightarrow> u32 \<Rightarrow> 'a sys_scheme
     \<Rightarrow> ('a sys_scheme) option" where
  "printf_code addr other a buffer len s = (if a = addr then syscall_printf s buffer len else other a buffer len s)"

definition write_code ::
    "u32 \<Rightarrow> u32 \<Rightarrow> (u32 \<Rightarrow> u32 \<Rightarrow> u32 \<Rightarrow> 'a sys_scheme \<Rightarrow> ('a sys_scheme) option) \<Rightarrow> ('a sys_scheme) code \<Rightarrow> ('a sys_scheme) code" where
  "write_code addr foo call_write other a c s = (if a = addr then syscall_write foo call_write c s else other a c s)"

definition syscall_code :: "u32 \<Rightarrow> u32 \<Rightarrow> ('a sys_scheme) code \<Rightarrow> ('a sys_scheme) code \<Rightarrow> ('a sys_scheme) code" where
  "syscall_code addr foo call other a c s = (if a = addr then syscall foo call c s else other a c s)"

lemma registered_handler [simp]:
  "n \<le> 0xFF \<Longrightarrow> length (handlers s) = 256 \<Longrightarrow> handlers (register_syscall_handler s n h) ! unat n = h"
  "n \<le> 0xFF \<Longrightarrow> n \<noteq> m \<Longrightarrow> handlers (register_syscall_handler s n h) ! unat m = handlers s ! unat m"
  "length (handlers (register_syscall_handler s n h)) = length (handlers s)"
  by (simp_all add: register_syscall_handler_def word_le_nat_alt unat_eq_iff_eq)

text \<open>
  A registered system call runs its handler with the caller's registers; one without handler
  returns with the registers as they were, whatever it prints; registering a number leaves the
  other numbers alone.
\<close>

theorem syscall_dispatch:
  assumes "length (handlers s) = 256" and "n < 256" and "h \<noteq> 0" and "eax c < 256"
    and "handlers s ! unat (eax c) = 0"
  shows "if eax c = n then syscall foo call c (register_syscall_handler s n h) = call h c (register_syscall_handler s n h)
    else \<forall>r. syscall foo call c (register_syscall_handler s n h) = Some r \<longrightarrow> fst r = c"
proof -
  have n: "n \<le> 0xFF" using assms(2) by (simp add: word_less_nat_alt word_le_nat_alt)
  show ?thesis
    using n assms(1,3,4,5) by (auto simp: syscall_def Let_def not_le bind_eq_Some_conv)
qed

text \<open>The zero-initialised globals.\<close>

definition zero_sys :: sys where
  "zero_sys = fds.extend zero_fds (sys.fields (replicate 256 0))"

lemma zero_sys [simp]: "handlers zero_sys = replicate 256 0" "g_file_descriptors zero_sys = replicate 255 zero_fd"
  "interrupt_handers zero_sys = replicate 256 0" "hardware_interrupt_offset zero_sys = 0"
  "phys zero_sys = (\<lambda>_. 0)" "scr_x zero_sys = 0" "scr_y zero_sys = 0"
  by (simp_all add: zero_sys_def sys.defs zero_fds_def fds.defs intr.defs zero_intr_def gdt.defs zero_gdt_def ata.defs
      quiet_kernel_def)

theorem syscall_dispatch_witness:
  "syscall 0x300 (\<lambda>a c s. Some (c\<lparr>eax := a\<rparr>, s)) (zero_cpu\<lparr>eax := 4\<rparr>) (register_syscall_handler zero_sys 4 0x9000)
    = Some (zero_cpu\<lparr>eax := 0x9000\<rparr>, register_syscall_handler zero_sys 4 0x9000)"
  using syscall_dispatch [of zero_sys 4 "0x9000" "zero_cpu\<lparr>eax := 4\<rparr>" "0x300" "\<lambda>a c s. Some (c\<lparr>eax := a\<rparr>, s)"]
  by simp

text \<open>A write to a descriptor with a write function prints the function's address and calls it.\<close>

lemma syscall_write_stdout:
  assumes "unat (ebx c) < 255" and "fd_write (g_file_descriptors s ! unat (ebx c)) = printf_addr" and "printf_addr \<noteq> 0"
    and "cursor_ok s" and "hex_literal_ok foo s" and "cstring (phys s) (ecx c) cs" and "off_screen (ecx c) (length cs)"
    and "\<forall>i \<le> length cs. ecx c + of_nat i \<noteq> foo \<and> ecx c + of_nat i \<noteq> foo + 1"
  obtains s1 where "print_hex32 foo s printf_addr = Some s1" "blind s1 = blind s"
    "syscall_write foo (printf_code printf_addr other) c s = Some (c, print_literal s1 cs)"
proof -
  obtain s1 where s1: "print_hex32 foo s printf_addr = Some s1" "cursor_ok s1" "blind s1 = blind s" "same_but foo s s1"
    by (rule print_hex32_ok [OF assms(4,5), of printf_addr])
  have "cstring (phys s1) (ecx c) cs"
    by (rule cstring_cong [OF assms(6)]) (use s1(4) assms(7,8) in \<open>auto simp: same_but_def off_screen_def\<close>)
  then have "printf s1 (ecx c) = Some (print_literal s1 cs)" by (rule printf_cstring [OF s1(2) _ assms(7)])
  with assms(1-3) s1(1,3) show ?thesis
    by (intro that [of s1]) (simp_all add: syscall_write_def Let_def printf_code_def syscall_printf_def)
qed

text \<open>
  C17: System call 4 on standard output, raised as interrupt 0x80 with the tables \<^verbatim>\<open>kernel_main\<close>
  sets up, returns the caller's registers and has printed the caller's string, after the eight
  digits of the write function's address.
\<close>

theorem int80_write_prints:
  assumes "interrupt_handers s ! 0x80 = syscall_addr" and "syscall_addr \<noteq> 0"
    and "handlers s ! 4 = write_addr" and "write_addr \<noteq> 0"
    and "fd_write (g_file_descriptors s ! 1) = printf_addr" and "printf_addr \<noteq> 0"
    and "hardware_interrupt_offset s = 0" and "cursor_ok s" and "hex_literal_ok foo s"
    and "eax c = 4" and "ebx c = 1" and "cstring (phys s) (ecx c) cs" and "off_screen (ecx c) (length cs)"
    and "\<forall>i \<le> length cs. ecx c + of_nat i \<noteq> foo \<and> ecx c + of_nat i \<noteq> foo + 1"
  shows "\<exists>s1. print_hex32 foo s printf_addr = Some s1
    \<and> interrupt_handler (syscall_code syscall_addr foo
        (write_code write_addr foo (printf_code printf_addr other_write) other_syscall) other_interrupt) c 0x80 s
      = Some (c, print_literal s1 cs)"
proof -
  obtain s1 where s1: "print_hex32 foo s printf_addr = Some s1" "blind s1 = blind s"
    "syscall_write foo (printf_code printf_addr other_write) c s = Some (c, print_literal s1 cs)"
    by (rule syscall_write_stdout [of c s printf_addr foo cs other_write]) (use assms in simp_all)
  let ?call = "syscall_code syscall_addr foo
    (write_code write_addr foo (printf_code printf_addr other_write) other_syscall) other_interrupt"
  have call: "?call (interrupt_handers s ! 0x80) c s = Some (c, print_literal s1 cs)"
    using assms s1(3) by (simp add: syscall_code_def write_code_def syscall_def)
  have "hardware_interrupt_offset x = hardware_interrupt_offset (blind x)" for x :: "'a sys_scheme"
    by (simp add: blind_def)
  then have "hardware_interrupt_offset (print_literal s1 cs) = 0"
    using s1(2) assms(7) by (metis blind_print_literal)
  then have "interrupt_handler ?call c 0x80 s = Some (c, print_literal s1 cs)"
    using call assms(1,2) by (simp add: interrupt_handler_def pic_confirm_def)
  with s1(1) show ?thesis by blast
qed

definition booted_sys :: sys where
  "booted_sys = (fd_init 0xA000 (register_syscall_handler (register_interrupt_handler zero_sys 0x80 0x9000) 4 0x9800))
     \<lparr>phys := (\<lambda>_. 0)(0x4000 := 0x48, 0x4001 := 0x69)\<rparr>"

theorem int80_write_prints_witness:
  "\<exists>s1. interrupt_handler (syscall_code 0x9000 0x300 (write_code 0x9800 0x300 (printf_code 0xA000 (\<lambda>_ _ _ _. None))
        (\<lambda>_ _ _. None)) (\<lambda>_ _ _. None)) (zero_cpu\<lparr>eax := 4, ebx := 1, ecx := 0x4000\<rparr>) 0x80 booted_sys
      = Some (zero_cpu\<lparr>eax := 4, ebx := 1, ecx := 0x4000\<rparr>, print_literal s1 [0x48, 0x69])"
proof -
  let ?c = "zero_cpu\<lparr>eax := 4, ebx := 1, ecx := 0x4000\<rparr>"
  have b: "interrupt_handers booted_sys ! 0x80 = 0x9000" "handlers booted_sys ! 4 = 0x9800"
    "fd_write (g_file_descriptors booted_sys ! 1) = 0xA000" "hardware_interrupt_offset booted_sys = 0"
    "phys booted_sys = (\<lambda>_. 0)(0x4000 := 0x48, 0x4001 := 0x69)" "scr_x booted_sys = 0" "scr_y booted_sys = 0"
    by (simp_all add: booted_sys_def fd_init_def register_syscall_handler_def register_interrupt_handler_def Let_def)
  have off: "off_screen 0x4000 (length [0x48, 0x69 :: u8])" "off_screen 0x300 2"
    by (rule off_screenI, simp)+
  have apart: "\<forall>i \<le> length [0x48, 0x69 :: u8]. ecx ?c + of_nat i \<noteq> 0x300 \<and> ecx ?c + of_nat i \<noteq> 0x300 + 1"
    by (auto simp: le_Suc_eq)
  have "\<exists>s1. print_hex32 0x300 booted_sys 0xA000 = Some s1 \<and> interrupt_handler (syscall_code 0x9000 0x300 (write_code 0x9800 0x300
        (printf_code 0xA000 (\<lambda>_ _ _ _. None)) (\<lambda>_ _ _. None)) (\<lambda>_ _ _. None)) ?c 0x80 booted_sys
      = Some (?c, print_literal s1 [0x48, 0x69])"
    by (rule int80_write_prints [OF b(1) _ b(2) _ b(3) _ b(4) _ _ _ _ _ _ apart])
      (use off in \<open>simp_all add: b cursor_ok_def hex_literal_ok_def\<close>)
  then show ?thesis by blast
qed

end
