(* ===== verification/Kernel_Heap.thy ===== *)
theory Kernel_Heap
  imports Block_Manager
begin

text \<open>
  The kernel heap of \<^verbatim>\<open>kernel/src/memory/mem_manager.c\<close> (lines 118-214): a doubly linked list of
  chunks laid out one after the other in memory, each with a 16-byte header
  (\<^verbatim>\<open>struct MemoryChunk\<close>, packed: next, prev, allocated, size).  \<^verbatim>\<open>malloc\<close> follows the
  next pointers, so on a corrupt list it may not return: its model is partial (\<open>None\<close>).

  The abstract heap is the list of the chunks' sizes and allocation flags in address order;
  \<open>heap_rep\<close> ties it to the memory.  Allocation and release are proved to refine operations on
  this list.
\<close>

section \<open>Chunk headers\<close>

abbreviation SIZEOF_CHUNK :: u32 where "SIZEOF_CHUNK \<equiv> 16"

definition chunk_next :: "mem \<Rightarrow> u32 \<Rightarrow> u32" where "chunk_next m c = r32 m c"
definition chunk_prev :: "mem \<Rightarrow> u32 \<Rightarrow> u32" where "chunk_prev m c = r32 m (c + 4)"
definition chunk_allocated :: "mem \<Rightarrow> u32 \<Rightarrow> u32" where "chunk_allocated m c = r32 m (c + 8)"
definition chunk_size :: "mem \<Rightarrow> u32 \<Rightarrow> u32" where "chunk_size m c = r32 m (c + 12)"

definition set_next :: "mem \<Rightarrow> u32 \<Rightarrow> u32 \<Rightarrow> mem" where "set_next m c v = w32 m c v"
definition set_prev :: "mem \<Rightarrow> u32 \<Rightarrow> u32 \<Rightarrow> mem" where "set_prev m c v = w32 m (c + 4) v"
definition set_allocated :: "mem \<Rightarrow> u32 \<Rightarrow> u32 \<Rightarrow> mem" where "set_allocated m c v = w32 m (c + 8) v"
definition set_size :: "mem \<Rightarrow> u32 \<Rightarrow> u32 \<Rightarrow> mem" where "set_size m c v = w32 m (c + 12) v"

lemmas chunk_defs = chunk_next_def chunk_prev_def chunk_allocated_def chunk_size_def
  set_next_def set_prev_def set_allocated_def set_size_def

section \<open>Operations\<close>

definition heap_init :: "('a mm_scheme) \<Rightarrow> u32 \<Rightarrow> u32 \<Rightarrow> ('a mm_scheme)" where
  "heap_init s start sz =
     (if sz < SIZEOF_CHUNK then s\<lparr>first := 0\<rparr>
      else
        (let m1 = set_allocated (phys s) start 0;
             m2 = set_prev m1 start 0;
             m3 = set_next m2 start 0;
             m4 = set_size m3 start (sz - SIZEOF_CHUNK)
         in s\<lparr>first := start, phys := m4\<rparr>))"

partial_function (option) malloc_search :: "mem \<Rightarrow> u32 \<Rightarrow> u32 \<Rightarrow> u32 \<Rightarrow> u32 option" where
  "malloc_search m sz chunk result =
     (if chunk \<noteq> 0 \<and> result = 0
      then malloc_search m sz (chunk_next m chunk)
             (if chunk_size m chunk > sz \<and> chunk_allocated m chunk = 0 then chunk else result)
      else Some result)"

definition malloc_split :: "mem \<Rightarrow> u32 \<Rightarrow> u32 \<Rightarrow> mem" where
  "malloc_split m result sz =
     (let temp = result + SIZEOF_CHUNK + sz;
          m1 = set_allocated m temp 0;
          m2 = set_size m1 temp (chunk_size m1 result - sz - SIZEOF_CHUNK);
          m3 = set_prev m2 temp result;
          m4 = set_next m3 temp (chunk_next m3 result);
          m5 = (if chunk_next m4 temp \<noteq> 0 then set_prev m4 (chunk_next m4 temp) temp else m4);
          m6 = set_size m5 result sz
      in set_next m6 result temp)"

definition malloc :: "('a mm_scheme) \<Rightarrow> u32 \<Rightarrow> (u32 \<times> ('a mm_scheme)) option" where
  "malloc s sz =
     (case malloc_search (phys s) sz (first s) 0 of
        None \<Rightarrow> None
      | Some result \<Rightarrow>
          if result = 0 then Some (0, s)
          else
            (let m = phys s;
                 m1 = (if chunk_size m result \<ge> sz + SIZEOF_CHUNK + 1 then malloc_split m result sz else m)
             in Some (result + SIZEOF_CHUNK, s\<lparr>phys := set_allocated m1 result 1\<rparr>)))"

text \<open>The two halves of \<^verbatim>\<open>free\<close>: merge with the previous chunk, then with the next one.\<close>

definition merge_prev :: "mem \<Rightarrow> u32 \<Rightarrow> mem \<times> u32" where
  "merge_prev m chunk =
     (if chunk_prev m chunk \<noteq> 0 \<and> chunk_allocated m (chunk_prev m chunk) = 0 then
        (let m1 = set_next m (chunk_prev m chunk) (chunk_next m chunk);
             p = chunk_prev m1 chunk;
             m2 = set_size m1 p (chunk_size m1 p + (chunk_size m1 chunk + SIZEOF_CHUNK));
             m3 = (if chunk_next m2 chunk \<noteq> 0
                   then set_prev m2 (chunk_next m2 chunk) (chunk_prev m2 chunk) else m2)
         in (m3, chunk_prev m3 chunk))
      else (m, chunk))"

definition merge_next :: "mem \<Rightarrow> u32 \<Rightarrow> mem" where
  "merge_next m chunk =
     (if chunk_next m chunk \<noteq> 0 \<and> chunk_allocated m (chunk_next m chunk) = 0 then
        (let m1 = set_size m chunk (chunk_size m chunk + (chunk_size m (chunk_next m chunk) + SIZEOF_CHUNK));
             m2 = set_next m1 chunk (chunk_next m1 (chunk_next m1 chunk))
         in if chunk_next m2 chunk \<noteq> 0 then set_prev m2 (chunk_next m2 chunk) chunk else m2)
      else m)"

definition free :: "('a mm_scheme) \<Rightarrow> u32 \<Rightarrow> ('a mm_scheme)" where
  "free s ptr =
     (let chunk = ptr - SIZEOF_CHUNK;
          m1 = set_allocated (phys s) chunk 0;
          (m2, chunk') = merge_prev m1 chunk
      in s\<lparr>phys := merge_next m2 chunk'\<rparr>)"

definition malloc_aligned :: "('a mm_scheme) \<Rightarrow> u32 \<Rightarrow> u32 \<Rightarrow> (u32 \<times> ('a mm_scheme)) option" where
  "malloc_aligned s alignment sz =
     (case malloc s (sz + alignment - 1 + 4) of
        None \<Rightarrow> None
      | Some (pointer, s1) \<Rightarrow>
          (let aligned_pointer = pointer + alignment - 1 + 4;
               s2 = s1\<lparr>phys := w32 (phys s1) (aligned_pointer - 4) pointer\<rparr>
           in Some (aligned_pointer AND NOT (alignment - 1), s2)))"

definition free_aligned :: "('a mm_scheme) \<Rightarrow> u32 \<Rightarrow> ('a mm_scheme)" where
  "free_aligned s pointer = free s (r32 (phys s) (pointer - 4))"

section \<open>Reading and writing header fields\<close>

definition chunk_ok :: "u32 \<Rightarrow> bool" where
  "chunk_ok c \<longleftrightarrow> unat c + 16 \<le> addr_space"

definition chunk_sep :: "u32 \<Rightarrow> u32 \<Rightarrow> bool" where
  "chunk_sep c d \<longleftrightarrow> chunk_ok c \<and> chunk_ok d \<and> (unat c + 16 \<le> unat d \<or> unat d + 16 \<le> unat c)"

lemma chunk_offsets:
  "chunk_ok c \<Longrightarrow> unat (c + 4) = unat c + 4"
  "chunk_ok c \<Longrightarrow> unat (c + 8) = unat c + 8"
  "chunk_ok c \<Longrightarrow> unat (c + 12) = unat c + 12"
  by (auto simp: chunk_ok_def unat_plus_numeral)

named_theorems chunk_simps \<open>get/set laws of the chunk headers\<close>

lemma chunk_same [chunk_simps]:
  "chunk_next (set_next m c v) c = v" "chunk_prev (set_prev m c v) c = v"
  "chunk_allocated (set_allocated m c v) c = v" "chunk_size (set_size m c v) c = v"
  by (simp_all add: chunk_defs)

lemma chunk_other_field [chunk_simps]:
  assumes "chunk_ok c"
  shows "chunk_next (set_prev m c v) c = chunk_next m c"
    and "chunk_next (set_allocated m c v) c = chunk_next m c"
    and "chunk_next (set_size m c v) c = chunk_next m c"
    and "chunk_prev (set_next m c v) c = chunk_prev m c"
    and "chunk_prev (set_allocated m c v) c = chunk_prev m c"
    and "chunk_prev (set_size m c v) c = chunk_prev m c"
    and "chunk_allocated (set_next m c v) c = chunk_allocated m c"
    and "chunk_allocated (set_prev m c v) c = chunk_allocated m c"
    and "chunk_allocated (set_size m c v) c = chunk_allocated m c"
    and "chunk_size (set_next m c v) c = chunk_size m c"
    and "chunk_size (set_prev m c v) c = chunk_size m c"
    and "chunk_size (set_allocated m c v) c = chunk_size m c"
  unfolding chunk_defs
  by (rule r32_w32_other; use assms in \<open>simp add: chunk_offsets; simp add: chunk_ok_def\<close>)+

lemma set_byte_other [chunk_simps]:
  assumes "chunk_ok c" and "unat x < unat c \<or> unat c + 16 \<le> unat x"
  shows "set_next m c v x = m x" "set_prev m c v x = m x"
    "set_allocated m c v x = m x" "set_size m c v x = m x"
  unfolding chunk_defs
  by (rule w32_byte_other; use assms in \<open>auto simp: chunk_offsets chunk_ok_def\<close>)+

lemma chunk_cong:
  assumes "chunk_ok c" and "\<And>x. unat c \<le> unat x \<Longrightarrow> unat x < unat c + 16 \<Longrightarrow> m' x = m x"
  shows "chunk_next m' c = chunk_next m c" "chunk_prev m' c = chunk_prev m c"
    "chunk_allocated m' c = chunk_allocated m c" "chunk_size m' c = chunk_size m c"
  unfolding chunk_defs
  by (rule r32_cong; use assms in \<open>auto simp: chunk_offsets chunk_ok_def\<close>)+

lemma chunk_other [chunk_simps]:
  assumes "chunk_sep c d"
  shows "chunk_next (set_next m c v) d = chunk_next m d" "chunk_next (set_prev m c v) d = chunk_next m d"
    "chunk_next (set_allocated m c v) d = chunk_next m d" "chunk_next (set_size m c v) d = chunk_next m d"
    "chunk_prev (set_next m c v) d = chunk_prev m d" "chunk_prev (set_prev m c v) d = chunk_prev m d"
    "chunk_prev (set_allocated m c v) d = chunk_prev m d" "chunk_prev (set_size m c v) d = chunk_prev m d"
    "chunk_allocated (set_next m c v) d = chunk_allocated m d"
    "chunk_allocated (set_prev m c v) d = chunk_allocated m d"
    "chunk_allocated (set_allocated m c v) d = chunk_allocated m d"
    "chunk_allocated (set_size m c v) d = chunk_allocated m d"
    "chunk_size (set_next m c v) d = chunk_size m d" "chunk_size (set_prev m c v) d = chunk_size m d"
    "chunk_size (set_allocated m c v) d = chunk_size m d" "chunk_size (set_size m c v) d = chunk_size m d"
  using assms unfolding chunk_sep_def
  by (auto intro!: chunk_cong set_byte_other)


section \<open>The abstract heap\<close>

text \<open>A chunk is its payload size and its allocation flag; the address of a chunk follows from
  the chunks before it.\<close>

type_synonym achunk = "nat \<times> bool"

definition span :: "achunk list \<Rightarrow> nat" where
  "span cs = sum_list (map (\<lambda>c. 16 + fst c) cs)"

lemma span_simps [simp]:
  "span [] = 0" "span (c # cs) = 16 + fst c + span cs" "span (xs @ ys) = span xs + span ys"
  by (simp_all add: span_def)

fun seg :: "mem \<Rightarrow> u32 \<Rightarrow> nat \<Rightarrow> achunk list \<Rightarrow> u32 \<Rightarrow> bool" where
  "seg m p a [] nx \<longleftrightarrow> True"
| "seg m p a ((s, al) # cs) nx \<longleftrightarrow>
     chunk_prev m (of_nat a) = p \<and> chunk_size m (of_nat a) = of_nat s
     \<and> chunk_allocated m (of_nat a) = (if al then 1 else 0)
     \<and> chunk_next m (of_nat a) = (if cs = [] then nx else of_nat (a + 16 + s))
     \<and> seg m (of_nat a) (a + 16 + s) cs nx"

definition last_addr :: "u32 \<Rightarrow> nat \<Rightarrow> achunk list \<Rightarrow> u32" where
  "last_addr p a cs = (if cs = [] then p else of_nat (a + span (butlast cs)))"

fun hdrs :: "nat \<Rightarrow> achunk list \<Rightarrow> nat set" where
  "hdrs a [] = {}"
| "hdrs a ((s, al) # cs) = {a..<a + 16} \<union> hdrs (a + 16 + s) cs"

fun coalesced :: "achunk list \<Rightarrow> bool" where
  "coalesced (x # y # zs) \<longleftrightarrow> (snd x \<or> snd y) \<and> coalesced (y # zs)"
| "coalesced _ \<longleftrightarrow> True"

definition heap_rep :: "('a mm_scheme) \<Rightarrow> nat \<Rightarrow> achunk list \<Rightarrow> bool" where
  "heap_rep s lo cs \<longleftrightarrow> cs \<noteq> [] \<and> first s = of_nat lo \<and> 0 < lo \<and> lo + span cs + 17 \<le> addr_space
     \<and> seg (phys s) 0 lo cs 0 \<and> coalesced cs"

text \<open>Byte addresses of the payloads of allocated chunks: the memory the callers own.\<close>

fun owned :: "nat \<Rightarrow> achunk list \<Rightarrow> nat set" where
  "owned a [] = {}"
| "owned a ((s, al) # cs) = (if al then {a + 16..<a + 16 + s} else {}) \<union> owned (a + 16 + s) cs"

subsection \<open>Segments\<close>

lemma seg_append:
  "seg m p a (xs @ ys) nx \<longleftrightarrow>
     seg m p a xs (if ys = [] then nx else of_nat (a + span xs))
     \<and> seg m (last_addr p a xs) (a + span xs) ys nx"
proof (induction xs arbitrary: p a)
  case (Cons x xs)
  obtain s al where x: "x = (s, al)" by (cases x)
  have la: "last_addr (of_nat a) (a + 16 + s) xs = last_addr p a (x # xs)"
    by (auto simp: last_addr_def x add.assoc)
  show ?case
    using Cons.IH [of "of_nat a" "a + 16 + s"] la by (auto simp: x add.assoc)
qed (simp add: last_addr_def)

lemma hdrs_append: "hdrs a (xs @ ys) = hdrs a xs \<union> hdrs (a + span xs) ys"
  by (induction a xs rule: hdrs.induct) (auto simp: add.assoc)

lemma owned_append: "owned a (xs @ ys) = owned a xs \<union> owned (a + span xs) ys"
  by (induction a xs rule: owned.induct) (auto simp: add.assoc)

lemma hdrs_bounds: "h \<in> hdrs a cs \<Longrightarrow> a \<le> h \<and> h < a + span cs"
  by (induction a cs rule: hdrs.induct) (force simp: add.assoc)+

lemma owned_bounds: "h \<in> owned a cs \<Longrightarrow> a + 16 \<le> h \<and> h < a + span cs"
  by (induction a cs rule: owned.induct) (force simp: add.assoc split: if_splits)+

lemma seg_cong:
  assumes "\<And>x. unat x \<in> hdrs a cs \<Longrightarrow> m' x = m x" and "a + span cs \<le> addr_space"
  shows "seg m' p a cs nx = seg m p a cs nx"
  using assms
proof (induction cs arbitrary: p a)
  case (Cons c cs)
  obtain s al where c: "c = (s, al)" by (cases c)
  have a: "unat (of_nat a :: u32) = a" using Cons.prems(2) by (simp add: c)
  have "chunk_next m' (of_nat a) = chunk_next m (of_nat a)"
    "chunk_prev m' (of_nat a) = chunk_prev m (of_nat a)"
    "chunk_allocated m' (of_nat a) = chunk_allocated m (of_nat a)"
    "chunk_size m' (of_nat a) = chunk_size m (of_nat a)"
    by (rule chunk_cong; use Cons.prems a in \<open>auto simp: chunk_ok_def c\<close>)+
  moreover have "seg m' (of_nat a) (a + 16 + s) cs nx = seg m (of_nat a) (a + 16 + s) cs nx"
    by (rule Cons.IH) (use Cons.prems in \<open>auto simp: c add.assoc\<close>)
  ultimately show ?case by (simp add: c)
qed simp

text \<open>Replacing the back pointer of a segment's head.\<close>

lemma seg_set_prev:
  assumes "seg m p a cs nx" and "a + span cs \<le> addr_space"
    and "\<And>x. unat x \<in> hdrs a cs \<Longrightarrow> m' x = m x"
  shows "seg (if cs = [] then m' else set_prev m' (of_nat a) q) q a cs nx"
proof (cases cs)
  case (Cons c cs')
  obtain s al where c: "c = (s, al)" by (cases c)
  have a: "unat (of_nat a :: u32) = a" and ok: "chunk_ok (of_nat a)"
    using assms(2) by (simp_all add: chunk_ok_def Cons)
  have "seg m' p a cs nx = seg m p a cs nx" by (rule seg_cong) (use assms in auto)
  with assms(1) have seg': "seg m' p a cs nx" by simp
  have "seg (set_prev m' (of_nat a) q) (of_nat a) (a + 16 + s) cs' nx
      = seg m' (of_nat a) (a + 16 + s) cs' nx"
    by (rule seg_cong)
      (use assms(2) a ok in \<open>auto simp: Cons c set_byte_other dest!: hdrs_bounds\<close>)
  then show ?thesis using seg' ok by (simp add: Cons c chunk_simps)
qed simp

lemma coalesced_append:
  "coalesced (xs @ ys) \<longleftrightarrow> coalesced xs \<and> coalesced ys
     \<and> (xs = [] \<or> ys = [] \<or> snd (last xs) \<or> snd (hd ys))"
proof (induction xs)
  case (Cons x xs)
  then show ?case by (cases xs; cases ys) auto
qed simp

lemma coalesced_Cons: "coalesced (x # ys) \<longleftrightarrow> coalesced ys \<and> (ys = [] \<or> snd x \<or> snd (hd ys))"
  using coalesced_append [of "[x]" ys] by auto

subsection \<open>Operations on the abstract heap\<close>

fun amalloc :: "nat \<Rightarrow> nat \<Rightarrow> achunk list \<Rightarrow> (nat \<times> achunk list) option" where
  "amalloc sz a [] = None"
| "amalloc sz a ((s, al) # cs) =
     (if sz < s \<and> \<not> al then
        Some (a + 16, if sz + 17 \<le> s then (sz, True) # (s - sz - 16, False) # cs else (s, True) # cs)
      else map_option (\<lambda>(p, cs'). (p, (s, al) # cs')) (amalloc sz (a + 16 + s) cs))"

definition afree :: "achunk list \<Rightarrow> nat \<Rightarrow> achunk list \<Rightarrow> achunk list" where
  "afree xs s ys =
     (let (xs', s') = (if xs \<noteq> [] \<and> \<not> snd (last xs) then (butlast xs, fst (last xs) + 16 + s) else (xs, s));
          (s'', ys') = (if ys \<noteq> [] \<and> \<not> snd (hd ys) then (s' + 16 + fst (hd ys), tl ys) else (s', ys))
      in xs' @ (s'', False) # ys')"

lemma amalloc_None: "amalloc sz a cs = None \<longleftrightarrow> (\<forall>c\<in>set cs. snd c \<or> fst c \<le> sz)"
  by (induction sz a cs rule: amalloc.induct) (auto simp: not_less)

text \<open>A successful allocation: the first chunk that is free and larger than the request.\<close>

lemma amalloc_Some:
  "amalloc sz a cs = Some (p, cs') \<Longrightarrow>
   \<exists>xs s ys. cs = xs @ (s, False) # ys \<and> sz < s \<and> (\<forall>c\<in>set xs. snd c \<or> fst c \<le> sz)
     \<and> p = a + span xs + 16
     \<and> cs' = xs @ (if sz + 17 \<le> s then (sz, True) # (s - sz - 16, False) # ys else (s, True) # ys)"
proof (induction sz a cs arbitrary: p cs' rule: amalloc.induct)
  case (2 sz a s al cs)
  show ?case
  proof (cases "sz < s \<and> \<not> al")
    case True
    with 2 show ?thesis by (intro exI [of _ "[]"] exI [of _ s] exI [of _ cs]) auto
  next
    case False
    with 2 obtain cs'' where am: "amalloc sz (a + 16 + s) cs = Some (p, cs'')" and cs': "cs' = (s, al) # cs''"
      by auto
    from "2.IH" [OF False am] obtain xs t ys where
      "cs = xs @ (t, False) # ys" "sz < t" "\<forall>c\<in>set xs. snd c \<or> fst c \<le> sz" "p = a + 16 + s + span xs + 16"
      "cs'' = xs @ (if sz + 17 \<le> t then (sz, True) # (t - sz - 16, False) # ys else (t, True) # ys)"
      by blast
    with False cs' show ?thesis
      by (intro exI [of _ "(s, al) # xs"] exI [of _ t] exI [of _ ys]) auto
  qed
qed simp


section \<open>Allocation refines the abstract operation\<close>

lemma malloc_search_found: "r \<noteq> 0 \<Longrightarrow> malloc_search m sz c r = Some r"
  by (simp add: malloc_search.simps)

lemma malloc_search_rep:
  assumes "seg m p a cs 0" and "0 < a" and "a + span cs \<le> addr_space"
  shows "malloc_search m sz (if cs = [] then 0 else of_nat a) 0
    = Some (case amalloc (unat sz) a cs of None \<Rightarrow> 0 | Some (q, _) \<Rightarrow> of_nat (q - 16))"
  using assms
proof (induction cs arbitrary: p a)
  case Nil
  then show ?case by (simp add: malloc_search.simps)
next
  case (Cons c cs)
  obtain s al where c: "c = (s, al)" by (cases c)
  have lt: "a < addr_space" "s < addr_space" using Cons.prems by (simp_all add: c)
  then have nz: "(of_nat a :: u32) \<noteq> 0" using Cons.prems(2) of_nat_u32_eq_0_iff [of a] by simp
  have free: "chunk_size m (of_nat a) > sz \<and> chunk_allocated m (of_nat a) = 0 \<longleftrightarrow> unat sz < s \<and> \<not> al"
    using Cons.prems(1) lt by (auto simp: c word_less_nat_alt)
  have nxt: "chunk_next m (of_nat a) = (if cs = [] then 0 else of_nat (a + 16 + s))"
    using Cons.prems(1) by (simp add: c)
  show ?case
  proof (cases "unat sz < s \<and> \<not> al")
    case True
    then show ?thesis
      using nz by (subst malloc_search.simps) (simp add: free c malloc_search_found)
  next
    case False
    have "malloc_search m sz (if cs = [] then 0 else of_nat (a + 16 + s)) 0
      = Some (case amalloc (unat sz) (a + 16 + s) cs of None \<Rightarrow> 0 | Some (q, _) \<Rightarrow> of_nat (q - 16))"
      by (rule Cons.IH) (use Cons.prems in \<open>auto simp: c add.assoc\<close>)
    with False nz show ?thesis
      by (subst malloc_search.simps) (auto simp: free nxt c split: option.split)
  qed
qed

text \<open>The memory after taking one free chunk whole, and after splitting it.\<close>

lemma take_whole_seg:
  assumes "seg m p a (xs @ (s, False) # ys) 0" and "a + span xs + 16 + s + span ys \<le> addr_space"
  shows "seg (set_allocated m (of_nat (a + span xs)) 1) p a (xs @ (s, True) # ys) 0"
proof -
  let ?A = "a + span xs"
  let ?m = "set_allocated m (of_nat ?A) 1"
  have A: "unat (of_nat ?A :: u32) = ?A" using assms(2) by (intro unat_of_nat_u32) simp
  then have ok: "chunk_ok (of_nat ?A)" using assms(2) by (simp only: chunk_ok_def)
  have "seg ?m p a xs (of_nat ?A) = seg m p a xs (of_nat ?A)"
    by (rule seg_cong) (use assms(2) A ok in \<open>auto simp: set_byte_other dest!: hdrs_bounds\<close>)
  moreover have "seg ?m (of_nat ?A) (?A + 16 + s) ys 0 = seg m (of_nat ?A) (?A + 16 + s) ys 0"
    by (rule seg_cong) (use assms(2) A ok in \<open>auto simp: set_byte_other dest!: hdrs_bounds\<close>)
  ultimately show ?thesis
    using assms(1) ok by (simp add: seg_append chunk_simps del: of_nat_add)
qed

lemma split_seg:
  fixes sz :: u32
  defines "n \<equiv> unat sz"
  assumes seg: "seg m p a (xs @ (s, False) # ys) 0" and "n + 17 \<le> s" and "0 < a"
    and bound: "a + span xs + 16 + s + span ys \<le> addr_space"
  shows "seg (set_allocated (malloc_split m (of_nat (a + span xs)) sz) (of_nat (a + span xs)) 1) p a
    (xs @ (n, True) # (s - n - 16, False) # ys) 0"
    and "unat x < a + span xs \<or> a + span xs + 16 + s \<le> unat x \<Longrightarrow> unat x \<notin> hdrs (a + span xs + 16 + s) ys
      \<Longrightarrow> set_allocated (malloc_split m (of_nat (a + span xs)) sz) (of_nat (a + span xs)) 1 x = m x"
proof -
  define A T E where "A = a + span xs" and "T = A + 16 + n" and "E = A + 16 + s"
  let ?A = "of_nat A :: u32" and ?T = "of_nat T :: u32" and ?E = "of_nat E :: u32"
  have lt: "A + 16 \<le> T" "T + 16 < E" "E + span ys \<le> addr_space"
    using assms by (simp_all add: A_def E_def T_def)
  then have "A < addr_space" "T < addr_space" by linarith+
  then have u: "unat ?A = A" "unat ?T = T" by simp_all
  have temp: "?A + 16 + sz = ?T" by (simp add: T_def n_def)
  have okA: "chunk_ok ?A" and okT: "chunk_ok ?T" and sep: "chunk_sep ?A ?T" "chunk_sep ?T ?A"
    using lt u by (auto simp: chunk_ok_def chunk_sep_def)
  have segs: "seg m p a xs ?A" "chunk_prev m ?A = last_addr p a xs" "chunk_size m ?A = of_nat s"
    "chunk_next m ?A = (if ys = [] then 0 else ?E)" "seg m ?A E ys 0"
    using seg by (simp_all add: seg_append A_def E_def)
  have rest: "of_nat s - sz - 16 = (of_nat (s - n - 16) :: u32)"
    using assms(3) by (simp add: n_def of_nat_diff)
  have E: "unat ?E = E" "?E \<noteq> 0" "chunk_ok ?E" "chunk_sep ?E ?A" "chunk_sep ?E ?T" if "ys \<noteq> []"
  proof -
    have "16 \<le> span ys" using that by (cases ys) auto
    then have "E < addr_space" using lt by linarith
    then have uE: "unat ?E = E" by (rule unat_of_nat_u32)
    then show "unat ?E = E" "chunk_ok ?E" "chunk_sep ?E ?A" "chunk_sep ?E ?T" "?E \<noteq> 0"
      using lt u \<open>16 \<le> span ys\<close> of_nat_u32_eq_0_iff [of E] by (auto simp: chunk_ok_def chunk_sep_def)
  qed
  define m4 where "m4 = set_next (set_prev (set_size (set_allocated m ?T 0) ?T
      (of_nat (s - n - 16))) ?T ?A) ?T (if ys = [] then 0 else ?E)"
  define m5 where "m5 = (if ys = [] then m4 else set_prev m4 ?E ?T)"
  have m4: "m4 x = m x" if "unat x < T \<or> T + 16 \<le> unat x" for x
    using that okT u by (simp add: m4_def chunk_simps)
  define m' where "m' = set_allocated (malloc_split m (of_nat (a + span xs)) sz) (of_nat (a + span xs)) 1"
  have m': "m' = set_allocated (set_next (set_size m5 ?A sz) ?A ?T) ?A 1"
    unfolding m'_def malloc_split_def A_def [symmetric] temp Let_def
    using okT sep E segs by (simp add: chunk_simps rest m4_def m5_def)
  have outside: "m' x = m5 x" if "unat x < A \<or> A + 16 \<le> unat x" for x
    using that okA u by (simp add: m' chunk_simps)
  have "seg m5 ?T E ys 0"
    unfolding m5_def by (rule seg_set_prev [OF segs(5) lt(3)])
      (use lt in \<open>auto dest!: hdrs_bounds intro!: m4\<close>)
  then have ys: "seg m' ?T E ys 0"
    by (subst seg_cong [of _ _ _ m5]) (use lt in \<open>auto dest!: hdrs_bounds intro!: outside\<close>)
  have m5_low: "m5 x = m4 x" if "unat x < E" for x
    using that E by (simp add: m5_def set_byte_other)
  have xs: "seg m' p a xs ?A"
    by (subst seg_cong [of _ _ _ m])
      (use lt segs in \<open>auto simp: outside m5_low m4 A_def [symmetric] dest!: hdrs_bounds\<close>)
  have "chunk_prev m4 ?T = ?A" "chunk_size m4 ?T = of_nat (s - n - 16)" "chunk_allocated m4 ?T = 0"
    "chunk_next m4 ?T = (if ys = [] then 0 else ?E)" "chunk_prev m4 ?A = last_addr p a xs"
    using okT sep segs by (simp_all add: m4_def chunk_simps)
  then have "chunk_prev m5 ?T = ?A" "chunk_size m5 ?T = of_nat (s - n - 16)" "chunk_allocated m5 ?T = 0"
    "chunk_next m5 ?T = (if ys = [] then 0 else ?E)" "chunk_prev m5 ?A = last_addr p a xs"
    using E by (auto simp: m5_def chunk_simps)
  then have "chunk_prev m' ?T = ?A" "chunk_size m' ?T = of_nat (s - n - 16)" "chunk_allocated m' ?T = 0"
    "chunk_next m' ?T = (if ys = [] then 0 else ?E)" "chunk_prev m' ?A = last_addr p a xs"
    "chunk_size m' ?A = sz" "chunk_allocated m' ?A = 1" "chunk_next m' ?A = ?T"
    using okA sep unfolding m' by (simp_all add: chunk_simps)
  moreover have E_eq: "T + 16 + (s - n - 16) = E" using assms(3) by (simp add: E_def T_def)
  ultimately have "seg m' p a (xs @ (n, True) # (s - n - 16, False) # ys) 0"
    unfolding seg_append seg.simps A_def [symmetric] T_def [symmetric] E_eq
    using xs ys by (simp add: n_def)
  then show "seg (set_allocated (malloc_split m (of_nat (a + span xs)) sz) (of_nat (a + span xs)) 1) p a
    (xs @ (n, True) # (s - n - 16, False) # ys) 0" by (simp only: m'_def)
  have "m' x = m x" if "unat x < a + span xs \<or> a + span xs + 16 + s \<le> unat x"
      and "unat x \<notin> hdrs (a + span xs + 16 + s) ys"
  proof -
    have "m5 x = m4 x"
    proof (cases "ys = []")
      case False
      then have "{E..<E + 16} \<subseteq> hdrs E ys" by (cases ys) auto
      moreover have "unat x \<notin> hdrs E ys" unfolding E_def A_def by (rule that(2))
      ultimately have "unat x \<notin> {E..<E + 16}" by blast
      then have "unat x < E \<or> E + 16 \<le> unat x" by simp linarith
      then show ?thesis using E [OF False] by (simp add: m5_def set_byte_other)
    qed (simp add: m5_def)
    moreover have "unat x < A \<or> E \<le> unat x" using that(1) by (auto simp: A_def E_def)
    ultimately show ?thesis using lt by (auto simp: outside m4 A_def [symmetric])
  qed
  then show "set_allocated (malloc_split m (of_nat (a + span xs)) sz) (of_nat (a + span xs)) 1 x = m x"
    if "unat x < a + span xs \<or> a + span xs + 16 + s \<le> unat x"
      and "unat x \<notin> hdrs (a + span xs + 16 + s) ys"
    using that unfolding m'_def by blast
qed


lemma take_whole_frame:
  assumes "unat x < A \<or> A + 16 \<le> unat x" and "A + 16 \<le> addr_space"
  shows "set_allocated m (of_nat A) 1 x = m x"
proof -
  have "unat (of_nat A :: u32) = A" using assms(2) by simp
  then show ?thesis using assms by (simp add: set_byte_other chunk_ok_def)
qed

lemma owned_hdrs_disjoint: "owned a cs \<inter> hdrs a cs = {}"
  by (induction a cs rule: owned.induct) (auto dest: owned_bounds hdrs_bounds)

lemma span_amalloc: "amalloc sz a cs = Some (p, cs') \<Longrightarrow> span cs' = span cs"
  by (auto dest!: amalloc_Some)

lemma coalesced_amalloc:
  assumes "amalloc sz a cs = Some (p, cs')" and "coalesced cs"
  shows "coalesced cs'"
proof -
  obtain xs s ys where cs: "cs = xs @ (s, False) # ys" and cs': "cs' = xs @ (if sz + 17 \<le> s
      then (sz, True) # (s - sz - 16, False) # ys else (s, True) # ys)"
    using amalloc_Some [OF assms(1)] by blast
  from assms(2) show ?thesis
    unfolding cs cs' by (auto simp: coalesced_append coalesced_Cons)
qed

lemma malloc_None:
  assumes "heap_rep s lo cs" and "amalloc (unat sz) lo cs = None"
  shows "malloc s sz = Some (0, s)"
  using malloc_search_rep [of "phys s" 0 lo cs sz] assms
  by (simp add: malloc_def heap_rep_def)

lemma malloc_Some:
  assumes rep: "heap_rep s lo cs" and am: "amalloc (unat sz) lo cs = Some (p, cs')"
  obtains m' where "malloc s sz = Some (of_nat p, s\<lparr>phys := m'\<rparr>)" "heap_rep (s\<lparr>phys := m'\<rparr>) lo cs'"
    "\<And>x. unat x \<in> owned lo cs \<or> unat x < lo \<or> lo + span cs \<le> unat x \<Longrightarrow> m' x = phys s x"
proof -
  obtain xs t ys where cs: "cs = xs @ (t, False) # ys" and t: "unat sz < t" and p: "p = lo + span xs + 16"
    and cs': "cs' = xs @ (if unat sz + 17 \<le> t then (unat sz, True) # (t - unat sz - 16, False) # ys
      else (t, True) # ys)"
    using amalloc_Some [OF am] by blast
  define A where "A = lo + span xs"
  have bound: "A + 16 + t + span ys + 17 \<le> addr_space" and lo: "0 < lo" and seg: "seg (phys s) 0 lo cs 0"
    and coal: "coalesced cs" and fst: "first s = of_nat lo"
    using rep by (simp_all add: heap_rep_def cs A_def)
  have "A < addr_space" "0 < A" using bound lo by (simp_all add: A_def)
  then have uA: "unat (of_nat A :: u32) = A" and nz: "(of_nat A :: u32) \<noteq> 0"
    using of_nat_u32_eq_0_iff [of A] by simp_all
  have search: "malloc_search (phys s) sz (first s) 0 = Some (of_nat A)"
    using malloc_search_rep [OF seg, of sz] lo bound am by (simp add: fst p cs A_def)
  have sizeA: "chunk_size (phys s) (of_nat A) = of_nat t"
    using seg by (simp add: cs seg_append A_def)
  have "unat (sz + 17) = unat sz + 17"
    using t bound by (simp only: unat_plus_numeral)
  then have test: "sz + 17 \<le> chunk_size (phys s) (of_nat A) \<longleftrightarrow> unat sz + 17 \<le> t"
    using bound by (simp add: sizeA word_le_nat_alt)
  define m' where "m' = set_allocated (if unat sz + 17 \<le> t then malloc_split (phys s) (of_nat A) sz else phys s)
    (of_nat A) 1"
  have pA: "p = A + 16" by (simp add: p A_def)
  have mal: "malloc s sz = Some (of_nat p, s\<lparr>phys := m'\<rparr>)"
    using nz test by (simp add: malloc_def search Let_def m'_def pA add.commute [of _ sz])
  have bound': "lo + span xs + 16 + t + span ys \<le> addr_space" using bound by (simp add: A_def)
  have seg': "seg m' 0 lo cs' 0"
  proof (cases "unat sz + 17 \<le> t")
    case True
    then show ?thesis
      using split_seg(1) [OF seg [unfolded cs] _ lo bound'] by (simp add: m'_def cs' A_def)
  next
    case False
    then show ?thesis
      using take_whole_seg [OF seg [unfolded cs] bound'] by (simp add: m'_def cs' A_def)
  qed
  have span: "span cs' = span cs" and "coalesced cs'"
    using span_amalloc [OF am] coalesced_amalloc [OF am coal] by simp_all
  then have rep': "heap_rep (s\<lparr>phys := m'\<rparr>) lo cs'"
    using rep seg' by (auto simp: heap_rep_def cs')
  have "m' x = phys s x" if x: "unat x \<in> owned lo cs \<or> unat x < lo \<or> lo + span cs \<le> unat x" for x
  proof -
    have own: "owned lo cs = owned lo xs \<union> owned (A + 16 + t) ys"
      by (simp add: cs owned_append A_def)
    have "lo + span cs = A + 16 + t + span ys" by (simp add: cs A_def)
    then have x': "unat x \<in> owned lo xs \<or> unat x \<in> owned (A + 16 + t) ys \<or> unat x < lo
        \<or> A + 16 + t + span ys \<le> unat x" using x unfolding own by auto
    have "lo \<le> A" by (simp add: A_def)
    with x' have out: "unat x < A \<or> A + 16 + t \<le> unat x"
      by (auto simp: A_def [symmetric] dest!: owned_bounds)
    have "unat x \<notin> hdrs (A + 16 + t) ys"
    proof
      assume h: "unat x \<in> hdrs (A + 16 + t) ys"
      then have "A + 16 + t \<le> unat x \<and> unat x < A + 16 + t + span ys" by (rule hdrs_bounds)
      then have "unat x \<in> owned (A + 16 + t) ys"
        using x' \<open>lo \<le> A\<close> by (auto simp: A_def [symmetric] dest!: owned_bounds)
      with h owned_hdrs_disjoint [of "A + 16 + t" ys] show False by auto
    qed
    with out show ?thesis
      using split_seg(2) [OF seg [unfolded cs] _ lo bound', of sz x] take_whole_frame [of x A "phys s"] bound
      by (auto simp: m'_def A_def)
  qed
  with mal rep' show ?thesis by (rule that)
qed


section \<open>Release refines the abstract operation\<close>

lemma clear_flag_seg:
  assumes "seg m p a (xs @ (s, al) # ys) 0" and "a + span xs + 16 + s + span ys \<le> addr_space"
  shows "seg (set_allocated m (of_nat (a + span xs)) 0) p a (xs @ (s, False) # ys) 0"
proof -
  let ?A = "a + span xs"
  let ?m = "set_allocated m (of_nat ?A) 0"
  have A: "unat (of_nat ?A :: u32) = ?A" using assms(2) by (intro unat_of_nat_u32) simp
  then have ok: "chunk_ok (of_nat ?A)" using assms(2) by (simp only: chunk_ok_def)
  have "seg ?m p a xs (of_nat ?A) = seg m p a xs (of_nat ?A)"
    by (rule seg_cong) (use assms(2) A ok in \<open>auto simp: set_byte_other dest!: hdrs_bounds\<close>)
  moreover have "seg ?m (of_nat ?A) (?A + 16 + s) ys 0 = seg m (of_nat ?A) (?A + 16 + s) ys 0"
    by (rule seg_cong) (use assms(2) A ok in \<open>auto simp: set_byte_other dest!: hdrs_bounds\<close>)
  ultimately show ?thesis
    using assms(1) ok by (simp add: seg_append chunk_simps del: of_nat_add)
qed

text \<open>Two neighbouring chunks become one: the shared effect of both merges in \<^verbatim>\<open>free\<close>.\<close>

lemma join_seg:
  fixes m m2 :: mem
  defines "A xs a \<equiv> (a :: nat) + span xs"
  assumes seg: "seg m p a (xs @ (s, al) # (t, bl) # ys) 0"
    and bound: "A xs a + 32 + s + t + span ys \<le> addr_space"
    and nxt: "chunk_next m2 (of_nat (A xs a)) = (if ys = [] then 0 else of_nat (A xs a + 32 + s + t))"
    and prv: "chunk_prev m2 (of_nat (A xs a)) = chunk_prev m (of_nat (A xs a))"
    and alc: "chunk_allocated m2 (of_nat (A xs a)) = chunk_allocated m (of_nat (A xs a))"
    and siz: "chunk_size m2 (of_nat (A xs a)) = of_nat (s + 16 + t)"
    and frame: "\<And>x. unat x < A xs a \<or> A xs a + 16 \<le> unat x \<Longrightarrow> m2 x = m x"
  shows "seg (if ys = [] then m2 else set_prev m2 (of_nat (A xs a + 32 + s + t)) (of_nat (A xs a))) p a
    (xs @ (s + 16 + t, al) # ys) 0"
proof -
  define B where "B = A xs a"
  define E where "E = B + 32 + s + t"
  let ?m' = "if ys = [] then m2 else set_prev m2 (of_nat E) (of_nat B)"
  note facts = nxt prv alc siz frame bound
  note facts' = facts [folded B_def, folded E_def]
  have BE: "B + 32 \<le> E" "E + span ys \<le> addr_space" using bound by (simp_all add: E_def B_def)
  then have "B < addr_space" by linarith
  then have uB: "unat (of_nat B :: u32) = B" by simp
  have E_eq: "B + 16 + s + 16 + t = E" "B + 16 + (s + 16 + t) = E" by (simp_all add: E_def)
  have segs: "seg m p a xs (of_nat B)" "chunk_prev m (of_nat B) = last_addr p a xs"
    "chunk_allocated m (of_nat B) = (if al then 1 else 0)" "seg m (of_nat (B + 16 + s)) E ys 0"
    using seg unfolding seg_append seg.simps A_def [symmetric] B_def [symmetric] E_eq by simp_all
  have ys: "seg ?m' (of_nat B) E ys 0"
    by (rule seg_set_prev [OF segs(4) BE(2)]) (use BE in \<open>auto intro!: facts'(5) dest!: hdrs_bounds\<close>)
  have low: "?m' x = m2 x" if "unat x < E" for x
  proof (cases "ys = []")
    case False
    then have "16 \<le> span ys" by (cases ys) auto
    then have "E < addr_space" "E + 16 \<le> addr_space" using BE by linarith+
    then show ?thesis using that by (simp add: set_byte_other chunk_ok_def)
  qed simp
  have "seg ?m' p a xs (of_nat B) = seg m p a xs (of_nat B)"
    by (rule seg_cong) (use BE in \<open>auto simp: B_def [unfolded A_def, symmetric] low facts'(5) dest!: hdrs_bounds
      simp del: if_split split del: if_split\<close>)
  moreover have "chunk_next ?m' (of_nat B) = chunk_next m2 (of_nat B)"
    "chunk_prev ?m' (of_nat B) = chunk_prev m2 (of_nat B)"
    "chunk_allocated ?m' (of_nat B) = chunk_allocated m2 (of_nat B)"
    "chunk_size ?m' (of_nat B) = chunk_size m2 (of_nat B)"
    by (rule chunk_cong; use BE uB low in \<open>auto simp: chunk_ok_def simp del: if_split split del: if_split\<close>)+
  ultimately have "seg ?m' p a (xs @ (s + 16 + t, al) # ys) 0"
    unfolding seg_append seg.simps A_def [symmetric] B_def [symmetric] E_eq
    using segs facts' ys by simp
  then show ?thesis unfolding E_def B_def .
qed


text \<open>The header facts at one place of a segment.\<close>

lemma seg_at:
  assumes "seg m p a (xs @ (s, al) # ys) 0" and "a + span xs + 16 + s + span ys \<le> addr_space"
  shows "chunk_ok (of_nat (a + span xs))"
    and "unat (of_nat (a + span xs) :: u32) = a + span xs"
    and "chunk_prev m (of_nat (a + span xs)) = last_addr p a xs"
    and "chunk_size m (of_nat (a + span xs)) = of_nat s"
    and "chunk_allocated m (of_nat (a + span xs)) = (if al then 1 else 0)"
    and "chunk_next m (of_nat (a + span xs)) = (if ys = [] then 0 else of_nat (a + span xs + 16 + s))"
proof -
  show u: "unat (of_nat (a + span xs) :: u32) = a + span xs"
    using assms(2) by (intro unat_of_nat_u32) simp
  then show "chunk_ok (of_nat (a + span xs))" using assms(2) by (simp only: chunk_ok_def)
qed (use assms in \<open>simp_all add: seg_append\<close>)

lemma of_nat_u32_nonzero: "0 < n \<Longrightarrow> n < addr_space \<Longrightarrow> (of_nat n :: u32) \<noteq> 0"
  using of_nat_u32_eq_0_iff [of n] by simp

lemma hdrs_Cons_head: "{a..<a + 16} \<subseteq> hdrs a (c # cs)"
  by (cases c) auto

lemma set_prev_if_frame:
  assumes "unat x \<notin> hdrs e ys" and "e + span ys \<le> addr_space"
  shows "(if ys = [] then m else set_prev m (of_nat e) q) x = m x"
proof (cases ys)
  case (Cons c cs)
  have e: "unat (of_nat e :: u32) = e" using assms(2) by (simp add: Cons)
  have "unat x \<notin> {e..<e + 16}" using assms(1) hdrs_Cons_head [of e c cs] Cons by auto
  then have "unat x < e \<or> e + 16 \<le> unat x" by auto
  then show ?thesis using assms(2) e by (simp add: Cons set_byte_other chunk_ok_def)
qed simp

lemma merge_next_seg:
  assumes seg: "seg m p a (xs @ (s, al) # ys) 0" and "0 < a"
    and bound: "a + span xs + 16 + s + span ys \<le> addr_space"
  shows "seg (merge_next m (of_nat (a + span xs))) p a
      (xs @ (if ys \<noteq> [] \<and> \<not> snd (hd ys) then (s + 16 + fst (hd ys), al) # tl ys else (s, al) # ys)) 0"
    and "unat x \<notin> hdrs a (xs @ (s, al) # ys) \<Longrightarrow> merge_next m (of_nat (a + span xs)) x = m x"
proof -
  note at = seg_at [OF seg bound]
  have both: "seg (merge_next m (of_nat (a + span xs))) p a
      (xs @ (if ys \<noteq> [] \<and> \<not> snd (hd ys) then (s + 16 + fst (hd ys), al) # tl ys else (s, al) # ys)) 0
    \<and> (unat x \<notin> hdrs a (xs @ (s, al) # ys) \<longrightarrow> merge_next m (of_nat (a + span xs)) x = m x)"
  proof (cases ys)
    case Nil
    then show ?thesis using seg at(6) by (simp add: merge_next_def)
  next
    case (Cons y zs)
    obtain t bl where y: "y = (t, bl)" by (cases y)
    define A where "A = a + span xs"
    let ?A = "of_nat A :: u32" and ?N = "of_nat (A + 16 + s) :: u32"
    have seg2: "seg m p a ((xs @ [(s, al)]) @ (t, bl) # zs) 0" using seg by (simp add: Cons y)
    have bound2: "a + span (xs @ [(s, al)]) + 16 + t + span zs \<le> addr_space"
      using bound by (simp add: Cons y)
    have eqN: "a + span (xs @ [(s, al)]) = A + 16 + s" by (simp add: A_def)
    note atN = seg_at [OF seg2 bound2, unfolded eqN]
    note atA = at [folded A_def]
    have bA: "A + 16 + s + 16 + t + span zs \<le> addr_space" using bound by (simp add: Cons y A_def)
    then have "A + 16 + s < addr_space" by linarith
    then have nz: "?N \<noteq> 0" by (intro of_nat_u32_nonzero) simp_all
    show ?thesis
    proof (cases bl)
      case True
      then show ?thesis
        using seg atA(6) atN(5) nz unfolding A_def [symmetric] by (simp add: merge_next_def Cons y)
    next
      case False
      define m1 where "m1 = set_size m ?A (of_nat (s + 16 + t))"
      let ?E = "of_nat (A + 32 + s + t) :: u32"
      define m2 where "m2 = set_next m1 ?A (if zs = [] then 0 else ?E)"
      have sep: "chunk_sep ?A ?N"
        using atA(1,2) atN(1,2) bA by (simp add: chunk_sep_def)
      have nE: "?E \<noteq> 0" if "zs \<noteq> []"
      proof -
        have "16 \<le> span zs" using that by (cases zs) auto
        then have "A + 32 + s + t < addr_space" using bA by linarith
        then show ?thesis by (intro of_nat_u32_nonzero) simp_all
      qed
      have szs: "of_nat s + (of_nat t + 16) = (of_nat (s + 16 + t) :: u32)" by simp
      have nextN: "chunk_next m ?N = (if zs = [] then 0 else ?E)"
        using atN(6) by (simp add: algebra_simps)
      have nA: "chunk_next m ?A = ?N" using atA(6) by (simp add: Cons)
      have m': "merge_next m ?A = (if zs = [] then m2 else set_prev m2 ?E ?A)"
        unfolding merge_next_def nA atN(4,5) atA(4) szs m1_def [symmetric] Let_def
        using nz False nE atA(1) sep nA nextN
        by (simp add: m1_def m2_def chunk_simps)
      have frame: "m2 x = m x" if "unat x < A \<or> A + 16 \<le> unat x" for x
        using that atA(1,2) by (simp add: m2_def m1_def set_byte_other)
      have "seg (merge_next m ?A) p a (xs @ (s + 16 + t, al) # zs) 0"
        unfolding m' unfolding A_def
        by (rule join_seg [OF seg [unfolded Cons y]], unfold A_def [symmetric])
          (use bA atA(1) frame in \<open>simp_all add: m2_def m1_def chunk_simps del: of_nat_add\<close>)
      moreover have "merge_next m ?A x = m x" if "unat x \<notin> hdrs a (xs @ (s, al) # ys)"
      proof -
        have h: "hdrs a (xs @ (s, al) # ys) = hdrs a xs \<union> {A..<A + 16} \<union> {A + 16 + s..<A + 16 + s + 16}
            \<union> hdrs (A + 32 + s + t) zs"
          by (simp add: hdrs_append Cons y A_def algebra_simps Un_assoc)
        have "unat x \<notin> hdrs (A + 32 + s + t) zs" "unat x < A \<or> A + 16 \<le> unat x"
          using that unfolding h by auto
        then show ?thesis
          unfolding m' using set_prev_if_frame [of x "A + 32 + s + t" zs m2 ?A] bA frame by simp
      qed
      ultimately show ?thesis using False by (simp add: Cons y A_def)
    qed
  qed
  then show "seg (merge_next m (of_nat (a + span xs))) p a
      (xs @ (if ys \<noteq> [] \<and> \<not> snd (hd ys) then (s + 16 + fst (hd ys), al) # tl ys else (s, al) # ys)) 0"
    by blast
  from both show "unat x \<notin> hdrs a (xs @ (s, al) # ys) \<Longrightarrow> merge_next m (of_nat (a + span xs)) x = m x"
    by blast
qed


lemma merge_prev_none:
  assumes "seg m 0 a (xs @ (s, al) # ys) 0" and "0 < a"
    and "a + span xs + 16 + s + span ys \<le> addr_space" and "xs = [] \<or> snd (last xs)"
  shows "merge_prev m (of_nat (a + span xs)) = (m, of_nat (a + span xs))"
proof (cases xs rule: rev_cases)
  case Nil
  then show ?thesis using seg_at(3) [OF assms(1,3)] by (simp add: merge_prev_def last_addr_def)
next
  case (snoc ws w)
  obtain r bl where w: "w = (r, bl)" by (cases w)
  have seg: "seg m 0 a (ws @ (r, bl) # (s, al) # ys) 0" using assms(1) by (simp add: snoc w)
  have "a + span ws + 16 + r + span ((s, al) # ys) \<le> addr_space" using assms(3) by (simp add: snoc w)
  from seg_at(5) [OF seg this] have "chunk_allocated m (of_nat (a + span ws)) = 1"
    using assms(4) by (simp add: snoc w)
  then show ?thesis
    using seg_at(3) [OF assms(1,3)] by (simp add: merge_prev_def last_addr_def snoc w)
qed

lemma merge_prev_join:
  assumes seg: "seg m 0 a (ws @ (r, False) # (s, al) # ys) 0" and a: "0 < a"
    and bound: "a + span ws + 32 + r + s + span ys \<le> addr_space"
  obtains m' where "merge_prev m (of_nat (a + span ws + 16 + r)) = (m', of_nat (a + span ws))"
    "seg m' 0 a (ws @ (r + 16 + s, False) # ys) 0"
    "\<And>x. unat x \<notin> hdrs a (ws @ (r, False) # (s, al) # ys) \<Longrightarrow> m' x = m x"
proof -
  define A where "A = a + span ws"
  let ?A = "of_nat A :: u32" and ?C = "of_nat (A + 16 + r) :: u32" and ?E = "of_nat (A + 32 + r + s) :: u32"
  have b1: "a + span ws + 16 + r + span ((s, al) # ys) \<le> addr_space" using bound by simp
  have seg2: "seg m 0 a ((ws @ [(r, False)]) @ (s, al) # ys) 0" using seg by simp
  have b2: "a + span (ws @ [(r, False)]) + 16 + s + span ys \<le> addr_space" using bound by simp
  have eqC: "a + span (ws @ [(r, False)]) = A + 16 + r" by (simp add: A_def)
  note atA = seg_at [OF seg b1, folded A_def]
  note atC = seg_at [OF seg2 b2, unfolded eqC]
  have bA: "A + 32 + r + s + span ys \<le> addr_space" using bound by (simp add: A_def)
  have nz: "?A \<noteq> 0"
    using a bA by (intro of_nat_u32_nonzero) (simp_all add: A_def)
  have sep: "chunk_sep ?C ?A" "chunk_sep ?A ?C"
    using atA(1,2) atC(1,2) bA by (auto simp: chunk_sep_def)
  have nE: "?E \<noteq> 0 \<and> chunk_ok ?E \<and> chunk_sep ?E ?C" if "ys \<noteq> []"
  proof -
    have "16 \<le> span ys" using that by (cases ys) auto
    then have lt: "A + 32 + r + s < addr_space" "A + 32 + r + s + 16 \<le> addr_space" using bA by linarith+
    then have "unat ?E = A + 32 + r + s" by (intro unat_of_nat_u32)
    then show ?thesis
      using lt atC(1,2) of_nat_u32_nonzero [of "A + 32 + r + s"] by (auto simp: chunk_ok_def chunk_sep_def)
  qed
  have prevC: "chunk_prev m ?C = ?A" using atC(3) by (simp add: last_addr_def A_def)
  have nextC: "chunk_next m ?C = (if ys = [] then 0 else ?E)" using atC(6) by (simp add: algebra_simps)
  define m1 where "m1 = set_next m ?A (if ys = [] then 0 else ?E)"
  define m2 where "m2 = set_size m1 ?A (of_nat (r + 16 + s))"
  have szs: "of_nat r + (of_nat s + 16) = (of_nat (r + 16 + s) :: u32)" by simp
  have prevC1: "chunk_prev m1 ?C = ?A" using sep prevC by (simp add: m1_def chunk_simps)
  have sizeA: "chunk_size m1 ?A = of_nat r" using atA(1,4) by (simp add: m1_def chunk_simps)
  have sizeC: "chunk_size m1 ?C = of_nat s" using sep atC(4) by (simp add: m1_def chunk_simps)
  have nextC2: "chunk_next m2 ?C = (if ys = [] then 0 else ?E)" and prevC2: "chunk_prev m2 ?C = ?A"
    using sep nextC prevC1 by (simp_all add: m2_def m1_def chunk_simps)
  define m' where "m' = (if ys = [] then m2 else set_prev m2 ?E ?A)"
  have prevC': "chunk_prev m' ?C = ?A" using prevC2 nE by (simp add: m'_def chunk_simps)
  have mp: "merge_prev m ?C = (m', ?A)"
    unfolding merge_prev_def prevC nextC atA(5) Let_def m1_def [symmetric] prevC1 sizeA sizeC szs
      m2_def [symmetric] nextC2 prevC2
    using nz nE prevC' by (auto simp: m'_def)
  have frame: "m2 x = m x" if "unat x < A \<or> A + 16 \<le> unat x" for x
    using that atA(1,2) by (simp add: m2_def m1_def set_byte_other)
  have "seg m' 0 a (ws @ (r + 16 + s, False) # ys) 0"
    unfolding m'_def unfolding A_def
    by (rule join_seg [OF seg], unfold A_def [symmetric])
      (use bA atA(1) frame in \<open>simp_all add: m2_def m1_def chunk_simps del: of_nat_add\<close>)
  moreover have "m' x = m x" if "unat x \<notin> hdrs a (ws @ (r, False) # (s, al) # ys)" for x
  proof -
    have h: "hdrs a (ws @ (r, False) # (s, al) # ys) = hdrs a ws \<union> {A..<A + 16}
        \<union> {A + 16 + r..<A + 16 + r + 16} \<union> hdrs (A + 32 + r + s) ys"
      by (simp add: hdrs_append A_def algebra_simps Un_assoc)
    have "unat x \<notin> hdrs (A + 32 + r + s) ys" "unat x < A \<or> A + 16 \<le> unat x"
      using that unfolding h by auto
    then show ?thesis
      unfolding m'_def using set_prev_if_frame [of x "A + 32 + r + s" ys m2 ?A] bA frame by simp
  qed
  ultimately show ?thesis using that [of m'] mp by (simp add: A_def)
qed


lemma hdrs_set_flag: "hdrs a (xs @ (s, al) # ys) = hdrs a (xs @ (s, bl) # ys)"
  by (simp add: hdrs_append)

lemma hdrs_join_subset: "hdrs a (ws @ (r + 16 + s, al) # ys) \<subseteq> hdrs a (ws @ (r, bl) # (s, cl) # ys)"
  by (auto simp: hdrs_append ac_simps)

lemma coalesced_afree:
  assumes "coalesced (xs @ (s, True) # ys)"
  shows "coalesced (afree xs s ys)"
proof (cases xs rule: rev_cases)
  case Nil
  then show ?thesis
    using assms by (cases ys) (auto simp: afree_def coalesced_Cons)
next
  case (snoc ws w)
  then show ?thesis
    using assms by (cases ys; cases "snd w"; cases "snd (hd ys)")
      (auto simp: afree_def coalesced_append coalesced_Cons)
qed

lemma span_afree: "span (afree xs s ys) = span (xs @ (s, al) # ys)"
proof (cases xs rule: rev_cases)
  case Nil
  then show ?thesis by (cases ys) (auto simp: afree_def)
next
  case (snoc ws w)
  then show ?thesis by (cases ys; cases "snd w") (auto simp: afree_def)
qed

lemma free_refines:
  assumes rep: "heap_rep s lo (xs @ (n, True) # ys)"
  obtains m' where "free s (of_nat (lo + span xs + 16)) = s\<lparr>phys := m'\<rparr>"
    "heap_rep (s\<lparr>phys := m'\<rparr>) lo (afree xs n ys)"
    "\<And>x. unat x \<notin> hdrs lo (xs @ (n, True) # ys) \<Longrightarrow> m' x = phys s x"
proof -
  let ?c = "of_nat (lo + span xs) :: u32"
  define m1 where "m1 = set_allocated (phys s) ?c 0"
  have lo: "0 < lo" and seg: "seg (phys s) 0 lo (xs @ (n, True) # ys) 0" and coal: "coalesced (xs @ (n, True) # ys)"
    and bound: "lo + span xs + 16 + n + span ys \<le> addr_space"
    using rep by (simp_all add: heap_rep_def)
  have chunk: "of_nat (lo + span xs + 16) - SIZEOF_CHUNK = ?c" by simp
  have seg1: "seg m1 0 lo (xs @ (n, False) # ys) 0"
    unfolding m1_def by (rule clear_flag_seg [OF seg bound])
  have frame1: "m1 x = phys s x" if "unat x \<notin> hdrs lo (xs @ (n, True) # ys)" for x
  proof -
    have "unat x \<notin> {lo + span xs..<lo + span xs + 16}" using that by (simp add: hdrs_append)
    then have "unat x < lo + span xs \<or> lo + span xs + 16 \<le> unat x" by auto
    then show ?thesis
      using seg_at(1,2) [OF seg bound] unfolding m1_def by (intro set_byte_other) simp_all
  qed
  obtain m2 ws k where mp: "merge_prev m1 ?c = (m2, of_nat (lo + span ws))"
    and ws: "(ws, k) = (if xs \<noteq> [] \<and> \<not> snd (last xs) then (butlast xs, fst (last xs) + 16 + n) else (xs, n))"
    and seg2: "seg m2 0 lo (ws @ (k, False) # ys) 0"
    and frame2: "\<And>x. unat x \<notin> hdrs lo (xs @ (n, True) # ys) \<Longrightarrow> m2 x = phys s x"
    and sub: "hdrs lo (ws @ (k, False) # ys) \<subseteq> hdrs lo (xs @ (n, True) # ys)"
    and bound2: "lo + span ws + 16 + k + span ys \<le> addr_space"
  proof (cases "xs = [] \<or> snd (last xs)")
    case True
    have "hdrs lo (xs @ (n, False) # ys) \<subseteq> hdrs lo (xs @ (n, True) # ys)"
      using hdrs_set_flag [of lo xs n False ys True] by simp
    with that [of m1 xs n] merge_prev_none [OF seg1 lo bound True] True seg1 frame1 bound show ?thesis
      by auto
  next
    case False
    then obtain vs r where xs: "xs = vs @ [(r, False)]"
      by (metis append_butlast_last_id prod.collapse)
    have seg1': "seg m1 0 lo (vs @ (r, False) # (n, False) # ys) 0" using seg1 by (simp add: xs)
    have bound': "lo + span vs + 32 + r + n + span ys \<le> addr_space" using bound by (simp add: xs)
    have c: "of_nat (lo + span vs + 16 + r) = ?c" by (simp add: xs)
    obtain m' where m': "merge_prev m1 ?c = (m', of_nat (lo + span vs))"
      "seg m' 0 lo (vs @ (r + 16 + n, False) # ys) 0"
      "\<And>x. unat x \<notin> hdrs lo (vs @ (r, False) # (n, False) # ys) \<Longrightarrow> m' x = m1 x"
      using merge_prev_join [OF seg1' lo bound'] unfolding c by blast
    have h: "hdrs lo (vs @ (r, False) # (n, False) # ys) = hdrs lo (xs @ (n, True) # ys)"
      by (simp add: xs hdrs_append)
    show ?thesis
      using that [of m' vs "r + 16 + n"] m' False frame1 bound' hdrs_join_subset [of lo vs r n False ys False False]
      unfolding h by (simp add: xs)
  qed
  define m' where "m' = merge_next m2 (of_nat (lo + span ws))"
  have "free s (of_nat (lo + span xs + 16)) = s\<lparr>phys := m'\<rparr>"
    unfolding free_def Let_def chunk m1_def [symmetric] mp by (simp add: m'_def)
  moreover have afree: "afree xs n ys
      = ws @ (if ys \<noteq> [] \<and> \<not> snd (hd ys) then (k + 16 + fst (hd ys), False) # tl ys else (k, False) # ys)"
    unfolding afree_def ws [symmetric] by simp
  have "seg m' 0 lo (afree xs n ys) 0"
    unfolding afree m'_def by (rule merge_next_seg(1) [OF seg2 lo bound2])
  then have "heap_rep (s\<lparr>phys := m'\<rparr>) lo (afree xs n ys)"
    using rep coalesced_afree [OF coal] span_afree [of xs n ys True]
    by (auto simp: heap_rep_def afree)
  moreover have "m' x = phys s x" if "unat x \<notin> hdrs lo (xs @ (n, True) # ys)" for x
    unfolding m'_def using merge_next_seg(2) [OF seg2 lo bound2, of x] that sub frame2 by auto
  ultimately show ?thesis by (rule that)
qed


subsection \<open>What the caller owns\<close>

lemma amalloc_owned:
  assumes "amalloc sz a cs = Some (p, cs')"
  shows "{p..<p + sz} \<subseteq> owned a cs'" and "owned a cs \<subseteq> owned a cs'"
    and "{p..<p + sz} \<inter> owned a cs = {}" and "a + 16 \<le> p" and "p + sz < a + span cs"
proof -
  obtain xs s ys where *: "cs = xs @ (s, False) # ys" "sz < s" "p = a + span xs + 16"
    "cs' = xs @ (if sz + 17 \<le> s then (sz, True) # (s - sz - 16, False) # ys else (s, True) # ys)"
    using amalloc_Some [OF assms] by blast
  have "a + span xs + 16 + sz + 16 + (s - sz - 16) = a + span xs + 16 + s" if "sz + 17 \<le> s"
    using that by simp
  then show "{p..<p + sz} \<subseteq> owned a cs'" "owned a cs \<subseteq> owned a cs'"
    using *(2) by (auto simp: *(1,3,4) owned_append ac_simps)
  show "{p..<p + sz} \<inter> owned a cs = {}"
    using *(2) by (auto simp: *(1,3) owned_append dest!: owned_bounds)
  show "a + 16 \<le> p" "p + sz < a + span cs" using *(2) by (auto simp: *(1,3))
qed

text \<open>The heap tolerates every write to memory that its users own, and every write outside it.\<close>

lemma heap_rep_frame:
  assumes "heap_rep s lo cs" and "\<And>x. unat x \<in> hdrs lo cs \<Longrightarrow> m' x = phys s x"
  shows "heap_rep (s\<lparr>phys := m'\<rparr>) lo cs"
  using assms seg_cong [of lo cs m' "phys s" 0 0] by (simp add: heap_rep_def)

lemma heap_rep_user_write:
  assumes "heap_rep s lo cs" and "\<And>x. unat x \<notin> owned lo cs \<Longrightarrow> m' x = phys s x"
  shows "heap_rep (s\<lparr>phys := m'\<rparr>) lo cs"
  using assms owned_hdrs_disjoint [of lo cs] by (intro heap_rep_frame) auto

lemma heap_rep_cong:
  assumes "phys s' = phys s" and "first s' = first s"
  shows "heap_rep s' lo cs = heap_rep s lo cs"
  using assms by (simp add: heap_rep_def)

text \<open>Releasing what was just allocated restores the abstract heap.\<close>

lemma afree_amalloc:
  assumes am: "amalloc sz a cs = Some (p, cs')" and "coalesced cs"
  obtains xs n ys where "cs' = xs @ (n, True) # ys" "p = a + span xs + 16" "afree xs n ys = cs"
proof -
  obtain xs s ys where *: "cs = xs @ (s, False) # ys" "sz < s" "p = a + span xs + 16"
    "cs' = xs @ (if sz + 17 \<le> s then (sz, True) # (s - sz - 16, False) # ys else (s, True) # ys)"
    using amalloc_Some [OF am] by blast
  have c: "xs = [] \<or> snd (last xs)" "ys = [] \<or> snd (hd ys)"
    using assms(2) by (auto simp: * coalesced_append coalesced_Cons)
  show ?thesis
  proof (cases "sz + 17 \<le> s")
    case True
    then show ?thesis
      using that [of xs sz "(s - sz - 16, False) # ys"] c * by (auto simp: afree_def)
  next
    case False
    then show ?thesis using that [of xs s ys] c * by (auto simp: afree_def)
  qed
qed

section \<open>The contract of an allocator\<close>

text \<open>
  What the rest of the kernel relies on (the shared-object loader and \<^verbatim>\<open>malloc_aligned\<close> call
  \<^verbatim>\<open>malloc\<close>): a call returns; a non-null result is a block of the requested size that no
  caller owns yet; nothing that is owned is modified; and users may write what they own.
\<close>

locale allocator =
  fixes inv :: "'s \<Rightarrow> nat set \<Rightarrow> bool"
    and memory :: "'s \<Rightarrow> mem"
    and with_memory :: "'s \<Rightarrow> mem \<Rightarrow> 's"
    and alloc :: "'s \<Rightarrow> u32 \<Rightarrow> (u32 \<times> 's) option"
  assumes alloc_returns: "inv s own \<Longrightarrow> \<exists>p s'. alloc s n = Some (p, s')"
    and alloc_null: "inv s own \<Longrightarrow> alloc s n = Some (0, s') \<Longrightarrow> s' = s"
    and alloc_block: "inv s own \<Longrightarrow> alloc s n = Some (p, s') \<Longrightarrow> p \<noteq> 0 \<Longrightarrow>
      \<exists>own'. inv s' own' \<and> own \<union> {unat p..<unat p + unat n} \<subseteq> own'
        \<and> {unat p..<unat p + unat n} \<inter> own = {} \<and> unat p + unat n < addr_space
        \<and> (\<forall>x. unat x \<in> own \<longrightarrow> memory s' x = memory s x)"
    and user_write: "inv s own \<Longrightarrow> (\<And>x. unat x \<notin> own \<Longrightarrow> m x = memory s x) \<Longrightarrow> inv (with_memory s m) own"
    and memory_with: "memory (with_memory s m) = m"
begin

text \<open>Two live blocks never overlap, and the second call leaves the contents of the first.\<close>

lemma two_blocks:
  assumes "inv s own" and "alloc s n = Some (p, s1)" and "p \<noteq> 0"
    and "alloc (with_memory s1 m) k = Some (q, s2)" and "q \<noteq> 0"
    and "\<And>x. unat x \<notin> {unat p..<unat p + unat n} \<Longrightarrow> m x = memory s1 x"
  shows "{unat p..<unat p + unat n} \<inter> {unat q..<unat q + unat k} = {}"
    and "unat x \<in> {unat p..<unat p + unat n} \<Longrightarrow> memory s2 x = m x"
    and "\<exists>own'. inv s2 own'"
proof -
  obtain own1 where 1: "inv s1 own1" "{unat p..<unat p + unat n} \<subseteq> own1"
    using alloc_block [OF assms(1-3)] by auto
  have "m x = memory s1 x" if "unat x \<notin> own1" for x
    by (rule assms(6)) (use 1(2) that in blast)
  with 1(1) have w: "inv (with_memory s1 m) own1" by (rule user_write)
  obtain own2 where 2: "inv s2 own2" "{unat q..<unat q + unat k} \<inter> own1 = {}"
    "\<forall>x. unat x \<in> own1 \<longrightarrow> memory s2 x = m x"
    using alloc_block [OF w assms(4,5)] by (auto simp: memory_with)
  from 1(2) 2(2) show "{unat p..<unat p + unat n} \<inter> {unat q..<unat q + unat k} = {}" by blast
  from 1(2) 2(3) show "unat x \<in> {unat p..<unat p + unat n} \<Longrightarrow> memory s2 x = m x" by blast
  from 2(1) show "\<exists>own'. inv s2 own'" ..
qed

end

text \<open>The kernel heap provides it; the bytes owned are those of the allocated chunks.\<close>

definition heap_inv :: "('a mm_scheme) \<Rightarrow> nat set \<Rightarrow> bool" where
  "heap_inv s own \<longleftrightarrow> (\<exists>lo cs. heap_rep s lo cs \<and> own = owned lo cs)"

lemma heap_inv_cases:
  assumes "heap_inv s own"
  obtains lo cs where "heap_rep s lo cs" "own = owned lo cs"
  using assms by (auto simp: heap_inv_def)

lemma malloc_cases:
  assumes "heap_rep s lo cs"
  obtains "amalloc (unat sz) lo cs = None" "malloc s sz = Some (0, s)"
  | p cs' m' where "amalloc (unat sz) lo cs = Some (p, cs')" "0 < p" "p + unat sz < addr_space"
      "malloc s sz = Some (of_nat p, s\<lparr>phys := m'\<rparr>)" "heap_rep (s\<lparr>phys := m'\<rparr>) lo cs'"
      "\<And>x. unat x \<in> owned lo cs \<Longrightarrow> m' x = phys s x"
proof (cases "amalloc (unat sz) lo cs")
  case None
  then show ?thesis using malloc_None [OF assms] that(1) by blast
next
  case (Some r)
  obtain p cs' where r: "r = (p, cs')" by (cases r)
  have "0 < p" "p + unat sz < addr_space"
    using amalloc_owned(4,5) [OF Some [unfolded r]] assms by (simp_all add: heap_rep_def)
  then show ?thesis using malloc_Some [OF assms Some [unfolded r]] that(2) Some r by metis
qed

interpretation heap: allocator heap_inv phys "\<lambda>s m. s\<lparr>phys := m\<rparr>" malloc
proof
  fix s :: "'a mm_scheme" and own n
  assume "heap_inv s own"
  then obtain lo cs where rep: "heap_rep s lo cs" and own: "own = owned lo cs" by (rule heap_inv_cases)
  from rep show "\<exists>p s'. malloc s n = Some (p, s')" by (rule malloc_cases [of s lo cs n]) auto
  show "s' = s" if "malloc s n = Some (0, s')" for s'
    using rep
  proof (cases rule: malloc_cases [of s lo cs n])
    case (2 p cs' m')
    then have "(of_nat p :: u32) \<noteq> 0" by (intro of_nat_u32_nonzero) linarith+
    with 2 that show ?thesis by simp
  qed (use that in simp)
  show "\<exists>own'. heap_inv s' own' \<and> own \<union> {unat p..<unat p + unat n} \<subseteq> own'
        \<and> {unat p..<unat p + unat n} \<inter> own = {} \<and> unat p + unat n < addr_space
        \<and> (\<forall>x. unat x \<in> own \<longrightarrow> phys s' x = phys s x)"
    if "malloc s n = Some (p, s')" "p \<noteq> 0" for p s'
    using rep
  proof (cases rule: malloc_cases [of s lo cs n])
    case (2 q cs' m')
    then have p: "p = of_nat q" "s' = s\<lparr>phys := m'\<rparr>" "unat (of_nat q :: u32) = q" using that by simp_all
    show ?thesis
      unfolding own p using amalloc_owned [OF 2(1)] 2
      by (intro exI [of _ "owned lo cs'"]) (auto simp: heap_inv_def p(3))
  qed (use that in simp)
  show "heap_inv (s\<lparr>phys := m\<rparr>) own" if "\<And>x. unat x \<notin> own \<Longrightarrow> m x = phys s x" for m
    unfolding heap_inv_def using heap_rep_user_write [OF rep, of m] that own by auto
qed simp

section \<open>Every run of the heap\<close>

text \<open>The live blocks of an abstract heap: payload address and size of each allocated chunk.\<close>

fun blocks :: "nat \<Rightarrow> achunk list \<Rightarrow> (nat \<times> nat) set" where
  "blocks a [] = {}"
| "blocks a ((s, al) # cs) = (if al then {(a + 16, s)} else {}) \<union> blocks (a + 16 + s) cs"

lemma blocks_append: "blocks a (xs @ ys) = blocks a xs \<union> blocks (a + span xs) ys"
  by (induction a xs rule: blocks.induct) (auto simp: add.assoc)

lemma blocks_bounds: "(b, n) \<in> blocks a cs \<Longrightarrow> a + 16 \<le> b \<and> b + n \<le> a + span cs"
  by (induction a cs rule: blocks.induct) (force simp: add.assoc split: if_splits)+

lemma blocks_owned: "(b, n) \<in> blocks a cs \<Longrightarrow> {b..<b + n} \<subseteq> owned a cs"
  by (induction a cs rule: blocks.induct) (auto split: if_splits)

lemma owned_blocks: "x \<in> owned a cs \<Longrightarrow> \<exists>b n. (b, n) \<in> blocks a cs \<and> b \<le> x \<and> x < b + n"
  by (induction a cs rule: blocks.induct) (fastforce split: if_splits)+

lemma blocks_disjoint:
  "(b, n) \<in> blocks a cs \<Longrightarrow> (c, k) \<in> blocks a cs \<Longrightarrow> (b, n) = (c, k) \<or> b + n + 16 \<le> c \<or> c + k + 16 \<le> b"
proof (induction a cs rule: blocks.induct)
  case (2 a s al cs)
  then show ?case
    using blocks_bounds [of b n "a + 16 + s" cs] blocks_bounds [of c k "a + 16 + s" cs]
    by (auto split: if_splits)
qed simp

lemma blocks_split:
  assumes "(b, n) \<in> blocks a cs"
  obtains xs ys where "cs = xs @ (n, True) # ys" "b = a + span xs + 16"
  using assms
proof (induction a cs arbitrary: thesis rule: blocks.induct)
  case (2 a s al cs)
  show ?case
  proof (cases "al \<and> (b, n) = (a + 16, s)")
    case True
    then show ?thesis using "2.prems"(1) [of "[]" cs] by simp
  next
    case False
    then have "(b, n) \<in> blocks (a + 16 + s) cs" using "2.prems"(2) by (auto split: if_splits)
    then obtain xs ys where "cs = xs @ (n, True) # ys" "b = a + 16 + s + span xs + 16"
      using "2.IH" by blast
    then show ?thesis using "2.prems"(1) [of "(s, al) # xs" ys] by simp
  qed
qed simp

lemma blocks_amalloc:
  assumes "amalloc sz a cs = Some (p, cs')"
  obtains k where "sz \<le> k" "blocks a cs' = insert (p, k) (blocks a cs)" "p \<notin> fst ` blocks a cs"
proof -
  obtain xs s ys where *: "cs = xs @ (s, False) # ys" "sz < s" "p = a + span xs + 16"
    "cs' = xs @ (if sz + 17 \<le> s then (sz, True) # (s - sz - 16, False) # ys else (s, True) # ys)"
    using amalloc_Some [OF assms] by blast
  have "p \<notin> fst ` blocks a cs"
    using *(2) by (auto simp: *(1,3) blocks_append dest!: blocks_bounds)
  moreover have "blocks a cs' = insert (p, if sz + 17 \<le> s then sz else s) (blocks a cs)"
    by (auto simp: *(1,3,4) blocks_append ac_simps)
  ultimately show ?thesis using that [of "if sz + 17 \<le> s then sz else s"] *(2) by simp
qed

lemma blocks_afree:
  "blocks a (afree xs n ys) = blocks a (xs @ (n, True) # ys) - {(a + span xs + 16, n)}"
proof -
  have rest: "blocks a (xs @ (n, True) # ys) - {(a + span xs + 16, n)}
      = blocks a xs \<union> blocks (a + span xs + 16 + n) ys"
    by (auto simp: blocks_append dest!: blocks_bounds)
  show ?thesis
    unfolding rest
  proof (cases xs rule: rev_cases)
    case Nil
    then show "blocks a (afree xs n ys) = blocks a xs \<union> blocks (a + span xs + 16 + n) ys"
      by (cases ys) (auto simp: afree_def ac_simps)
  next
    case (snoc ws w)
    then show "blocks a (afree xs n ys) = blocks a xs \<union> blocks (a + span xs + 16 + n) ys"
      by (cases ys; cases w; cases "snd w") (auto simp: afree_def blocks_append ac_simps)
  qed
qed

lemma no_blocks_single:
  assumes "coalesced cs" and "blocks a cs = {}" and "cs \<noteq> []"
  shows "\<exists>s. cs = [(s, False)]"
  using assms
proof (induction a cs rule: blocks.induct)
  case (2 a s al cs)
  then show ?case by (cases cs) (auto simp: coalesced_Cons split: if_splits)
qed simp

text \<open>
  A run of the heap from \<^verbatim>\<open>heap_init\<close>, with the blocks its users hold (pointer and requested
  size): they call \<^verbatim>\<open>malloc\<close>, they \<^verbatim>\<open>free\<close> a pointer they hold, and they write the
  blocks they hold.
\<close>

inductive heap_run :: "u32 \<Rightarrow> u32 \<Rightarrow> 'a mm_scheme \<Rightarrow> (u32 \<times> u32) set \<Rightarrow> bool" for start sz where
  run_init: "heap_run start sz (heap_init s start sz) {}"
| run_malloc: "heap_run start sz s live \<Longrightarrow> malloc s n = Some (p, s') \<Longrightarrow>
    heap_run start sz s' (if p = 0 then live else insert (p, n) live)"
| run_free: "heap_run start sz s live \<Longrightarrow> (p, n) \<in> live \<Longrightarrow>
    heap_run start sz (free s p) (live - {(p, n)})"
| run_write: "heap_run start sz s live \<Longrightarrow> (p, n) \<in> live \<Longrightarrow> i < unat n \<Longrightarrow>
    heap_run start sz (s\<lparr>phys := (phys s)(p + of_nat i := v)\<rparr>) live"

lemma heap_init_rep:
  assumes "start \<noteq> 0" and "16 \<le> sz" and "unat start + unat sz + 17 \<le> addr_space"
  shows "heap_rep (heap_init s start sz) (unat start) [(unat sz - 16, False)]"
proof -
  have sz: "16 \<le> unat sz" and not: "\<not> sz < 16"
    using assms(2) by (simp_all add: word_le_nat_alt not_less)
  then have ok: "chunk_ok start" using assms(3) by (simp add: chunk_ok_def)
  have size: "sz - 16 = of_nat (unat sz - 16)" using sz by (simp add: of_nat_diff)
  define m' where "m' = phys (heap_init s start sz)"
  have m': "m' = set_size (set_next (set_prev (set_allocated (phys s) start 0) start 0) start 0) start
      (of_nat (unat sz - 16))" and first: "first (heap_init s start sz) = start"
    using not by (simp_all add: m'_def heap_init_def Let_def size)
  have "chunk_prev m' start = 0" "chunk_next m' start = 0" "chunk_allocated m' start = 0"
    "chunk_size m' start = of_nat (unat sz - 16)"
    unfolding m' using ok by (simp_all only: chunk_simps)
  then have seg: "seg m' 0 (unat start) [(unat sz - 16, False)] 0" by simp
  have "0 < unat start" using assms(1) by (simp add: unat_gt_0)
  then show ?thesis
    using seg first sz assms(3) by (simp add: heap_rep_def m'_def)
qed

text \<open>The live pointers of a run are the allocated chunks, one each.\<close>

definition live_match :: "(u32 \<times> u32) set \<Rightarrow> (nat \<times> nat) set \<Rightarrow> bool" where
  "live_match live bs \<longleftrightarrow>
     (\<forall>(p, n) \<in> live. \<exists>k. (unat p, k) \<in> bs \<and> unat n \<le> k)
     \<and> (\<forall>(b, k) \<in> bs. \<exists>(p, n) \<in> live. unat p = b)
     \<and> (\<forall>(p, n) \<in> live. \<forall>(q, l) \<in> live. p = q \<longrightarrow> n = l)"

lemma live_matchD:
  assumes "live_match live bs"
  shows "(p, n) \<in> live \<Longrightarrow> \<exists>k. (unat p, k) \<in> bs \<and> unat n \<le> k"
    and "(b, k) \<in> bs \<Longrightarrow> \<exists>p n. (p, n) \<in> live \<and> unat p = b"
    and "(p, n) \<in> live \<Longrightarrow> (p, l) \<in> live \<Longrightarrow> n = l"
  using assms unfolding live_match_def by blast+

lemma live_matchI:
  assumes "\<And>p n. (p, n) \<in> live \<Longrightarrow> \<exists>k. (unat p, k) \<in> bs \<and> unat n \<le> k"
    and "\<And>b k. (b, k) \<in> bs \<Longrightarrow> \<exists>p n. (p, n) \<in> live \<and> unat p = b"
    and "\<And>p n l. (p, n) \<in> live \<Longrightarrow> (p, l) \<in> live \<Longrightarrow> n = l"
  shows "live_match live bs"
  unfolding live_match_def using assms by blast

lemma live_match_insert:
  assumes live: "live_match live bs" and fresh: "unat p \<notin> fst ` bs" and "unat n \<le> k"
  shows "live_match (insert (p, n) live) (insert (unat p, k) bs)"
proof (rule live_matchI)
  have new: "(p, l) \<notin> live" for l
    using live_matchD(1) [OF live, of p l] fresh by (force simp: image_iff)
  show "m = l" if "(q, m) \<in> insert (p, n) live" "(q, l) \<in> insert (p, n) live" for q m l
    using that new live_matchD(3) [OF live, of q m l] by auto
  show "\<exists>j. (unat q, j) \<in> insert (unat p, k) bs \<and> unat m \<le> j" if "(q, m) \<in> insert (p, n) live" for q m
    using that live_matchD(1) [OF live, of q m] assms(3) by auto
  show "\<exists>q m. (q, m) \<in> insert (p, n) live \<and> unat q = b" if "(b, j) \<in> insert (unat p, k) bs" for b j
    using that live_matchD(2) [OF live, of b j] by blast
qed

lemma live_match_delete:
  assumes live: "live_match live bs" and p: "(p, n) \<in> live" and uniq: "\<And>l. (unat p, l) \<in> bs \<Longrightarrow> l = k"
  shows "live_match (live - {(p, n)}) (bs - {(unat p, k)})"
proof (rule live_matchI)
  show "m = l" if "(q, m) \<in> live - {(p, n)}" "(q, l) \<in> live - {(p, n)}" for q m l
    using that live_matchD(3) [OF live, of q m l] by blast
  show "\<exists>j. (unat q, j) \<in> bs - {(unat p, k)} \<and> unat l \<le> j" if q: "(q, l) \<in> live - {(p, n)}" for q l
  proof -
    have "q \<noteq> p" using q live_matchD(3) [OF live p, of l] by auto
    then have "unat q \<noteq> unat p" by (simp add: unat_eq_iff_eq)
    then show ?thesis using live_matchD(1) [OF live, of q l] q by blast
  qed
  show "\<exists>q l. (q, l) \<in> live - {(p, n)} \<and> unat q = b" if b: "(b, j) \<in> bs - {(unat p, k)}" for b j
  proof -
    obtain q l where q: "(q, l) \<in> live" "unat q = b" using live_matchD(2) [OF live, of b j] b by blast
    moreover have "q \<noteq> p" using q(2) b uniq by auto
    ultimately show ?thesis by blast
  qed
qed

lemma heap_run_rep:
  assumes "heap_run start sz s live"
    and "start \<noteq> 0" and "16 \<le> sz" and "unat start + unat sz + 17 \<le> addr_space"
  shows "\<exists>cs. heap_rep s (unat start) cs \<and> span cs = unat sz \<and> live_match live (blocks (unat start) cs)"
  using assms(1)
proof induction
  case (run_init s)
  then show ?case
    using heap_init_rep [OF assms(2-4), of s] assms(3)
    by (intro exI [of _ "[(unat sz - 16, False)]"]) (simp add: live_match_def word_le_nat_alt)
next
  case (run_malloc s live n p s')
  then obtain cs where cs: "heap_rep s (unat start) cs" "span cs = unat sz"
    "live_match live (blocks (unat start) cs)" by blast
  from cs(1) show ?case
  proof (cases rule: malloc_cases [of s "unat start" cs n])
    case 1
    then show ?thesis using run_malloc.hyps cs by auto
  next
    case (2 q cs' m')
    then have p: "s' = s\<lparr>phys := m'\<rparr>" "unat p = q" "p \<noteq> 0"
      using run_malloc.hyps(2) of_nat_u32_nonzero [of q] by auto
    obtain k where k: "unat n \<le> k" "blocks (unat start) cs' = insert (q, k) (blocks (unat start) cs)"
      "q \<notin> fst ` blocks (unat start) cs" by (rule blocks_amalloc [OF 2(1)])
    have "live_match (insert (p, n) live) (blocks (unat start) cs')"
      unfolding k(2) p(2) [symmetric] using k(3) p(2) by (intro live_match_insert [OF cs(3) _ k(1)]) simp
    then show ?thesis
      using 2 p span_amalloc [OF 2(1)] cs(2) by (intro exI [of _ cs']) simp
  qed
next
  case (run_free s live p n)
  then obtain cs where cs: "heap_rep s (unat start) cs" "span cs = unat sz"
    "live_match live (blocks (unat start) cs)" by blast
  then obtain k where k: "(unat p, k) \<in> blocks (unat start) cs" "unat n \<le> k"
    using run_free.hyps(2) unfolding live_match_def by blast
  obtain xs ys where xs: "cs = xs @ (k, True) # ys" "unat p = unat start + span xs + 16"
    by (rule blocks_split [OF k(1)])
  have "p = of_nat (unat start + span xs + 16)" unfolding xs(2) [symmetric] by simp
  then obtain m' where m': "free s p = s\<lparr>phys := m'\<rparr>" "heap_rep (s\<lparr>phys := m'\<rparr>) (unat start) (afree xs k ys)"
    using free_refines [OF cs(1) [unfolded xs(1)]] by metis
  have uniq: "l = k" if "(unat p, l) \<in> blocks (unat start) cs" for l
    using blocks_disjoint [OF that k(1)] by auto
  have "live_match (live - {(p, n)}) (blocks (unat start) (afree xs k ys))"
    unfolding blocks_afree xs(1) [symmetric] xs(2) [symmetric]
    by (rule live_match_delete [OF cs(3) run_free.hyps(2) uniq])
  then show ?case
    using m' cs(2) span_afree [of xs k ys True] xs(1) by (intro exI [of _ "afree xs k ys"]) simp
next
  case (run_write s live p n i v)
  then obtain cs where cs: "heap_rep s (unat start) cs" "span cs = unat sz"
    "live_match live (blocks (unat start) cs)" by blast
  then obtain k where k: "(unat p, k) \<in> blocks (unat start) cs" "unat n \<le> k"
    using run_write.hyps(2) unfolding live_match_def by blast
  have "unat p + k < addr_space" using blocks_bounds [OF k(1)] cs assms(4) by simp
  then have "unat (p + of_nat i) = unat p + i"
    using run_write.hyps(3) k(2) by (intro unat_plus_of_nat) linarith
  then have "unat (p + of_nat i) \<in> owned (unat start) cs"
    using blocks_owned [OF k(1)] run_write.hyps(3) k(2) by auto
  then have "heap_rep (s\<lparr>phys := (phys s)(p + of_nat i := v)\<rparr>) (unat start) cs"
    by (intro heap_rep_user_write [OF cs(1)]) auto
  then show ?case using cs(2,3) by blast
qed

lemma heap_run_block:
  assumes "heap_rep s (unat start) cs" and "span cs = unat sz"
    and "live_match live (blocks (unat start) cs)" and "(p, n) \<in> live"
  obtains k where "(unat p, k) \<in> blocks (unat start) cs" "unat n \<le> k"
    "unat start + 16 \<le> unat p" "unat p + k \<le> unat start + unat sz"
proof -
  obtain k where "(unat p, k) \<in> blocks (unat start) cs" "unat n \<le> k"
    using live_matchD(1) [OF assms(3,4)] by blast
  with blocks_bounds [OF this(1)] assms(2) that show ?thesis by metis
qed

section \<open>Properties\<close>

text \<open>A small heap: 256 bytes at 0x1000.\<close>

definition demo_heap :: mm where
  "demo_heap = heap_init \<lparr>phys = \<lambda>_. 0, trace = [], memory_map = 0, max_blocks = 0, used_blocks = 0, first = 0\<rparr> 0x1000 0x100"

lemma demo_rep: "heap_rep demo_heap 4096 [(240, False)]"
  unfolding demo_heap_def by (rule heap_init_rep [of "0x1000" "0x100", simplified])

text \<open>
  C2: \<^verbatim>\<open>malloc\<close> on a well-formed heap returns, and is the first-fit operation on the list of
  chunks: null and an unchanged state if no free chunk is larger than the request; otherwise the
  payload of the first such chunk, split when a header and a byte fit behind the block, with a
  well-formed heap again and every byte that a caller owns unchanged.
\<close>
theorem malloc_refines_first_fit:
  assumes "heap_rep s lo cs"
  shows "case amalloc (unat n) lo cs of
      None \<Rightarrow> malloc s n = Some (0, s)
    | Some (p, cs') \<Rightarrow> p \<noteq> 0 \<and> (\<exists>m'. malloc s n = Some (of_nat p, s\<lparr>phys := m'\<rparr>)
        \<and> heap_rep (s\<lparr>phys := m'\<rparr>) lo cs' \<and> (\<forall>x. unat x \<in> owned lo cs \<longrightarrow> m' x = phys s x))"
  using assms by (cases rule: malloc_cases [of s lo cs n]) auto

lemma malloc_refines_first_fit_witness:
  "malloc demo_heap 240 = Some (0, demo_heap)
   \<and> (\<exists>m'. malloc demo_heap 32 = Some (4112, demo_heap\<lparr>phys := m'\<rparr>)
        \<and> heap_rep (demo_heap\<lparr>phys := m'\<rparr>) 4096 [(32, True), (192, False)])"
  using malloc_refines_first_fit [OF demo_rep, of 240] malloc_refines_first_fit [OF demo_rep, of 32] by simp

text \<open>
  C3: \<^verbatim>\<open>free\<close> of the payload of an allocated chunk refines the abstract release: the chunk
  becomes free and is merged with a free predecessor and a free successor, the heap stays
  well-formed, and every byte owned by the other allocated chunks keeps its value.
\<close>
theorem free_refines_merge:
  assumes "heap_rep s lo (xs @ (n, True) # ys)"
  shows "\<exists>m'. free s (of_nat (lo + span xs + 16)) = s\<lparr>phys := m'\<rparr>
    \<and> heap_rep (s\<lparr>phys := m'\<rparr>) lo (afree xs n ys)
    \<and> (\<forall>x. unat x \<in> owned lo (xs @ (n, True) # ys) \<longrightarrow> m' x = phys s x)"
proof -
  obtain m' where m': "free s (of_nat (lo + span xs + 16)) = s\<lparr>phys := m'\<rparr>"
    "heap_rep (s\<lparr>phys := m'\<rparr>) lo (afree xs n ys)"
    "\<And>x. unat x \<notin> hdrs lo (xs @ (n, True) # ys) \<Longrightarrow> m' x = phys s x"
    using free_refines [OF assms] by blast
  then show ?thesis using owned_hdrs_disjoint [of lo "xs @ (n, True) # ys"] by blast
qed

lemma free_refines_merge_witness:
  "\<exists>(s :: mm) m'. heap_rep s 4096 [(32, True), (192, False)] \<and> free s 4112 = s\<lparr>phys := m'\<rparr>
    \<and> heap_rep (s\<lparr>phys := m'\<rparr>) 4096 [(240, False)]"
proof -
  obtain m where rep: "heap_rep (demo_heap\<lparr>phys := m\<rparr>) 4096 ([] @ (32, True) # [(192, False)])"
    using malloc_Some [OF demo_rep, of 32 4112 "[(32, True), (192, False)]"] by auto
  from free_refines_merge [OF this] show ?thesis
    using rep by (intro exI [of _ "demo_heap\<lparr>phys := m\<rparr>"]) (auto simp: afree_def)
qed

text \<open>
  C5: \<^verbatim>\<open>free(malloc(n))\<close> gives back exactly the heap before the call: the same list of chunks.
\<close>
theorem malloc_free_roundtrip:
  assumes "heap_rep s lo cs" and "malloc s n = Some (p, s')" and "p \<noteq> 0"
  shows "heap_rep (free s' p) lo cs"
  using assms(1)
proof (cases rule: malloc_cases [of s lo cs n])
  case 1
  then show ?thesis using assms(2,3) by simp
next
  case (2 q cs' m')
  then have s': "s' = s\<lparr>phys := m'\<rparr>" and p: "p = of_nat q" using assms(2) by simp_all
  have "coalesced cs" using assms(1) by (simp add: heap_rep_def)
  then obtain xs k ys where *: "cs' = xs @ (k, True) # ys" "q = lo + span xs + 16" "afree xs k ys = cs"
    by (rule afree_amalloc [OF 2(1)])
  show ?thesis
    using free_refines [of s' lo xs k ys] 2(5) unfolding s' p * by metis
qed

lemma malloc_free_roundtrip_witness:
  "\<exists>p s'. malloc demo_heap 32 = Some (p, s') \<and> heap_rep (free s' p) 4096 [(240, False)]"
proof -
  obtain m' where m': "malloc demo_heap 32 = Some (4112, demo_heap\<lparr>phys := m'\<rparr>)"
    using malloc_Some [OF demo_rep, of 32 4112 "[(32, True), (192, False)]"] by auto
  show ?thesis using malloc_free_roundtrip [OF demo_rep m'] m' by auto
qed

text \<open>
  C1: In every run of the heap (allocations, releases of held blocks, writes into held blocks, in
  any order) the blocks held lie inside the heap, behind its first header, and never overlap:
  between two of them there is room for a header.
\<close>
theorem heap_run_blocks_disjoint:
  assumes "heap_run start sz s live" and "start \<noteq> 0" and "16 \<le> sz"
    and "unat start + unat sz + 17 \<le> addr_space" and "(p, n) \<in> live" and "(q, l) \<in> live"
  shows "unat start + 16 \<le> unat p \<and> unat p + unat n \<le> unat start + unat sz
    \<and> ((p, n) = (q, l) \<or> unat p + unat n + 16 \<le> unat q \<or> unat q + unat l + 16 \<le> unat p)"
proof -
  obtain cs where cs: "heap_rep s (unat start) cs" "span cs = unat sz" "live_match live (blocks (unat start) cs)"
    using heap_run_rep [OF assms(1-4)] by blast
  obtain k where k: "(unat p, k) \<in> blocks (unat start) cs" "unat n \<le> k" "unat start + 16 \<le> unat p"
    "unat p + k \<le> unat start + unat sz" by (rule heap_run_block [OF cs assms(5)])
  obtain j where j: "(unat q, j) \<in> blocks (unat start) cs" "unat l \<le> j"
    by (rule heap_run_block [OF cs assms(6)])
  show ?thesis
  proof (cases "p = q")
    case True
    then show ?thesis using live_matchD(3) [OF cs(3) assms(5), of l] assms(6) k by simp
  next
    case False
    then have "unat p \<noteq> unat q" by (simp add: unat_eq_iff_eq)
    then show ?thesis using blocks_disjoint [OF k(1) j(1)] k j by auto
  qed
qed

text \<open>
  C4: When every block is released the heap is one free chunk again, whatever the order of the
  calls: nothing is lost to fragmentation.
\<close>
theorem heap_run_no_leak:
  assumes "heap_run start sz s {}" and "start \<noteq> 0" and "16 \<le> sz"
    and "unat start + unat sz + 17 \<le> addr_space"
  shows "heap_rep s (unat start) [(unat sz - 16, False)]"
proof -
  obtain cs where cs: "heap_rep s (unat start) cs" "span cs = unat sz" "live_match {} (blocks (unat start) cs)"
    using heap_run_rep [OF assms] by blast
  have "blocks (unat start) cs = {}" using live_matchD(2) [OF cs(3)] by auto
  then obtain k where "cs = [(k, False)]" using no_blocks_single [of cs] cs(1) by (auto simp: heap_rep_def)
  with cs(1,2) show ?thesis by (cases "unat sz") auto
qed

text \<open>Both run properties at a run that allocates two blocks and releases the first.\<close>

lemma demo_run:
  obtains s :: mm where "heap_run 0x1000 0x100 s {(4112, 32), (4160, 16)}"
proof -
  obtain m1 where m1: "malloc demo_heap 32 = Some (4112, demo_heap\<lparr>phys := m1\<rparr>)"
    "heap_rep (demo_heap\<lparr>phys := m1\<rparr>) 4096 [(32, True), (192, False)]"
    using malloc_Some [OF demo_rep, of 32 4112 "[(32, True), (192, False)]"] by auto
  obtain m2 where m2: "malloc (demo_heap\<lparr>phys := m1\<rparr>) 16 = Some (4160, demo_heap\<lparr>phys := m2\<rparr>)"
    using malloc_Some [OF m1(2), of 16 4160 "[(32, True), (16, True), (160, False)]"] by auto
  have "heap_run 0x1000 0x100 demo_heap {}" unfolding demo_heap_def by (rule run_init)
  from run_malloc [OF this m1(1)] have "heap_run 0x1000 0x100 (demo_heap\<lparr>phys := m1\<rparr>) {(4112, 32)}" by simp
  from run_malloc [OF this m2] show ?thesis using that by (simp add: insert_commute)
qed

lemma heap_run_blocks_disjoint_witness:
  "\<exists>s :: mm. heap_run 0x1000 0x100 s {(4112, 32), (4160, 16)} \<and> unat (4112 :: u32) + 32 + 16 \<le> unat (4160 :: u32)"
proof -
  obtain s :: mm where s: "heap_run 0x1000 0x100 s {(4112, 32), (4160, 16)}" by (rule demo_run)
  with heap_run_blocks_disjoint [OF s, of 4112 32 4160 16] show ?thesis by auto
qed

lemma heap_run_no_leak_witness:
  "\<exists>s :: mm. heap_run 0x1000 0x100 s {} \<and> heap_rep s 4096 [(240, False)]"
proof -
  obtain s :: mm where s: "heap_run 0x1000 0x100 s {(4112, 32), (4160, 16)}" by (rule demo_run)
  from run_free [OF run_free [OF s, of 4112 32], of 4160 16]
  have "heap_run 0x1000 0x100 (free (free s 4112) 4160) {}" by (simp add: insert_Diff_if)
  with heap_run_no_leak [OF this] show ?thesis by auto
qed

lemma malloc_aligned_Some:
  assumes rep: "heap_rep s lo cs" and k: "k < 32" and fits: "unat sz + 2 ^ k + 3 < addr_space"
    and am: "amalloc (unat sz + 2 ^ k + 3) lo cs = Some (p, cs')"
  obtains q m where "malloc_aligned s (2 ^ k) sz = Some (q, s\<lparr>phys := m\<rparr>)" "unat q mod 2 ^ k = 0"
    "p + 4 \<le> unat q" "unat q + unat sz \<le> p + (unat sz + 2 ^ k + 3)" "heap_rep (s\<lparr>phys := m\<rparr>) lo cs'"
    "\<And>x. unat x \<in> owned lo cs \<or> unat x < lo \<or> lo + span cs \<le> unat x \<Longrightarrow> m x = phys s x"
proof -
  define n where "n = sz + 2 ^ k - 1 + 4"
  have n3: "n = of_nat (unat sz + 2 ^ k + 3)" by (simp add: n_def)
  have un: "unat n = unat sz + 2 ^ k + 3" unfolding n3 by (rule unat_of_nat_u32 [OF fits])
  have am': "amalloc (unat n) lo cs = Some (p, cs')" using am by (simp only: un)
  obtain m1 where m1: "malloc s n = Some (of_nat p, s\<lparr>phys := m1\<rparr>)" "heap_rep (s\<lparr>phys := m1\<rparr>) lo cs'"
    "\<And>x. unat x \<in> owned lo cs \<or> unat x < lo \<or> lo + span cs \<le> unat x \<Longrightarrow> m1 x = phys s x"
    by (rule malloc_Some [OF rep am']) blast
  note own = amalloc_owned [OF am]
  have top: "p + (unat sz + 2 ^ k + 3) < addr_space" using own(5) rep by (simp add: heap_rep_def)
  define ap where "ap = (of_nat p + 2 ^ k - 1 + 4 :: u32)"
  have ap: "ap = of_nat (p + 2 ^ k + 3)" by (simp add: ap_def)
  have uap: "unat ap = p + 2 ^ k + 3" unfolding ap by (rule unat_of_nat_u32) (use top in linarith)
  have "unat (ap - 4) = unat ap - unat (4 :: u32)" 
    by (rule unat_sub_u32) (simp add: uap Suc_leI)
  moreover have "unat (4 :: u32) = 4" "0 < (2 :: nat) ^ k" by simp_all
  ultimately have slot: "unat (ap - 4) + 4 = p + 2 ^ k + 3" "p \<le> unat (ap - 4)" using uap by linarith+
  define m2 where "m2 = w32 m1 (ap - 4) (of_nat p)"
  define q where "q = ap AND NOT (2 ^ k - 1)"
  have ma: "malloc_aligned s (2 ^ k) sz = Some (q, s\<lparr>phys := m2\<rparr>)"
    unfolding malloc_aligned_def n_def [symmetric] m1(1)
    by (simp only: option.case prod.case Let_def ap_def [symmetric] m2_def q_def) simp
  have uq: "unat q = unat ap - unat ap mod 2 ^ k" unfolding q_def by (rule unat_mask_down [OF k])
  have "unat ap mod 2 ^ k < 2 ^ k" by simp
  then have q: "p + 4 \<le> unat q" "unat q \<le> p + 2 ^ k + 3" using uq uap by linarith+
  have aligned: "unat q mod 2 ^ k = 0" unfolding uq by (simp add: minus_mod_eq_mult_div)
  have m2: "m2 x = m1 x" if "unat x \<notin> {p..<p + (unat sz + 2 ^ k + 3)}" for x
    unfolding m2_def using that slot top by (intro w32_byte_other) auto
  have "heap_rep (s\<lparr>phys := m1\<rparr>\<lparr>phys := m2\<rparr>) lo cs'"
  proof (rule heap_rep_user_write [OF m1(2)])
    fix x :: u32 assume "unat x \<notin> owned lo cs'"
    then have "unat x \<notin> {p..<p + (unat sz + 2 ^ k + 3)}" using own(1) by blast
    then show "m2 x = phys (s\<lparr>phys := m1\<rparr>) x" using m2 [of x] by simp
  qed
  moreover have "m2 x = phys s x" if "unat x \<in> owned lo cs \<or> unat x < lo \<or> lo + span cs \<le> unat x" for x
  proof -
    have "unat x \<notin> {p..<p + (unat sz + 2 ^ k + 3)}" using own(3-5) that by auto
    then show ?thesis using m2 [of x] m1(3) [OF that] by simp
  qed
  ultimately show ?thesis using that [of q m2] ma q aligned by simp
qed

text \<open>
  \<^verbatim>\<open>malloc_aligned\<close> with a power-of-two alignment returns an aligned address with the
  requested number of bytes behind it inside the block it took, and keeps the heap well-formed:
  the back pointer it stores lies in that block too.
\<close>
theorem malloc_aligned_block:
  assumes rep: "heap_rep s lo cs" and k: "k < 32" and fits: "unat sz + 2 ^ k + 3 < addr_space"
    and am: "amalloc (unat sz + 2 ^ k + 3) lo cs = Some (p, cs')"
  shows "\<exists>q s'. malloc_aligned s (2 ^ k) sz = Some (q, s') \<and> unat q mod 2 ^ k = 0
    \<and> p + 4 \<le> unat q \<and> unat q + unat sz \<le> p + (unat sz + 2 ^ k + 3)
    \<and> heap_rep s' lo cs' \<and> (\<forall>x. unat x \<in> owned lo cs \<longrightarrow> phys s' x = phys s x)"
  by (rule malloc_aligned_Some [OF rep k fits am]) auto

lemma malloc_aligned_block_witness:
  "\<exists>q s'. malloc_aligned demo_heap 16 20 = Some (q, s') \<and> unat q mod 16 = 0
     \<and> heap_rep s' 4096 [(39, True), (185, False)]"
  using malloc_aligned_block [OF demo_rep, of 4 20 4112 "[(39, True), (185, False)]"] by auto

section \<open>Observations\<close>

text \<open>
  \<^verbatim>\<open>free_aligned\<close> reads the word below the aligned address, but \<^verbatim>\<open>malloc_aligned\<close> has
  stored the block's address below the address it had before masking: the two are the same only
  if that address was aligned already.
\<close>
theorem free_aligned_reads_other_slot:
  fixes p :: u32
  assumes "k < 32" and "unat p + 2 ^ k + 3 < addr_space" and "(unat p + 2 ^ k + 3) mod 2 ^ k \<noteq> 0"
  defines "ap \<equiv> p + 2 ^ k - 1 + 4"
  shows "(ap AND NOT (2 ^ k - 1)) - 4 \<noteq> ap - 4"
proof
  have "ap = of_nat (unat p + 2 ^ k + 3)" by (simp add: ap_def)
  then have uap: "unat ap = unat p + 2 ^ k + 3" using assms(2) unat_of_nat_u32 by metis
  assume "(ap AND NOT (2 ^ k - 1)) - 4 = ap - 4"
  then have "ap AND NOT (2 ^ k - 1) = ap" by simp
  then have "unat ap - unat ap mod 2 ^ k = unat ap" using unat_mask_down [OF assms(1), of ap] by simp
  moreover have "unat ap mod 2 ^ k \<le> unat ap" by (rule mod_less_eq_dividend)
  ultimately have "unat ap mod 2 ^ k = 0" by linarith
  then show False using assms(3) by (simp only: uap)
qed

text \<open>When no chunk is large enough \<^verbatim>\<open>malloc_aligned\<close> does not return null: it stores a null
  pointer at address \<open>2 ^ k - 1\<close> and returns \<open>2 ^ k\<close>.\<close>
theorem malloc_aligned_exhausted:
  assumes "heap_rep s lo cs" and "2 \<le> k" "k < 31" and "unat sz + 2 ^ k + 3 < addr_space"
    and "amalloc (unat sz + 2 ^ k + 3) lo cs = None"
  shows "malloc_aligned s (2 ^ k) sz = Some (2 ^ k, s\<lparr>phys := w32 (phys s) (2 ^ k - 1) 0\<rparr>)"
proof -
  define n where "n = sz + 2 ^ k - 1 + 4"
  have n3: "n = of_nat (unat sz + 2 ^ k + 3)" by (simp add: n_def)
  have un: "unat n = unat sz + 2 ^ k + 3" unfolding n3 by (rule unat_of_nat_u32 [OF assms(4)])
  have m: "malloc s n = Some (0, s)" by (rule malloc_None [OF assms(1)]) (simp add: un assms(5))
  have p4: "4 \<le> (2 :: nat) ^ k" using power_increasing [OF assms(2), of "2 :: nat"] by simp
  have "(2 :: nat) ^ k < 2 ^ 31" using assms(3) by (intro power_strict_increasing) simp_all
  then have lt: "2 ^ k + 3 < addr_space" by simp
  have ap: "(0 :: u32) + 2 ^ k - 1 + 4 = of_nat (2 ^ k + 3)" by simp
  have u: "unat (of_nat (2 ^ k + 3) :: u32) = 2 ^ k + 3" by (rule unat_of_nat_u32 [OF lt])
  have "unat ((of_nat (2 ^ k + 3) :: u32) AND NOT (2 ^ k - 1)) = 2 ^ k + 3 - (2 ^ k + 3) mod 2 ^ k"
    using unat_mask_down [of k "of_nat (2 ^ k + 3)"] assms(3) unfolding u by simp
  also have "\<dots> = 2 ^ k" using p4 by simp
  also have "\<dots> = unat (2 ^ k :: u32)" using unat_of_nat_u32 [of "2 ^ k"] lt by simp
  finally have q: "(of_nat (2 ^ k + 3) :: u32) AND NOT (2 ^ k - 1) = 2 ^ k" by (simp only: unat_eq_iff_eq)
  have slot: "of_nat (2 ^ k + 3) - 4 = (2 ^ k - 1 :: u32)" by simp
  show ?thesis
    unfolding malloc_aligned_def n_def [symmetric] m by (simp only: option.case prod.case ap Let_def q slot)
qed

end
