(* ===== verification/Paging.thy ===== *)
theory Paging
  imports Syscalls Kernel_Heap
begin

text \<open>
  Paging, \<^verbatim>\<open>kernel/src/memory/paging.c\<close>.  Page tables are words of the modelled memory, pointers to
  their entries are addresses.  The kernel reaches its own tables through the identity map of the
  first megabytes, so table accesses are by physical address.  \<open>translate\<close> is the two-level walk of
  the processor.
\<close>

section \<open>Entries\<close>

record paging = sys +
  current_page_directory :: u32

abbreviation (input) PTE_PRESENT :: u32 where "PTE_PRESENT \<equiv> 0x01"
abbreviation (input) PTE_RW :: u32 where "PTE_RW \<equiv> 0x02"
abbreviation (input) PTE_USER :: u32 where "PTE_USER \<equiv> 0x04"
abbreviation (input) PDE_PRESENT :: u32 where "PDE_PRESENT \<equiv> 0x01"
abbreviation (input) PDE_RW :: u32 where "PDE_RW \<equiv> 0x02"
abbreviation (input) PAGE_SIZE :: u32 where "PAGE_SIZE \<equiv> 4096"

definition PD_INDEX :: "u32 \<Rightarrow> u32" where
  "PD_INDEX address = drop_bit 22 address"

definition PT_INDEX :: "u32 \<Rightarrow> u32" where
  "PT_INDEX address = drop_bit 12 address AND 0x3FF"

text \<open>The macros on an entry; \<open>e\<close> is its value.\<close>

definition PAGE_PHYS_ADDRESS :: "u32 \<Rightarrow> u32" where
  "PAGE_PHYS_ADDRESS e = e AND NOT 0xFFF"

definition SET_FRAME :: "u32 \<Rightarrow> u32 \<Rightarrow> u32" where
  "SET_FRAME e address = (e AND NOT 0x7FFFF000) OR address"

definition update_entry :: "('a machine_scheme) \<Rightarrow> u32 \<Rightarrow> (u32 \<Rightarrow> u32) \<Rightarrow> ('a machine_scheme)" where
  "update_entry s a f = s\<lparr>phys := w32 (phys s) a (f (r32 (phys s) a))\<rparr>"

abbreviation (input) SET_ATTRIBUTE :: "u32 \<Rightarrow> u32 \<Rightarrow> u32" where "SET_ATTRIBUTE attr e \<equiv> e OR attr"
abbreviation (input) CLEAR_ATTRIBUTE :: "u32 \<Rightarrow> u32 \<Rightarrow> u32" where "CLEAR_ATTRIBUTE attr e \<equiv> e AND NOT attr"

section \<open>Operations\<close>

definition get_pt_entry :: "u32 \<Rightarrow> u32 \<Rightarrow> u32" where
  "get_pt_entry pt virtual_address = (if pt \<noteq> 0 then pt + 4 * PT_INDEX virtual_address else 0)"

text \<open>The code uses \<^verbatim>\<open>PT_INDEX\<close> here too.\<close>

definition get_pd_entry :: "u32 \<Rightarrow> u32 \<Rightarrow> u32" where
  "get_pd_entry pt virtual_address = (if pt \<noteq> 0 then pt + 4 * PT_INDEX virtual_address else 0)"

definition get_page :: "('a paging_scheme) \<Rightarrow> u32 \<Rightarrow> u32" where
  "get_page s virtual_address =
     (let entry = current_page_directory s + 4 * PD_INDEX virtual_address;
          table = PAGE_PHYS_ADDRESS (r32 (phys s) entry)
      in table + 4 * PT_INDEX virtual_address)"

definition alloc_page :: "('a paging_scheme) \<Rightarrow> u32 \<Rightarrow> u32 \<times> 'a paging_scheme" where
  "alloc_page s page =
     (let (block, s1) = alloc_blocks s 1
      in if block \<noteq> 0
         then (block, update_entry (update_entry s1 page (\<lambda>e. SET_FRAME e block)) page (SET_ATTRIBUTE PTE_PRESENT))
         else (block, s1))"

definition free_page :: "('a paging_scheme) \<Rightarrow> u32 \<Rightarrow> ('a paging_scheme)" where
  "free_page s page =
     (let address = PAGE_PHYS_ADDRESS (r32 (phys s) page);
          s1 = (if address \<noteq> 0 then free_blocks s address 1 else s)
      in update_entry s1 page (CLEAR_ATTRIBUTE PTE_PRESENT))"

definition set_page_directory :: "('a paging_scheme) \<Rightarrow> u32 \<Rightarrow> ('a paging_scheme)" where
  "set_page_directory s pd = cpu (s\<lparr>current_page_directory := pd\<rparr>) (Set_CR3 pd)"

definition flush_tlb_entry :: "('a machine_scheme) \<Rightarrow> u32 \<Rightarrow> ('a machine_scheme)" where
  "flush_tlb_entry s virtual_address = cpu (cpu (cpu s Cli) (Invlpg virtual_address)) Sti"

definition map_page :: "('a paging_scheme) \<Rightarrow> u32 \<Rightarrow> u32 \<Rightarrow> u32 \<Rightarrow> ('a paging_scheme) option" where
  "map_page s physical_address virtual_address flags =
     (let entry = current_page_directory s + 4 * PD_INDEX virtual_address
      in do {
        s1 \<leftarrow>
          (if r32 (phys s) entry AND PTE_PRESENT \<noteq> PTE_PRESENT then do {
             (table, s1) \<leftarrow> malloc_aligned s 0x1000 0x1000;
             let s2 = s1\<lparr>phys := fst (memset (phys s1) table 0 4096)\<rparr>;
             let s3 = update_entry s2 entry (SET_ATTRIBUTE (PDE_PRESENT OR PDE_RW));
             Some (update_entry s3 entry (\<lambda>e. SET_FRAME e table)) }
           else Some s);
        let table = PAGE_PHYS_ADDRESS (r32 (phys s1) entry);
        let page = table + 4 * PT_INDEX virtual_address;
        let s2 = update_entry s1 page (SET_ATTRIBUTE (flags OR PTE_PRESENT));
        let s3 = update_entry s2 page (\<lambda>e. SET_FRAME e physical_address);
        Some (flush_tlb_entry s3 virtual_address) })"

definition unmap_page :: "('a paging_scheme) \<Rightarrow> u32 \<Rightarrow> ('a paging_scheme)" where
  "unmap_page s virtual_address =
     (let page = get_page s virtual_address
      in update_entry (update_entry s page (\<lambda>e. SET_FRAME e 0)) page (CLEAR_ATTRIBUTE PTE_PRESENT))"

function clear_directory :: "mem \<Rightarrow> u32 \<Rightarrow> u32 \<Rightarrow> mem" where
  "clear_directory m directory i =
     (if i < 1024 then clear_directory (w32 m (directory + 4 * i) 0x02) directory (i + 1) else m)"
  by pat_completeness auto
termination
  by (relation "measure (\<lambda>(m, d, i). 1024 - unat i)") (auto simp: loop_counter_measure [of _ 1024, simplified])

function fill_table :: "mem \<Rightarrow> u32 \<Rightarrow> u32 \<Rightarrow> u32 \<Rightarrow> u32 \<Rightarrow> mem" where
  "fill_table m table i frame virt =
     (if i < 1024 then
        (let page = SET_FRAME (SET_ATTRIBUTE PTE_RW (SET_ATTRIBUTE PTE_PRESENT 0)) frame
         in fill_table (w32 m (table + 4 * PT_INDEX virt) page) table (i + 1) (frame + PAGE_SIZE) (virt + PAGE_SIZE))
      else m)"
  by pat_completeness auto
termination
  by (relation "measure (\<lambda>(m, t, i, f, v). 1024 - unat i)") (auto simp: loop_counter_measure [of _ 1024, simplified])

declare clear_directory.simps [simp del] fill_table.simps [simp del]

text \<open>
  \<open>fault_addr\<close> is the address of \<^verbatim>\<open>handle_page_fault\<close>.  The inline assembly that sets CR0 ors the
  constant into whatever \<^verbatim>\<open>eax\<close> holds; the event records the constant.
\<close>

definition paging_enable :: "u32 \<Rightarrow> ('a paging_scheme) \<Rightarrow> ('a paging_scheme)" where
  "paging_enable fault_addr s =
     (let (directory, s1) = alloc_blocks s 3;
          s2 = s1\<lparr>phys := fst (memset (phys s1) directory 0 4096)\<rparr>;
          s3 = s2\<lparr>phys := clear_directory (phys s2) directory 0\<rparr>;
          (table, s4) = alloc_blocks s3 1;
          s5 = s4\<lparr>phys := fst (memset (phys s4) table 0 4096)\<rparr>;
          s6 = s5\<lparr>phys := fill_table (phys s5) table 0 0 0\<rparr>;
          entry = directory + 4 * PD_INDEX 0;
          s7 = update_entry s6 entry (SET_ATTRIBUTE PDE_PRESENT);
          s8 = update_entry s7 entry (SET_ATTRIBUTE PDE_RW);
          s9 = update_entry s8 entry (\<lambda>e. SET_FRAME e table);
          s10 = set_page_directory s9 directory;
          s11 = cpu s10 (Or_CR0 0x80000011)
      in register_interrupt_handler s11 14 fault_addr)"

text \<open>\<open>cr2\<close> is the faulting address the processor reports.\<close>

definition handle_page_fault :: "u32 \<Rightarrow> u32 \<Rightarrow> ('a paging_scheme) \<Rightarrow> ('a paging_scheme) option" where
  "handle_page_fault cr2 foo s = do {
     let s1 = cpu s (Get_CR2 cr2);
     let s2 = print_literal s1 (literal ''Page fault at address: 0x'');
     s3 \<leftarrow> print_hex32 foo s2 cr2;
     Some (print_literal s3 [0x0A]) }"

section \<open>The walk of the processor\<close>

definition translate :: "mem \<Rightarrow> u32 \<Rightarrow> u32 \<Rightarrow> u32 option" where
  "translate m pd v =
     (let pde = r32 m (pd + 4 * PD_INDEX v)
      in if pde AND PTE_PRESENT = 0 then None
         else
           (let pte = r32 m (PAGE_PHYS_ADDRESS pde + 4 * PT_INDEX v)
            in if pte AND PTE_PRESENT = 0 then None else Some (PAGE_PHYS_ADDRESS pte OR (v AND 0xFFF))))"

section \<open>Indices and entries\<close>

lemma PD_INDEX_less: "unat (PD_INDEX v) < 1024"
  using unat_u32_lt [of v] by (simp add: PD_INDEX_def drop_bit_eq_div unat_div less_mult_imp_div_less)

lemma PT_INDEX_take: "PT_INDEX v = take_bit 10 (drop_bit 12 v)"
  by (simp add: PT_INDEX_def take_bit_eq_mask mask_numeral)

lemma PT_INDEX_less: "unat (PT_INDEX v) < 1024"
  using take_bit_nat_less_exp [of 10 "unat (drop_bit 12 v)"] by (simp add: PT_INDEX_take unsigned_take_bit_eq)

lemma unat_word_at:
  fixes t :: u32
  assumes "unat i < 1024" and "unat t + 4096 \<le> addr_space"
  shows "unat (t + 4 * i) = unat t + 4 * unat i"
proof -
  have "unat (4 * i) = 4 * unat i" using assms(1) by (subst unat_mult_u32) simp_all
  then show ?thesis using assms by (subst unat_add_u32) simp_all
qed

lemma word_at_inject:
  fixes t :: u32
  assumes "unat i < 1024" and "unat j < 1024" and "unat t + 4096 \<le> addr_space"
  shows "t + 4 * i = t + 4 * j \<longleftrightarrow> i = j"
  using unat_word_at [OF assms(1,3)] unat_word_at [OF assms(2,3)] by (metis add_left_cancel mult_left_cancel unat_eq_iff_eq zero_neq_numeral)

lemma r32_word_at:
  fixes t :: u32
  assumes "unat i < 1024" and "unat j < 1024" and "unat t + 4096 \<le> addr_space"
  shows "r32 (w32 m (t + 4 * i) x) (t + 4 * j) = (if i = j then x else r32 m (t + 4 * j))"
proof (cases "i = j")
  case False
  then have "unat i \<noteq> unat j" by (simp add: unat_eq_iff_eq)
  then show ?thesis
    using False assms by (auto simp: unat_word_at intro!: r32_w32_other)
qed simp

lemma byte_outside:
  fixes t :: u32
  assumes "unat i < 1024" and "unat t + 4096 \<le> addr_space" and "unat a < unat t \<or> unat t + 4096 \<le> unat a"
  shows "w32 m (t + 4 * i) x a = m a"
  using assms by (intro w32_byte_other) (auto simp: unat_word_at)

text \<open>A table: 4096 bytes at a page boundary.\<close>

definition page_aligned :: "u32 \<Rightarrow> bool" where
  "page_aligned a \<longleftrightarrow> a AND 0xFFF = 0"

lemma page_aligned_bits: "page_aligned a \<longleftrightarrow> (\<forall>n < 12. \<not> bit a n)"
proof -
  have "(0xFFF :: u32) = mask 12" by (simp add: mask_numeral)
  then have "a AND 0xFFF = take_bit 12 a" by (simp add: take_bit_eq_mask)
  then show ?thesis by (auto simp: page_aligned_def bit_eq_iff bit_take_bit_iff)
qed

lemma page_aligned_unat: "page_aligned a \<longleftrightarrow> unat a mod 4096 = 0"
proof -
  have "(0xFFF :: u32) = mask 12" by (simp add: mask_numeral)
  then have "a AND 0xFFF = take_bit 12 a" by (simp add: take_bit_eq_mask)
  then show ?thesis
    by (simp add: page_aligned_def unat_eq_iff_eq [symmetric] unat_mod take_bit_eq_mod)
qed

lemma page_aligned_top: "page_aligned a \<Longrightarrow> unat a + 4096 \<le> addr_space"
  using unat_u32_lt [of a] by (auto simp: page_aligned_unat)

lemma frame_masks: "(0xFFF :: u32) = mask 12" "(0x7FFFF000 :: u32) = push_bit 12 (mask 19)"
  by (simp_all add: mask_numeral)

lemma page_aligned_phys [simp]: "page_aligned (PAGE_PHYS_ADDRESS e)"
  unfolding page_aligned_bits PAGE_PHYS_ADDRESS_def frame_masks by (simp add: bit_simps)

lemma SET_FRAME_present: "page_aligned a \<Longrightarrow> SET_FRAME e a AND 1 = e AND 1"
  unfolding SET_FRAME_def frame_masks page_aligned_bits
  by (rule bit_word_eqI) (auto simp: bit_simps)

text \<open>Bit 31 is outside \<^verbatim>\<open>0x7FFFF000\<close>: \<^verbatim>\<open>SET_FRAME\<close> does not clear it.\<close>

lemma SET_FRAME_phys:
  assumes "page_aligned a" and "bit e 31 \<longrightarrow> bit a 31"
  shows "PAGE_PHYS_ADDRESS (SET_FRAME e a) = a"
  unfolding PAGE_PHYS_ADDRESS_def SET_FRAME_def frame_masks
proof (rule bit_word_eqI)
  fix n assume n: "n < LENGTH(32)"
  consider "n < 12" | "12 \<le> n" "n < 31" | "n = 31" using n by fastforce
  then show "bit ((e AND NOT (push_bit 12 (mask 19)) OR a) AND NOT (mask 12)) n = bit a n"
    using assms by cases (auto simp: page_aligned_bits bit_simps)
qed

lemma SET_FRAME_keeps_high:
  "page_aligned a \<Longrightarrow> bit e 31 \<Longrightarrow> bit (PAGE_PHYS_ADDRESS (SET_FRAME e a)) 31"
  unfolding PAGE_PHYS_ADDRESS_def SET_FRAME_def frame_masks by (simp add: bit_simps)

section \<open>Mapping one page\<close>

lemma update_entry_phys [simp]: "phys (update_entry s a f) = w32 (phys s) a (f (r32 (phys s) a))"
  "trace (update_entry s a f) = trace s"
  by (simp_all add: update_entry_def)

lemma update_entry_twice:
  "update_entry (update_entry s a f) a g = s\<lparr>phys := w32 (w32 (phys s) a (f (r32 (phys s) a))) a (g (f (r32 (phys s) a)))\<rparr>"
  by (simp add: update_entry_def)

lemma w32_twice [simp]: "w32 (w32 m a x) a y = w32 m a y"
  by (auto simp: w32_def fun_eq_iff)

text \<open>The address of the entry that maps a virtual address.\<close>

definition pde_addr :: "u32 \<Rightarrow> u32 \<Rightarrow> u32" where
  "pde_addr pd v = pd + 4 * PD_INDEX v"

definition pte_addr :: "mem \<Rightarrow> u32 \<Rightarrow> u32 \<Rightarrow> u32" where
  "pte_addr m pd v = PAGE_PHYS_ADDRESS (r32 m (pde_addr pd v)) + 4 * PT_INDEX v"

lemma translate_pte:
  "translate m pd v =
     (if r32 m (pde_addr pd v) AND 1 = 0 \<or> r32 m (pte_addr m pd v) AND 1 = 0 then None
      else Some (PAGE_PHYS_ADDRESS (r32 m (pte_addr m pd v)) OR (v AND 0xFFF)))"
  by (simp add: translate_def Let_def pde_addr_def pte_addr_def)

text \<open>Entries of tables are aligned words: two of them are equal or disjoint.\<close>

lemma pte_addr_mod: "unat (pte_addr m pd v) mod 4 = 0" "unat (pte_addr m pd v) + 4 \<le> addr_space"
proof -
  let ?t = "PAGE_PHYS_ADDRESS (r32 m (pde_addr pd v))"
  have top: "unat ?t + 4096 \<le> addr_space" by (rule page_aligned_top) simp
  have u: "unat (pte_addr m pd v) = unat ?t + 4 * unat (PT_INDEX v)"
    unfolding pte_addr_def by (rule unat_word_at [OF PT_INDEX_less top])
  have "unat ?t mod 4096 = 0" using page_aligned_phys page_aligned_unat by blast
  then obtain k where k: "unat ?t = 4096 * k" by (auto dest: mod_0_imp_dvd elim: dvdE)
  have "unat (pte_addr m pd v) = 4 * (1024 * k + unat (PT_INDEX v))" unfolding u k by simp
  then show "unat (pte_addr m pd v) mod 4 = 0" by (metis mod_mult_self1_is_0)
  show "unat (pte_addr m pd v) + 4 \<le> addr_space" unfolding u using top PT_INDEX_less [of v] by simp
qed

lemma aligned_words_apart:
  "unat (a :: u32) mod 4 = 0 \<Longrightarrow> unat b mod 4 = 0 \<Longrightarrow> a \<noteq> b \<Longrightarrow> unat a + 4 \<le> unat b \<or> unat b + 4 \<le> unat (a :: u32)"
  using unat_eq_iff_eq [of a b] by presburger

definition apart :: "u32 \<Rightarrow> u32 \<Rightarrow> bool" where
  "apart a t \<longleftrightarrow> unat a + 4 \<le> unat t \<or> unat t + 4096 \<le> unat a"

text \<open>One page table entry is overwritten: the walk of every other address is as before.\<close>

lemma translate_write_pte:
  assumes "page_aligned pd" and "a = pte_addr m pd v" and "apart a pd"
  shows "pte_addr (w32 m a x) pd w = pte_addr m pd w"
    and "translate (w32 m a x) pd w =
      (if pte_addr m pd w = a \<and> r32 m (pde_addr pd w) AND 1 \<noteq> 0
       then (if x AND 1 = 0 then None else Some (PAGE_PHYS_ADDRESS x OR (w AND 0xFFF)))
       else translate m pd w)"
proof -
  have top: "unat pd + 4096 \<le> addr_space" by (rule page_aligned_top [OF assms(1)])
  have pde: "r32 (w32 m a x) (pde_addr pd w) = r32 m (pde_addr pd w)" for w
  proof (rule r32_w32_other)
    have u: "unat (pde_addr pd w) = unat pd + 4 * unat (PD_INDEX w)"
      unfolding pde_addr_def by (rule unat_word_at [OF PD_INDEX_less top])
    show "unat (pde_addr pd w) + 4 \<le> unat a \<or> unat a + 4 \<le> unat (pde_addr pd w)" "unat (pde_addr pd w) + 4 \<le> addr_space"
      unfolding u using assms(3) PD_INDEX_less [of w] top by (auto simp: apart_def)
    show "unat a + 4 \<le> addr_space" unfolding assms(2) by (rule pte_addr_mod)
  qed
  show same: "pte_addr (w32 m a x) pd w = pte_addr m pd w" for w by (simp add: pte_addr_def pde)
  have "r32 (w32 m a x) (pte_addr m pd w) = (if pte_addr m pd w = a then x else r32 m (pte_addr m pd w))"
    using aligned_words_apart [OF pte_addr_mod(1) [of m pd w] pte_addr_mod(1) [of m pd v]] assms(2) pte_addr_mod(2)
    by (auto intro!: r32_w32_other)
  then show "translate (w32 m a x) pd w =
      (if pte_addr m pd w = a \<and> r32 m (pde_addr pd w) AND 1 \<noteq> 0
       then (if x AND 1 = 0 then None else Some (PAGE_PHYS_ADDRESS x OR (w AND 0xFFF)))
       else translate m pd w)"
    by (simp add: translate_pte pde same)
qed

lemma new_entry:
  assumes "page_aligned p" and "flags AND NOT 0xFFF = 0" and "bit e 31 \<longrightarrow> bit p 31"
  shows "PAGE_PHYS_ADDRESS (SET_FRAME (e OR (flags OR 1)) p) = p" and "SET_FRAME (e OR (flags OR 1)) p AND 1 = 1"
proof -
  have "\<not> bit (flags AND NOT 0xFFF) 31" unfolding assms(2) by simp
  then have "\<not> bit flags 31" by (simp add: frame_masks bit_simps)
  then show "PAGE_PHYS_ADDRESS (SET_FRAME (e OR (flags OR 1)) p) = p"
    using assms(3) by (intro SET_FRAME_phys [OF assms(1)]) (auto simp: bit_simps)
  show "SET_FRAME (e OR (flags OR 1)) p AND 1 = 1"
    unfolding SET_FRAME_present [OF assms(1)] by (rule bit_word_eqI) (auto simp: bit_simps)
qed

lemma map_page_known_table:
  fixes s :: "'a paging_scheme"
  assumes "r32 (phys s) (pde_addr (current_page_directory s) v) AND 1 = 1"
  defines "a \<equiv> pte_addr (phys s) (current_page_directory s) v"
  shows "map_page s p v flags = Some (flush_tlb_entry
    (s\<lparr>phys := w32 (phys s) a (SET_FRAME (r32 (phys s) a OR (flags OR 1)) p)\<rparr>) v)"
  using assms(1) by (simp add: map_page_def Let_def a_def pte_addr_def pde_addr_def update_entry_def)

text \<open>
  \<^verbatim>\<open>map_page\<close> of a page whose table exists returns; afterwards the processor translates every
  address of that virtual page to the given frame and every address reached through another table
  entry as before; the translation buffer entry is flushed between cli and sti.  The entry must not
  have had bit 31 set unless the new frame has, since \<^verbatim>\<open>SET_FRAME\<close> does not clear that bit.
\<close>

theorem map_page_translates:
  fixes s :: "'a paging_scheme"
  assumes "pd = current_page_directory s" and "page_aligned pd" and "r32 (phys s) (pde_addr pd v) AND 1 = 1"
    and "a = pte_addr (phys s) pd v" and "apart a pd"
    and "page_aligned p" and "flags AND NOT 0xFFF = 0" and "bit (r32 (phys s) a) 31 \<longrightarrow> bit p 31"
  shows "\<exists>s'. map_page s p v flags = Some s' \<and> translate (phys s') pd v = Some (p OR (v AND 0xFFF))
    \<and> (\<forall>w. pte_addr (phys s) pd w \<noteq> a \<longrightarrow> translate (phys s') pd w = translate (phys s) pd w)
    \<and> trace s' = [Sti, Invlpg v, Cli] @ trace s"
proof -
  note walk = translate_write_pte [OF assms(2,4,5)]
  show ?thesis
    using assms(3) map_page_known_table [of s v p flags] new_entry [OF assms(6,7,8)]
    by (simp add: assms(1) [symmetric] assms(4) [symmetric] walk flush_tlb_entry_def)
qed

text \<open>
  \<^verbatim>\<open>unmap_page\<close> removes the translation of that page and no other, but does
  not flush the translation buffer: the trace is unchanged.
\<close>

theorem unmap_page_removes:
  fixes s :: "'a paging_scheme"
  assumes "pd = current_page_directory s" and "page_aligned pd"
    and "a = pte_addr (phys s) pd v" and "apart a pd"
  shows "translate (phys (unmap_page s v)) pd v = None
    \<and> (\<forall>w. pte_addr (phys s) pd w \<noteq> a \<longrightarrow> translate (phys (unmap_page s v)) pd w = translate (phys s) pd w)
    \<and> trace (unmap_page s v) = trace s"
proof -
  note walk = translate_write_pte [OF assms(2-4)]
  have "phys (unmap_page s v) = w32 (phys s) a (SET_FRAME (r32 (phys s) a) 0 AND NOT 1)"
    by (simp add: unmap_page_def get_page_def Let_def assms(1,3) pte_addr_def pde_addr_def)
  moreover have "(x AND NOT 1) AND 1 = (0 :: u32)" for x by (rule bit_word_eqI) (auto simp: bit_simps)
  ultimately show ?thesis
    by (simp add: walk assms(3) [symmetric]) (simp add: unmap_page_def Let_def translate_pte)
qed

section \<open>Enabling paging\<close>

text \<open>Page \<open>j\<close> of the identity map, present and writable.\<close>

definition identity_entry :: "u32 \<Rightarrow> u32" where
  "identity_entry j = push_bit 12 j OR 3"

lemma identity_entry_fields:
  assumes "unat j < 1024"
  shows "PAGE_PHYS_ADDRESS (identity_entry j) = push_bit 12 j" and "identity_entry j AND 1 = 1"
proof -
  have e: "(3 :: u32) = mask 2" by (simp add: mask_numeral)
  show "PAGE_PHYS_ADDRESS (identity_entry j) = push_bit 12 j"
    unfolding identity_entry_def PAGE_PHYS_ADDRESS_def frame_masks e by (rule bit_word_eqI) (auto simp: bit_simps)
  show "identity_entry j AND 1 = 1"
    unfolding identity_entry_def e by (rule bit_word_eqI) (auto simp: bit_simps)
qed

lemma fill_entry:
  assumes "unat i < 1024"
  shows "SET_FRAME (SET_ATTRIBUTE PTE_RW (SET_ATTRIBUTE PTE_PRESENT 0)) (push_bit 12 i) = identity_entry i"
    and "PT_INDEX (push_bit 12 i) = i" and "push_bit 12 i + PAGE_SIZE = push_bit 12 (i + 1)"
proof -
  show "SET_FRAME (SET_ATTRIBUTE PTE_RW (SET_ATTRIBUTE PTE_PRESENT 0)) (push_bit 12 i) = identity_entry i"
    by (simp add: SET_FRAME_def identity_entry_def or.commute)
  have "take_bit 10 i = i"
    using assms by (simp add: unat_eq_iff_eq [symmetric] unsigned_take_bit_eq take_bit_nat_eq_self)
  then have lo: "n < 10" if "bit i n" for n using that by (metis bit_take_bit_iff)
  show "PT_INDEX (push_bit 12 i) = i"
    unfolding PT_INDEX_take by (rule bit_word_eqI) (auto simp: bit_simps dest: lo)
  show "push_bit 12 i + PAGE_SIZE = push_bit 12 (i + 1)" by (simp add: push_bit_eq_mult algebra_simps)
qed

lemma fill_table_spec:
  assumes "unat i \<le> 1024" and "unat t + 4096 \<le> addr_space" and "unat j < 1024"
  shows "r32 (fill_table m t i (push_bit 12 i) (push_bit 12 i)) (t + 4 * j)
    = (if unat i \<le> unat j then identity_entry j else r32 m (t + 4 * j))"
  using assms(1)
proof (induction "1024 - unat i" arbitrary: i m)
  case 0
  then have "unat i = 1024" by simp
  then have "\<not> i < 1024" by (simp add: word_less_nat_alt)
  then show ?case using assms(3) \<open>unat i = 1024\<close> by (simp add: fill_table.simps [of m t i])
next
  case (Suc k)
  then have lt: "i < 1024" "unat i < 1024" by (simp_all add: word_less_nat_alt)
  then have i1: "unat (i + 1) = Suc (unat i)" by (intro unat_loop_counter)
  note e = fill_entry [OF lt(2)]
  have "fill_table m t i (push_bit 12 i) (push_bit 12 i)
      = fill_table (w32 m (t + 4 * i) (identity_entry i)) t (i + 1) (push_bit 12 (i + 1)) (push_bit 12 (i + 1))"
    using lt(1) by (subst fill_table.simps) (simp only: if_True Let_def e)
  moreover have "k = 1024 - unat (i + 1)" "unat (i + 1) \<le> 1024" using Suc.hyps(2) i1 lt(2) by simp_all
  note Suc.hyps(1) [OF this, of "w32 m (t + 4 * i) (identity_entry i)"]
  moreover note r32_word_at [OF lt(2) assms(3,2), of m "identity_entry i"]
  ultimately show ?case using i1 by (auto simp: Suc_le_eq le_less unat_eq_iff_eq)
qed

text \<open>The memory \<^verbatim>\<open>paging_enable\<close> leaves when no block is managed: both tables are at address 0.\<close>

definition booted_tables :: "mem \<Rightarrow> mem" where
  "booted_tables m = w32 (fill_table (fst (memset (clear_directory (fst (memset m 0 0 4096)) 0 0) 0 0 4096)) 0 0 0 0) 0 3"

lemma booted_tables_entry:
  assumes "unat j < 1024"
  shows "r32 (booted_tables m) (4 * j) = identity_entry j"
proof -
  have "identity_entry 0 = 3" by (simp add: identity_entry_def)
  then show ?thesis
    using fill_table_spec [of 0 0 j] r32_word_at [of 0 j 0 _ 3] assms by (cases "j = 0") (auto simp: booted_tables_def)
qed

lemma paging_enable_booted:
  fixes s :: "'a paging_scheme"
  assumes "max_blocks s = 0" and "used_blocks s = 0"
  shows "paging_enable fault_addr s = register_interrupt_handler
    (cpu (set_page_directory (s\<lparr>phys := booted_tables (phys s)\<rparr>) 0) (Or_CR0 0x80000011)) 14 fault_addr"
proof -
  have alloc: "alloc_blocks x n = (0, x)" if "max_blocks x = 0" "used_blocks x = 0" for x :: "'a paging_scheme" and n
    using that by (simp add: alloc_blocks_def)
  define m where "m = fill_table (fst (memset (clear_directory (fst (memset (phys s) 0 0 4096)) 0 0) 0 0 4096)) 0 0 0 0"
  have "r32 m 0 = 3" using fill_table_spec [of 0 0 0] by (simp add: m_def identity_entry_def)
  moreover have "SET_FRAME 3 0 = 3" by (simp add: SET_FRAME_def)
  ultimately show ?thesis
    using assms by (simp add: paging_enable_def alloc Let_def booted_tables_def m_def [symmetric] PD_INDEX_def update_entry_def)
qed

text \<open>Page 0 is all that changes.\<close>

lemma clear_directory_outside:
  assumes "4096 \<le> unat x"
  shows "clear_directory m 0 i x = m x"
proof (induction m "0 :: u32" i rule: clear_directory.induct)
  case (1 m i)
  show ?case
  proof (cases "i < 1024")
    case True
    then have "unat i < 1024" by (simp add: word_less_nat_alt)
    then show ?thesis using 1 [OF True] byte_outside [of i 0 x m 2] assms True by (simp add: clear_directory.simps [of m 0 i])
  qed (simp add: clear_directory.simps [of m 0 i])
qed

lemma fill_table_outside:
  assumes "4096 \<le> unat x"
  shows "fill_table m 0 i f v x = m x"
proof (induction m "0 :: u32" i f v rule: fill_table.induct)
  case (1 m i f v)
  show ?case
  proof (cases "i < 1024")
    case True
    then show ?thesis
      using 1 [OF True refl] byte_outside [OF PT_INDEX_less [of v], of 0 x m] assms by (simp add: fill_table.simps [of m 0 i] Let_def)
  qed (simp add: fill_table.simps [of m 0 i])
qed

lemma booted_tables_outside:
  assumes "4096 \<le> unat x"
  shows "booted_tables m x = m x"
proof -
  have "\<not> in_range 0 4096 x" by (subst in_range_unat) (use assms in simp_all)
  then show ?thesis
    using assms by (simp add: booted_tables_def w32_byte_other fill_table_outside clear_directory_outside memset_filled filled_def)
qed

text \<open>The walk below 4 MiB reads page 0 only.\<close>

lemma booted_identity:
  assumes "\<And>x. unat x < 4096 \<Longrightarrow> m' x = booted_tables m x" and "unat v < 0x400000"
  shows "translate m' 0 v = Some v"
proof -
  have entry: "r32 m' (4 * j) = identity_entry j" if "unat j < 1024" for j
  proof -
    have "unat (4 * j) = 4 * unat j" using unat_word_at [OF that, of 0] by simp
    then have "r32 m' (4 * j) = r32 (booted_tables m) (4 * j)" using that by (intro r32_cong assms(1)) simp_all
    then show ?thesis by (simp add: booted_tables_entry [OF that])
  qed
  have "take_bit 22 v = v"
    using assms(2) by (simp add: unat_eq_iff_eq [symmetric] unsigned_take_bit_eq take_bit_nat_eq_self)
  then have lo: "n < 22" if "bit v n" for n using that by (metis bit_take_bit_iff)
  then have pd: "PD_INDEX v = 0" unfolding PD_INDEX_def by (intro bit_word_eqI) (force simp: bit_simps)
  have "push_bit 12 (PT_INDEX v) OR (v AND 0xFFF) = v"
    unfolding PT_INDEX_take frame_masks
    by (rule bit_word_eqI) (auto simp: bit_simps not_less le_add_diff_inverse2 dest: lo)
  moreover have "r32 m' 0 = 3" "PAGE_PHYS_ADDRESS 3 = 0"
    using entry [of 0] by (simp_all add: identity_entry_def PAGE_PHYS_ADDRESS_def)
  ultimately show ?thesis
    by (simp add: translate_pte pte_addr_def pd entry PT_INDEX_less identity_entry_fields pde_addr_def)
qed

text \<open>
  As \<^verbatim>\<open>kernel_main\<close> calls it, with the block manager never initialised, \<^verbatim>\<open>paging_enable\<close>
  puts directory and table both at address 0.  Every address below 4 MiB then translates to itself;
  an address above is translated through the page whose number is its directory index, whatever
  that page holds.  The directory is loaded before paging is switched on, and the page fault
  handler is registered.
\<close>

theorem paging_enable_identity:
  fixes s :: "'a paging_scheme"
  assumes "max_blocks s = 0" and "used_blocks s = 0" and "length (interrupt_handers s) = 256"
  shows "current_page_directory (paging_enable fault_addr s) = 0
    \<and> (\<forall>v. unat v < 0x400000 \<longrightarrow> translate (phys (paging_enable fault_addr s)) 0 v = Some v)
    \<and> (\<forall>v. pte_addr (phys (paging_enable fault_addr s)) 0 v = push_bit 12 (PD_INDEX v) + 4 * PT_INDEX v)
    \<and> trace (paging_enable fault_addr s) = [Or_CR0 0x80000011, Set_CR3 0] @ trace s
    \<and> interrupt_handers (paging_enable fault_addr s) ! 14 = fault_addr"
proof -
  let ?m = "booted_tables (phys s)"
  have walk: "pte_addr ?m 0 v = push_bit 12 (PD_INDEX v) + 4 * PT_INDEX v" for v
    by (simp add: pte_addr_def pde_addr_def booted_tables_entry PD_INDEX_less identity_entry_fields)
  have "phys (paging_enable fault_addr s) = ?m"
    by (simp add: paging_enable_booted [OF assms(1,2)] register_interrupt_handler_def set_page_directory_def)
  then show ?thesis
    using walk booted_identity [of ?m "phys s"] assms(3)
    by (simp add: paging_enable_booted [OF assms(1,2)] register_interrupt_handler_def set_page_directory_def cpu_def)
qed

section \<open>Mapping with a new table\<close>

definition outside_heap :: "u32 \<Rightarrow> nat \<Rightarrow> achunk list \<Rightarrow> bool" where
  "outside_heap t lo cs \<longleftrightarrow> unat t + 4096 \<le> lo \<or> lo + span cs \<le> unat t"

lemma r32_filled_zero:
  assumes "unat i < 1024" and "unat t + 4096 \<le> addr_space"
  shows "r32 (filled m t 0 4096) (t + 4 * i) = 0"
proof -
  have u: "unat (t + 4 * i) = unat t + 4 * unat i" by (rule unat_word_at [OF assms])
  have "r32 (filled m t 0 4096) (t + 4 * i) = r32 (\<lambda>_. 0) (t + 4 * i)"
    by (rule r32_cong) (use assms in \<open>auto simp: filled_def in_range_unat u\<close>)
  then show ?thesis by (simp add: r32_def)
qed

lemma PDE_range:
  assumes "page_aligned pd"
  shows "unat (pde_addr pd v) = unat pd + 4 * unat (PD_INDEX v)"
    and "unat pd \<le> unat (pde_addr pd v)" and "unat (pde_addr pd v) + 4 \<le> unat pd + 4096"
proof -
  show "unat (pde_addr pd v) = unat pd + 4 * unat (PD_INDEX v)"
    unfolding pde_addr_def by (rule unat_word_at [OF PD_INDEX_less page_aligned_top [OF assms]])
  then show "unat pd \<le> unat (pde_addr pd v)" "unat (pde_addr pd v) + 4 \<le> unat pd + 4096"
    using PD_INDEX_less [of v] by simp_all
qed

text \<open>An empty table \<open>q\<close> entered into the directory: \<open>z\<close> is the memory with the table zeroed.\<close>

definition enter_table :: "mem \<Rightarrow> u32 \<Rightarrow> u32 \<Rightarrow> mem" where
  "enter_table z e q = w32 z e (SET_FRAME (r32 z e OR 3) q)"

lemma enter_table_entry:
  assumes "page_aligned q" and "\<not> bit (r32 z e) 31"
  shows "PAGE_PHYS_ADDRESS (r32 (enter_table z e q) e) = q" and "r32 (enter_table z e q) e AND 1 = 1"
proof -
  have "\<not> bit (r32 z e OR 3) 31" using assms(2) by (simp add: bit_simps bit_numeral_rec)
  then show "PAGE_PHYS_ADDRESS (r32 (enter_table z e q) e) = q"
    unfolding enter_table_def r32_w32 by (intro SET_FRAME_phys [OF assms(1)]) simp
  have "(3 :: u32) = mask 2" by (simp add: mask_numeral)
  then show "r32 (enter_table z e q) e AND 1 = 1"
    unfolding enter_table_def r32_w32 SET_FRAME_present [OF assms(1)] by (intro bit_word_eqI) (auto simp: bit_simps)
qed

lemma enter_table_walk:
  assumes "page_aligned pd" and "page_aligned q" and "unat pd + 4096 \<le> unat q \<or> unat q + 4096 \<le> unat pd"
    and "\<not> bit (r32 z (pde_addr pd v)) 31" and "\<forall>i. unat i < 1024 \<longrightarrow> r32 z (q + 4 * i) = 0"
    and "m = enter_table z (pde_addr pd v) q"
  shows "PD_INDEX w = PD_INDEX v \<Longrightarrow> pte_addr m pd w = q + 4 * PT_INDEX w" and "r32 m (q + 4 * PT_INDEX w) = 0"
proof -
  show "PD_INDEX w = PD_INDEX v \<Longrightarrow> pte_addr m pd w = q + 4 * PT_INDEX w"
    using enter_table_entry(1) [OF assms(2,4)] by (simp add: assms(6) pte_addr_def pde_addr_def)
  have "unat (q + 4 * PT_INDEX w) = unat q + 4 * unat (PT_INDEX w)"
    by (rule unat_word_at [OF PT_INDEX_less page_aligned_top [OF assms(2)]])
  then have "r32 m (q + 4 * PT_INDEX w) = r32 z (q + 4 * PT_INDEX w)"
    unfolding assms(6) enter_table_def
    by (intro r32_w32_other) (use assms(3) PDE_range [OF assms(1), of v] PT_INDEX_less [of w] page_aligned_top [OF assms(1)]
      page_aligned_top [OF assms(2)] in auto)
  then show "r32 m (q + 4 * PT_INDEX w) = 0" using assms(5) PT_INDEX_less by simp
qed

lemma enter_table_translate:
  assumes "page_aligned pd" and "page_aligned q" and out: "unat pd + 4096 \<le> unat q \<or> unat q + 4096 \<le> unat pd"
    and "\<not> bit (r32 z (pde_addr pd v)) 31" and "\<forall>i. unat i < 1024 \<longrightarrow> r32 z (q + 4 * i) = 0"
    and "m = enter_table z (pde_addr pd v) q" and "a = q + 4 * PT_INDEX v"
    and "PAGE_PHYS_ADDRESS x = p" and "x AND 1 = 1" and "PD_INDEX w = PD_INDEX v"
  shows "translate (w32 m a x) pd w = (if PT_INDEX w = PT_INDEX v then Some (p OR (w AND 0xFFF)) else None)"
proof -
  note walk = enter_table_walk [OF assms(1-6)]
  note qtop = page_aligned_top [OF assms(2)]
  have a: "a = pte_addr m pd v" by (simp add: walk(1) assms(7))
  have "unat a = unat q + 4 * unat (PT_INDEX v)" unfolding assms(7) by (rule unat_word_at [OF PT_INDEX_less qtop])
  then have ap: "apart a pd" unfolding apart_def using out PT_INDEX_less [of v] by auto
  have "r32 m (pde_addr pd w) AND 1 = 1"
    using enter_table_entry(2) [OF assms(2,4)] by (simp add: assms(6,10) pde_addr_def)
  moreover have "pte_addr m pd w = a \<longleftrightarrow> PT_INDEX w = PT_INDEX v"
    unfolding walk(1) [OF assms(10)] assms(7) by (rule word_at_inject [OF PT_INDEX_less PT_INDEX_less qtop])
  moreover have "translate m pd w = None" unfolding translate_pte walk(1) [OF assms(10)] walk(2) by simp
  ultimately show ?thesis using translate_write_pte(2) [OF assms(1) a ap, of x w] assms(8,9) by simp
qed

text \<open>
  What the heap leaves alone: the blocks it has given out and what lies outside it.  The table of an
  address is in place if there is none, or if it lies there and not over the directory itself.
\<close>

definition left_alone :: "nat \<Rightarrow> achunk list \<Rightarrow> nat \<Rightarrow> bool" where
  "left_alone lo cs a \<longleftrightarrow> a \<in> owned lo cs \<or> a < lo \<or> lo + span cs \<le> a"

definition table_in_place :: "mem \<Rightarrow> u32 \<Rightarrow> nat \<Rightarrow> achunk list \<Rightarrow> u32 \<Rightarrow> bool" where
  "table_in_place m pd lo cs w \<longleftrightarrow> (r32 m (pde_addr pd w) AND 1 \<noteq> 0 \<longrightarrow>
     (let t = unat (PAGE_PHYS_ADDRESS (r32 m (pde_addr pd w)))
      in (t + 4096 \<le> unat pd \<or> unat pd + 4096 \<le> t) \<and> (\<forall>k<4096. left_alone lo cs (t + k))))"

lemma left_alone_outside: "outside_heap pd lo cs \<Longrightarrow> k < 4096 \<Longrightarrow> left_alone lo cs (unat pd + k)"
  by (auto simp: outside_heap_def left_alone_def)

lemma left_alone_amalloc: "amalloc sz lo cs = Some (b, cs') \<Longrightarrow> left_alone lo cs a \<Longrightarrow> left_alone lo cs' a"
  using amalloc_owned(2) [of sz lo cs b cs'] span_amalloc [of sz lo cs b cs'] by (auto simp: left_alone_def)

text \<open>A page is its two indices.\<close>

lemma same_page_indices: "drop_bit 12 w = drop_bit 12 v \<longleftrightarrow> PD_INDEX w = PD_INDEX v \<and> PT_INDEX w = PT_INDEX (v :: u32)"
proof -
  have "PD_INDEX x = drop_bit 10 (drop_bit 12 x)" for x by (simp add: PD_INDEX_def)
  then show ?thesis unfolding PT_INDEX_take by (metis bits_ident)
qed

text \<open>A write that spares what the heap leaves alone, but for one directory entry, changes no other walk.\<close>

lemma other_tables_walk:
  assumes "page_aligned pd" and "outside_heap pd lo cs" and "table_in_place m pd lo cs w" and "PD_INDEX w \<noteq> PD_INDEX v"
    and same: "\<And>x. left_alone lo cs (unat x) \<Longrightarrow> \<not> in_range (pde_addr pd v) 4 x \<Longrightarrow> m' x = m x"
  shows "r32 m' (pde_addr pd w) = r32 m (pde_addr pd w)" and "translate m' pd w = translate m pd w"
proof -
  note top = page_aligned_top [OF assms(1)] and e = PDE_range [OF assms(1)]
  have v4: "unat (pde_addr pd v) + 4 \<le> addr_space" using e(3) [of v] top by linarith
  show pde: "r32 m' (pde_addr pd w) = r32 m (pde_addr pd w)"
  proof (rule r32_cong)
    fix x :: u32 assume x: "unat (pde_addr pd w) \<le> unat x" "unat x < unat (pde_addr pd w) + 4"
    have "unat x = unat pd + (unat x - unat pd)" "unat x - unat pd < 4096" using x e(2,3) [of w] by linarith+
    then have "left_alone lo cs (unat x)" using left_alone_outside [OF assms(2)] by metis
    moreover have "unat (PD_INDEX w) \<noteq> unat (PD_INDEX v)" using assms(4) by (simp add: unat_eq_iff_eq)
    then have "\<not> in_range (pde_addr pd v) 4 x"
      unfolding in_range_unat [OF v4] using x e(1) [of w] e(1) [of v] by linarith
    ultimately show "m' x = m x" by (rule same)
  qed (use e(3) [of w] top in linarith)
  show "translate m' pd w = translate m pd w"
  proof (cases "r32 m (pde_addr pd w) AND 1 = 0")
    case False
    let ?t = "PAGE_PHYS_ADDRESS (r32 m (pde_addr pd w))"
    have t: "unat ?t + 4096 \<le> unat pd \<or> unat pd + 4096 \<le> unat ?t" "\<forall>k<4096. left_alone lo cs (unat ?t + k)"
      using assms(3) False by (auto simp: table_in_place_def Let_def)
    have ttop: "unat ?t + 4096 \<le> addr_space" by (rule page_aligned_top) simp
    have u: "unat (pte_addr m pd w) = unat ?t + 4 * unat (PT_INDEX w)"
      unfolding pte_addr_def by (rule unat_word_at [OF PT_INDEX_less ttop])
    have "r32 m' (pte_addr m pd w) = r32 m (pte_addr m pd w)"
    proof (rule r32_cong)
      fix x :: u32 assume x: "unat (pte_addr m pd w) \<le> unat x" "unat x < unat (pte_addr m pd w) + 4"
      then have k: "unat x = unat ?t + (unat x - unat ?t)" "unat x - unat ?t < 4096" using u PT_INDEX_less [of w] by linarith+
      then have "left_alone lo cs (unat x)" using t(2) by metis
      moreover have "\<not> in_range (pde_addr pd v) 4 x"
        unfolding in_range_unat [OF v4] using k t(1) e(2,3) [of v] by linarith
      ultimately show "m' x = m x" by (rule same)
    qed (rule pte_addr_mod)
    moreover have "pte_addr m' pd w = pte_addr m pd w" by (simp add: pte_addr_def pde)
    ultimately show ?thesis by (simp add: translate_pte pde)
  qed (simp add: translate_pte pde)
qed

lemma one_more_table:
  assumes "amalloc sz lo cs = Some (b, cs')" and "table_in_place m pd lo cs w"
    and same: "PD_INDEX w \<noteq> PD_INDEX v \<Longrightarrow> r32 m' (pde_addr pd w) = r32 m (pde_addr pd w)"
    and entry: "PD_INDEX w = PD_INDEX v \<Longrightarrow> PAGE_PHYS_ADDRESS (r32 m' (pde_addr pd w)) = q"
    and "unat pd + 4096 \<le> unat q \<or> unat q + 4096 \<le> unat pd" and "\<And>k. k < 4096 \<Longrightarrow> left_alone lo cs' (unat q + k)"
  shows "table_in_place m' pd lo cs' w"
proof (cases "PD_INDEX w = PD_INDEX v")
  case True
  then show ?thesis using entry [OF True] assms(5,6) by (auto simp: table_in_place_def Let_def)
next
  case False
  then show ?thesis
    using assms(2) left_alone_amalloc [OF assms(1)] by (auto simp: same table_in_place_def Let_def)
qed

text \<open>
  The block taken for the table: inside the heap, away from the directory and from all that the heap
  leaves alone, and never under a header.
\<close>

lemma table_block:
  assumes "heap_rep s lo cs" and "amalloc 8195 lo cs = Some (b, cs')" and "page_aligned pd" and "outside_heap pd lo cs"
  obtains q m where "malloc_aligned s 4096 4096 = Some (q, s\<lparr>phys := m\<rparr>)" "page_aligned q"
    "unat pd + 4096 \<le> unat q \<or> unat q + 4096 \<le> unat pd"
    "r32 (filled m q 0 4096) (pde_addr pd v) = r32 (phys s) (pde_addr pd v)"
    "\<And>m'. (\<And>x. \<not> in_range (pde_addr pd v) 4 x \<Longrightarrow> \<not> in_range q 4096 x \<Longrightarrow> m' x = m x) \<Longrightarrow> heap_rep (s\<lparr>phys := m'\<rparr>) lo cs'"
    "\<And>x. left_alone lo cs (unat x) \<Longrightarrow> m x = phys s x \<and> \<not> in_range q 4096 x"
    "\<And>k. k < 4096 \<Longrightarrow> left_alone lo cs' (unat q + k)"
proof -
  have am: "amalloc (unat (0x1000 :: u32) + 2 ^ 12 + 3) lo cs = Some (b, cs')" using assms(2) by simp
  obtain q m where q: "malloc_aligned s (2 ^ 12) 0x1000 = Some (q, s\<lparr>phys := m\<rparr>)" "unat q mod 2 ^ 12 = 0"
    "b + 4 \<le> unat q" "unat q + unat (0x1000 :: u32) \<le> b + (unat (0x1000 :: u32) + 2 ^ 12 + 3)"
    "heap_rep (s\<lparr>phys := m\<rparr>) lo cs'"
    "\<And>x. unat x \<in> owned lo cs \<or> unat x < lo \<or> lo + span cs \<le> unat x \<Longrightarrow> m x = phys s x"
    by (rule malloc_aligned_Some [OF assms(1) _ _ am]) auto
  have al: "page_aligned q" using q(2) by (simp add: page_aligned_unat)
  note own = amalloc_owned [OF assms(2)] and qtop = page_aligned_top [OF al] and pdtop = page_aligned_top [OF assms(3)]
  note e = PDE_range(2,3) [OF assms(3), of v]
  have heap: "lo \<le> unat q" "unat q + 4096 \<le> lo + span cs" "b \<le> unat q" "unat q + 4096 \<le> b + 8195"
    using own(4,5) q(3,4) by simp_all
  have out: "unat pd + 4096 \<le> unat q \<or> unat q + 4096 \<le> unat pd" using assms(4) heap by (auto simp: outside_heap_def)
  have "r32 (filled m q 0 4096) (pde_addr pd v) = r32 (phys s) (pde_addr pd v)"
  proof (rule r32_cong)
    fix x :: u32 assume "unat (pde_addr pd v) \<le> unat x" "unat x < unat (pde_addr pd v) + 4"
    then show "filled m q 0 4096 x = phys s x"
      using e out assms(4) q(6) [of x] by (auto simp: outside_heap_def filled_def in_range_unat [OF qtop])
  qed (use e pdtop in simp)
  moreover have "heap_rep (s\<lparr>phys := m'\<rparr>) lo cs'"
    if "\<And>x. \<not> in_range (pde_addr pd v) 4 x \<Longrightarrow> \<not> in_range q 4096 x \<Longrightarrow> m' x = m x" for m'
  proof -
    have "heap_rep (s\<lparr>phys := m\<rparr>\<lparr>phys := m'\<rparr>) lo cs'"
    proof (rule heap_rep_frame [OF q(5)])
      fix y :: u32 assume "unat y \<in> hdrs lo cs'"
      then have y: "unat y \<notin> {b..<b + 8195}" "lo \<le> unat y" "unat y < lo + span cs"
        using own(1) owned_hdrs_disjoint [of lo cs'] hdrs_bounds [of "unat y" lo cs'] span_amalloc [OF assms(2)] by auto
      have "\<not> in_range (pde_addr pd v) 4 y"
        using y assms(4) e pdtop in_range_unat [of "pde_addr pd v" 4 y] by (auto simp: outside_heap_def)
      moreover have "\<not> in_range q 4096 y" using y heap in_range_unat [OF qtop] by auto
      ultimately show "m' y = phys (s\<lparr>phys := m\<rparr>) y" using that by simp
    qed
    then show ?thesis by simp
  qed
  moreover have "m x = phys s x \<and> \<not> in_range q 4096 x" if x: "left_alone lo cs (unat x)" for x
  proof -
    have "unat x \<notin> {b..<b + 8195}" using x own by (auto simp: left_alone_def)
    then have "\<not> in_range q 4096 x" using heap unfolding in_range_unat [OF qtop] by auto
    then show ?thesis using x q(6) [of x] by (simp add: left_alone_def)
  qed
  moreover have "left_alone lo cs' (unat q + k)" if "k < 4096" for k
  proof -
    have "unat q + k \<in> {b..<b + 8195}" using that heap by simp
    then show ?thesis using own(1) unfolding left_alone_def by blast
  qed
  ultimately show ?thesis using that [of q m] q(1) al out by simp
qed

text \<open>What the call leaves in memory.\<close>

lemma map_page_new_table_step:
  fixes s :: "'a paging_scheme"
  assumes "heap_rep s lo cs" and "amalloc 8195 lo cs = Some (b, cs')"
    and "pd = current_page_directory s" and "page_aligned pd" and "outside_heap pd lo cs"
    and "r32 (phys s) (pde_addr pd v) AND 1 = 0" and "\<not> bit (r32 (phys s) (pde_addr pd v)) 31"
    and "page_aligned p" and "flags AND NOT 0xFFF = 0"
  obtains q m2 where "map_page s p v flags = Some (flush_tlb_entry (s\<lparr>phys := m2\<rparr>) v)" "heap_rep (s\<lparr>phys := m2\<rparr>) lo cs'"
    "\<forall>x. left_alone lo cs (unat x) \<longrightarrow> \<not> in_range (pde_addr pd v) 4 x \<longrightarrow> m2 x = phys s x"
    "\<forall>w. PD_INDEX w = PD_INDEX v \<longrightarrow> PAGE_PHYS_ADDRESS (r32 m2 (pde_addr pd w)) = q \<and>
      translate m2 pd w = (if PT_INDEX w = PT_INDEX v then Some (p OR (w AND 0xFFF)) else None)"
    "unat pd + 4096 \<le> unat q \<or> unat q + 4096 \<le> unat pd" "\<forall>k < 4096. left_alone lo cs' (unat q + k)"
proof -
  let ?e = "pde_addr pd v"
  obtain q m where q: "malloc_aligned s 4096 4096 = Some (q, s\<lparr>phys := m\<rparr>)" "page_aligned q"
    "unat pd + 4096 \<le> unat q \<or> unat q + 4096 \<le> unat pd" "r32 (filled m q 0 4096) ?e = r32 (phys s) ?e"
    and heap: "\<And>m'. (\<And>x. \<not> in_range ?e 4 x \<Longrightarrow> \<not> in_range q 4096 x \<Longrightarrow> m' x = m x) \<Longrightarrow> heap_rep (s\<lparr>phys := m'\<rparr>) lo cs'"
    and alone: "\<And>x. left_alone lo cs (unat x) \<Longrightarrow> m x = phys s x \<and> \<not> in_range q 4096 x"
    and table: "\<And>k. k < 4096 \<Longrightarrow> left_alone lo cs' (unat q + k)"
    using table_block [OF assms(1,2,4,5), of v] by blast
  note qtop = page_aligned_top [OF q(2)]
  let ?z = "filled m q 0 4096"
  define m1 where "m1 = enter_table ?z ?e q"
  define a where "a = q + 4 * PT_INDEX v"
  define x where "x = SET_FRAME (0 OR (flags OR 1)) p"
  define m2 where "m2 = w32 m1 a x"
  have b31: "\<not> bit (r32 ?z ?e) 31" using assms(7) by (simp add: q(4))
  have zero: "\<forall>i. unat i < 1024 \<longrightarrow> r32 ?z (q + 4 * i) = 0" using r32_filled_zero [OF _ qtop] by blast
  have x: "PAGE_PHYS_ADDRESS x = p" "x AND 1 = 1" using new_entry [OF assms(8,9), of 0] by (simp_all add: x_def)
  note walk = enter_table_translate [OF assms(4) q(2,3) b31 zero m1_def a_def x, folded m2_def]
  have map: "map_page s p v flags = Some (flush_tlb_entry (s\<lparr>phys := m2\<rparr>) v)"
    using q(1) assms(6) enter_table_entry(1) [OF q(2) b31] enter_table_walk(2) [OF assms(4) q(2,3) b31 zero m1_def, of v]
    by (simp add: map_page_def Let_def assms(3) [symmetric] pde_addr_def [symmetric] memset_filled
        update_entry_def enter_table_def [symmetric] m1_def [symmetric] a_def [symmetric] x_def m2_def)
  have ua: "unat a = unat q + 4 * unat (PT_INDEX v)" unfolding a_def by (rule unat_word_at [OF PT_INDEX_less qtop])
  have e4: "unat ?e + 4 \<le> addr_space" using PDE_range(3) [OF assms(4), of v] page_aligned_top [OF assms(4)] by linarith
  have m2: "m2 y = m y" if y: "\<not> in_range ?e 4 y" "\<not> in_range q 4096 y" for y
  proof -
    have yq: "unat y < unat q \<or> unat q + 4096 \<le> unat y" using y(2) unfolding in_range_unat [OF qtop] by linarith
    have "m2 y = m1 y" unfolding m2_def
      by (rule w32_byte_other) (use yq ua PT_INDEX_less [of v] qtop in linarith)+
    also have "\<dots> = ?z y" unfolding m1_def enter_table_def
      by (rule w32_byte_other) (use y(1) e4 in \<open>unfold in_range_unat [OF e4], linarith+\<close>)
    finally show "m2 y = m y" using y(2) by (simp add: filled_def)
  qed
  have "r32 m2 ?e = r32 m1 ?e" unfolding m2_def
    by (rule r32_w32_other) (use q(3) ua PT_INDEX_less [of v] qtop e4 PDE_range(2,3) [OF assms(4), of v] in linarith)+
  then have entry: "PAGE_PHYS_ADDRESS (r32 m2 (pde_addr pd w)) = q" if "PD_INDEX w = PD_INDEX v" for w
    using enter_table_entry(1) [OF q(2) b31] that by (simp add: m1_def pde_addr_def)
  have "heap_rep (s\<lparr>phys := m2\<rparr>) lo cs'" by (rule heap) (rule m2)
  moreover have "m2 y = phys s y" if "left_alone lo cs (unat y)" "\<not> in_range ?e 4 y" for y using m2 alone that by simp
  ultimately show ?thesis using map walk entry q(3) table by (intro that [of m2 q]) simp_all
qed

text \<open>
  C21: \<^verbatim>\<open>map_page\<close> of a page whose directory entry is not present, and has bit 31 clear (\<^verbatim>\<open>SET_FRAME\<close> does
  not clear it), takes a table from a heap with room for it and returns; the directory is outside the
  heap.  The processor then translates the page to the frame, and every other address as before whose
  table, if it has one, lies in a block the heap has given out or outside the heap, and not over the
  directory.  The heap stays well-formed and the tables in place, so the next call finds the same
  conditions.
\<close>

theorem map_page_new_table:
  fixes s :: "'a paging_scheme"
  assumes "heap_rep s lo cs" and "amalloc 8195 lo cs = Some (b, cs')"
    and "pd = current_page_directory s" and "page_aligned pd" and "outside_heap pd lo cs"
    and "r32 (phys s) (pde_addr pd v) AND 1 = 0" and "\<not> bit (r32 (phys s) (pde_addr pd v)) 31"
    and "page_aligned p" and "flags AND NOT 0xFFF = 0"
  shows "\<exists>s'. map_page s p v flags = Some s' \<and> translate (phys s') pd v = Some (p OR (v AND 0xFFF))
    \<and> (\<forall>w. table_in_place (phys s) pd lo cs w \<longrightarrow> table_in_place (phys s') pd lo cs' w \<and>
        translate (phys s') pd w
          = (if drop_bit 12 w = drop_bit 12 v then Some (p OR (w AND 0xFFF)) else translate (phys s) pd w))
    \<and> heap_rep s' lo cs'"
proof -
  obtain q m2 where map: "map_page s p v flags = Some (flush_tlb_entry (s\<lparr>phys := m2\<rparr>) v)"
    and heap: "heap_rep (s\<lparr>phys := m2\<rparr>) lo cs'"
    and kept: "\<forall>x. left_alone lo cs (unat x) \<longrightarrow> \<not> in_range (pde_addr pd v) 4 x \<longrightarrow> m2 x = phys s x"
    and walk: "\<forall>w. PD_INDEX w = PD_INDEX v \<longrightarrow> PAGE_PHYS_ADDRESS (r32 m2 (pde_addr pd w)) = q \<and>
      translate m2 pd w = (if PT_INDEX w = PT_INDEX v then Some (p OR (w AND 0xFFF)) else None)"
    and q: "unat pd + 4096 \<le> unat q \<or> unat q + 4096 \<le> unat pd" "\<forall>k < 4096. left_alone lo cs' (unat q + k)"
    by (rule map_page_new_table_step [OF assms])
  have below: "translate (phys s) pd w = None" if "PD_INDEX w = PD_INDEX v" for w
    using assms(6) that by (simp add: translate_pte pde_addr_def)
  have "table_in_place m2 pd lo cs' w \<and> translate m2 pd w
      = (if drop_bit 12 w = drop_bit 12 v then Some (p OR (w AND 0xFFF)) else translate (phys s) pd w)"
    if w: "table_in_place (phys s) pd lo cs w" for w
  proof
    have others: "r32 m2 (pde_addr pd w) = r32 (phys s) (pde_addr pd w)" "translate m2 pd w = translate (phys s) pd w"
      if "PD_INDEX w \<noteq> PD_INDEX v"
      by (rule other_tables_walk [OF assms(4,5) w that], use kept in blast)+
    show "table_in_place m2 pd lo cs' w" by (rule one_more_table [OF assms(2) w others(1) _ q(1)]) (use walk q(2) in blast)+
    show "translate m2 pd w = (if drop_bit 12 w = drop_bit 12 v then Some (p OR (w AND 0xFFF)) else translate (phys s) pd w)"
      using walk others(2) below [of w] by (cases "PD_INDEX w = PD_INDEX v") (auto simp: same_page_indices)
  qed
  moreover have "translate m2 pd v = Some (p OR (v AND 0xFFF))" using walk by simp
  moreover have "heap_rep (flush_tlb_entry (s\<lparr>phys := m2\<rparr>) v) lo cs'"
    using heap by (simp add: heap_rep_def flush_tlb_entry_def cpu_def)
  moreover have "phys (flush_tlb_entry (s\<lparr>phys := m2\<rparr>) v) = m2" by (simp add: flush_tlb_entry_def)
  ultimately show ?thesis using map by (intro exI conjI) auto
qed

section \<open>Witnesses\<close>

text \<open>A directory at 0 whose entry 1 leads to a table at 0x1000.\<close>

definition small_paging :: paging where
  "small_paging = sys.extend zero_sys (paging.fields 0)\<lparr>phys := w32 (\<lambda>_. 0) 4 0x1003\<rparr>"

lemma small_paging [simp]:
  "phys small_paging = w32 (\<lambda>_. 0) 4 0x1003" "current_page_directory small_paging = 0"
  "max_blocks small_paging = 0" "used_blocks small_paging = 0" "interrupt_handers small_paging = replicate 256 0"
  by (simp_all add: small_paging_def paging.defs sys.defs zero_sys_def zero_fds_def fds.defs intr.defs zero_intr_def
      gdt.defs zero_gdt_def ata.defs quiet_kernel_def)

lemma small_walk:
  "pde_addr 0 0x400000 = 4" "pte_addr (w32 (\<lambda>_. 0) 4 0x1003) 0 0x400000 = 0x1000" "r32 (w32 (\<lambda>_. 0) 4 0x1003) 0x1000 = 0"
proof -
  show e: "pde_addr 0 0x400000 = 4" by (simp add: pde_addr_def PD_INDEX_def)
  show "pte_addr (w32 (\<lambda>_. 0) 4 0x1003) 0 0x400000 = 0x1000" by (simp add: pte_addr_def e PAGE_PHYS_ADDRESS_def PT_INDEX_def)
  have "r32 (w32 (\<lambda>_. 0) 4 0x1003) 0x1000 = r32 (\<lambda>_. 0) 0x1000" by (rule r32_w32_other) simp_all
  then show "r32 (w32 (\<lambda>_. 0) 4 0x1003) 0x1000 = 0" by (simp add: r32_def)
qed

theorem map_page_translates_witness:
  "\<exists>s'. map_page small_paging 0x500000 0x400000 3 = Some s' \<and> translate (phys s') 0 0x400000 = Some 0x500000"
  using map_page_translates [of 0 small_paging "0x400000" "0x1000" "0x500000" 3]
  by (auto simp: small_walk page_aligned_def apart_def)

theorem unmap_page_removes_witness: "translate (phys (unmap_page small_paging 0x400000)) 0 0x400000 = None"
  using unmap_page_removes [of 0 small_paging "0x1000" "0x400000"]
  by (auto simp: small_walk page_aligned_def apart_def)

theorem paging_enable_identity_witness: "translate (phys (paging_enable 0x9000 small_paging)) 0 0x12345 = Some 0x12345"
  using paging_enable_identity [of small_paging "0x9000"] by simp

definition heap_paging :: paging where
  "heap_paging = heap_init small_paging 0x200000 0x10000"

lemma heap_paging:
  "heap_rep heap_paging 0x200000 [(0xFFF0, False)]" "current_page_directory heap_paging = 0" "r32 (phys heap_paging) 8 = 0"
proof -
  show "heap_rep heap_paging 0x200000 [(0xFFF0, False)]"
    unfolding heap_paging_def using heap_init_rep [of "0x200000" "0x10000" small_paging] by simp
  show "current_page_directory heap_paging = 0" by (simp add: heap_paging_def heap_init_def Let_def)
  have "r32 (phys heap_paging) 8 = r32 (w32 (\<lambda>_. 0) 4 0x1003) 8"
    by (simp add: heap_paging_def heap_init_def Let_def set_size_def set_next_def set_prev_def set_allocated_def r32_w32_other)
  also have "\<dots> = r32 (\<lambda>_. 0) 8" by (rule r32_w32_other) simp_all
  finally show "r32 (phys heap_paging) 8 = 0" by (simp add: r32_def)
qed

text \<open>Its directory has one entry, that of the table at 0x1000, which lies below the heap.\<close>

lemma heap_paging_in_place: "table_in_place (phys heap_paging) 0 0x200000 [(0xFFF0, False)] w"
proof -
  have below: "r32 (phys heap_paging) a = r32 (w32 (\<lambda>_. 0) 4 0x1003) a" if "unat a + 4 \<le> 0x200000" for a
    using that by (simp add: heap_paging_def heap_init_def Let_def set_size_def set_next_def set_prev_def set_allocated_def r32_w32_other)
  have pde: "unat (pde_addr 0 w) = 4 * unat (PD_INDEX w)" for w
    using PDE_range(1) [of 0 w] by (simp add: page_aligned_def)
  have "r32 (phys heap_paging) (pde_addr 0 w) = (if pde_addr 0 w = 4 then 0x1003 else 0)" for w
  proof (cases "pde_addr 0 w = 4")
    case True
    then show ?thesis using below [of 4] by simp
  next
    case False
    then have "unat (pde_addr 0 w) \<noteq> 4" using unat_eq_iff_eq [of "pde_addr 0 w" 4] by simp
    then have "r32 (w32 (\<lambda>_. 0) 4 0x1003) (pde_addr 0 w) = r32 (\<lambda>_. 0) (pde_addr 0 w)"
      using pde [of w] PD_INDEX_less [of w] by (intro r32_w32_other) (linarith | simp)+
    then show ?thesis using False below [of "pde_addr 0 w"] pde [of w] PD_INDEX_less [of w] by (simp add: r32_def)
  qed
  then show ?thesis by (simp add: table_in_place_def PAGE_PHYS_ADDRESS_def left_alone_def)
qed

theorem map_page_new_table_witness:
  "\<exists>s'. map_page heap_paging 0x800000 0x800000 3 = Some s' \<and> translate (phys s') 0 0x800000 = Some 0x800000
    \<and> translate (phys s') 0 0x400000 = translate (phys heap_paging) 0 0x400000"
proof -
  have "pde_addr 0 0x800000 = 8" by (simp add: pde_addr_def PD_INDEX_def)
  then show ?thesis
    using map_page_new_table [OF heap_paging(1), of "0x200010" "[(8195, True), (57309, False)]" 0 "0x800000" "0x800000" 3]
      heap_paging(2,3) heap_paging_in_place
    by (auto simp: page_aligned_def outside_heap_def)
qed

end
