(* ===== verification/Elf.thy ===== *)
theory Elf
  imports Mem_Common
begin

text \<open>
  The structures of \<^verbatim>\<open>kernel/include/exec/elf/elf.h\<close>, read from memory: a pointer to a packed
  structure is an address, \<open>ehdr_at m a\<close> is the structure it points to.  An array of structures is
  indexed by adding multiples of the structure's size, as the compiler does.
\<close>

record elf32_ehdr =
  e_ident :: "u8 list"
  e_type :: u16
  e_machine :: u16
  e_version :: u32
  e_entry :: u32
  e_phoff :: u32
  e_shoff :: u32
  e_flags :: u32
  e_ehsize :: u16
  e_phentsize :: u16
  e_phnum :: u16
  e_shentsize :: u16
  e_shnum :: u16
  e_shstrndx :: u16

record elf32_shdr =
  sh_name :: u32
  sh_type :: u32
  sh_flags :: u32
  sh_addr :: u32
  sh_offset :: u32
  sh_size :: u32
  sh_link :: u32
  sh_info :: u32
  sh_addralign :: u32
  sh_entsize :: u32

record elf32_phdr =
  p_type :: u32
  p_offset :: u32
  p_vaddr :: u32
  p_paddr :: u32
  p_filesz :: u32
  p_memsz :: u32
  p_flags :: u32
  p_align :: u32

record elf32_sym =
  st_name :: u32
  st_value :: u32
  st_size :: u32
  st_info :: u8
  st_other :: u8
  st_shndx :: u16

record elf32_rel =
  r_offset :: u32
  r_info :: u32

definition ehdr_at :: "mem \<Rightarrow> u32 \<Rightarrow> elf32_ehdr" where
  "ehdr_at m a = \<lparr>e_ident = load m a 16, e_type = r16 m (a + 16), e_machine = r16 m (a + 18), e_version = r32 m (a + 20),
     e_entry = r32 m (a + 24), e_phoff = r32 m (a + 28), e_shoff = r32 m (a + 32), e_flags = r32 m (a + 36),
     e_ehsize = r16 m (a + 40), e_phentsize = r16 m (a + 42), e_phnum = r16 m (a + 44), e_shentsize = r16 m (a + 46),
     e_shnum = r16 m (a + 48), e_shstrndx = r16 m (a + 50)\<rparr>"

definition shdr_at :: "mem \<Rightarrow> u32 \<Rightarrow> elf32_shdr" where
  "shdr_at m a = \<lparr>sh_name = r32 m a, sh_type = r32 m (a + 4), sh_flags = r32 m (a + 8), sh_addr = r32 m (a + 12),
     sh_offset = r32 m (a + 16), sh_size = r32 m (a + 20), sh_link = r32 m (a + 24), sh_info = r32 m (a + 28),
     sh_addralign = r32 m (a + 32), sh_entsize = r32 m (a + 36)\<rparr>"

definition phdr_at :: "mem \<Rightarrow> u32 \<Rightarrow> elf32_phdr" where
  "phdr_at m a = \<lparr>p_type = r32 m a, p_offset = r32 m (a + 4), p_vaddr = r32 m (a + 8), p_paddr = r32 m (a + 12),
     p_filesz = r32 m (a + 16), p_memsz = r32 m (a + 20), p_flags = r32 m (a + 24), p_align = r32 m (a + 28)\<rparr>"

definition sym_at :: "mem \<Rightarrow> u32 \<Rightarrow> elf32_sym" where
  "sym_at m a = \<lparr>st_name = r32 m a, st_value = r32 m (a + 4), st_size = r32 m (a + 8), st_info = m (a + 12),
     st_other = m (a + 13), st_shndx = r16 m (a + 14)\<rparr>"

definition rel_at :: "mem \<Rightarrow> u32 \<Rightarrow> elf32_rel" where
  "rel_at m a = \<lparr>r_offset = r32 m a, r_info = r32 m (a + 4)\<rparr>"

abbreviation (input) SHT_DYNSYM :: u32 where "SHT_DYNSYM \<equiv> 0xB"
abbreviation (input) SHT_SYMTAB :: u32 where "SHT_SYMTAB \<equiv> 0x2"
abbreviation (input) SHT_REL :: u32 where "SHT_REL \<equiv> 0x9"
abbreviation (input) PT_LOAD :: u32 where "PT_LOAD \<equiv> 0x1"
abbreviation (input) R_386_JMP_SLOT :: u8 where "R_386_JMP_SLOT \<equiv> 7"

definition ELF32_R_SYM :: "u32 \<Rightarrow> u32" where "ELF32_R_SYM info = drop_bit 8 info"
definition ELF32_R_TYPE :: "u32 \<Rightarrow> u8" where "ELF32_R_TYPE info = ucast info"

section \<open>Reading unchanged memory\<close>

text \<open>\<open>away W a n\<close>: the \<open>n\<close> bytes at \<open>a\<close> avoid the set \<open>W\<close>; \<open>only_in W m m'\<close>: the memories differ in \<open>W\<close> only.\<close>

definition away :: "u32 set \<Rightarrow> u32 \<Rightarrow> nat \<Rightarrow> bool" where
  "away W a n \<longleftrightarrow> (\<forall>i < n. a + of_nat i \<notin> W)"

definition only_in :: "u32 set \<Rightarrow> mem \<Rightarrow> mem \<Rightarrow> bool" where
  "only_in W m m' \<longleftrightarrow> (\<forall>x. x \<notin> W \<longrightarrow> m' x = m x)"

lemma only_in_refl [simp]: "only_in W m m"
  by (simp add: only_in_def)

lemma only_in_trans: "only_in W m m' \<Longrightarrow> only_in W m' m'' \<Longrightarrow> only_in W m m''"
  by (simp add: only_in_def)

lemma only_in_mono: "only_in V m m' \<Longrightarrow> V \<subseteq> W \<Longrightarrow> only_in W m m'"
  by (auto simp: only_in_def)

lemma away_byte: "only_in W m m' \<Longrightarrow> away W a n \<Longrightarrow> i < n \<Longrightarrow> m' (a + of_nat i) = m (a + of_nat i)"
  by (simp add: only_in_def away_def)

lemma away_offset:
  assumes "away W a n" and "k + j \<le> n"
  shows "away W (a + of_nat k) j"
  unfolding away_def
proof (intro allI impI)
  fix i assume "i < j"
  with assms have "a + of_nat (k + i) \<notin> W" unfolding away_def by (metis add_less_cancel_left order_less_le_trans)
  then show "a + of_nat k + of_nat i \<notin> W" by (simp add: add.assoc)
qed

lemma r32_away:
  assumes "only_in W m m'" and "away W a 4"
  shows "r32 m' a = r32 m a"
  using away_byte [OF assms, of 0] away_byte [OF assms, of 1] away_byte [OF assms, of 2] away_byte [OF assms, of 3]
  by (simp add: r32_def)

lemma r16_away:
  assumes "only_in W m m'" and "away W a 2"
  shows "r16 m' a = r16 m a"
  using away_byte [OF assms, of 0] away_byte [OF assms, of 1] by (simp add: r16_def)

lemma load_away: "only_in W m m' \<Longrightarrow> away W a n \<Longrightarrow> load m' a n = load m a n"
  by (auto simp: load_def away_byte)

lemma cstring_away: "only_in W m m' \<Longrightarrow> cstring m a cs \<Longrightarrow> away W a (length cs + 1) \<Longrightarrow> cstring m' a cs"
proof (induction cs arbitrary: a)
  case Nil
  then show ?case using away_byte [of W m m' a 1 0] by simp
next
  case (Cons c cs)
  have "away W (a + of_nat 1) (length cs + 1)" by (rule away_offset [OF Cons.prems(3)]) simp
  with Cons show ?case using away_byte [of W m m' a "length (c # cs) + 1" 0] by simp
qed

lemma w32_only_in: "away (- W) a 4 \<Longrightarrow> only_in W m (w32 m a v)"
proof -
  assume *: "away (- W) a 4"
  have "a + of_nat i \<in> W" if "i < 4" for i using * that by (simp add: away_def)
  from this [of 0] this [of 1] this [of 2] this [of 3] show ?thesis by (auto simp: only_in_def w32_def)
qed

text \<open>The structures read through pointers.\<close>

lemma shdr_away:
  assumes "only_in W m m'" and "away W a 40"
  shows "shdr_at m' a = shdr_at m a"
  using r32_away [OF assms(1) away_offset [OF assms(2), of 0 4]] r32_away [OF assms(1) away_offset [OF assms(2), of 4 4]]
    r32_away [OF assms(1) away_offset [OF assms(2), of 8 4]] r32_away [OF assms(1) away_offset [OF assms(2), of 12 4]]
    r32_away [OF assms(1) away_offset [OF assms(2), of 16 4]] r32_away [OF assms(1) away_offset [OF assms(2), of 20 4]]
    r32_away [OF assms(1) away_offset [OF assms(2), of 24 4]] r32_away [OF assms(1) away_offset [OF assms(2), of 28 4]]
    r32_away [OF assms(1) away_offset [OF assms(2), of 32 4]] r32_away [OF assms(1) away_offset [OF assms(2), of 36 4]]
  by (simp add: shdr_at_def)

lemma phdr_away:
  assumes "only_in W m m'" and "away W a 32"
  shows "phdr_at m' a = phdr_at m a"
  using r32_away [OF assms(1) away_offset [OF assms(2), of 0 4]] r32_away [OF assms(1) away_offset [OF assms(2), of 4 4]]
    r32_away [OF assms(1) away_offset [OF assms(2), of 8 4]] r32_away [OF assms(1) away_offset [OF assms(2), of 12 4]]
    r32_away [OF assms(1) away_offset [OF assms(2), of 16 4]] r32_away [OF assms(1) away_offset [OF assms(2), of 20 4]]
    r32_away [OF assms(1) away_offset [OF assms(2), of 24 4]] r32_away [OF assms(1) away_offset [OF assms(2), of 28 4]]
  by (simp add: phdr_at_def)

lemma sym_away:
  assumes "only_in W m m'" and "away W a 16"
  shows "sym_at m' a = sym_at m a"
  using r32_away [OF assms(1) away_offset [OF assms(2), of 0 4]] r32_away [OF assms(1) away_offset [OF assms(2), of 4 4]]
    r32_away [OF assms(1) away_offset [OF assms(2), of 8 4]] r16_away [OF assms(1) away_offset [OF assms(2), of 14 2]]
    away_byte [OF assms, of 12] away_byte [OF assms, of 13]
  by (simp add: sym_at_def)

lemma rel_away:
  assumes "only_in W m m'" and "away W a 8"
  shows "rel_at m' a = rel_at m a"
  using r32_away [OF assms(1) away_offset [OF assms(2), of 0 4]] r32_away [OF assms(1) away_offset [OF assms(2), of 4 4]]
  by (simp add: rel_at_def)

lemma ehdr_away:
  assumes "only_in W m m'" and "away W a 52"
  shows "ehdr_at m' a = ehdr_at m a"
  using load_away [OF assms(1) away_offset [OF assms(2), of 0 16]]
    r16_away [OF assms(1) away_offset [OF assms(2), of 16 2]] r16_away [OF assms(1) away_offset [OF assms(2), of 18 2]]
    r32_away [OF assms(1) away_offset [OF assms(2), of 20 4]] r32_away [OF assms(1) away_offset [OF assms(2), of 24 4]]
    r32_away [OF assms(1) away_offset [OF assms(2), of 28 4]] r32_away [OF assms(1) away_offset [OF assms(2), of 32 4]]
    r32_away [OF assms(1) away_offset [OF assms(2), of 36 4]]
    r16_away [OF assms(1) away_offset [OF assms(2), of 40 2]] r16_away [OF assms(1) away_offset [OF assms(2), of 42 2]]
    r16_away [OF assms(1) away_offset [OF assms(2), of 44 2]] r16_away [OF assms(1) away_offset [OF assms(2), of 46 2]]
    r16_away [OF assms(1) away_offset [OF assms(2), of 48 2]] r16_away [OF assms(1) away_offset [OF assms(2), of 50 2]]
  by (simp add: ehdr_at_def)

section \<open>elf.c\<close>

definition is_elf_image :: "mem \<Rightarrow> u32 \<Rightarrow> bool" where
  "is_elf_image m hdr \<longleftrightarrow>
     (let h = ehdr_at m hdr
      in e_ident h ! 0 = 0x7F \<and> e_ident h ! 1 = 0x45 \<and> e_ident h ! 2 = 0x4C \<and> e_ident h ! 3 = 0x46)"

definition get_section_name :: "mem \<Rightarrow> u32 \<Rightarrow> u32 \<Rightarrow> int \<Rightarrow> u32" where
  "get_section_name m elf shdr index =
     (let ehdr = ehdr_at m elf;
          shstrtab_shdr = shdr_at m (shdr + 40 * ucast (e_shstrndx ehdr));
          shstrtab = elf + sh_offset shstrtab_shdr
      in shstrtab + sh_name (shdr_at m (shdr + 40 * of_int index)))"

end
