(* ===== verification/Symtable.thy ===== *)
theory Symtable
  imports Paging Elf
begin

text \<open>
  The kernel's symbol table, \<^verbatim>\<open>kernel/src/exec/elf/symtable.c\<close>: an array of pairs of a name and an
  address in heap memory.  The contract is a dictionary: \<open>symbols_rep\<close> relates the array to a list of
  names and addresses, registering appends to it, resolving is \<open>map_of\<close>.
\<close>

section \<open>Operations\<close>

record symtab = paging +
  symtable :: u32
  symbol_idx :: u32

definition symbol_at :: "u32 \<Rightarrow> u32 \<Rightarrow> u32" where
  "symbol_at table i = table + 8 * i"

definition register_symbol :: "('a symtab_scheme) \<Rightarrow> u32 \<Rightarrow> u32 \<Rightarrow> ('a symtab_scheme)" where
  "register_symbol s name address =
     (let e = symbol_at (symtable s) (symbol_idx s);
          s1 = s\<lparr>phys := w32 (phys s) e name\<rparr>;
          s2 = s1\<lparr>phys := w32 (phys s1) (e + 4) address\<rparr>
      in s2\<lparr>symbol_idx := symbol_idx s2 + 1\<rparr>)"

text \<open>The names and the C functions \<^verbatim>\<open>init_symtable\<close> registers.\<close>

definition kernel_symbols :: "(string \<times> string) list" where
  "kernel_symbols =
     [(''inb'', ''inb''), (''outb'', ''outb''), (''outb_slow'', ''outb_slow''), (''inw'', ''inw''), (''outw'', ''outw''),
      (''inl'', ''inl''), (''outl'', ''outl''), (''kprintf'', ''printf''), (''kscreen_clear'', ''clear_screen''),
      (''kmalloc'', ''malloc''), (''kfree'', ''free''), (''kmalloc_aligned'', ''malloc_aligned''),
      (''kfree_aligned'', ''free_aligned''), (''memset'', ''memset''), (''memmove'', ''memmove''),
      (''image_load'', ''image_load''), (''fat16_open'', ''fat16_open''), (''fat16_close'', ''fat16_close''),
      (''fat16_read'', ''fat16_read''), (''fat16_ls'', ''fat16_ls'')]"

text \<open>\<open>literal_addr\<close> and \<open>function_addr\<close> are where the linker put the literals and the functions.\<close>

definition init_symtable :: "(string \<Rightarrow> u32) \<Rightarrow> (string \<Rightarrow> u32) \<Rightarrow> ('a symtab_scheme) \<Rightarrow> ('a symtab_scheme) option" where
  "init_symtable literal_addr function_addr s = do {
     (table, s1) \<leftarrow> malloc s (8 * 256);
     let s2 = s1\<lparr>symtable := table, symbol_idx := 0\<rparr>;
     Some (fold (\<lambda>(nm, f) s. register_symbol s (literal_addr nm) (function_addr f)) kernel_symbols s2) }"

function resolve_loop :: "mem \<Rightarrow> u32 \<Rightarrow> u32 \<Rightarrow> u32 \<Rightarrow> u32 \<Rightarrow> u32 option" where
  "resolve_loop m table idx name i =
     (if i < idx then do {
        r \<leftarrow> strcmp m (r32 m (symbol_at table i)) name;
        if r = 0 then Some (r32 m (symbol_at table i + 4)) else resolve_loop m table idx name (i + 1) }
      else Some 0)"
  by pat_completeness auto
termination
  by (relation "measure (\<lambda>(m, t, idx, n, i). unat idx - unat i)") (auto simp: loop_counter_measure)

declare resolve_loop.simps [simp del]

definition resolve_symbol :: "('a symtab_scheme) \<Rightarrow> u32 \<Rightarrow> u32 option" where
  "resolve_symbol s name = resolve_loop (phys s) (symtable s) (symbol_idx s) name 0"

section \<open>The table as a dictionary\<close>

text \<open>The names registered lie outside the array.\<close>

definition symbol_array :: "u32 \<Rightarrow> u32 set" where
  "symbol_array table = {x. in_range table 2048 x}"

definition entry_ok :: "mem \<Rightarrow> u32 \<Rightarrow> nat \<Rightarrow> u8 list \<times> u32 \<Rightarrow> bool" where
  "entry_ok m table i p \<longleftrightarrow> cstring m (r32 m (symbol_at table (of_nat i))) (fst p)
     \<and> away (symbol_array table) (r32 m (symbol_at table (of_nat i))) (length (fst p) + 1)
     \<and> r32 m (symbol_at table (of_nat i) + 4) = snd p"

definition symbols_rep :: "('a symtab_scheme) \<Rightarrow> (u8 list \<times> u32) list \<Rightarrow> bool" where
  "symbols_rep s syms \<longleftrightarrow> symbol_idx s = of_nat (length syms) \<and> length syms \<le> 256
     \<and> unat (symtable s) + 2048 \<le> addr_space
     \<and> (\<forall>i < length syms. entry_ok (phys s) (symtable s) i (syms ! i))"

text \<open>Writes that spare the array and the names keep the dictionary.\<close>

definition symbols_away :: "u32 set \<Rightarrow> ('a symtab_scheme) \<Rightarrow> (u8 list \<times> u32) list \<Rightarrow> bool" where
  "symbols_away W s syms \<longleftrightarrow> (\<forall>i < length syms. away W (symbol_at (symtable s) (of_nat i)) 8
     \<and> away W (r32 (phys s) (symbol_at (symtable s) (of_nat i))) (length (fst (syms ! i)) + 1))"

lemma entry_ok_away:
  assumes "entry_ok m table i p" and "only_in W m m'" and "away W (symbol_at table (of_nat i)) 8"
    and "away W (r32 m (symbol_at table (of_nat i))) (length (fst p) + 1)"
  shows "entry_ok m' table i p" "r32 m' (symbol_at table (of_nat i)) = r32 m (symbol_at table (of_nat i))"
proof -
  show e: "r32 m' (symbol_at table (of_nat i)) = r32 m (symbol_at table (of_nat i))"
    using r32_away [OF assms(2) away_offset [OF assms(3), of 0 4]] by simp
  have "r32 m' (symbol_at table (of_nat i) + 4) = r32 m (symbol_at table (of_nat i) + 4)"
    using r32_away [OF assms(2) away_offset [OF assms(3), of 4 4]] by simp
  then show "entry_ok m' table i p"
    using assms(1) cstring_away [OF assms(2) _ assms(4)] unfolding entry_ok_def e by auto
qed

lemma symbols_rep_away:
  assumes "symbols_rep s syms" and "symbols_away W s syms" and "only_in W (phys s) (phys s')"
    and "symtable s' = symtable s" and "symbol_idx s' = symbol_idx s"
  shows "symbols_rep s' syms" "symbols_away W s' syms"
proof -
  have e: "entry_ok (phys s') (symtable s) i (syms ! i)"
    "r32 (phys s') (symbol_at (symtable s) (of_nat i)) = r32 (phys s) (symbol_at (symtable s) (of_nat i))"
    if "i < length syms" for i
    using assms(1-3) that entry_ok_away [of "phys s" "symtable s" i "syms ! i" W "phys s'"]
    unfolding symbols_rep_def symbols_away_def by blast+
  then show "symbols_rep s' syms" using assms(1,4,5) by (simp add: symbols_rep_def)
  from e(2) show "symbols_away W s' syms" using assms(2,4) by (simp add: symbols_away_def)
qed

lemma unat_symbol_at:
  assumes "unat table + 2048 \<le> addr_space" and "k < 256"
  shows "unat (symbol_at table (of_nat k)) = unat table + 8 * k"
proof -
  have "symbol_at table (of_nat k) = table + of_nat (8 * k)" by (simp add: symbol_at_def)
  then show ?thesis using unat_plus_of_nat [of table "8 * k"] assms by simp
qed

lemma symbol_entries_apart:
  assumes "unat table + 2048 \<le> addr_space" and "i < 256" "k < 256" and "i \<noteq> k"
  shows "away {x. in_range (symbol_at table (of_nat k)) 8 x} (symbol_at table (of_nat i)) 8"
  unfolding away_def
proof (intro allI impI)
  fix j :: nat assume "j < 8"
  note e = unat_symbol_at [OF assms(1,2)] unat_symbol_at [OF assms(1,3)]
  have "unat (symbol_at table (of_nat i) + of_nat j) = unat table + 8 * i + j"
    using e(1) \<open>j < 8\<close> assms(1,2) by (subst unat_plus_of_nat) simp_all
  then show "symbol_at table (of_nat i) + of_nat j \<notin> {x. in_range (symbol_at table (of_nat k)) 8 x}"
    using e(2) assms \<open>j < 8\<close> by (auto simp: in_range_unat)
qed

lemma register_symbol_only_in:
  "only_in {x. in_range (symbol_at (symtable s) (symbol_idx s)) 8 x} (phys s) (phys (register_symbol s p a))"
proof -
  let ?e = "symbol_at (symtable s) (symbol_idx s)" and ?W = "{x. in_range (symbol_at (symtable s) (symbol_idx s)) 8 x}"
  have "away (- ?W) ?e 8" by (auto simp: away_def in_range_def)
  then show ?thesis
    using away_offset [of "- ?W" ?e 8 0 4] away_offset [of "- ?W" ?e 8 4 4] unfolding register_symbol_def Let_def
    by (simp, intro only_in_trans [OF w32_only_in w32_only_in]) simp_all
qed

lemma new_entry_in_array:
  assumes "unat table + 2048 \<le> addr_space" and "k < 256"
  shows "{x. in_range (symbol_at table (of_nat k)) 8 x} \<subseteq> symbol_array table"
  using unat_symbol_at [OF assms] assms by (auto simp: symbol_array_def in_range_unat)

lemma away_mono: "W \<subseteq> V \<Longrightarrow> away V a n \<Longrightarrow> away W a n"
  by (auto simp: away_def)

lemma register_symbol_appends:
  assumes "symbols_rep s syms" and "length syms < 256"
    and "cstring (phys s) p nm" and "away (symbol_array (symtable s)) p (length nm + 1)"
  shows "symbols_rep (register_symbol s p a) (syms @ [(nm, a)])"
proof -
  let ?e = "symbol_at (symtable s) (of_nat (length syms))"
  let ?m = "w32 (w32 (phys s) ?e p) (?e + 4) a"
  let ?W = "{x. in_range ?e 8 x}"
  have tab: "unat (symtable s) + 2048 \<le> addr_space" and idx: "symbol_idx s = of_nat (length syms)"
    using assms(1) by (simp_all add: symbols_rep_def)
  note ue = unat_symbol_at [OF tab assms(2)]
  have sub: "?W \<subseteq> symbol_array (symtable s)"
    by (rule new_entry_in_array [OF tab assms(2)])
  have o: "only_in ?W (phys s) ?m"
    using register_symbol_only_in [of s p a] idx by (simp add: register_symbol_def Let_def)
  have mono: "away ?W q n" if "away (symbol_array (symtable s)) q n" for q n
    using that sub by (auto simp: away_def)
  have old: "entry_ok ?m (symtable s) i (syms ! i)" if "i < length syms" for i
    using assms(1,2) that mono
    by (intro entry_ok_away(1) [OF _ o] symbol_entries_apart) (auto simp: symbols_rep_def entry_ok_def)
  have name: "r32 ?m ?e = p"
    using r32_w32_other [of ?e "?e + 4" "w32 (phys s) ?e p" a] ue tab assms(2) by (simp add: unat_plus_numeral)
  have new: "entry_ok ?m (symtable s) (length syms) (nm, a)"
    unfolding entry_ok_def name using assms(3,4) mono by (simp add: cstring_away [OF o])
  have "entry_ok ?m (symtable s) i ((syms @ [(nm, a)]) ! i)" if "i < length (syms @ [(nm, a)])" for i
    using that old new by (cases "i = length syms") (auto simp: nth_append)
  then show ?thesis
    using tab idx assms(2) by (simp add: symbols_rep_def register_symbol_def Let_def add.commute)
qed

lemma resolve_loop_map_of:
  assumes "cstring m p nm" and "\<forall>i < length syms. entry_ok m table i (syms ! i)" and "length syms \<le> 256" and "k \<le> length syms"
  shows "resolve_loop m table (of_nat (length syms)) p (of_nat k)
    = Some (case map_of (drop k syms) nm of Some a \<Rightarrow> a | None \<Rightarrow> 0)"
  using assms(4)
proof (induction "length syms - k" arbitrary: k)
  case 0
  then show ?case by (simp add: resolve_loop.simps)
next
  case (Suc n)
  then have k: "k < length syms" by simp
  obtain sn sa where e: "syms ! k = (sn, sa)" by fastforce
  have d: "drop k syms = (sn, sa) # drop (Suc k) syms" using k e by (metis Cons_nth_drop_Suc)
  have ent: "cstring m (r32 m (symbol_at table (of_nat k))) sn" "r32 m (symbol_at table (of_nat k) + 4) = sa"
    using assms(2) k e by (auto simp: entry_ok_def)
  have cmp: "strcmp m (r32 m (symbol_at table (of_nat k))) p = Some (str_diff sn nm)" "str_diff sn nm = 0 \<longleftrightarrow> sn = nm"
    using strcmp_str_diff [OF ent(1) assms(1)] str_diff_eq_0 cstring_nonzero [OF ent(1)] cstring_nonzero [OF assms(1)] by blast+
  have lt: "(of_nat k :: u32) < of_nat (length syms)"
    using k assms(3) by (simp add: word_less_nat_alt)
  have rest: "resolve_loop m table (of_nat (length syms)) p (of_nat k + 1)
      = Some (case map_of (drop (Suc k) syms) nm of Some a \<Rightarrow> a | None \<Rightarrow> 0)"
    using Suc.hyps(1) [of "Suc k"] Suc.hyps(2) k by (simp add: add.commute)
  show ?case
    unfolding d using lt cmp rest ent(2) by (subst resolve_loop.simps) auto
qed

theorem resolve_symbol_map_of:
  assumes "symbols_rep s syms" and "cstring (phys s) p nm"
  shows "resolve_symbol s p = Some (case map_of syms nm of Some a \<Rightarrow> a | None \<Rightarrow> 0)"
  using resolve_loop_map_of [OF assms(2), of syms "symtable s" 0] assms(1)
  by (simp add: resolve_symbol_def symbols_rep_def)

text \<open>
  The symbol table is a dictionary: after registering a name at the end of a table that
  represents a list of names and addresses, looking any name up returns, and yields the address of
  the first symbol registered under it, or null if there is none.
\<close>

theorem register_symbol_resolves:
  assumes "symbols_rep s syms" and "length syms < 256"
    and "cstring (phys s) p nm" and "away (symbol_array (symtable s)) p (length nm + 1)"
    and "cstring (phys s) q nm'" and "away (symbol_array (symtable s)) q (length nm' + 1)"
  shows "resolve_symbol (register_symbol s p a) q
    = Some (case map_of (syms @ [(nm, a)]) nm' of Some b \<Rightarrow> b | None \<Rightarrow> 0)"
proof (rule resolve_symbol_map_of)
  show "symbols_rep (register_symbol s p a) (syms @ [(nm, a)])" by (rule register_symbol_appends [OF assms(1-4)])
  have "{x. in_range (symbol_at (symtable s) (symbol_idx s)) 8 x} \<subseteq> symbol_array (symtable s)"
    using assms(1,2) new_entry_in_array [of "symtable s" "length syms"] by (simp add: symbols_rep_def)
  then show "cstring (phys (register_symbol s p a)) q nm'"
    by (rule cstring_away [OF register_symbol_only_in assms(5) away_mono [OF _ assms(6)]])
qed

text \<open>A table at 0x1000 with no symbols yet, and the name \<open>k\<close> at 0x100.\<close>

definition small_symtab :: symtab where
  "small_symtab = paging.extend small_paging (symtab.fields 0x1000 0)\<lparr>phys := (\<lambda>_. 0)(0x100 := 0x6B)\<rparr>"

lemma small_symtab [simp]:
  "phys small_symtab = (\<lambda>_. 0)(0x100 := 0x6B)" "symtable small_symtab = 0x1000" "symbol_idx small_symtab = 0"
  by (simp_all add: small_symtab_def symtab.defs paging.defs small_paging_def)

lemma small_symtab_rep: "symbols_rep small_symtab []"
  by (simp add: symbols_rep_def)

lemma below_symbol_array:
  assumes "unat a + n \<le> unat table" and "unat table + 2048 \<le> addr_space"
  shows "away (symbol_array table) a n"
  using assms by (auto simp: away_def symbol_array_def in_range_unat unat_plus_of_nat)

theorem register_symbol_resolves_witness:
  "resolve_symbol (register_symbol small_symtab 0x100 0xC0DE) 0x100 = Some 0xC0DE
    \<and> resolve_symbol (register_symbol small_symtab 0x100 0xC0DE) 0x200 = Some 0"
proof -
  have k: "cstring (phys small_symtab) 0x100 [0x6B]" "away (symbol_array (symtable small_symtab)) 0x100 (length [0x6B :: u8] + 1)"
    by (simp, rule below_symbol_array) simp_all
  have e: "cstring (phys small_symtab) 0x200 []" "away (symbol_array (symtable small_symtab)) 0x200 (length ([] :: u8 list) + 1)"
    by (simp, rule below_symbol_array) simp_all
  show ?thesis
    using register_symbol_resolves [OF small_symtab_rep _ k k, of "0xC0DE"]
      register_symbol_resolves [OF small_symtab_rep _ k e, of "0xC0DE"] by simp
qed

end
