(* ===== verification/Elf_Loader.thy ===== *)
theory Elf_Loader
  imports Symtable Console
begin

text \<open>
  The loader of \<^verbatim>\<open>kernel/src/exec/elf/elf_loader.c\<close>: an ELF image in memory is copied segment by
  segment into a fresh buffer and its jump slots are filled from the kernel's symbol table.  The
  loops read the headers from memory on every turn, as the code does, so a copy could change them.
  \<open>foo\<close> is the literal \<^verbatim>\<open>print_hex\<close> patches, \<open>main\<close> the address of the literal \<^verbatim>\<open>"main"\<close>.
\<close>

section \<open>Operations\<close>

abbreviation (input) shdr_ptr :: "u32 \<Rightarrow> u32 \<Rightarrow> u32" where "shdr_ptr shdr i \<equiv> shdr + 40 * i"

text \<open>A relocation table holds at most \<open>2 ^ 32 div 8\<close> entries, so the \<^verbatim>\<open>int\<close> counter does not overflow.\<close>

function relocate_loop :: "('a symtab_scheme) \<Rightarrow> u32 \<Rightarrow> u32 \<Rightarrow> u32 \<Rightarrow> u32 \<Rightarrow> u32 \<Rightarrow> nat \<Rightarrow> ('a symtab_scheme) option" where
  "relocate_loop s shdr syms strings rel dst j =
     (if j < unat (sh_size (shdr_at (phys s) shdr) div 8) then do {
        let r = rel_at (phys s) (rel + 8 * of_nat j);
        let sym = strings + st_name (sym_at (phys s) (syms + 16 * ELF32_R_SYM (r_info r)));
        s1 \<leftarrow> (if ELF32_R_TYPE (r_info r) = R_386_JMP_SLOT then do {
                 a \<leftarrow> resolve_symbol s sym;
                 Some (s\<lparr>phys := w32 (phys s) (dst + r_offset r) a\<rparr>) }
               else Some s);
        relocate_loop s1 shdr syms strings rel dst (j + 1) }
      else Some s)"
  by pat_completeness auto
termination
proof (relation "measure (\<lambda>(s, shdr, syms, strings, rel, dst, j). addr_space - j)", goal_cases)
  case (2 s shdr syms strings rel dst j)
  then show ?case using unat_u32_lt [of "sh_size (shdr_at (phys s) shdr) div 8"] by auto
qed simp

declare relocate_loop.simps [simp del]

definition relocate :: "('a symtab_scheme) \<Rightarrow> u32 \<Rightarrow> u32 \<Rightarrow> u32 \<Rightarrow> u32 \<Rightarrow> u32 \<Rightarrow> ('a symtab_scheme) option" where
  "relocate s shdr syms strings src dst =
     relocate_loop s shdr syms strings (src + sh_offset (shdr_at (phys s) shdr)) dst 0"

text \<open>The two searches differ only in the section type.\<close>

definition find_section :: "mem \<Rightarrow> u32 \<Rightarrow> u32 \<Rightarrow> u32 \<Rightarrow> int" where
  "find_section m hdr shdr ty =
     (case find (\<lambda>i. sh_type (shdr_at m (shdr_ptr shdr (of_nat i))) = ty) [0..<unat (e_shnum (ehdr_at m hdr))] of
        Some i \<Rightarrow> int i
      | None \<Rightarrow> - 1)"

definition find_global_symbol_table :: "mem \<Rightarrow> u32 \<Rightarrow> u32 \<Rightarrow> int" where
  "find_global_symbol_table m hdr shdr = find_section m hdr shdr SHT_DYNSYM"

definition find_symbol_table :: "mem \<Rightarrow> u32 \<Rightarrow> u32 \<Rightarrow> int" where
  "find_symbol_table m hdr shdr = find_section m hdr shdr SHT_SYMTAB"

function find_sym_loop :: "mem \<Rightarrow> u32 \<Rightarrow> u32 \<Rightarrow> u32 \<Rightarrow> u32 \<Rightarrow> u32 \<Rightarrow> nat \<Rightarrow> u32 option" where
  "find_sym_loop m name shdr_sym syms strings dst i =
     (if i < unat (sh_size (shdr_at m shdr_sym) div 16) then do {
        let sym = sym_at m (syms + 16 * of_nat i);
        r \<leftarrow> strcmp m name (strings + st_name sym);
        if r = 0 then Some (dst + st_value sym) else find_sym_loop m name shdr_sym syms strings dst (i + 1) }
      else Some 0)"
  by pat_completeness auto
termination
  by (relation "measure (\<lambda>(m, name, shdr_sym, syms, strings, dst, i). unat (sh_size (shdr_at m shdr_sym) div 16) - i)") auto

declare find_sym_loop.simps [simp del]

definition find_sym :: "mem \<Rightarrow> u32 \<Rightarrow> u32 \<Rightarrow> u32 \<Rightarrow> u32 \<Rightarrow> u32 \<Rightarrow> u32 option" where
  "find_sym m name shdr shdr_sym src dst =
     (let syms = src + sh_offset (shdr_at m shdr_sym);
          strings = src + sh_offset (shdr_at m (shdr_ptr shdr (sh_link (shdr_at m shdr_sym))))
      in find_sym_loop m name shdr_sym syms strings dst 0)"

text \<open>The number of program headers and of sections is a 16-bit field.\<close>

function load_segments :: "mem \<Rightarrow> u32 \<Rightarrow> u32 \<Rightarrow> u32 \<Rightarrow> nat \<Rightarrow> mem" where
  "load_segments m elf_start phdr exec i =
     (if i < unat (e_phnum (ehdr_at m elf_start)) then
        (let p = phdr_at m (phdr + 32 * of_nat i)
         in load_segments
              (if p_type p \<noteq> PT_LOAD \<or> p_filesz p = 0 then m
               else fst (memmove m (p_vaddr p + exec) (elf_start + p_offset p) (p_filesz p)))
              elf_start phdr exec (i + 1))
      else m)"
  by pat_completeness auto
termination
proof (relation "measure (\<lambda>(m, elf_start, phdr, exec, i). 65536 - i)", goal_cases)
  case (2 m elf_start phdr exec i)
  then show ?case using unat_u16_lt [of "e_phnum (ehdr_at m elf_start)"] by auto
qed simp

declare load_segments.simps [simp del]

function relocate_sections :: "('a symtab_scheme) \<Rightarrow> u32 \<Rightarrow> u32 \<Rightarrow> u32 \<Rightarrow> u32 \<Rightarrow> u32 \<Rightarrow> nat \<Rightarrow> ('a symtab_scheme) option" where
  "relocate_sections s elf_start shdr syms strings exec i =
     (if i < unat (e_shnum (ehdr_at (phys s) elf_start)) then do {
        s1 \<leftarrow> (if sh_type (shdr_at (phys s) (shdr_ptr shdr (of_nat i))) = SHT_REL
               then relocate s (shdr_ptr shdr (of_nat i)) syms strings elf_start exec else Some s);
        relocate_sections s1 elf_start shdr syms strings exec (i + 1) }
      else Some s)"
  by pat_completeness auto
termination
proof (relation "measure (\<lambda>(s, elf_start, shdr, syms, strings, exec, i). 65536 - i)", goal_cases)
  case (2 s elf_start shdr syms strings exec i)
  then show ?case using unat_u16_lt [of "e_shnum (ehdr_at (phys s) elf_start)"] by auto
qed simp

declare relocate_sections.simps [simp del]

definition print_load_info :: "u32 \<Rightarrow> ('a screen_scheme) \<Rightarrow> u32 \<Rightarrow> u32 \<Rightarrow> u32 \<Rightarrow> ('a screen_scheme) option" where
  "print_load_info foo s elf_start exec entry = do {
     s1 \<leftarrow> print_hex32 foo (print_literal s (literal ''<ELF> ELF32 image at: 0x'')) elf_start;
     let s2 = print_literal s1 [0x0A];
     s3 \<leftarrow> print_hex32 foo (print_literal s2 (literal ''<ELF> ELF32 executable buffer at: 0x'')) exec;
     let s4 = print_literal s3 [0x0A];
     s5 \<leftarrow> print_hex32 foo (print_literal s4 (literal ''<ELF> ELF32 executable entry at: 0x'')) entry;
     Some (print_literal s5 [0x0A]) }"

definition image_load :: "u32 \<Rightarrow> u32 \<Rightarrow> ('a symtab_scheme) \<Rightarrow> u32 \<Rightarrow> u32 \<Rightarrow> bool \<Rightarrow> (u32 \<times> 'a symtab_scheme) option" where
  "image_load foo main s elf_start sz debug =
     (let hdr = elf_start
      in if \<not> is_elf_image (phys s) hdr
         then Some (0, print_literal s (literal ''<ELF> Invalid ELF image'' @ [0x0A]))
         else do {
           (exec, s1) \<leftarrow> malloc s sz;
           if exec = 0 then Some (0, print_literal s1 (literal ''<ELF> Error allocating memory'' @ [0x0A]))
           else do {
             let s2 = s1\<lparr>phys := fst (memset (phys s1) exec 0 sz)\<rparr>;
             let phdr = elf_start + e_phoff (ehdr_at (phys s2) hdr);
             let s3 = s2\<lparr>phys := load_segments (phys s2) elf_start phdr exec 0\<rparr>;
             let shdr = elf_start + e_shoff (ehdr_at (phys s3) hdr);
             let g = shdr_ptr shdr (of_int (find_global_symbol_table (phys s3) hdr shdr));
             let global_syms = elf_start + sh_offset (shdr_at (phys s3) g);
             let global_strings = elf_start + sh_offset (shdr_at (phys s3) (shdr_ptr shdr (sh_link (shdr_at (phys s3) g))));
             s4 \<leftarrow> relocate_sections s3 elf_start shdr global_syms global_strings exec 0;
             let t = shdr_ptr shdr (of_int (find_symbol_table (phys s4) hdr shdr));
             entry \<leftarrow> find_sym (phys s4) main shdr t elf_start exec;
             s5 \<leftarrow> (if debug then print_load_info foo s4 elf_start exec entry else Some s4);
             Some (entry, s5) } })"

end
