(* ===== verification/Elf_So.thy ===== *)
theory Elf_So
  imports Elf_Loader Fat16
begin

text \<open>
  Shared objects, \<^verbatim>\<open>kernel/src/exec/elf/elf_so.c\<close>: a file is read whole into a heap buffer and kept in
  a table of sixteen libraries.  The file system's disk is the kernel: its state is the field
  \<open>disk\<close>.  The bytes \<^verbatim>\<open>fat16_read\<close> delivers are laid into the buffer when it returns.
\<close>

section \<open>State\<close>

record elf32_dl =
  dl_buffer :: u32
  dl_fd :: int
  dl_shdr :: u32
  dl_shnum :: int

record dl = symtab +
  dynamic_libraries :: "elf32_dl list"
  dl_count :: int

abbreviation DL_TABLE :: int where "DL_TABLE \<equiv> 0x10"

section \<open>Operations\<close>

definition dl_init :: "('a dl_scheme) \<Rightarrow> ('a dl_scheme)" where
  "dl_init s = s\<lparr>dl_count := 0\<rparr>"

text \<open>A descriptor is passed to the file system as a byte.\<close>

definition handle_arg :: "int \<Rightarrow> nat" where
  "handle_arg fd = nat (fd mod 256)"

text \<open>\<open>None\<close> also stands for an entry outside the table.\<close>

definition dlopen :: "('a dl_scheme) storage_dev \<Rightarrow> ('a dl_scheme) fat16 \<Rightarrow> u8 list \<Rightarrow> (int \<times> ('a dl_scheme) fat16) option" where
  "dlopen dev s path = do {
     (fd, s1) \<leftarrow> fat16_open dev s path MODE_R;
     (buffer, k) \<leftarrow> malloc (disk s1) 14112;
     let s2 = s1\<lparr>disk := k\<lparr>phys := fst (memset (phys k) buffer 0 14112)\<rparr>\<rparr>;
     (r, bs, s3) \<leftarrow> fat16_read dev s2 (handle_arg fd) buffer 14112;
     let k3 = (disk s3)\<lparr>phys := store (phys (disk s3)) buffer bs\<rparr>;
     let hdr = ehdr_at (phys k3) buffer;
     let shdr = buffer + e_shoff hdr;
     let dl = dl_count k3;
     if 0 \<le> dl \<and> dl < DL_TABLE
     then Some (dl, s3\<lparr>disk := k3\<lparr>dl_count := dl + 1, dynamic_libraries :=
            (dynamic_libraries k3)[nat dl := \<lparr>dl_buffer = buffer, dl_fd = fd, dl_shdr = shdr, dl_shnum = 10\<rparr>]\<rparr>\<rparr>)
     else None }"

definition dlclose :: "('a dl_scheme) fat16 \<Rightarrow> int \<Rightarrow> (('a dl_scheme) fat16) option" where
  "dlclose s dl =
     (if 0 \<le> dl \<and> dl < DL_TABLE
      then
        (let lib = dynamic_libraries (disk s) ! nat dl;
             s1 = s\<lparr>disk := free (disk s) (dl_buffer lib)\<rparr>;
             s2 = snd (fat16_close s1 (handle_arg (dl_fd lib)))
         in Some (s2\<lparr>disk := (disk s2)\<lparr>dl_count := dl_count (disk s2) - 1\<rparr>\<rparr>))
      else None)"

text \<open>The search for the two tables; \<open>dynsym_name\<close> and \<open>dynstr_name\<close> are the literals.\<close>

definition dl_section :: "mem \<Rightarrow> u32 \<Rightarrow> u32 \<Rightarrow> u32 \<Rightarrow> u32 \<Rightarrow> nat \<Rightarrow> u32 \<times> u32 \<Rightarrow> (u32 \<times> u32) option" where
  "dl_section m dynsym_name dynstr_name elf shdr i = (\<lambda>(dynsym, dynstr). do {
     r \<leftarrow> strcmp m (get_section_name m elf shdr (int i)) dynsym_name;
     if r = 0 then Some (shdr_ptr shdr (of_nat i), dynstr)
     else do {
       r2 \<leftarrow> strcmp m (get_section_name m elf shdr (int i)) dynstr_name;
       Some (dynsym, if r2 = 0 then shdr_ptr shdr (of_nat i) else dynstr) } })"

primrec dl_sections :: "mem \<Rightarrow> u32 \<Rightarrow> u32 \<Rightarrow> u32 \<Rightarrow> u32 \<Rightarrow> nat \<Rightarrow> (u32 \<times> u32) option" where
  "dl_sections m dynsym_name dynstr_name elf shdr 0 = Some (0, 0)"
| "dl_sections m dynsym_name dynstr_name elf shdr (Suc n) =
     Option.bind (dl_sections m dynsym_name dynstr_name elf shdr n) (dl_section m dynsym_name dynstr_name elf shdr n)"

text \<open>The last loop is the one of \<^verbatim>\<open>find_sym\<close>: nothing is written between its turns.\<close>

definition dlsym :: "u32 \<Rightarrow> u32 \<Rightarrow> ('a dl_scheme) \<Rightarrow> int \<Rightarrow> u32 \<Rightarrow> u32 option" where
  "dlsym dynsym_name dynstr_name s dl symbol =
     (if 0 \<le> dl \<and> dl < DL_TABLE
      then
        (let lib = dynamic_libraries s ! nat dl; m = phys s; elf = dl_buffer lib
         in do {
           (dynsym, dynstr) \<leftarrow> dl_sections m dynsym_name dynstr_name elf (dl_shdr lib) (nat (dl_shnum lib));
           if dynsym = 0 \<or> dynstr = 0 then Some 0
           else
             (let symbols = elf + sh_offset (shdr_at m dynsym);
                  strtab = elf + sh_offset (shdr_at m dynstr)
              in find_sym_loop m symbol dynsym symbols strtab elf 0) })
      else None)"

end
