(* ===== verification/Driver.thy ===== *)
theory Driver
  imports Elf_So
begin

text \<open>
  The table of drivers, \<^verbatim>\<open>kernel/src/driver/driver.c\<close>, and the keyboard driver,
  \<^verbatim>\<open>kernel/src/driver/ps2/ps2keyboard.c\<close>.  A driver's functions are addresses; \<open>run\<close> is what calling
  one does.  A table index outside the 64 entries is \<open>None\<close>.
\<close>

section \<open>The table\<close>

datatype driver_type = KEYBOARD | ATA | SATA

record driver =
  interrupt :: u32
  drv_name :: u32
  drv_type :: driver_type
  init_handle :: u32
  enable_handler :: u32
  disbale_handler :: u32
  enabled :: bool
  drv_id :: u8

record drvs = dl +
  drivers :: "driver list"
  driver_index :: u8

abbreviation DRIVER_TABLE :: nat where "DRIVER_TABLE \<equiv> 0x40"

type_synonym 's run = "u32 \<Rightarrow> 's \<Rightarrow> 's option"

definition init_drivers :: "('a drvs_scheme) \<Rightarrow> ('a drvs_scheme)" where
  "init_drivers s = s\<lparr>driver_index := 0\<rparr>"

definition set_driver :: "('a drvs_scheme) \<Rightarrow> u8 \<Rightarrow> driver \<Rightarrow> ('a drvs_scheme) option" where
  "set_driver s i d = (if unat i < DRIVER_TABLE then Some (s\<lparr>drivers := (drivers s)[unat i := d]\<rparr>) else None)"

text \<open>The field \<open>interrupt\<close> of the local variable is never written: it is the argument \<open>junk\<close>.\<close>

definition create_driver ::
    "('a drvs_scheme) run \<Rightarrow> u32 \<Rightarrow> ('a drvs_scheme) \<Rightarrow> u32 \<Rightarrow> driver_type \<Rightarrow> u32 \<Rightarrow> u32 \<Rightarrow> u32 \<Rightarrow> (u8 \<times> 'a drvs_scheme) option" where
  "create_driver run junk s nm ty init_h enable_h disbale_h = do {
     let d = \<lparr>interrupt = junk, drv_name = nm, drv_type = ty, init_handle = init_h, enable_handler = enable_h,
              disbale_handler = disbale_h, enabled = False, drv_id = driver_index s\<rparr>;
     s1 \<leftarrow> set_driver s (driver_index s) d;
     s2 \<leftarrow> (if init_h \<noteq> 0 then run (init_handle (drivers s1 ! unat (driver_index s1))) s1 else Some s1);
     Some (drv_id d, s2\<lparr>driver_index := driver_index s2 + 1\<rparr>) }"

definition add_driver :: "('a drvs_scheme) \<Rightarrow> driver \<Rightarrow> ('a drvs_scheme) option" where
  "add_driver s d = do {
     s1 \<leftarrow> set_driver s (driver_index s) d;
     Some (s1\<lparr>driver_index := driver_index s1 + 1\<rparr>) }"

definition enable_driver :: "('a drvs_scheme) run \<Rightarrow> ('a drvs_scheme) \<Rightarrow> u8 \<Rightarrow> ('a drvs_scheme) option" where
  "enable_driver run s i = do {
     s1 \<leftarrow> set_driver s i ((drivers s ! unat i)\<lparr>enabled := True\<rparr>);
     s2 \<leftarrow> run (enable_handler (drivers s1 ! unat i)) s1;
     let s3 = print_literal s2 (literal (''<Mercury> Driver '' @ [CHR 0x27]));
     s4 \<leftarrow> printf s3 (drv_name (drivers s3 ! unat i));
     Some (print_literal s4 (literal ([CHR 0x27] @ '' enabled '' @ [CHR 0x0A]))) }"

definition disbale_driver :: "('a drvs_scheme) run \<Rightarrow> ('a drvs_scheme) \<Rightarrow> u8 \<Rightarrow> ('a drvs_scheme) option" where
  "disbale_driver run s i = do {
     s1 \<leftarrow> set_driver s i ((drivers s ! unat i)\<lparr>enabled := False\<rparr>);
     s2 \<leftarrow> run (disbale_handler (drivers s1 ! unat i)) s1;
     let s3 = print_literal s2 (literal (''<Mercury> Driver '' @ [CHR 0x27]));
     s4 \<leftarrow> printf s3 (drv_name (drivers s3 ! unat i));
     Some (print_literal s4 (literal ([CHR 0x27] @ '' disabled '' @ [CHR 0x0A]))) }"

section \<open>The PS/2 keyboard\<close>

abbreviation (input) PS2_DATA_PORT :: u16 where "PS2_DATA_PORT \<equiv> 0x60"
abbreviation (input) PS2_COMMAND_PORT :: u16 where "PS2_COMMAND_PORT \<equiv> 0x64"

definition handle_interrupt :: "io \<Rightarrow> ('a machine_scheme) \<Rightarrow> ('a machine_scheme)" where
  "handle_interrupt io s = snd (inb io s PS2_DATA_PORT)"

text \<open>The loop that empties the output buffer of the controller.\<close>

partial_function (option) ps2_drain :: "io \<Rightarrow> ('a machine_scheme) \<Rightarrow> ('a machine_scheme) option" where
  "ps2_drain io s =
     (let (status, s1) = inb io s PS2_COMMAND_PORT
      in if status AND 1 \<noteq> 0 then ps2_drain io (snd (inb io s1 PS2_DATA_PORT)) else Some s1)"

definition ps2_kb_enable :: "io \<Rightarrow> u32 \<Rightarrow> ('a intr_scheme) \<Rightarrow> ('a intr_scheme) option" where
  "ps2_kb_enable io handler_addr s = do {
     s1 \<leftarrow> ps2_drain io (register_interrupt_handler s 0x21 handler_addr);
     let s2 = outb s1 PS2_COMMAND_PORT 0xAE;
     let s3 = outb s2 PS2_COMMAND_PORT 0x20;
     let (v, s4) = inb io s3 PS2_DATA_PORT;
     let status = (v OR 1) AND NOT 0x10;
     let s5 = outb s4 PS2_COMMAND_PORT 0x60;
     let s6 = outb s5 PS2_DATA_PORT status;
     Some (outb s6 PS2_DATA_PORT 0xF4) }"

definition ps2_kb_disable :: "('a machine_scheme) \<Rightarrow> ('a machine_scheme)" where
  "ps2_kb_disable s = s"

end
