(* ===== verification/Ps2_Controller.thy ===== *)
theory Ps2_Controller
  imports Driver
begin

text \<open>
  The keyboard controller that \<^verbatim>\<open>driver/ps2/ps2keyboard.c\<close> programs, an 8042, as an automaton over the
  port accesses: the bytes waiting at port 0x60, those it is still preparing, the configuration byte, and
  whether the next byte written is that configuration.  How long a byte is in preparation is the
  controller's affair: an oracle over the accesses so far says when it delivers.  Against it, enabling the
  keyboard ends and has its effect.
\<close>

section \<open>The 8042\<close>

record i8042 =
  queue :: "u8 list"
  pending :: "u8 list"
  config :: u8
  want_config :: bool
  kb_interface :: bool
  scanning :: bool

definition write_i8042_command :: "u8 \<Rightarrow> i8042 \<Rightarrow> i8042" where
  "write_i8042_command v k =
     (if v = 0x20 then k\<lparr>pending := pending k @ [config k]\<rparr>
      else if v = 0x60 then k\<lparr>want_config := True\<rparr>
      else if v = 0xAE then k\<lparr>kb_interface := True\<rparr>
      else if v = 0xAD then k\<lparr>kb_interface := False\<rparr>
      else k)"

text \<open>A byte that is not awaited by the controller goes to the keyboard, which acknowledges it with 0xFA.\<close>

definition write_i8042_data :: "u8 \<Rightarrow> i8042 \<Rightarrow> i8042" where
  "write_i8042_data v k =
     (if want_config k then k\<lparr>config := v, want_config := False\<rparr>
      else if v = 0xF4 then k\<lparr>scanning := True, pending := pending k @ [0xFA]\<rparr>
      else k\<lparr>pending := pending k @ [0xFA]\<rparr>)"

fun i8042_event :: "cpu_event \<Rightarrow> i8042 \<Rightarrow> i8042" where
  "i8042_event (Out8 port v) k =
     (if port = PS2_COMMAND_PORT then write_i8042_command v k
      else if port = PS2_DATA_PORT then write_i8042_data v k
      else k)"
| "i8042_event (In8 port v) k = (if port = PS2_DATA_PORT then k\<lparr>queue := tl (queue k)\<rparr> else k)"
| "i8042_event _ k = k"

definition deliver :: "bool \<Rightarrow> i8042 \<Rightarrow> i8042" where
  "deliver b k = (if b then k\<lparr>queue := queue k @ pending k, pending := []\<rparr> else k)"

text \<open>The controller after the accesses \<open>h\<close>; \<open>ready h\<close> says whether it delivers then.\<close>

primrec kbc :: "(cpu_event list \<Rightarrow> bool) \<Rightarrow> i8042 \<Rightarrow> cpu_event list \<Rightarrow> i8042" where
  "kbc ready k [] = deliver (ready []) k"
| "kbc ready k (e # h) = deliver (ready (e # h)) (i8042_event e (kbc ready k h))"

text \<open>
  The answers of the controller: bit 0 of the status says that a byte waits, the other bits are free; and
  a read of port 0x60 with no byte waiting has any result.
\<close>

definition answers_as :: "io \<Rightarrow> (cpu_event list \<Rightarrow> bool) \<Rightarrow> i8042 \<Rightarrow> bool" where
  "answers_as io ready k \<longleftrightarrow> (\<forall>t. (io t PS2_COMMAND_PORT AND 1 \<noteq> 0 \<longleftrightarrow> queue (kbc ready k t) \<noteq> [])
     \<and> (queue (kbc ready k t) \<noteq> [] \<longrightarrow> io t PS2_DATA_PORT = ucast (hd (queue (kbc ready k t)))))"

text \<open>All but the bytes, and the number of those.\<close>

definition same_controls :: "i8042 \<Rightarrow> i8042 \<Rightarrow> bool" where
  "same_controls k k' \<longleftrightarrow> config k' = config k \<and> want_config k' = want_config k
     \<and> kb_interface k' = kb_interface k \<and> scanning k' = scanning k"

abbreviation bytes :: "i8042 \<Rightarrow> nat" where "bytes k \<equiv> length (queue k) + length (pending k)"

lemma deliver_fields [simp]:
  "config (deliver b k) = config k" "want_config (deliver b k) = want_config k"
  "kb_interface (deliver b k) = kb_interface k" "scanning (deliver b k) = scanning k" "bytes (deliver b k) = bytes k"
  "deliver False k = k" "pending (deliver True k) = []" "queue (deliver True k) = queue k @ pending k"
  by (simp_all add: deliver_def)

text \<open>A controller that delivers at once has nothing in preparation.\<close>

lemma prompt_pending: "\<forall>h. ready h \<Longrightarrow> pending (kbc ready k t) = []"
  by (cases t) simp_all

lemma prompt_deliver [simp]: "pending k = [] \<Longrightarrow> deliver b k = k"
  by (cases k) (simp add: deliver_def)

lemma and_one_bit: "(x :: 'a::len word) AND 1 \<noteq> 0 \<longleftrightarrow> bit x 0"
  by (simp add: and_one_eq bit_0 odd_iff_mod_2_eq_one)

lemma status_bit: "(ucast (x :: u32) :: u8) AND 1 \<noteq> 0 \<longleftrightarrow> x AND 1 \<noteq> 0"
  unfolding and_one_bit by (simp add: bit_ucast_iff)

lemma inb_status:
  assumes "answers_as io ready k"
  obtains v u where "inb io s PS2_COMMAND_PORT = (v, s\<lparr>trace := u\<rparr>)" "v AND 1 \<noteq> 0 \<longleftrightarrow> queue (kbc ready k (trace s)) \<noteq> []"
    "kbc ready k u = deliver (ready u) (kbc ready k (trace s))"
proof -
  have "ucast (io (trace s) PS2_COMMAND_PORT) AND (1 :: u8) \<noteq> 0 \<longleftrightarrow> queue (kbc ready k (trace s)) \<noteq> []"
    using assms unfolding status_bit answers_as_def by blast
  then show ?thesis by (intro that [of _ "trace (snd (inb io s PS2_COMMAND_PORT))"]) (simp_all add: inb_def cpu_def Let_def)
qed

lemma inb_data:
  obtains v u where "inb io s PS2_DATA_PORT = (v, s\<lparr>trace := u\<rparr>)"
    "kbc ready k u = deliver (ready u) ((kbc ready k (trace s))\<lparr>queue := tl (queue (kbc ready k (trace s)))\<rparr>)"
    "answers_as io ready k \<Longrightarrow> queue (kbc ready k (trace s)) \<noteq> [] \<Longrightarrow> v = hd (queue (kbc ready k (trace s)))"
proof (rule that [of "fst (inb io s PS2_DATA_PORT)" "trace (snd (inb io s PS2_DATA_PORT))"])
  assume "answers_as io ready k" "queue (kbc ready k (trace s)) \<noteq> []"
  moreover have "ucast (ucast b :: u32) = (b :: u8)" for b by (simp add: ucast_up_ucast_id is_up)
  ultimately show "fst (inb io s PS2_DATA_PORT) = hd (queue (kbc ready k (trace s)))"
    by (simp add: answers_as_def inb_def Let_def)
qed (simp_all add: inb_def cpu_def Let_def)

section \<open>Enabling the keyboard\<close>

text \<open>
  The loop reads waiting bytes until none waits, and touches nothing else.  A byte in preparation may
  come later; a controller that delivers at once has none.
\<close>

lemma ps2_drain_empties:
  assumes "answers_as io ready k"
  shows "\<exists>t. ps2_drain io s = Some (s\<lparr>trace := t\<rparr>) \<and> same_controls (kbc ready k (trace s)) (kbc ready k t)
    \<and> ((\<forall>h. ready h) \<longrightarrow> queue (kbc ready k t) = [])"
proof (induction "bytes (kbc ready k (trace s))" arbitrary: s rule: less_induct)
  case less
  obtain v u where s1: "inb io s PS2_COMMAND_PORT = (v, s\<lparr>trace := u\<rparr>)" "v AND 1 \<noteq> 0 \<longleftrightarrow> queue (kbc ready k (trace s)) \<noteq> []"
    "kbc ready k u = deliver (ready u) (kbc ready k (trace s))" by (rule inb_status [OF assms])
  show ?case
  proof (cases "queue (kbc ready k (trace s)) = []")
    case True
    then have "ps2_drain io s = Some (s\<lparr>trace := u\<rparr>)" using s1(1,2) by (subst ps2_drain.simps) simp
    moreover have "queue (kbc ready k u) = []" if "\<forall>h. ready h"
      using True prompt_pending [OF that, of k "trace s"] by (simp add: s1(3))
    ultimately show ?thesis using s1(3) by (intro exI [of _ u]) (simp add: same_controls_def)
  next
    case False
    let ?s1 = "s\<lparr>trace := u\<rparr>"
    obtain w u' where s2: "inb io ?s1 PS2_DATA_PORT = (w, ?s1\<lparr>trace := u'\<rparr>)"
      "kbc ready k u' = deliver (ready u') ((kbc ready k (trace ?s1))\<lparr>queue := tl (queue (kbc ready k (trace ?s1)))\<rparr>)"
      by (rule inb_data)
    have "queue (kbc ready k u) \<noteq> []" using False by (simp add: s1(3) deliver_def)
    then have "bytes (kbc ready k u') < bytes (kbc ready k u)" by (cases "queue (kbc ready k u)") (simp_all add: s2(2))
    also have "\<dots> = bytes (kbc ready k (trace s))" by (simp add: s1(3))
    finally have "bytes (kbc ready k (trace (s\<lparr>trace := u'\<rparr>))) < bytes (kbc ready k (trace s))" by simp
    from less [OF this] obtain t where t: "ps2_drain io (s\<lparr>trace := u'\<rparr>) = Some (s\<lparr>trace := t\<rparr>)"
      "same_controls (kbc ready k u') (kbc ready k t)" "(\<forall>h. ready h) \<longrightarrow> queue (kbc ready k t) = []" by auto
    have "ps2_drain io s = ps2_drain io (s\<lparr>trace := u'\<rparr>)"
      using False s1(1,2) s2(1) by (subst ps2_drain.simps) simp
    with t show ?thesis using s1(3) s2(2) by (intro exI [of _ t]) (simp add: same_controls_def)
  qed
qed

lemma config_bits: "bit ((v OR 1) AND NOT 0x10 :: u8) 0" "\<not> bit ((v OR 1) AND NOT 0x10 :: u8) 4"
  by (simp_all add: bit_simps bit_numeral_rec)

text \<open>
  C34: Against a keyboard controller in any state, however many bytes wait or are in preparation and
  however long it takes to deliver them, enabling the keyboard returns, the handler stands in slot 0x21,
  the controller's configuration has its interrupt on and its clock running, the interface is enabled and
  the keyboard scans.  If the controller delivers at once, the bytes that waited are dropped, the other
  bits of the configuration are as before, and the keyboard has acknowledged.  Otherwise the configuration
  is read too early, since the code does not wait for the reply (\<open>ps2_kb_enable_reads_early\<close>).
\<close>

theorem ps2_kb_enable_returns:
  assumes "answers_as io ready k" and "kbc ready k (trace s) = c"
  shows "\<exists>t. ps2_kb_enable io handler s = Some ((register_interrupt_handler s 0x21 handler)\<lparr>trace := t\<rparr>)
    \<and> bit (config (kbc ready k t)) 0 \<and> \<not> bit (config (kbc ready k t)) 4
    \<and> kb_interface (kbc ready k t) \<and> scanning (kbc ready k t) \<and> \<not> want_config (kbc ready k t)
    \<and> ((\<forall>h. ready h) \<longrightarrow> kbc ready k t = \<lparr>queue = [0xFA], pending = [], config = (config c OR 1) AND NOT 0x10,
        want_config = False, kb_interface = True, scanning = True\<rparr>)"
proof -
  let ?s = "register_interrupt_handler s 0x21 handler"
  obtain t where t: "ps2_drain io ?s = Some (?s\<lparr>trace := t\<rparr>)" "same_controls c (kbc ready k t)"
    "(\<forall>h. ready h) \<longrightarrow> queue (kbc ready k t) = []"
    using ps2_drain_empties [OF assms(1), of ?s] assms(2) by (auto simp: register_interrupt_handler_def)
  define s3 where "s3 = outb (outb (?s\<lparr>trace := t\<rparr>) PS2_COMMAND_PORT 0xAE) PS2_COMMAND_PORT 0x20"
  obtain v u where r: "inb io s3 PS2_DATA_PORT = (v, s3\<lparr>trace := u\<rparr>)"
    "kbc ready k u = deliver (ready u) ((kbc ready k (trace s3))\<lparr>queue := tl (queue (kbc ready k (trace s3)))\<rparr>)"
    "queue (kbc ready k (trace s3)) \<noteq> [] \<Longrightarrow> v = hd (queue (kbc ready k (trace s3)))"
    using inb_data [where io = io and ready = ready and k = k and s = s3] assms(1) by metis
  have s3: "kb_interface (kbc ready k (trace s3))"
    by (simp add: s3_def outb_def cpu_def write_i8042_command_def)
  let ?v = "(v OR 1) AND NOT 0x10"
  let ?u = "Out8 PS2_DATA_PORT 0xF4 # Out8 PS2_DATA_PORT ?v # Out8 PS2_COMMAND_PORT 0x60 # u"
  have run: "ps2_kb_enable io handler s = Some (?s\<lparr>trace := ?u\<rparr>)"
    by (simp add: ps2_kb_enable_def t(1) s3_def [symmetric] r(1) Let_def) (simp add: s3_def outb_def cpu_def)
  have all: "config (kbc ready k ?u) = ?v \<and> \<not> want_config (kbc ready k ?u) \<and> kb_interface (kbc ready k ?u) \<and> scanning (kbc ready k ?u)"
    using s3 by (simp add: write_i8042_command_def write_i8042_data_def r(2))
  have "kbc ready k ?u = \<lparr>queue = [0xFA], pending = [], config = (config c OR 1) AND NOT 0x10,
      want_config = False, kb_interface = True, scanning = True\<rparr>" if p: "\<forall>h. ready h"
  proof -
    from p have now: "ready = (\<lambda>_. True)" by auto
    have none: "pending (kbc (\<lambda>_. True) k h) = []" for h by (rule prompt_pending) simp
    have q: "queue (kbc ready k (trace s3)) = [config c]"
      using t(2,3) by (simp add: now none s3_def outb_def cpu_def write_i8042_command_def same_controls_def)
    have "queue (kbc ready k ?u) = [0xFA]"
      using q by (simp add: now none write_i8042_command_def write_i8042_data_def r(2) [unfolded now])
    then show ?thesis using all none [of ?u] r(3) q by (intro i8042.equality) (simp_all add: now)
  qed
  with run all config_bits [of v] show ?thesis by (intro exI [of _ ?u]) simp
qed

text \<open>A controller in which two bytes wait.\<close>

definition waiting_i8042 :: i8042 where
  "waiting_i8042 = \<lparr>queue = [0x1C, 0x9C], pending = [], config = 0x50, want_config = False, kb_interface = False, scanning = False\<rparr>"

definition i8042_io :: "(cpu_event list \<Rightarrow> bool) \<Rightarrow> i8042 \<Rightarrow> io" where
  "i8042_io ready k t port =
     (if port = PS2_COMMAND_PORT then (if queue (kbc ready k t) = [] then 0x14 else 0x15)
      else if port = PS2_DATA_PORT \<and> queue (kbc ready k t) \<noteq> [] then ucast (hd (queue (kbc ready k t)))
      else 0)"

lemma i8042_io_answers: "answers_as (i8042_io ready k) ready k"
  by (simp add: answers_as_def i8042_io_def)

theorem ps2_kb_enable_returns_witness:
  "\<exists>t. ps2_kb_enable (i8042_io (\<lambda>_. True) waiting_i8042) 0x9000 zero_intr
      = Some ((register_interrupt_handler zero_intr 0x21 0x9000)\<lparr>trace := t\<rparr>)
    \<and> config (kbc (\<lambda>_. True) waiting_i8042 t) = 0x41 \<and> queue (kbc (\<lambda>_. True) waiting_i8042 t) = [0xFA]"
  using ps2_kb_enable_returns [OF i8042_io_answers [of "\<lambda>_. True" waiting_i8042], of zero_intr waiting_i8042 "0x9000"]
  by (auto simp: waiting_i8042_def)

text \<open>
  The same controller, which this time takes as long as the code gives it: the read of the configuration
  finds the lines at 0, and the translation of scan codes (bit 6) is lost.
\<close>

theorem ps2_kb_enable_reads_early:
  "\<exists>t. ps2_kb_enable (i8042_io (\<lambda>_. False) waiting_i8042) 0x9000 zero_intr
      = Some ((register_interrupt_handler zero_intr 0x21 0x9000)\<lparr>trace := t\<rparr>)
    \<and> config (kbc (\<lambda>_. False) waiting_i8042 t) = 0x01"
  by (simp add: ps2_kb_enable_def ps2_drain.simps inb_def outb_def cpu_def Let_def i8042_io_def waiting_i8042_def
      register_interrupt_handler_def write_i8042_command_def write_i8042_data_def)
    (intro exI conjI, rule refl, simp add: write_i8042_command_def write_i8042_data_def)

text \<open>Without a controller the lines float high, the status never clears and the kernel hangs.\<close>

lemma ps2_drain_stops:
  assumes "ps2_drain io s = Some r"
  shows "\<exists>t. io t PS2_COMMAND_PORT AND 1 = 0"
  using assms
proof (induction io s r rule: ps2_drain.raw_induct [rotated, consumes 1, case_names 1])
  case (1 drain io s r)
  then show ?case using status_bit [of "io (trace s) PS2_COMMAND_PORT"]
    by (auto simp: inb_def cpu_def Let_def split: if_split_asm)
qed

lemma ps2_drain_floating_bus:
  assumes "\<forall>t. io t PS2_COMMAND_PORT = 0xFF"
  shows "ps2_drain io s = None"
  using ps2_drain_stops [of io s] assms by (cases "ps2_drain io s") auto

end
