(* ===== verification/Elf_Image.thy ===== *)
theory Elf_Image
  imports Elf_Loader
begin

text \<open>
  What an ELF image means, apart from the loader: the list of its segments, its jump slots, its
  strings and symbols, each a function of the bytes of the file.  \<open>linked\<close> is the program the image
  denotes: a zeroed buffer with the segments laid over it and the slots filled in.
\<close>

section \<open>Writing into a buffer\<close>

definition patch :: "nat \<Rightarrow> u8 list \<Rightarrow> u8 list \<Rightarrow> u8 list" where
  "patch off bs img = take off img @ bs @ drop (off + length bs) img"

definition word_bytes :: "u32 \<Rightarrow> u8 list" where
  "word_bytes v = [byte_of 0 v, byte_of 1 v, byte_of 2 v, byte_of 3 v]"

lemma length_word_bytes [simp]: "length (word_bytes v) = 4"
  by (simp add: word_bytes_def)

lemma w32_store: "w32 m a v = store m a (word_bytes v)"
  by (simp add: w32_def word_bytes_def add.assoc)

lemma copied_store: "n \<le> addr_space \<Longrightarrow> copied m d s n = store m d (load m s n)"
  by (auto simp: copied_def store_spec in_range_def)

lemma store_only_in: "away (- V) a (length bs) \<Longrightarrow> only_in V m (store m a bs)"
proof (induction bs arbitrary: m a)
  case (Cons b bs)
  have "away (- V) (a + of_nat 1) (length bs)" by (rule away_offset [OF Cons.prems]) simp
  then have "only_in V (m(a := b)) (store (m(a := b)) (a + 1) bs)" using Cons.IH by simp
  moreover have "a \<in> V" using Cons.prems by (auto simp: away_def dest!: spec [of _ 0])
  ultimately show ?case by (auto simp: only_in_def)
qed simp

lemma length_patch [simp]: "off + length bs \<le> length img \<Longrightarrow> length (patch off bs img) = length img"
  by (simp add: patch_def)

lemma load_store_patch:
  assumes "off + length bs \<le> n" and "n \<le> addr_space"
  shows "load (store m (a + of_nat off) bs) a n = patch off bs (load m a n)"
proof (rule nth_equalityI)
  show "length (load (store m (a + of_nat off) bs) a n) = length (patch off bs (load m a n))" using assms(1) by simp
  fix i assume "i < length (load (store m (a + of_nat off) bs) a n)"
  then have i: "i < n" by simp
  have d: "a + of_nat i - (a + of_nat off) = of_nat i - (of_nat off :: u32)" by simp
  have lt: "off < addr_space \<or> bs = []" "i < addr_space" using assms i by (cases bs; auto)+
  have "bs = [] \<or> unat (of_nat i - (of_nat off :: u32)) = (if off \<le> i then i - off else addr_space + i - off)"
    using lt by (auto simp: unat_sub_if')
  then show "load (store m (a + of_nat off) bs) a n ! i = patch off bs (load m a n) ! i"
    using assms i by (auto simp: store_spec in_range_def d patch_def nth_append)
qed

text \<open>A list of writes: an offset into the buffer and the bytes that go there.\<close>

type_synonym writes = "(u32 \<times> u8 list) list"

definition write_all :: "u32 \<Rightarrow> writes \<Rightarrow> mem \<Rightarrow> mem" where
  "write_all exec ws m = fold (\<lambda>(off, bs) m. store m (exec + off) bs) ws m"

definition fits :: "nat \<Rightarrow> writes \<Rightarrow> bool" where
  "fits n ws \<longleftrightarrow> (\<forall>(off, bs) \<in> set ws. unat off + length bs \<le> n)"

lemma write_all_simps [simp]:
  "write_all exec [] m = m"
  "write_all exec ((off, bs) # ws) m = write_all exec ws (store m (exec + off) bs)"
  "write_all exec (ws @ vs) m = write_all exec vs (write_all exec ws m)"
  by (simp_all add: write_all_def)

lemma fits_simps [simp]:
  "fits n []" "fits n ((off, bs) # ws) \<longleftrightarrow> unat off + length bs \<le> n \<and> fits n ws"
  "fits n (ws @ vs) \<longleftrightarrow> fits n ws \<and> fits n vs"
  by (auto simp: fits_def)

lemma load_write_all:
  "fits n ws \<Longrightarrow> n \<le> addr_space \<Longrightarrow>
   load (write_all exec ws m) exec n = fold (\<lambda>(off, bs). patch (unat off) bs) ws (load m exec n)"
proof (induction ws arbitrary: m)
  case (Cons w ws)
  obtain off bs where w: "w = (off, bs)" by (cases w)
  have "load (store m (exec + of_nat (unat off)) bs) exec n = patch (unat off) bs (load m exec n)"
    using Cons.prems w by (intro load_store_patch) simp_all
  with Cons w show ?case by simp
qed simp

lemma write_all_only_in:
  "fits n ws \<Longrightarrow> away (- V) exec n \<Longrightarrow> only_in V m (write_all exec ws m)"
proof (induction ws arbitrary: m)
  case (Cons w ws)
  obtain off bs where w: "w = (off, bs)" by (cases w)
  have "away (- V) (exec + of_nat (unat off)) (length bs)"
    by (rule away_offset [OF Cons.prems(2)]) (use Cons.prems(1) w in simp)
  then have "only_in V m (store m (exec + off) bs)" by (intro store_only_in) simp
  with Cons w show ?case by (auto intro: only_in_trans)
qed simp

section \<open>The parts of an image\<close>

text \<open>The string at an offset of the file, which ends at the next zero byte of its \<open>n\<close> bytes.\<close>

definition elf_str :: "mem \<Rightarrow> u32 \<Rightarrow> nat \<Rightarrow> u32 \<Rightarrow> u8 list" where
  "elf_str m elf n off = takeWhile (\<lambda>b. b \<noteq> 0) (load m (elf + off) (n - unat off))"

definition str_ok :: "mem \<Rightarrow> u32 \<Rightarrow> nat \<Rightarrow> u32 \<Rightarrow> bool" where
  "str_ok m elf n off \<longleftrightarrow> 0 \<in> set (load m (elf + off) (n - unat off))"

definition elf_phdrs :: "mem \<Rightarrow> u32 \<Rightarrow> elf32_phdr list" where
  "elf_phdrs m elf = (let h = ehdr_at m elf in map (\<lambda>i. phdr_at m (elf + e_phoff h + 32 * of_nat i)) [0..<unat (e_phnum h)])"

definition elf_shdrs :: "mem \<Rightarrow> u32 \<Rightarrow> elf32_shdr list" where
  "elf_shdrs m elf = (let h = ehdr_at m elf in map (\<lambda>i. shdr_at m (elf + e_shoff h + 40 * of_nat i)) [0..<unat (e_shnum h)])"

definition loadable :: "elf32_phdr \<Rightarrow> bool" where
  "loadable p \<longleftrightarrow> p_type p = PT_LOAD \<and> p_filesz p \<noteq> 0"

definition elf_segments :: "mem \<Rightarrow> u32 \<Rightarrow> elf32_phdr list \<Rightarrow> writes" where
  "elf_segments m elf ps = map (\<lambda>p. (p_vaddr p, load m (elf + p_offset p) (unat (p_filesz p)))) (filter loadable ps)"

text \<open>The first section of a type, and the offset of the strings of a symbol table.\<close>

definition elf_section :: "elf32_shdr list \<Rightarrow> u32 \<Rightarrow> elf32_shdr option" where
  "elf_section hs ty = find (\<lambda>h. sh_type h = ty) hs"

definition strings_of :: "elf32_shdr list \<Rightarrow> elf32_shdr \<Rightarrow> u32" where
  "strings_of hs t = sh_offset (hs ! unat (sh_link t))"

definition sym_of :: "mem \<Rightarrow> u32 \<Rightarrow> elf32_shdr \<Rightarrow> u32 \<Rightarrow> elf32_sym" where
  "sym_of m elf t i = sym_at m (elf + sh_offset t + 16 * i)"

text \<open>The jump slots of a relocation section: where they are and the name that fills them.\<close>

definition slot_at :: "mem \<Rightarrow> u32 \<Rightarrow> elf32_shdr \<Rightarrow> nat \<Rightarrow> elf32_rel" where
  "slot_at m elf h j = rel_at m (elf + sh_offset h + 8 * of_nat j)"

definition slot_name :: "mem \<Rightarrow> u32 \<Rightarrow> elf32_shdr list \<Rightarrow> elf32_shdr \<Rightarrow> elf32_rel \<Rightarrow> u32" where
  "slot_name m elf hs d r = strings_of hs d + st_name (sym_of m elf d (ELF32_R_SYM (r_info r)))"

definition is_slot :: "elf32_rel \<Rightarrow> bool" where
  "is_slot r \<longleftrightarrow> ELF32_R_TYPE (r_info r) = R_386_JMP_SLOT"

definition lookup_symbol :: "(u8 list \<times> u32) list \<Rightarrow> u8 list \<Rightarrow> u32" where
  "lookup_symbol syms nm = (case map_of syms nm of Some a \<Rightarrow> a | None \<Rightarrow> 0)"

definition elf_slot :: "(u8 list \<times> u32) list \<Rightarrow> mem \<Rightarrow> u32 \<Rightarrow> nat \<Rightarrow> elf32_shdr list \<Rightarrow> elf32_shdr \<Rightarrow> elf32_shdr \<Rightarrow> nat \<Rightarrow> writes" where
  "elf_slot syms m elf n hs d h j =
     (let r = slot_at m elf h j
      in if is_slot r then [(r_offset r, word_bytes (lookup_symbol syms (elf_str m elf n (slot_name m elf hs d r))))] else [])"

definition elf_slots :: "(u8 list \<times> u32) list \<Rightarrow> mem \<Rightarrow> u32 \<Rightarrow> nat \<Rightarrow> elf32_shdr list \<Rightarrow> elf32_shdr \<Rightarrow> elf32_shdr \<Rightarrow> writes" where
  "elf_slots syms m elf n hs d h =
     (if sh_type h = SHT_REL then concat (map (elf_slot syms m elf n hs d h) [0..<unat (sh_size h) div 8]) else [])"

definition linked :: "(u8 list \<times> u32) list \<Rightarrow> mem \<Rightarrow> u32 \<Rightarrow> nat \<Rightarrow> elf32_shdr \<Rightarrow> nat \<Rightarrow> u8 list" where
  "linked syms m elf n d sz =
     (let hs = elf_shdrs m elf
      in fold (\<lambda>(off, bs). patch (unat off) bs)
           (elf_segments m elf (elf_phdrs m elf) @ concat (map (elf_slots syms m elf n hs d) hs)) (replicate sz 0))"

text \<open>The address of a symbol of a table, in a program that starts at \<open>base\<close>.\<close>

definition elf_symbol :: "mem \<Rightarrow> u32 \<Rightarrow> nat \<Rightarrow> elf32_shdr list \<Rightarrow> elf32_shdr \<Rightarrow> u32 \<Rightarrow> u8 list \<Rightarrow> u32" where
  "elf_symbol m elf n hs t base nm =
     (case find (\<lambda>i. elf_str m elf n (strings_of hs t + st_name (sym_of m elf t (of_nat i))) = nm) [0..<unat (sh_size t) div 16] of
        Some i \<Rightarrow> base + st_value (sym_of m elf t (of_nat i))
      | None \<Rightarrow> 0)"

text \<open>An image all of whose parts lie in its \<open>n\<close> bytes and whose program fits in \<open>sz\<close> bytes.\<close>

definition slots_ok :: "mem \<Rightarrow> u32 \<Rightarrow> nat \<Rightarrow> nat \<Rightarrow> elf32_shdr list \<Rightarrow> elf32_shdr \<Rightarrow> elf32_shdr \<Rightarrow> bool" where
  "slots_ok m elf n sz hs d h \<longleftrightarrow> unat (sh_offset h) + unat (sh_size h) \<le> n
     \<and> (\<forall>j < unat (sh_size h) div 8. let r = slot_at m elf h j in is_slot r \<longrightarrow>
          unat (r_offset r) + 4 \<le> sz \<and> unat (sh_offset d + 16 * ELF32_R_SYM (r_info r)) + 16 \<le> n
          \<and> str_ok m elf n (slot_name m elf hs d r))"

definition symbols_ok :: "mem \<Rightarrow> u32 \<Rightarrow> nat \<Rightarrow> elf32_shdr list \<Rightarrow> elf32_shdr \<Rightarrow> bool" where
  "symbols_ok m elf n hs t \<longleftrightarrow> unat (sh_link t) < length hs \<and> unat (sh_offset t) + unat (sh_size t) \<le> n
     \<and> (\<forall>i < unat (sh_size t) div 16. str_ok m elf n (strings_of hs t + st_name (sym_of m elf t (of_nat i))))"

definition image_ok :: "mem \<Rightarrow> u32 \<Rightarrow> nat \<Rightarrow> nat \<Rightarrow> elf32_shdr \<Rightarrow> elf32_shdr \<Rightarrow> bool" where
  "image_ok m elf n sz d t \<longleftrightarrow>
     (let h = ehdr_at m elf; hs = elf_shdrs m elf
      in is_elf_image m elf \<and> unat elf + n \<le> addr_space \<and> 52 \<le> n
         \<and> unat (e_phoff h) + 32 * unat (e_phnum h) \<le> n \<and> unat (e_shoff h) + 40 * unat (e_shnum h) \<le> n
         \<and> (\<forall>p \<in> set (elf_phdrs m elf). loadable p \<longrightarrow>
              unat (p_offset p) + unat (p_filesz p) \<le> n \<and> unat (p_vaddr p) + unat (p_filesz p) \<le> sz)
         \<and> elf_section hs SHT_DYNSYM = Some d \<and> unat (sh_link d) < length hs
         \<and> (\<forall>h \<in> set hs. sh_type h = SHT_REL \<longrightarrow> slots_ok m elf n sz hs d h)
         \<and> elf_section hs SHT_SYMTAB = Some t \<and> symbols_ok m elf n hs t)"

end
