(* ===== verification/Elf_Link.thy ===== *)
theory Elf_Link
  imports Elf_Image
begin

text \<open>
  The loader refines the meaning of the image: while it writes only into its fresh buffer, the file,
  the symbol table and the names stay as they were, so each loop computes its list of writes.
\<close>

section \<open>Reading the file\<close>

text \<open>The file at \<open>elf\<close> is out of reach of the writes in \<open>V\<close>.\<close>

lemma file_away:
  assumes "away V elf n" and "unat off + k \<le> n"
  shows "away V (elf + off) k"
  using away_offset [OF assms] by simp

lemma array_away:
  assumes "away V elf n" and "unat off + c * cnt \<le> n" and "i < cnt"
  shows "away V (elf + off + of_nat c * of_nat i) c"
proof -
  have "c * i + c \<le> c * cnt" using assms(3) by (metis Suc_leI mult_Suc_right add.commute mult_le_mono2)
  then have "away V (elf + of_nat (unat off + c * i)) c" by (intro away_offset [OF assms(1)]) (use assms(2) in linarith)
  then show ?thesis by (simp add: add.assoc)
qed

lemma takeWhile_cstring:
  "0 \<in> set (load m a k) \<Longrightarrow> cstring m a (takeWhile (\<lambda>b. b \<noteq> 0) (load m a k))
    \<and> length (takeWhile (\<lambda>b. b \<noteq> 0) (load m a k)) + 1 \<le> k"
proof (induction k arbitrary: a)
  case (Suc k)
  have l: "load m a (Suc k) = m a # load m (a + 1) k"
    by (simp add: load_def upt_conv_Cons map_Suc_upt [symmetric] add.assoc del: upt_Suc)
  show ?case using Suc.IH [of "a + 1"] Suc.prems unfolding l by auto
qed (simp add: load_def)

lemma elf_str_cstring:
  assumes "str_ok m elf n off" and "away V elf n"
  shows "cstring m (elf + off) (elf_str m elf n off)" "away V (elf + off) (length (elf_str m elf n off) + 1)"
proof -
  have *: "cstring m (elf + off) (elf_str m elf n off)" "length (elf_str m elf n off) + 1 \<le> n - unat off"
    using takeWhile_cstring [OF assms(1) [unfolded str_ok_def]] by (simp_all add: elf_str_def)
  show "cstring m (elf + off) (elf_str m elf n off)" by (rule *(1))
  show "away V (elf + off) (length (elf_str m elf n off) + 1)" by (rule file_away [OF assms(2)]) (use *(2) in linarith)
qed

section \<open>Segments\<close>

lemma copy_segment:
  assumes "away V elf n" and "unat elf + n \<le> addr_space" and "unat off + unat len \<le> n"
    and "away (- V) exec sz" and "unat exec + sz \<le> addr_space" and "unat va + unat len \<le> sz" and "len \<noteq> 0"
    and "only_in V m mi"
  shows "fst (memmove mi (va + exec) (elf + off) len) = store mi (exec + va) (load m (elf + off) (unat len))"
    "only_in V mi (store mi (exec + va) (load m (elf + off) (unat len)))"
proof -
  have "0 < unat len" using assms(7) by (simp add: unat_gt_0)
  then have u: "unat (va + exec) = unat va + unat exec" "unat (elf + off) = unat elf + unat off"
    using assms(2,3,5,6) by (simp_all add: unat_add_u32)
  have "fst (memmove mi (va + exec) (elf + off) len) = copied mi (va + exec) (elf + off) (unat len)"
    using u assms(2,3,5,6) by (intro memmove_copied) simp_all
  also have "\<dots> = store mi (va + exec) (load mi (elf + off) (unat len))"
    by (rule copied_store) (use unat_u32_lt [of len] in linarith)
  also have "load mi (elf + off) (unat len) = load m (elf + off) (unat len)"
    by (rule load_away [OF assms(8) file_away [OF assms(1,3)]])
  finally show "fst (memmove mi (va + exec) (elf + off) len) = store mi (exec + va) (load m (elf + off) (unat len))"
    by (simp add: add.commute)
  have "away (- V) (exec + of_nat (unat va)) (length (load m (elf + off) (unat len)))"
    by (rule away_offset [OF assms(4)]) (use assms(6) in simp)
  then show "only_in V mi (store mi (exec + va) (load m (elf + off) (unat len)))" by (intro store_only_in) simp
qed

lemma load_segments_writes:
  assumes "only_in V m mi" and "away V elf n" and "unat elf + n \<le> addr_space" and "52 \<le> n"
    and "unat (e_phoff (ehdr_at m elf)) + 32 * unat (e_phnum (ehdr_at m elf)) \<le> n"
    and "\<forall>p \<in> set (drop i (elf_phdrs m elf)). loadable p \<longrightarrow>
      unat (p_offset p) + unat (p_filesz p) \<le> n \<and> unat (p_vaddr p) + unat (p_filesz p) \<le> sz"
    and "away (- V) exec sz" and "unat exec + sz \<le> addr_space" and "i \<le> length (elf_phdrs m elf)"
  shows "load_segments mi elf (elf + e_phoff (ehdr_at m elf)) exec i
    = write_all exec (elf_segments m elf (drop i (elf_phdrs m elf))) mi"
  using assms(1,6,9)
proof (induction "length (elf_phdrs m elf) - i" arbitrary: i mi)
  case 0
  have "ehdr_at mi elf = ehdr_at m elf" using file_away [OF assms(2), of 0 52] assms(4) by (intro ehdr_away [OF 0(2)]) simp
  with 0 show ?case by (subst load_segments.simps) (simp add: elf_segments_def elf_phdrs_def Let_def)
next
  case (Suc k)
  let ?p = "elf_phdrs m elf ! i"
  have i: "i < length (elf_phdrs m elf)" using Suc.hyps(2) by simp
  have h: "ehdr_at mi elf = ehdr_at m elf"
    using file_away [OF assms(2), of 0 52] assms(4) by (intro ehdr_away [OF Suc.prems(1)]) simp
  have cnt: "length (elf_phdrs m elf) = unat (e_phnum (ehdr_at m elf))" by (simp add: elf_phdrs_def Let_def)
  have p: "phdr_at mi (elf + e_phoff (ehdr_at m elf) + 32 * of_nat i) = ?p"
    using array_away [OF assms(2,5), of i] i by (simp add: phdr_away [OF Suc.prems(1)] elf_phdrs_def Let_def)
  have d: "drop i (elf_phdrs m elf) = ?p # drop (i + 1) (elf_phdrs m elf)" using i by (simp add: Cons_nth_drop_Suc)
  have step: "load_segments mi elf (elf + e_phoff (ehdr_at m elf)) exec i
      = load_segments (if loadable ?p then fst (memmove mi (p_vaddr ?p + exec) (elf + p_offset ?p) (p_filesz ?p)) else mi)
          elf (elf + e_phoff (ehdr_at m elf)) exec (i + 1)"
    using i by (subst load_segments.simps) (simp add: h p cnt loadable_def Let_def)
  show ?case
  proof (cases "loadable ?p")
    case False
    have "load_segments mi elf (elf + e_phoff (ehdr_at m elf)) exec (i + 1)
        = write_all exec (elf_segments m elf (drop (i + 1) (elf_phdrs m elf))) mi"
      by (rule Suc.hyps(1)) (use Suc.hyps(2) Suc.prems i in \<open>auto simp: d\<close>)
    with False show ?thesis unfolding step by (simp add: d elf_segments_def)
  next
    case True
    then have b: "unat (p_offset ?p) + unat (p_filesz ?p) \<le> n" "unat (p_vaddr ?p) + unat (p_filesz ?p) \<le> sz"
      using Suc.prems(2) by (simp_all add: d)
    let ?bs = "load m (elf + p_offset ?p) (unat (p_filesz ?p))"
    let ?m = "store mi (exec + p_vaddr ?p) ?bs"
    have mm: "fst (memmove mi (p_vaddr ?p + exec) (elf + p_offset ?p) (p_filesz ?p)) = ?m" "only_in V mi ?m"
      using copy_segment [OF assms(2,3) b(1) assms(7,8) b(2) _ Suc.prems(1)] True by (simp_all add: loadable_def)
    then have "only_in V m ?m" using only_in_trans [OF Suc.prems(1)] by blast
    then have "load_segments ?m elf (elf + e_phoff (ehdr_at m elf)) exec (i + 1)
        = write_all exec (elf_segments m elf (drop (i + 1) (elf_phdrs m elf))) ?m"
      by (rule Suc.hyps(1) [rotated]) (use Suc.hyps(2) Suc.prems i in \<open>auto simp: d\<close>)
    with True show ?thesis unfolding step mm(1) by (simp add: d elf_segments_def)
  qed
qed

section \<open>Relocation\<close>

lemma resolve_symbol_frame:
  assumes "symbols_rep s syms" and "symbols_away V s syms" and "only_in V (phys s) mi"
    and "cstring (phys s) p nm" and "away V p (length nm + 1)"
  shows "resolve_symbol (s\<lparr>phys := mi\<rparr>) p = Some (lookup_symbol syms nm)"
  unfolding lookup_symbol_def
proof (rule resolve_symbol_map_of)
  show "symbols_rep (s\<lparr>phys := mi\<rparr>) syms" by (rule symbols_rep_away(1) [OF assms(1,2)]) (use assms(3) in simp_all)
  show "cstring (phys (s\<lparr>phys := mi\<rparr>)) p nm" using cstring_away [OF assms(3-5)] by simp
qed

lemma relocate_loop_writes:
  assumes "symbols_rep s syms" and "symbols_away V s syms" and "away V elf n" and "unat elf + n \<le> addr_space"
    and "away (- V) exec sz" and "hp = elf + off" and "unat off + 40 \<le> n" and "h = shdr_at (phys s) hp"
    and "slots_ok (phys s) elf n sz hs d h"
    and "only_in V (phys s) mi" and "j \<le> unat (sh_size h) div 8"
  shows "relocate_loop (s\<lparr>phys := mi\<rparr>) hp (elf + sh_offset d) (elf + strings_of hs d) (elf + sh_offset h) exec j
    = Some (s\<lparr>phys := write_all exec (concat (map (elf_slot syms (phys s) elf n hs d h) [j..<unat (sh_size h) div 8])) mi\<rparr>)"
  using assms(10,11)
proof (induction "unat (sh_size h) div 8 - j" arbitrary: j mi)
  case 0
  have "shdr_at mi hp = h" unfolding assms(6,8) by (rule shdr_away [OF 0(2) file_away [OF assms(3,7)]])
  with 0 show ?case by (subst relocate_loop.simps) (simp add: unat_div)
next
  case (Suc k)
  let ?r = "slot_at (phys s) elf h j"
  have j: "j < unat (sh_size h) div 8" using Suc.hyps(2) by simp
  have h: "shdr_at mi hp = h" unfolding assms(6,8) by (rule shdr_away [OF Suc.prems(1) file_away [OF assms(3,7)]])
  have "unat (sh_offset h) + 8 * (unat (sh_size h) div 8) \<le> n" using assms(9) unfolding slots_ok_def by linarith
  from array_away [OF assms(3) this j] have r: "rel_at mi (elf + sh_offset h + 8 * of_nat j) = ?r"
    by (simp add: rel_away [OF Suc.prems(1)] slot_at_def)
  have u: "[j..<unat (sh_size h) div 8] = j # [j + 1..<unat (sh_size h) div 8]" using j by (simp add: upt_conv_Cons)
  let ?w = "elf_slot syms (phys s) elf n hs d h j"
  define body where "body = (if is_slot ?r then do {
         a \<leftarrow> resolve_symbol (s\<lparr>phys := mi\<rparr>) (elf + strings_of hs d + st_name (sym_at mi (elf + sh_offset d + 16 * ELF32_R_SYM (r_info ?r))));
         Some (s\<lparr>phys := w32 mi (exec + r_offset ?r) a\<rparr>) } else Some (s\<lparr>phys := mi\<rparr>))"
  have body: "body = Some (s\<lparr>phys := write_all exec ?w mi\<rparr>)" "fits sz ?w"
  proof (atomize (full), cases "is_slot ?r")
    case True
    have ok: "unat (r_offset ?r) + 4 \<le> sz" "unat (sh_offset d + 16 * ELF32_R_SYM (r_info ?r)) + 16 \<le> n"
      "str_ok (phys s) elf n (slot_name (phys s) elf hs d ?r)"
      using assms(9) j True by (simp_all add: slots_ok_def Let_def)
    have y: "sym_at mi (elf + sh_offset d + 16 * ELF32_R_SYM (r_info ?r)) = sym_of (phys s) elf d (ELF32_R_SYM (r_info ?r))"
      using sym_away [OF Suc.prems(1) file_away [OF assms(3) ok(2)]] by (simp add: sym_of_def add.assoc)
    have "resolve_symbol (s\<lparr>phys := mi\<rparr>) (elf + slot_name (phys s) elf hs d ?r)
        = Some (lookup_symbol syms (elf_str (phys s) elf n (slot_name (phys s) elf hs d ?r)))"
      by (rule resolve_symbol_frame [OF assms(1,2) Suc.prems(1) elf_str_cstring [OF ok(3) assms(3)]])
    then show "body = Some (s\<lparr>phys := write_all exec ?w mi\<rparr>) \<and> fits sz ?w"
      using True ok(1) by (simp add: body_def y [unfolded add.assoc] elf_slot_def slot_name_def w32_store add.assoc Let_def)
  qed (simp add: body_def elf_slot_def)
  have "only_in V mi (write_all exec ?w mi)" by (rule write_all_only_in [OF body(2) assms(5)])
  then have "relocate_loop (s\<lparr>phys := write_all exec ?w mi\<rparr>) hp (elf + sh_offset d) (elf + strings_of hs d) (elf + sh_offset h) exec (j + 1)
    = Some (s\<lparr>phys := write_all exec (concat (map (elf_slot syms (phys s) elf n hs d h) [j + 1..<unat (sh_size h) div 8])) (write_all exec ?w mi)\<rparr>)"
    using Suc.hyps(2) j by (intro Suc.hyps(1) only_in_trans [OF Suc.prems(1)]) simp_all
  moreover have "relocate_loop (s\<lparr>phys := mi\<rparr>) hp (elf + sh_offset d) (elf + strings_of hs d) (elf + sh_offset h) exec j
    = body \<bind> (\<lambda>s1. relocate_loop s1 hp (elf + sh_offset d) (elf + strings_of hs d) (elf + sh_offset h) exec (j + 1))"
    using j by (subst relocate_loop.simps) (simp add: h r body_def is_slot_def unat_div Let_def)
  ultimately show ?case by (simp add: body(1) u)
qed

lemma relocate_writes:
  assumes "symbols_rep s syms" and "symbols_away V s syms" and "away V elf n" and "unat elf + n \<le> addr_space"
    and "away (- V) exec sz" and "hp = elf + off" and "unat off + 40 \<le> n" and "h = shdr_at (phys s) hp"
    and "sh_type h = SHT_REL \<longrightarrow> slots_ok (phys s) elf n sz hs d h" and "only_in V (phys s) mi"
  shows "(if sh_type (shdr_at mi hp) = SHT_REL
      then relocate (s\<lparr>phys := mi\<rparr>) hp (elf + sh_offset d) (elf + strings_of hs d) elf exec else Some (s\<lparr>phys := mi\<rparr>))
    = Some (s\<lparr>phys := write_all exec (elf_slots syms (phys s) elf n hs d h) mi\<rparr>)"
proof -
  have "shdr_at mi hp = h" unfolding assms(6,8) by (rule shdr_away [OF assms(10) file_away [OF assms(3,7)]])
  then show ?thesis
    using relocate_loop_writes [OF assms(1-8) _ assms(10), of hs d 0] assms(9)
    by (simp add: relocate_def elf_slots_def)
qed

lemma elf_slot_fits:
  assumes "slots_ok m elf n sz hs d h" and "j < unat (sh_size h) div 8"
  shows "fits sz (elf_slot syms m elf n hs d h j)"
  using assms by (auto simp: slots_ok_def elf_slot_def Let_def)

lemma fits_concat: "fits n (concat wss) \<longleftrightarrow> (\<forall>ws \<in> set wss. fits n ws)"
  by (induction wss) simp_all

lemma elf_slots_fits: "sh_type h = SHT_REL \<longrightarrow> slots_ok m elf n sz hs d h \<Longrightarrow> fits sz (elf_slots syms m elf n hs d h)"
  by (auto simp: elf_slots_def fits_concat elf_slot_fits)

lemma relocate_sections_writes:
  assumes "symbols_rep s syms" and "symbols_away V s syms" and "away V elf n" and "unat elf + n \<le> addr_space"
    and "away (- V) exec sz" and "52 \<le> n" and "hs = elf_shdrs (phys s) elf"
    and "unat (e_shoff (ehdr_at (phys s) elf)) + 40 * unat (e_shnum (ehdr_at (phys s) elf)) \<le> n"
    and "\<forall>h \<in> set hs. sh_type h = SHT_REL \<longrightarrow> slots_ok (phys s) elf n sz hs d h"
    and "only_in V (phys s) mi" and "i \<le> length hs"
  shows "relocate_sections (s\<lparr>phys := mi\<rparr>) elf (elf + e_shoff (ehdr_at (phys s) elf)) (elf + sh_offset d) (elf + strings_of hs d) exec i
    = Some (s\<lparr>phys := write_all exec (concat (map (elf_slots syms (phys s) elf n hs d) (drop i hs))) mi\<rparr>)"
  using assms(10,11)
proof (induction "length hs - i" arbitrary: i mi)
  case 0
  have "ehdr_at mi elf = ehdr_at (phys s) elf"
    using file_away [OF assms(3), of 0 52] assms(6) by (intro ehdr_away [OF 0(2)]) simp
  with 0 show ?case by (subst relocate_sections.simps) (simp add: assms(7) elf_shdrs_def Let_def)
next
  case (Suc k)
  let ?h = "ehdr_at (phys s) elf"
  have i: "i < length hs" "i < unat (e_shnum ?h)" using Suc.hyps(2) by (simp_all add: assms(7) elf_shdrs_def Let_def)
  have h: "ehdr_at mi elf = ?h"
    using file_away [OF assms(3), of 0 52] assms(6) by (intro ehdr_away [OF Suc.prems(1)]) simp
  have d: "drop i hs = hs ! i # drop (i + 1) hs" using i by (simp add: Cons_nth_drop_Suc)
  have nth: "hs ! i = shdr_at (phys s) (elf + e_shoff ?h + 40 * of_nat i)" using i by (simp add: assms(7) elf_shdrs_def Let_def)
  have "40 * i + 40 \<le> 40 * unat (e_shnum ?h)" using i(2) by linarith
  then have off: "unat (e_shoff ?h) + 40 * i + 40 \<le> n" using assms(8) by linarith
  define w where "w = elf_slots syms (phys s) elf n hs d (hs ! i)"
  have rel: "(if sh_type (shdr_at mi (elf + e_shoff ?h + 40 * of_nat i)) = SHT_REL
      then relocate (s\<lparr>phys := mi\<rparr>) (elf + e_shoff ?h + 40 * of_nat i) (elf + sh_offset d) (elf + strings_of hs d) elf exec
      else Some (s\<lparr>phys := mi\<rparr>)) = Some (s\<lparr>phys := write_all exec w mi\<rparr>)"
    unfolding w_def
  proof (rule relocate_writes [OF assms(1-5)])
    show "elf + e_shoff ?h + 40 * of_nat i = elf + of_nat (unat (e_shoff ?h) + 40 * i)" by simp
    have "unat (of_nat (unat (e_shoff ?h) + 40 * i) :: u32) = unat (e_shoff ?h) + 40 * i"
      by (rule unat_of_nat_u32) (use off assms(4) in linarith)
    then show "unat (of_nat (unat (e_shoff ?h) + 40 * i) :: u32) + 40 \<le> n" using off by simp
    show "hs ! i = shdr_at (phys s) (elf + e_shoff ?h + 40 * of_nat i)" by (rule nth)
    show "sh_type (hs ! i) = SHT_REL \<longrightarrow> slots_ok (phys s) elf n sz hs d (hs ! i)" using assms(9) i(1) by simp
  qed (rule Suc.prems(1))
  have "fits sz w" unfolding w_def by (rule elf_slots_fits) (use assms(9) i in auto)
  then have "only_in V mi (write_all exec w mi)" by (rule write_all_only_in [OF _ assms(5)])
  then have "relocate_sections (s\<lparr>phys := write_all exec w mi\<rparr>) elf (elf + e_shoff ?h) (elf + sh_offset d) (elf + strings_of hs d) exec (i + 1)
    = Some (s\<lparr>phys := write_all exec (concat (map (elf_slots syms (phys s) elf n hs d) (drop (i + 1) hs))) (write_all exec w mi)\<rparr>)"
    using Suc.hyps(2) i by (intro Suc.hyps(1) only_in_trans [OF Suc.prems(1)]) simp_all
  then show ?case
    using i rel by (subst relocate_sections.simps) (simp add: h d w_def [symmetric] del: Cons_nth_drop_Suc)
qed

section \<open>Symbols\<close>

lemma find_nth_upt:
  assumes "find P xs = Some x"
  shows "\<exists>k. find (\<lambda>i. P (xs ! i)) [0..<length xs] = Some k \<and> xs ! k = x \<and> k < length xs"
proof -
  obtain k where k: "k < length xs" "P (xs ! k)" "x = xs ! k" "\<forall>j<k. \<not> P (xs ! j)"
    using assms by (auto simp: find_Some_iff)
  then have "find (\<lambda>i. P (xs ! i)) [0..<length xs] = Some k" by (auto simp: find_Some_iff)
  with k show ?thesis by auto
qed


lemma find_section_elf:
  assumes "only_in V m mi" and "away V elf n" and "52 \<le> n"
    and "unat (e_shoff (ehdr_at m elf)) + 40 * unat (e_shnum (ehdr_at m elf)) \<le> n"
    and "elf_section (elf_shdrs m elf) ty = Some t"
  obtains k where "find_section mi elf (elf + e_shoff (ehdr_at m elf)) ty = int k" "k < length (elf_shdrs m elf)"
    "elf_shdrs m elf ! k = t"
proof -
  let ?h = "ehdr_at m elf" and ?hs = "elf_shdrs m elf"
  have h: "ehdr_at mi elf = ?h" using file_away [OF assms(2), of 0 52] assms(3) by (intro ehdr_away [OF assms(1)]) simp
  have len: "length ?hs = unat (e_shnum ?h)" by (simp add: elf_shdrs_def Let_def)
  have nth: "shdr_at mi (elf + e_shoff ?h + 40 * of_nat i) = ?hs ! i" if "i < length ?hs" for i
    using array_away [OF assms(2,4), of i] that by (simp add: shdr_away [OF assms(1)] elf_shdrs_def Let_def)
  obtain k where k: "find (\<lambda>i. sh_type (?hs ! i) = ty) [0..<length ?hs] = Some k" "?hs ! k = t" "k < length ?hs"
    using find_nth_upt [OF assms(5) [unfolded elf_section_def]] by blast
  have "find (\<lambda>i. sh_type (shdr_at mi (elf + e_shoff ?h + 40 * of_nat i)) = ty) [0..<unat (e_shnum ?h)]
      = find (\<lambda>i. sh_type (?hs ! i) = ty) [0..<length ?hs]"
    unfolding len [symmetric] by (rule find_cong) (simp_all add: nth)
  with k that [of k] show ?thesis by (simp add: find_section_def h)
qed

lemma find_sym_loop_elf:
  assumes "only_in V m mi" and "away V elf n" and "shdr_at mi tp = t" and "symbols_ok m elf n hs t"
    and "cstring m name nm" and "away V name (length nm + 1)" and "i \<le> unat (sh_size t) div 16"
  shows "find_sym_loop mi name tp (elf + sh_offset t) (elf + strings_of hs t) base i
    = Some (case find (\<lambda>i. elf_str m elf n (strings_of hs t + st_name (sym_of m elf t (of_nat i))) = nm) [i..<unat (sh_size t) div 16] of
        Some k \<Rightarrow> base + st_value (sym_of m elf t (of_nat k)) | None \<Rightarrow> 0)"
  using assms(7)
proof (induction "unat (sh_size t) div 16 - i" arbitrary: i)
  case 0
  then show ?case by (subst find_sym_loop.simps) (simp add: assms(3) unat_div)
next
  case (Suc k)
  let ?y = "sym_of m elf t (of_nat i)"
  let ?off = "strings_of hs t + st_name ?y"
  have i: "i < unat (sh_size t) div 16" using Suc.hyps(2) by simp
  have "unat (sh_offset t) + 16 * (unat (sh_size t) div 16) \<le> n" using assms(4) unfolding symbols_ok_def by linarith
  from array_away [OF assms(2) this i] have y: "sym_at mi (elf + sh_offset t + 16 * of_nat i) = ?y"
    by (simp add: sym_away [OF assms(1)] sym_of_def)
  have "str_ok m elf n ?off" using assms(4) i by (simp add: symbols_ok_def)
  note st = elf_str_cstring [OF this assms(2)]
  have c: "cstring mi name nm" "cstring mi (elf + ?off) (elf_str m elf n ?off)"
    using cstring_away [OF assms(1)] assms(5,6) st by blast+
  have cmp: "strcmp mi name (elf + strings_of hs t + st_name ?y) = Some (str_diff nm (elf_str m elf n ?off))"
    "str_diff nm (elf_str m elf n ?off) = 0 \<longleftrightarrow> nm = elf_str m elf n ?off"
    using strcmp_str_diff [OF c] str_diff_eq_0 cstring_nonzero [OF c(1)] cstring_nonzero [OF c(2)] by (simp_all add: add.assoc)
  have u: "[i..<unat (sh_size t) div 16] = i # [i + 1..<unat (sh_size t) div 16]" using i by (simp add: upt_conv_Cons)
  have IH: "find_sym_loop mi name tp (elf + sh_offset t) (elf + strings_of hs t) base (i + 1)
    = Some (case find (\<lambda>i. elf_str m elf n (strings_of hs t + st_name (sym_of m elf t (of_nat i))) = nm) [i + 1..<unat (sh_size t) div 16] of
        Some k \<Rightarrow> base + st_value (sym_of m elf t (of_nat k)) | None \<Rightarrow> 0)"
    using Suc.hyps(2) i by (intro Suc.hyps(1)) simp_all
  show ?case
    unfolding u using i cmp(2)
    by (subst find_sym_loop.simps) (simp only: assms(3) unat_div y Let_def cmp(1) Option.bind.simps IH find.simps, auto simp: unat_div)
qed

section \<open>Loading\<close>

text \<open>The bytes of the heap no caller owns: the headers and the free chunks.\<close>

definition unowned :: "nat \<Rightarrow> achunk list \<Rightarrow> u32 set" where
  "unowned lo cs = {x. unat x \<notin> owned lo cs \<and> lo \<le> unat x \<and> unat x < lo + span cs}"

lemma find_sym_elf:
  assumes "only_in V m mi" and "away V elf n" and "52 \<le> n"
    and "unat (e_shoff (ehdr_at m elf)) + 40 * unat (e_shnum (ehdr_at m elf)) \<le> n"
    and "hs = elf_shdrs m elf" and "elf_section hs SHT_SYMTAB = Some t" and "symbols_ok m elf n hs t"
    and "cstring m name nm" and "away V name (length nm + 1)" and "shdr = elf + e_shoff (ehdr_at m elf)"
  shows "find_sym mi name shdr (shdr + 40 * of_int (find_symbol_table mi elf shdr)) elf base = Some (elf_symbol m elf n hs t base nm)"
proof -
  have nth: "shdr_at mi (elf + e_shoff (ehdr_at m elf) + 40 * of_nat i) = hs ! i" if "i < length hs" for i
    using array_away [OF assms(2,4), of i] that by (simp add: assms(5) shdr_away [OF assms(1)] elf_shdrs_def Let_def)
  obtain k where k: "find_section mi elf (elf + e_shoff (ehdr_at m elf)) SHT_SYMTAB = int k" "k < length hs" "hs ! k = t"
    using find_section_elf [OF assms(1-4), of SHT_SYMTAB t] assms(5,6) by metis
  have "shdr_at mi (elf + e_shoff (ehdr_at m elf) + 40 * of_nat (unat (sh_link t))) = hs ! unat (sh_link t)"
    using assms(7) by (intro nth) (simp add: symbols_ok_def)
  then show ?thesis
    using find_sym_loop_elf [OF assms(1,2) _ assms(7,8,9), of "shdr + 40 * of_nat k" 0 base] nth [OF k(2)] k
    by (simp add: find_sym_def find_symbol_table_def assms(10) elf_symbol_def strings_of_def [symmetric])
qed

text \<open>The loader after the buffer is there: \<open>m2\<close> is the memory with the buffer zeroed.\<close>

lemma link_image:
  assumes "only_in V (phys s) m2" and "away V elf n" and "image_ok (phys s) elf n sz d t"
    and "symbols_rep s syms" and "symbols_away V s syms" and "away (- V) exec sz" and "unat exec + sz \<le> addr_space"
    and "cstring (phys s) main nm" and "away V main (length nm + 1)" and "shdr = elf + e_shoff (ehdr_at (phys s) elf)"
    and "ws = elf_segments (phys s) elf (elf_phdrs (phys s) elf)
      @ concat (map (elf_slots syms (phys s) elf n (elf_shdrs (phys s) elf) d) (elf_shdrs (phys s) elf))"
    and "g = shdr + 40 * of_int (find_global_symbol_table (load_segments m2 elf (elf + e_phoff (ehdr_at (phys s) elf)) exec 0) elf shdr)"
    and "m3 = load_segments m2 elf (elf + e_phoff (ehdr_at (phys s) elf)) exec 0"
  shows "only_in V (phys s) m3"
    "relocate_sections (s\<lparr>phys := m3\<rparr>) elf shdr (elf + sh_offset (shdr_at m3 g))
       (elf + sh_offset (shdr_at m3 (shdr + 40 * sh_link (shdr_at m3 g)))) exec 0
     = Some (s\<lparr>phys := write_all exec ws m2\<rparr>)"
    "find_sym (write_all exec ws m2) main shdr (shdr + 40 * of_int (find_symbol_table (write_all exec ws m2) elf shdr)) elf exec
     = Some (elf_symbol (phys s) elf n (elf_shdrs (phys s) elf) t exec nm)"
    "fits sz ws" "only_in V (phys s) (write_all exec ws m2)"
proof -
  let ?m = "phys s" and ?hs = "elf_shdrs (phys s) elf"
  have ok: "unat elf + n \<le> addr_space" "52 \<le> n" "unat (e_phoff (ehdr_at ?m elf)) + 32 * unat (e_phnum (ehdr_at ?m elf)) \<le> n"
    "unat (e_shoff (ehdr_at ?m elf)) + 40 * unat (e_shnum (ehdr_at ?m elf)) \<le> n"
    "\<forall>p \<in> set (elf_phdrs ?m elf). loadable p \<longrightarrow>
       unat (p_offset p) + unat (p_filesz p) \<le> n \<and> unat (p_vaddr p) + unat (p_filesz p) \<le> sz"
    "elf_section ?hs SHT_DYNSYM = Some d" "unat (sh_link d) < length ?hs"
    "\<forall>h \<in> set ?hs. sh_type h = SHT_REL \<longrightarrow> slots_ok ?m elf n sz ?hs d h"
    "elf_section ?hs SHT_SYMTAB = Some t" "symbols_ok ?m elf n ?hs t"
    using assms(3) by (simp_all add: image_ok_def Let_def)
  let ?segs = "elf_segments ?m elf (elf_phdrs ?m elf)"
  let ?slots = "concat (map (elf_slots syms ?m elf n ?hs d) ?hs)"
  have m3: "m3 = write_all exec ?segs m2"
    unfolding assms(13) using load_segments_writes [OF assms(1,2) ok(1-3) _ assms(6,7), of 0] ok(5) by simp
  have segs: "fits sz ?segs" using ok(5) by (auto simp: fits_def elf_segments_def)
  have slots: "fits sz ?slots" using ok(8) by (auto simp: fits_concat intro: elf_slots_fits)
  from segs slots show fits: "fits sz ws" by (simp add: assms(11))
  show o3: "only_in V ?m m3" unfolding m3 by (rule only_in_trans [OF assms(1) write_all_only_in [OF segs assms(6)]])
  show o4: "only_in V ?m (write_all exec ws m2)" by (rule only_in_trans [OF assms(1) write_all_only_in [OF fits assms(6)]])
  have nth: "shdr_at m3 (shdr + 40 * of_nat i) = ?hs ! i" if "i < length ?hs" for i
    using array_away [OF assms(2) ok(4), of i] that by (simp add: shdr_away [OF o3] elf_shdrs_def Let_def assms(10))
  obtain k where k: "find_section m3 elf shdr SHT_DYNSYM = int k" "k < length ?hs" "?hs ! k = d"
    using find_section_elf [OF o3 assms(2) ok(2,4,6)] unfolding assms(10) by metis
  have "g = shdr + 40 * of_nat k" unfolding assms(12) assms(13) [symmetric] find_global_symbol_table_def k(1) by simp
  then have g: "shdr_at m3 g = d" using nth [OF k(2)] k(3) by simp
  have "shdr_at m3 (shdr + 40 * of_nat (unat (sh_link d))) = ?hs ! unat (sh_link d)" by (rule nth [OF ok(7)])
  then have str: "sh_offset (shdr_at m3 (shdr + 40 * sh_link (shdr_at m3 g))) = strings_of ?hs d" by (simp add: g strings_of_def)
  show "relocate_sections (s\<lparr>phys := m3\<rparr>) elf shdr (elf + sh_offset (shdr_at m3 g))
       (elf + sh_offset (shdr_at m3 (shdr + 40 * sh_link (shdr_at m3 g)))) exec 0 = Some (s\<lparr>phys := write_all exec ws m2\<rparr>)"
    unfolding str unfolding g assms(10)
    using relocate_sections_writes [OF assms(4,5,2) ok(1) assms(6) ok(2) refl ok(4,8) o3, of 0] by (simp add: assms(11) m3)
  show "find_sym (write_all exec ws m2) main shdr (shdr + 40 * of_int (find_symbol_table (write_all exec ws m2) elf shdr)) elf exec
     = Some (elf_symbol ?m elf n ?hs t exec nm)"
    by (rule find_sym_elf [OF o4 assms(2) ok(2,4) refl ok(9,10) assms(8,9,10)])
qed

text \<open>The block for the image, zeroed: it lies in what the heap had not given out, and writes to it keep the heap.\<close>

lemma zeroed_block:
  assumes "heap_rep s lo cs" and "amalloc (unat sz) lo cs = Some (p, cs')"
  obtains m where "malloc s sz = Some (of_nat p, s\<lparr>phys := m\<rparr>)" "(of_nat p :: u32) \<noteq> 0" "p + unat sz < addr_space"
    "away (- unowned lo cs) (of_nat p) (unat sz)" "only_in (unowned lo cs) (phys s) (filled m (of_nat p) 0 (unat sz))"
    "\<forall>m'. only_in {x. in_range (of_nat p) (unat sz) x} (filled m (of_nat p) 0 (unat sz)) m' \<longrightarrow> heap_rep (s\<lparr>phys := m'\<rparr>) lo cs'"
proof -
  let ?V = "unowned lo cs" and ?exec = "of_nat p :: u32"
  obtain m1 where m1: "malloc s sz = Some (of_nat p, s\<lparr>phys := m1\<rparr>)" "heap_rep (s\<lparr>phys := m1\<rparr>) lo cs'"
    "\<And>x. unat x \<in> owned lo cs \<or> unat x < lo \<or> lo + span cs \<le> unat x \<Longrightarrow> m1 x = phys s x"
    by (rule malloc_Some [OF assms]) blast
  note own = amalloc_owned [OF assms(2)]
  have top: "p + unat sz < addr_space" using own(5) assms(1) by (simp add: heap_rep_def)
  have p: "unat ?exec = p" "?exec \<noteq> 0" using top own(4) of_nat_u32_nonzero [of p] by simp_all
  have nV: "away (- ?V) ?exec (unat sz)" unfolding away_def
  proof (intro allI impI)
    fix i assume i: "i < unat sz"
    have "p + i \<in> {p..<p + unat sz}" using i by simp
    then have "p + i \<notin> owned lo cs" using own(3) by blast
    moreover have "unat (?exec + of_nat i) = p + i" using unat_plus_of_nat [of ?exec i] p i top by simp
    ultimately show "?exec + of_nat i \<notin> - ?V" using own(4,5) i by (simp add: unowned_def)
  qed
  let ?m2 = "filled m1 ?exec 0 (unat sz)"
  have o1: "only_in ?V (phys s) m1" using m1(3) by (auto simp: only_in_def unowned_def not_le not_less)
  have "only_in ?V m1 ?m2" unfolding only_in_def
  proof (intro allI impI)
    fix x assume "x \<notin> ?V"
    then have "\<not> in_range ?exec (unat sz) x"
      using nV by (auto simp: away_def in_range_def dest!: spec [of _ "unat (x - ?exec)"])
    then show "?m2 x = m1 x" by (simp add: filled_def)
  qed
  then have o2: "only_in ?V (phys s) ?m2" by (rule only_in_trans [OF o1])
  have "heap_rep (s\<lparr>phys := m'\<rparr>) lo cs'" if "only_in {x. in_range ?exec (unat sz) x} ?m2 m'" for m'
  proof -
    have *: "m' x = m1 x" if "\<not> in_range ?exec (unat sz) x" for x
      using that \<open>only_in {x. in_range ?exec (unat sz) x} ?m2 m'\<close> by (simp add: only_in_def filled_def)
    have "m' x = m1 x" if "unat x \<notin> owned lo cs'" for x
      using own(1) that top p(1) by (intro *) (auto simp: in_range_unat)
    then show ?thesis using heap_rep_user_write [OF m1(2), of m'] by simp
  qed
  then show ?thesis by (intro that [OF m1(1) p(2) top nV o2]) blast
qed

text \<open>
  C26: Loading a well-formed image, without the debug listing, refines linking it: \<^verbatim>\<open>image_load\<close> returns, takes the first block of
  the heap that is large enough, leaves in it exactly the linked program (segments at their addresses,
  jump slots holding the kernel's symbols, zero elsewhere) and returns the address of \<^verbatim>\<open>main\<close>; the
  heap stays well-formed and nothing a caller owns changes.
\<close>

theorem image_load_links:
  assumes "heap_rep s lo cs" and "amalloc (unat sz) lo cs = Some (p, cs')"
    and "image_ok (phys s) elf n (unat sz) d t" and "symbols_rep s syms"
    and "away (unowned lo cs) elf n" and "symbols_away (unowned lo cs) s syms"
    and "cstring (phys s) main (literal ''main'')" and "away (unowned lo cs) main 5"
  shows "\<exists>m'. image_load foo main s elf sz False
      = Some (elf_symbol (phys s) elf n (elf_shdrs (phys s) elf) t (of_nat p) (literal ''main''), s\<lparr>phys := m'\<rparr>)
    \<and> load m' (of_nat p) (unat sz) = linked syms (phys s) elf n d (unat sz)
    \<and> heap_rep (s\<lparr>phys := m'\<rparr>) lo cs' \<and> only_in (unowned lo cs) (phys s) m'"
proof -
  let ?V = "unowned lo cs" and ?exec = "of_nat p :: u32"
  obtain m1 where m1: "malloc s sz = Some (?exec, s\<lparr>phys := m1\<rparr>)" "?exec \<noteq> 0" "p + unat sz < addr_space"
    "away (- ?V) ?exec (unat sz)" "only_in ?V (phys s) (filled m1 ?exec 0 (unat sz))"
    "\<forall>m'. only_in {x. in_range ?exec (unat sz) x} (filled m1 ?exec 0 (unat sz)) m' \<longrightarrow> heap_rep (s\<lparr>phys := m'\<rparr>) lo cs'"
    by (rule zeroed_block [OF assms(1,2)])
  let ?m2 = "filled m1 ?exec 0 (unat sz)"
  define ws where "ws = elf_segments (phys s) elf (elf_phdrs (phys s) elf)
      @ concat (map (elf_slots syms (phys s) elf n (elf_shdrs (phys s) elf) d) (elf_shdrs (phys s) elf))"
  let ?m4 = "write_all ?exec ws ?m2"
  have five: "length (literal ''main'') + 1 = 5" by (simp add: literal_def)
  have "unat ?exec + unat sz \<le> addr_space" using m1(3) by simp
  note L = link_image [OF m1(5) assms(5,3,4,6) m1(4) this assms(7) assms(8) [folded five] refl ws_def refl refl]
  have e: "ehdr_at mi elf = ehdr_at (phys s) elf" if "only_in ?V (phys s) mi" for mi
    using file_away [OF assms(5), of 0 52] assms(3) by (intro ehdr_away [OF that]) (simp add: image_ok_def Let_def)
  have run: "image_load foo main s elf sz False
      = Some (elf_symbol (phys s) elf n (elf_shdrs (phys s) elf) t ?exec (literal ''main''), s\<lparr>phys := ?m4\<rparr>)"
    using assms(3) m1(1,2) L(2,3)
    by (simp add: image_load_def image_ok_def Let_def memset_filled e [OF m1(5)] e [OF L(1)])
  have "load ?m4 ?exec (unat sz) = linked syms (phys s) elf n d (unat sz)"
    using load_write_all [OF L(4), of ?exec ?m2] unat_u32_lt [of sz]
    by (simp add: load_filled linked_def ws_def Let_def)
  moreover have "away (- {x. in_range ?exec (unat sz) x}) ?exec (unat sz)" using m1(3) by (auto simp: away_def in_range_def)
  then have "heap_rep (s\<lparr>phys := ?m4\<rparr>) lo cs'" using m1(6) write_all_only_in [OF L(4)] by blast
  ultimately show ?thesis using run L(5) by blast
qed

end
