(* ===== verification/Symtable_Init.thy ===== *)
theory Symtable_Init
  imports Elf_Link
begin

text \<open>
  The symbols the kernel offers to programs: what \<^verbatim>\<open>init_symtable\<close> (\<^verbatim>\<open>exec/elf/symtable.c\<close>) leaves in the
  table it takes from the heap, and that the loader finds there exactly the kernel's functions.
\<close>

text \<open>The dictionary the names and functions make.\<close>

definition exported :: "(string \<Rightarrow> u32) \<Rightarrow> (string \<times> string) list \<Rightarrow> (u8 list \<times> u32) list" where
  "exported function_addr xs = map (\<lambda>(nm, f). (literal nm, function_addr f)) xs"

definition literals_ok :: "mem \<Rightarrow> u32 set \<Rightarrow> (string \<Rightarrow> u32) \<Rightarrow> (string \<times> string) list \<Rightarrow> bool" where
  "literals_ok m W literal_addr xs \<longleftrightarrow> (\<forall>(nm, f) \<in> set xs. cstring m (literal_addr nm) (literal nm)
     \<and> away W (literal_addr nm) (length (literal nm) + 1))"

abbreviation (input) register_all :: "(string \<Rightarrow> u32) \<Rightarrow> (string \<Rightarrow> u32) \<Rightarrow> (string \<times> string) list \<Rightarrow> ('a symtab_scheme) \<Rightarrow> ('a symtab_scheme)" where
  "register_all literal_addr function_addr xs s \<equiv>
     fold (\<lambda>(nm, f) s. register_symbol s (literal_addr nm) (function_addr f)) xs s"

lemma literals_ok_only_in:
  "literals_ok m W la xs \<Longrightarrow> only_in W m m' \<Longrightarrow> literals_ok m' W la xs"
  by (fastforce simp: literals_ok_def intro: cstring_away)

lemma register_symbol_keeps [simp]:
  "symtable (register_symbol s p a) = symtable s" "first (register_symbol s p a) = first s"
  by (simp_all add: register_symbol_def Let_def)

lemma register_in_array:
  assumes "symbols_rep s syms" and "length syms < 256"
  shows "only_in (symbol_array (symtable s)) (phys s) (phys (register_symbol s p a))"
  using register_symbol_only_in [of s p a] new_entry_in_array [of "symtable s" "length syms"] assms
  by (auto simp: symbols_rep_def only_in_def)

lemma register_all_rep:
  assumes "symbols_rep s syms" and "length syms + length xs \<le> 256"
    and "literals_ok (phys s) (symbol_array (symtable s)) literal_addr xs"
  shows "symbols_rep (register_all literal_addr function_addr xs s) (syms @ exported function_addr xs)
    \<and> only_in (symbol_array (symtable s)) (phys s) (phys (register_all literal_addr function_addr xs s))
    \<and> first (register_all literal_addr function_addr xs s) = first s"
  using assms
proof (induction xs arbitrary: s syms)
  case Nil
  then show ?case by (simp add: exported_def)
next
  case (Cons x xs)
  obtain nm f where x: "x = (nm, f)" by fastforce
  let ?s = "register_symbol s (literal_addr nm) (function_addr f)"
  have lit: "cstring (phys s) (literal_addr nm) (literal nm)"
    "away (symbol_array (symtable s)) (literal_addr nm) (length (literal nm) + 1)"
    using Cons.prems(3) by (simp_all add: literals_ok_def x)
  have o: "only_in (symbol_array (symtable s)) (phys s) (phys ?s)"
    using register_in_array [OF Cons.prems(1)] Cons.prems(2) by simp
  have rep: "symbols_rep ?s (syms @ [(literal nm, function_addr f)])"
    using register_symbol_appends [OF Cons.prems(1) _ lit] Cons.prems(2) by simp
  have "literals_ok (phys s) (symbol_array (symtable s)) literal_addr xs"
    using Cons.prems(3) by (simp add: literals_ok_def)
  from literals_ok_only_in [OF this o]
  have "literals_ok (phys ?s) (symbol_array (symtable ?s)) literal_addr xs" by simp
  from Cons.IH [OF rep _ this] Cons.prems(2) show ?case
    using only_in_trans [OF o] by (simp add: x exported_def)
qed

lemma register_all_fields:
  "\<exists>m i. register_all literal_addr function_addr xs s = s\<lparr>phys := m, symbol_idx := i\<rparr>"
proof (induction xs arbitrary: s)
  case Nil
  show ?case by (intro exI [of _ "phys s"] exI [of _ "symbol_idx s"]) simp
next
  case (Cons x xs)
  obtain nm f where x: "x = (nm, f)" by fastforce
  obtain m i where r: "register_symbol s (literal_addr nm) (function_addr f) = s\<lparr>phys := m, symbol_idx := i\<rparr>"
    by (simp add: register_symbol_def Let_def)
  from Cons.IH [of "s\<lparr>phys := m, symbol_idx := i\<rparr>"] show ?case by (auto simp: x r)
qed

text \<open>What \<^verbatim>\<open>init_symtable\<close> leaves: the table in memory taken from the heap, and no other field of the state touched.\<close>

lemma init_symtable_rep:
  assumes "heap_rep s lo cs" and "amalloc 2048 lo cs = Some (p, cs')"
    and "literals_ok (phys s) (unowned lo cs) literal_addr kernel_symbols"
  obtains m t i where "init_symtable literal_addr function_addr s = Some (s\<lparr>phys := m, symtable := t, symbol_idx := i\<rparr>)"
    "symbols_rep (s\<lparr>phys := m, symtable := t, symbol_idx := i\<rparr>) (exported function_addr kernel_symbols)"
    "heap_rep (s\<lparr>phys := m, symtable := t, symbol_idx := i\<rparr>) lo cs'" "only_in (unowned lo cs) (phys s) m"
proof -
  let ?V = "unowned lo cs" and ?t = "of_nat p :: u32"
  obtain m where m: "malloc s 2048 = Some (?t, s\<lparr>phys := m\<rparr>)" "heap_rep (s\<lparr>phys := m\<rparr>) lo cs'"
    "\<And>x. unat x \<in> owned lo cs \<or> unat x < lo \<or> lo + span cs \<le> unat x \<Longrightarrow> m x = phys s x"
    using malloc_Some [OF assms(1), of 2048 p cs'] assms(2) by auto
  note own = amalloc_owned [OF assms(2)]
  have top: "p + 2048 < addr_space" using own(5) assms(1) by (simp add: heap_rep_def)
  have t: "unat ?t = p" using top by (simp add: unat_of_nat_u32)
  have arr: "unat x \<in> {p..<p + 2048}" if "x \<in> symbol_array ?t" for x
    using that top by (simp add: symbol_array_def in_range_unat t)
  have sub: "symbol_array ?t \<subseteq> ?V"
    using arr own(3,4,5) by (fastforce simp: unowned_def)
  let ?s1 = "s\<lparr>phys := m, symtable := ?t, symbol_idx := 0\<rparr>"
  let ?s2 = "register_all literal_addr function_addr kernel_symbols ?s1"
  have o1: "only_in ?V (phys s) m" using m(3) by (auto simp: only_in_def unowned_def not_le not_less)
  have lit: "literals_ok m (symbol_array ?t) literal_addr kernel_symbols"
    using literals_ok_only_in [OF assms(3) o1] sub by (auto simp: literals_ok_def intro: away_mono)
  have "symbols_rep ?s1 []" using top t by (simp add: symbols_rep_def)
  from register_all_rep [OF this _, of kernel_symbols literal_addr function_addr] lit
  have r: "symbols_rep ?s2 (exported function_addr kernel_symbols)" "only_in (symbol_array ?t) m (phys ?s2)"
    by (simp_all add: kernel_symbols_def)
  obtain m2 i where "?s2 = ?s1\<lparr>phys := m2, symbol_idx := i\<rparr>"
    using register_all_fields [of literal_addr function_addr kernel_symbols ?s1] by blast
  then have s2: "?s2 = s\<lparr>phys := m2, symtable := ?t, symbol_idx := i\<rparr>" by (cases s) simp
  have "phys ?s2 x = m x" if "unat x \<notin> owned lo cs'" for x
  proof -
    have "x \<notin> symbol_array ?t" using arr [of x] own(1) that by auto
    then show ?thesis using r(2) by (simp add: only_in_def)
  qed
  then have "heap_rep (s\<lparr>phys := phys ?s2\<rparr>) lo cs'" using heap_rep_user_write [OF m(2), of "phys ?s2"] by simp
  then have heap: "heap_rep ?s2 lo cs'" by (rule iffD1 [OF heap_rep_cong, rotated 2]) (simp_all add: s2)
  have run: "init_symtable literal_addr function_addr s = Some ?s2" using m(1) by (simp add: init_symtable_def)
  have "only_in ?V (phys s) (phys ?s2)" by (rule only_in_trans [OF o1 only_in_mono [OF r(2) sub]])
  with run r(1) heap show ?thesis unfolding s2 by (auto intro: that)
qed

text \<open>
  C35: After \<^verbatim>\<open>init_symtable\<close> on any heap with room for the table, every name in memory resolves as in the
  dictionary of the twenty exported functions: to its function, or to null; the heap stays well-formed
  and nothing outside its free space is written.
\<close>

theorem init_symtable_resolves:
  assumes "heap_rep s lo cs" and "amalloc 2048 lo cs = Some (p, cs')"
    and "literals_ok (phys s) (unowned lo cs) literal_addr kernel_symbols"
    and "cstring (phys s) q nm" and "away (unowned lo cs) q (length nm + 1)"
  shows "\<exists>s'. init_symtable literal_addr function_addr s = Some s'
    \<and> resolve_symbol s' q = Some (case map_of (exported function_addr kernel_symbols) nm of Some a \<Rightarrow> a | None \<Rightarrow> 0)
    \<and> heap_rep s' lo cs' \<and> only_in (unowned lo cs) (phys s) (phys s')"
proof -
  obtain m t i where r: "init_symtable literal_addr function_addr s = Some (s\<lparr>phys := m, symtable := t, symbol_idx := i\<rparr>)"
    "symbols_rep (s\<lparr>phys := m, symtable := t, symbol_idx := i\<rparr>) (exported function_addr kernel_symbols)"
    "heap_rep (s\<lparr>phys := m, symtable := t, symbol_idx := i\<rparr>) lo cs'" "only_in (unowned lo cs) (phys s) m"
    by (rule init_symtable_rep [OF assms(1-3)])
  have "cstring m q nm" by (rule cstring_away [OF r(4) assms(4,5)])
  then show ?thesis using r resolve_symbol_map_of [OF r(2), of q nm] by auto
qed

text \<open>A heap of 64 KiB at 0x200000, and the twenty names at 0x10000, thirty-two bytes apart.\<close>

definition name_places :: "(string \<times> u32) list" where
  "name_places = zip (map fst kernel_symbols) (map (\<lambda>i. 0x10000 + 32 * of_nat i) [0..<20])"

definition names_addr :: "string \<Rightarrow> u32" where
  "names_addr nm = the (map_of name_places nm)"

definition names_mem :: mem where
  "names_mem x =
     (if x = 0x20000C then 0xF0 else if x = 0x20000D then 0xFF
      else if 0x10000 \<le> x \<and> x < 0x10280
        then (literal (fst (kernel_symbols ! unat ((x - 0x10000) div 32))) @ replicate 32 0) ! unat ((x - 0x10000) mod 32)
      else 0)"

lemma names_places: "name_places = [(''inb'', 0x10000), (''outb'', 0x10020), (''outb_slow'', 0x10040), (''inw'', 0x10060),
  (''outw'', 0x10080), (''inl'', 0x100A0), (''outl'', 0x100C0), (''kprintf'', 0x100E0), (''kscreen_clear'', 0x10100),
  (''kmalloc'', 0x10120), (''kfree'', 0x10140), (''kmalloc_aligned'', 0x10160), (''kfree_aligned'', 0x10180),
  (''memset'', 0x101A0), (''memmove'', 0x101C0), (''image_load'', 0x101E0), (''fat16_open'', 0x10200),
  (''fat16_close'', 0x10220), (''fat16_read'', 0x10240), (''fat16_ls'', 0x10260)]"
  by (simp add: name_places_def kernel_symbols_def upt_conv_Cons)

lemma names_strings: "(nm, a) \<in> set name_places \<Longrightarrow> cstring names_mem a (literal nm)"
  by (auto simp: names_places names_mem_def kernel_symbols_def literal_def)

definition names_kernel :: symtab where
  "names_kernel = small_symtab\<lparr>phys := names_mem, first := 0x200000\<rparr>"

lemma names_kernel [simp]: "phys names_kernel = names_mem" "first names_kernel = 0x200000"
  by (simp_all add: names_kernel_def)

lemma names_heap: "heap_rep names_kernel 0x200000 [(0xFFF0, False)]"
  by (simp add: heap_rep_def chunk_defs r32_def names_mem_def)

lemma names_below:
  assumes "(nm, a) \<in> set name_places"
  shows "away (unowned 0x200000 [(0xFFF0, False)]) a (length (literal nm) + 1)"
proof -
  have "unat a + (length (literal nm) + 1) \<le> 0x200000" using assms by (auto simp: names_places literal_def)
  then show ?thesis by (auto simp: away_def unowned_def unat_plus_of_nat)
qed

lemma names_addr_places: "(nm, f) \<in> set kernel_symbols \<Longrightarrow> (nm, names_addr nm) \<in> set name_places"
  by (auto simp: kernel_symbols_def names_addr_def names_places)

theorem init_symtable_resolves_witness:
  "\<exists>s'. init_symtable names_addr (\<lambda>f. 0x100000 + of_nat (length f)) names_kernel = Some s'
    \<and> resolve_symbol s' 0x10120 = Some 0x100006 \<and> resolve_symbol s' 0x10121 = Some 0"
proof -
  let ?f = "\<lambda>f :: string. 0x100000 + of_nat (length f) :: u32"
  have lit: "literals_ok (phys names_kernel) (unowned 0x200000 [(0xFFF0, False)]) names_addr kernel_symbols"
    using names_strings names_below names_addr_places by (fastforce simp: literals_ok_def)
  have am: "amalloc 2048 0x200000 [(0xFFF0, False)] = Some (0x200010, [(2048, True), (0xF7E0, False)])" by simp
  have k: "(''kmalloc'', 0x10120) \<in> set name_places" by (simp add: names_places)
  have s: "cstring names_mem 0x10120 (literal ''kmalloc'')" by (rule names_strings [OF k])
  then have s1: "cstring names_mem 0x10121 (literal ''malloc'')" by (simp add: literal_def)
  have b1: "away (unowned 0x200000 [(0xFFF0, False)]) 0x10121 (length (literal ''malloc'') + 1)"
    using names_below [OF k] by (auto simp: away_def unowned_def literal_def unat_plus_of_nat)
  note res = init_symtable_resolves [OF names_heap am lit, of _ _ ?f, unfolded names_kernel]
  have "map_of (exported ?f kernel_symbols) (literal ''kmalloc'') = Some 0x100006"
    "map_of (exported ?f kernel_symbols) (literal ''malloc'') = None"
    by (simp_all add: exported_def kernel_symbols_def literal_def)
  then show ?thesis using res [OF s names_below [OF k]] res [OF s1 b1] by auto
qed

end
