(* ===== verification/Elf_So_Sym.thy ===== *)
theory Elf_So_Sym
  imports Elf_So
begin

text \<open>
  Looking up a symbol of a shared object, \<^verbatim>\<open>dlsym\<close> of \<^verbatim>\<open>exec/elf/elf_so.c\<close>: the sections are found by
  their names, the last of a name counting, and the symbol by its name, the first counting.
\<close>

definition section_names :: "mem \<Rightarrow> u32 \<Rightarrow> u32 \<Rightarrow> u8 list list \<Rightarrow> bool" where
  "section_names m elf shdr names \<longleftrightarrow> (\<forall>i < length names. cstring m (get_section_name m elf shdr (int i)) (names ! i))"

definition last_named :: "u8 list list \<Rightarrow> nat \<Rightarrow> u8 list \<Rightarrow> nat option" where
  "last_named names k nm = find (\<lambda>i. names ! i = nm) (rev [0..<k])"

definition section_ptr :: "u32 \<Rightarrow> nat option \<Rightarrow> u32" where
  "section_ptr shdr i = (case i of Some i \<Rightarrow> shdr_ptr shdr (of_nat i) | None \<Rightarrow> 0)"

lemma last_named_simps [simp]:
  "last_named names 0 nm = None"
  "last_named names (Suc k) nm = (if names ! k = nm then Some k else last_named names k nm)"
  by (simp_all add: last_named_def)

lemma strcmp_names:
  assumes "cstring m a x" and "cstring m b y"
  shows "\<exists>r. strcmp m a b = Some r \<and> (r = 0 \<longleftrightarrow> x = y)"
  using strcmp_str_diff [OF assms] str_diff_eq_0 cstring_nonzero [OF assms(1)] cstring_nonzero [OF assms(2)] by simp

lemma dl_sections_named:
  assumes "section_names m elf shdr names" and "k \<le> length names" and "sy \<noteq> st"
    and "cstring m sym_lit sy" and "cstring m str_lit st"
  shows "dl_sections m sym_lit str_lit elf shdr k
    = Some (section_ptr shdr (last_named names k sy), section_ptr shdr (last_named names k st))"
  using assms(2)
proof (induction k)
  case 0
  then show ?case by (simp add: section_ptr_def)
next
  case (Suc k)
  let ?n = "get_section_name m elf shdr (int k)"
  have c: "cstring m ?n (names ! k)" using assms(1) Suc.prems by (simp add: section_names_def)
  obtain r1 r2 where "strcmp m ?n sym_lit = Some r1" "r1 = 0 \<longleftrightarrow> names ! k = sy"
    "strcmp m ?n str_lit = Some r2" "r2 = 0 \<longleftrightarrow> names ! k = st"
    using strcmp_names [OF c assms(4)] strcmp_names [OF c assms(5)] by blast
  then show ?case using Suc assms(3) by (auto simp: dl_section_def section_ptr_def)
qed

lemma find_sym_loop_named:
  assumes "\<forall>j < n. cstring m (strings + st_name (sym_at m (syms + 16 * of_nat j))) (ys j)"
    and "cstring m q nm" and "n = unat (sh_size (shdr_at m t)) div 16" and "i \<le> n"
  shows "find_sym_loop m q t syms strings base i
    = Some (case find (\<lambda>j. ys j = nm) [i..<n] of Some j \<Rightarrow> base + st_value (sym_at m (syms + 16 * of_nat j)) | None \<Rightarrow> 0)"
  using assms(4)
proof (induction "n - i" arbitrary: i)
  case 0
  then show ?case by (subst find_sym_loop.simps) (simp add: assms(3) unat_div)
next
  case (Suc k)
  then have i: "i < n" by simp
  let ?y = "sym_at m (syms + 16 * of_nat i)"
  obtain r where r: "strcmp m q (strings + st_name ?y) = Some r" "r = 0 \<longleftrightarrow> nm = ys i"
    using strcmp_names [OF assms(2)] assms(1) i by blast
  have u: "[i..<n] = i # [i + 1..<n]" using i by (simp add: upt_conv_Cons)
  have "find_sym_loop m q t syms strings base (i + 1)
    = Some (case find (\<lambda>j. ys j = nm) [i + 1..<n] of Some j \<Rightarrow> base + st_value (sym_at m (syms + 16 * of_nat j)) | None \<Rightarrow> 0)"
    using Suc.hyps(2) i by (intro Suc.hyps(1)) simp_all
  moreover have "i < unat (sh_size (shdr_at m t) div 16)" using i assms(3) by (simp add: unat_div)
  ultimately show ?case
    using r unfolding u by (subst find_sym_loop.simps) (auto simp: Let_def)
qed

text \<open>The table of symbols of the object: the section \<^verbatim>\<open>.dynsym\<close>, with the names of its symbols.\<close>

definition dl_symbols :: "mem \<Rightarrow> u32 \<Rightarrow> u32 \<Rightarrow> u32 \<Rightarrow> (nat \<Rightarrow> u8 list) \<Rightarrow> bool" where
  "dl_symbols m elf dynsym dynstr ys \<longleftrightarrow> (\<forall>j < unat (sh_size (shdr_at m dynsym)) div 16.
     cstring m (elf + sh_offset (shdr_at m dynstr) + st_name (sym_at m (elf + sh_offset (shdr_at m dynsym) + 16 * of_nat j))) (ys j))"

text \<open>
  C36: On a loaded object, \<^verbatim>\<open>dlsym\<close> returns the buffer's address plus the value of the first symbol of the
  given name in the last section called \<^verbatim>\<open>.dynsym\<close>, and null if no symbol has the name.
\<close>

theorem dlsym_resolves:
  assumes "0 \<le> dl" and "dl < 16" and "lib = dynamic_libraries s ! nat dl" and "dl_shnum lib = int (length names)"
    and "section_names (phys s) (dl_buffer lib) (dl_shdr lib) names"
    and "cstring (phys s) sym_lit (literal ''.dynsym'')" and "cstring (phys s) str_lit (literal ''.dynstr'')"
    and "dynsym = section_ptr (dl_shdr lib) (last_named names (length names) (literal ''.dynsym''))" and "dynsym \<noteq> 0"
    and "dynstr = section_ptr (dl_shdr lib) (last_named names (length names) (literal ''.dynstr''))" and "dynstr \<noteq> 0"
    and "dl_symbols (phys s) (dl_buffer lib) dynsym dynstr ys" and "cstring (phys s) q nm"
  shows "dlsym sym_lit str_lit s dl q
    = Some (case find (\<lambda>j. ys j = nm) [0..<unat (sh_size (shdr_at (phys s) dynsym)) div 16] of
        Some j \<Rightarrow> dl_buffer lib + st_value (sym_at (phys s) (dl_buffer lib + sh_offset (shdr_at (phys s) dynsym) + 16 * of_nat j))
      | None \<Rightarrow> 0)"
proof -
  have "literal ''.dynsym'' \<noteq> literal ''.dynstr''" by (simp add: literal_def)
  from dl_sections_named [OF assms(5) order.refl this assms(6,7)]
  have "dl_sections (phys s) sym_lit str_lit (dl_buffer lib) (dl_shdr lib) (nat (dl_shnum lib)) = Some (dynsym, dynstr)"
    by (simp add: assms(4,8,10))
  then show ?thesis
    using assms(1,2,9,11) find_sym_loop_named [OF assms(12) [unfolded dl_symbols_def] assms(13) refl le0]
    by (simp add: dlsym_def Let_def assms(3) [symmetric])
qed

text \<open>An object without the sections has no symbols.\<close>

lemma dlsym_without_sections:
  assumes "0 \<le> dl" and "dl < 16" and "lib = dynamic_libraries s ! nat dl" and "dl_shnum lib = int (length names)"
    and "section_names (phys s) (dl_buffer lib) (dl_shdr lib) names"
    and "cstring (phys s) sym_lit (literal ''.dynsym'')" and "cstring (phys s) str_lit (literal ''.dynstr'')"
    and "literal ''.dynsym'' \<notin> set names"
  shows "dlsym sym_lit str_lit s dl q = Some 0"
proof -
  have "literal ''.dynsym'' \<noteq> literal ''.dynstr''" by (simp add: literal_def)
  note sec = dl_sections_named [OF assms(5) order.refl this assms(6,7)]
  have "last_named names (length names) (literal ''.dynsym'') = None"
    using assms(8) by (auto simp: last_named_def find_None_iff dest: nth_mem)
  then have "\<exists>x. dl_sections (phys s) sym_lit str_lit (dl_buffer lib) (dl_shdr lib) (nat (dl_shnum lib)) = Some (0, x)"
    using sec by (simp add: assms(4) section_ptr_def)
  then show ?thesis using assms(1,2) by (auto simp: dlsym_def Let_def assms(3) [symmetric])
qed

section \<open>An object\<close>

text \<open>
  At 0x1000: the string table at offset 52, three sections from 72 on (none, \<^verbatim>\<open>.dynsym\<close>, \<^verbatim>\<open>.dynstr\<close>, which
  is also the section of the names), one symbol \<^verbatim>\<open>f\<close> with value 7 at 192.  The literals are at 0x200 and
  0x210, the name asked for at 0x220.
\<close>

definition so_mem :: mem where
  "so_mem = (\<lambda>_. 0)(
    0x1020 := 72, 0x1032 := 2, 0x1035 := 46, 0x1036 := 100, 0x1037 := 121, 0x1038 := 110, 0x1039 := 115,
    0x103A := 121, 0x103B := 109, 0x103D := 46, 0x103E := 100, 0x103F := 121, 0x1040 := 110, 0x1041 := 115,
    0x1042 := 116, 0x1043 := 114, 0x1045 := 102, 0x1070 := 1, 0x1080 := 192, 0x1084 := 16, 0x1098 := 9,
    0x10A8 := 52, 0x10AC := 20, 0x10C0 := 17, 0x10C4 := 7, 0x200 := 46, 0x201 := 100, 0x202 := 121,
    0x203 := 110, 0x204 := 115, 0x205 := 121, 0x206 := 109, 0x210 := 46, 0x211 := 100, 0x212 := 121,
    0x213 := 110, 0x214 := 115, 0x215 := 116, 0x216 := 114, 0x220 := 102)"

definition so_kernel :: dl where
  "so_kernel = symtab.extend (small_symtab\<lparr>phys := so_mem\<rparr>)
     (dl.fields [\<lparr>dl_buffer = 0x1000, dl_fd = 0, dl_shdr = 0x1048, dl_shnum = 3\<rparr>] 1)"

lemma so_kernel [simp]: "phys so_kernel = so_mem"
  "dynamic_libraries so_kernel = [\<lparr>dl_buffer = 0x1000, dl_fd = 0, dl_shdr = 0x1048, dl_shnum = 3\<rparr>]"
  by (simp_all add: so_kernel_def symtab.defs dl.defs small_symtab_def paging.defs)

lemma so_strings:
  "cstring so_mem 0x200 (literal ''.dynsym'')" "cstring so_mem 0x210 (literal ''.dynstr'')" "cstring so_mem 0x220 [102]"
  by (simp_all add: so_mem_def literal_def)

lemma elf_fields:
  "sh_name (shdr_at m a) = r32 m a" "sh_offset (shdr_at m a) = r32 m (a + 16)" "sh_size (shdr_at m a) = r32 m (a + 20)"
  "st_name (sym_at m a) = r32 m a" "st_value (sym_at m a) = r32 m (a + 4)" "e_shstrndx (ehdr_at m a) = r16 m (a + 50)"
  by (simp_all add: shdr_at_def sym_at_def ehdr_at_def)

lemma so_words:
  "r16 so_mem 0x1032 = 2" "r32 so_mem 0x10A8 = 52" "r32 so_mem 0x1048 = 0" "r32 so_mem 0x1070 = 1" "r32 so_mem 0x1098 = 9"
  "r32 so_mem 0x1080 = 192" "r32 so_mem 0x1084 = 16" "r32 so_mem 0x10C0 = 17" "r32 so_mem 0x10C4 = 7"
  by (simp_all add: r32_def r16_def so_mem_def)

lemma so_sections: "section_names so_mem 0x1000 0x1048 [[], literal ''.dynsym'', literal ''.dynstr'']"
proof -
  have "cstring so_mem 0x1034 []" "cstring so_mem 0x1035 (literal ''.dynsym'')" "cstring so_mem 0x103D (literal ''.dynstr'')"
    by (simp_all add: so_mem_def literal_def)
  then show ?thesis
    by (auto simp: section_names_def less_Suc_eq get_section_name_def elf_fields so_words)
qed

lemma so_symbols: "dl_symbols so_mem 0x1000 0x1070 0x1098 (\<lambda>_. [102])" "sh_size (shdr_at so_mem 0x1070) = 16"
  "st_value (sym_at so_mem (0x1000 + sh_offset (shdr_at so_mem 0x1070))) = 7"
proof -
  have "cstring so_mem 0x1045 [102]" by (simp add: so_mem_def)
  then show "dl_symbols so_mem 0x1000 0x1070 0x1098 (\<lambda>_. [102])" "sh_size (shdr_at so_mem 0x1070) = 16"
    "st_value (sym_at so_mem (0x1000 + sh_offset (shdr_at so_mem 0x1070))) = 7"
    by (simp_all add: dl_symbols_def elf_fields so_words)
qed

theorem dlsym_resolves_witness:
  "dlsym 0x200 0x210 so_kernel 0 0x220 = Some 0x1007"
proof -
  let ?names = "[[], literal ''.dynsym'', literal ''.dynstr'']"
  have n: "last_named ?names (length ?names) (literal ''.dynsym'') = Some 1" "last_named ?names (length ?names) (literal ''.dynstr'') = Some (Suc (Suc 0))"
    by (simp_all add: literal_def)
  show ?thesis
    using dlsym_resolves [of 0 _ so_kernel ?names "0x200" "0x210" "0x1070" "0x1098" "\<lambda>_. [102]" "0x220" "[102]"]
      so_strings so_sections so_symbols
    unfolding n by (simp add: section_ptr_def)
qed

end
