(* ===== verification/Elf_Demo.thy ===== *)
theory Elf_Demo
  imports Elf_Link
begin

text \<open>
  A small image, loaded.  It has one segment of four bytes, one jump slot for the symbol \<open>k\<close> and
  a \<open>main\<close>; memory holds it at 0x100000, the kernel's symbol \<open>k\<close> in a table at 0x1000, and an empty
  heap of 64 KiB at 0x200000.
\<close>

definition demo_image :: "u8 list" where
  "demo_image = [127, 69, 76, 70, 0, 0, 0, 0, 0, 0, 0, 0, 0, 0, 0, 0, 0, 0, 0, 0,
      0, 0, 0, 0, 0, 0, 0, 0, 52, 0, 0, 0, 84, 0, 0, 0, 0, 0, 0, 0,
      0, 0, 0, 0, 1, 0, 0, 0, 4, 0, 0, 0, 1, 0, 0, 0, 35, 1, 0, 0,
      0, 0, 0, 0, 0, 0, 0, 0, 4, 0, 0, 0, 4, 0, 0, 0, 0, 0, 0, 0,
      0, 0, 0, 0, 0, 0, 0, 0, 3, 0, 0, 0, 0, 0, 0, 0, 0, 0, 0, 0,
      28, 1, 0, 0, 7, 0, 0, 0, 0, 0, 0, 0, 0, 0, 0, 0, 0, 0, 0, 0,
      0, 0, 0, 0, 0, 0, 0, 0, 11, 0, 0, 0, 0, 0, 0, 0, 0, 0, 0, 0,
      4, 1, 0, 0, 16, 0, 0, 0, 0, 0, 0, 0, 0, 0, 0, 0, 0, 0, 0, 0,
      0, 0, 0, 0, 0, 0, 0, 0, 9, 0, 0, 0, 0, 0, 0, 0, 0, 0, 0, 0,
      20, 1, 0, 0, 8, 0, 0, 0, 0, 0, 0, 0, 0, 0, 0, 0, 0, 0, 0, 0,
      0, 0, 0, 0, 0, 0, 0, 0, 2, 0, 0, 0, 0, 0, 0, 0, 0, 0, 0, 0,
      244, 0, 0, 0, 16, 0, 0, 0, 0, 0, 0, 0, 0, 0, 0, 0, 0, 0, 0, 0,
      0, 0, 0, 0, 0, 0, 0, 0, 2, 0, 0, 0, 0, 0, 0, 0, 0, 0, 0, 0,
      5, 0, 0, 0, 0, 0, 0, 0, 0, 0, 0, 0, 0, 0, 0, 0, 4, 0, 0, 0,
      7, 0, 0, 0, 109, 97, 105, 110, 0, 107, 0, 1, 2, 3, 4]"

definition demo_mem :: mem where
  "demo_mem x = (if 0x100000 \<le> x \<and> x < 0x100127 then demo_image ! unat (x - 0x100000)
     else ((\<lambda>_. 0)(0x100 := 0x6B, 0x300 := 0x6D, 0x301 := 0x61, 0x302 := 0x69, 0x303 := 0x6E,
       0x1001 := 0x01, 0x1004 := 0xDE, 0x1005 := 0xC0, 0x20000C := 0xF0, 0x20000D := 0xFF)) x)"

definition demo_elf :: symtab where
  "demo_elf = small_symtab\<lparr>phys := demo_mem, symbol_idx := 1, first := 0x200000\<rparr>"

lemma demo_elf [simp]: "phys demo_elf = demo_mem" "symbol_idx demo_elf = 1" "first demo_elf = 0x200000" "symtable demo_elf = 0x1000"
  by (simp_all add: demo_elf_def)

lemma demo_image [simp]: "length demo_image = 295"
  by (simp add: demo_image_def)

lemma demo_phdrs: "elf_phdrs demo_mem 0x100000
  = [\<lparr>p_type = 1, p_offset = 291, p_vaddr = 0, p_paddr = 0, p_filesz = 4, p_memsz = 4, p_flags = 0, p_align = 0\<rparr>]"
  by (simp add: elf_phdrs_def ehdr_at_def phdr_at_def r32_def r16_def demo_mem_def demo_image_def)

lemma demo_shdrs: "elf_shdrs demo_mem 0x100000
  = map (\<lambda>(ty, off, sz). \<lparr>sh_name = 0, sh_type = ty, sh_flags = 0, sh_addr = 0, sh_offset = off, sh_size = sz, sh_link = 0,
        sh_info = 0, sh_addralign = 0, sh_entsize = 0\<rparr>) [(3, 284, 7), (0xB, 260, 16), (9, 276, 8), (2, 244, 16)]"
  by (simp add: elf_shdrs_def ehdr_at_def shdr_at_def r32_def r16_def demo_mem_def demo_image_def upt_conv_Cons)

abbreviation (input) demo_dynsym :: elf32_shdr where
  "demo_dynsym \<equiv> \<lparr>sh_name = 0, sh_type = 0xB, sh_flags = 0, sh_addr = 0, sh_offset = 260, sh_size = 16, sh_link = 0,
     sh_info = 0, sh_addralign = 0, sh_entsize = 0\<rparr>"

abbreviation (input) demo_symtab :: elf32_shdr where
  "demo_symtab \<equiv> \<lparr>sh_name = 0, sh_type = 2, sh_flags = 0, sh_addr = 0, sh_offset = 244, sh_size = 16, sh_link = 0,
     sh_info = 0, sh_addralign = 0, sh_entsize = 0\<rparr>"

abbreviation (input) demo_rel :: elf32_shdr where
  "demo_rel \<equiv> \<lparr>sh_name = 0, sh_type = 9, sh_flags = 0, sh_addr = 0, sh_offset = 276, sh_size = 8, sh_link = 0,
     sh_info = 0, sh_addralign = 0, sh_entsize = 0\<rparr>"

lemma demo_parts:
  "slot_at demo_mem 0x100000 demo_rel 0 = \<lparr>r_offset = 4, r_info = 7\<rparr>"
  "sym_of demo_mem 0x100000 demo_dynsym 0 = \<lparr>st_name = 5, st_value = 0, st_size = 0, st_info = 0, st_other = 0, st_shndx = 0\<rparr>"
  "sym_of demo_mem 0x100000 demo_symtab 0 = \<lparr>st_name = 0, st_value = 2, st_size = 0, st_info = 0, st_other = 0, st_shndx = 0\<rparr>"
  by (simp_all add: slot_at_def rel_at_def sym_of_def sym_at_def r32_def r16_def demo_mem_def demo_image_def)

lemma demo_header: "is_elf_image demo_mem 0x100000" "e_phoff (ehdr_at demo_mem 0x100000) = 52" "e_phnum (ehdr_at demo_mem 0x100000) = 1"
  "e_shoff (ehdr_at demo_mem 0x100000) = 84" "e_shnum (ehdr_at demo_mem 0x100000) = 4"
  by (simp_all add: is_elf_image_def ehdr_at_def r32_def r16_def demo_mem_def demo_image_def)

lemma demo_strings:
  "load demo_mem 0x10011C 11 = [0x6D, 0x61, 0x69, 0x6E, 0, 0x6B, 0, 1, 2, 3, 4]"
  "load demo_mem 0x100121 6 = [0x6B, 0, 1, 2, 3, 4]"
  "load demo_mem 0x100123 4 = [1, 2, 3, 4]"
  by (simp_all add: load_def upt_conv_Cons demo_mem_def demo_image_def)

lemma demo_image_ok: "image_ok demo_mem 0x100000 295 16 demo_dynsym demo_symtab"
  by (simp add: image_ok_def Let_def demo_header demo_phdrs demo_shdrs elf_section_def loadable_def slots_ok_def symbols_ok_def
      demo_parts is_slot_def ELF32_R_TYPE_def ELF32_R_SYM_def slot_name_def strings_of_def str_ok_def demo_strings)

lemma demo_writes:
  "elf_segments demo_mem 0x100000 (elf_phdrs demo_mem 0x100000) = [(0, [1, 2, 3, 4])]"
  "concat (map (elf_slots [([0x6B], 0xC0DE)] demo_mem 0x100000 295 (elf_shdrs demo_mem 0x100000) demo_dynsym) (elf_shdrs demo_mem 0x100000))
    = [(4, [0xDE, 0xC0, 0, 0])]"
proof -
  show "elf_segments demo_mem 0x100000 (elf_phdrs demo_mem 0x100000) = [(0, [1, 2, 3, 4])]"
    by (simp add: demo_phdrs elf_segments_def loadable_def demo_strings)
  have "word_bytes 0xC0DE = [0xDE, 0xC0, 0, 0]" by (simp add: word_bytes_def byte_of_def)
  then show "concat (map (elf_slots [([0x6B], 0xC0DE)] demo_mem 0x100000 295 (elf_shdrs demo_mem 0x100000) demo_dynsym) (elf_shdrs demo_mem 0x100000))
    = [(4, [0xDE, 0xC0, 0, 0])]"
    by (simp add: demo_shdrs elf_slots_def elf_slot_def demo_parts is_slot_def ELF32_R_TYPE_def ELF32_R_SYM_def slot_name_def
        strings_of_def elf_str_def lookup_symbol_def demo_strings)
qed

lemma zeros_16: "replicate 16 (0 :: u8) = [0, 0, 0, 0, 0, 0, 0, 0, 0, 0, 0, 0, 0, 0, 0, 0]"
  by (simp add: numeral_eq_Suc)

lemma demo_linked:
  "linked [([0x6B], 0xC0DE)] demo_mem 0x100000 295 demo_dynsym 16 = [1, 2, 3, 4, 0xDE, 0xC0, 0, 0, 0, 0, 0, 0, 0, 0, 0, 0]"
  unfolding linked_def Let_def demo_writes zeros_16 by (simp add: patch_def)

lemma demo_main:
  "elf_symbol demo_mem 0x100000 295 (elf_shdrs demo_mem 0x100000) demo_symtab 0x200010 (literal ''main'') = 0x200012"
  by (simp add: elf_symbol_def demo_shdrs demo_parts strings_of_def elf_str_def demo_strings literal_def)

lemma demo_heap_rep: "heap_rep demo_elf 0x200000 [(0xFFF0, False)]"
  by (simp add: heap_rep_def chunk_defs r32_def demo_mem_def)

lemma demo_unowned:
  assumes "unat a + k \<le> 0x200000"
  shows "away (unowned 0x200000 [(0xFFF0, False)]) a k"
  using assms by (auto simp: away_def unowned_def unat_plus_of_nat)

lemma demo_symbol: "r32 demo_mem 0x1000 = 0x100" "r32 demo_mem 0x1004 = 0xC0DE"
  by (simp_all add: r32_def demo_mem_def)

lemma demo_symbols:
  "symbols_rep demo_elf [([0x6B], 0xC0DE)]" "symbols_away (unowned 0x200000 [(0xFFF0, False)]) demo_elf [([0x6B], 0xC0DE)]"
proof -
  have "away (symbol_array 0x1000) 0x100 (Suc (Suc 0))" by (rule below_symbol_array) simp_all
  moreover have "cstring demo_mem 0x100 [0x6B]" by (simp add: demo_mem_def)
  ultimately show "symbols_rep demo_elf [([0x6B], 0xC0DE)]"
    by (simp add: symbols_rep_def entry_ok_def symbol_at_def demo_symbol)
  show "symbols_away (unowned 0x200000 [(0xFFF0, False)]) demo_elf [([0x6B], 0xC0DE)]"
    by (auto simp: symbols_away_def symbol_at_def demo_symbol intro!: demo_unowned)
qed

theorem image_load_links_witness:
  "\<exists>m'. image_load 0x400 0x300 demo_elf 0x100000 16 False = Some (0x200012, demo_elf\<lparr>phys := m'\<rparr>)
    \<and> load m' 0x200010 16 = [1, 2, 3, 4, 0xDE, 0xC0, 0, 0, 0, 0, 0, 0, 0, 0, 0, 0]"
proof -
  have "cstring (phys demo_elf) 0x300 (literal ''main'')" by (simp add: literal_def demo_mem_def)
  with image_load_links [OF demo_heap_rep, of 16 "0x200010" _ "0x100000" 295 demo_dynsym demo_symtab "[([0x6B], 0xC0DE)]" "0x300" "0x400"]
  show ?thesis
    by (auto simp: demo_image_ok demo_symbols demo_linked demo_main demo_unowned)
qed

end
