(* ===== verification/Ahci.thy ===== *)
theory Ahci
  imports Driver
begin

text \<open>
  The SATA driver, \<^verbatim>\<open>kernel/src/driver/sata/ahci.c\<close> and \<^verbatim>\<open>sata.c\<close>.  The registers of the controller
  and of its ports are mapped into memory and read from the device (\<open>regs\<close>); every read and write is
  an event of the trace.  The command headers, command tables and frames are in the kernel's memory.
  What the controller then copies into the caller's buffer is the device's doing and not modelled.
\<close>

section \<open>Registers and structures\<close>

record ahci = drvs +
  g_abar :: u32
  abar :: u32

abbreviation (input) SATA_SIG_ATAPI :: u32 where "SATA_SIG_ATAPI \<equiv> 0xEB140101"
abbreviation (input) SATA_SIG_SEMB :: u32 where "SATA_SIG_SEMB \<equiv> 0xC33C0101"
abbreviation (input) SATA_SIG_PM :: u32 where "SATA_SIG_PM \<equiv> 0x96690101"
abbreviation (input) AHCI_DEV_NULL :: u32 where "AHCI_DEV_NULL \<equiv> 0"
abbreviation (input) AHCI_DEV_SATA :: u32 where "AHCI_DEV_SATA \<equiv> 1"
abbreviation (input) AHCI_DEV_SEMB :: u32 where "AHCI_DEV_SEMB \<equiv> 2"
abbreviation (input) AHCI_DEV_PM :: u32 where "AHCI_DEV_PM \<equiv> 3"
abbreviation (input) AHCI_DEV_SATAPI :: u32 where "AHCI_DEV_SATAPI \<equiv> 4"
abbreviation (input) HBA_PxIS_TFES :: u32 where "HBA_PxIS_TFES \<equiv> 0x40000000"
abbreviation (input) HBA_PxCMD_CR :: u32 where "HBA_PxCMD_CR \<equiv> 0x8000"
abbreviation (input) HBA_PxCMD_FR :: u32 where "HBA_PxCMD_FR \<equiv> 0x4000"
abbreviation (input) HBA_PxCMD_FRE :: u32 where "HBA_PxCMD_FRE \<equiv> 0x10"
abbreviation (input) HBA_PxCMD_ST :: u32 where "HBA_PxCMD_ST \<equiv> 0x1"

text \<open>The registers of a port.\<close>

abbreviation (input) px_clb :: "u32 \<Rightarrow> u32" where "px_clb port \<equiv> port"
abbreviation (input) px_clbu :: "u32 \<Rightarrow> u32" where "px_clbu port \<equiv> port + 0x04"
abbreviation (input) px_fb :: "u32 \<Rightarrow> u32" where "px_fb port \<equiv> port + 0x08"
abbreviation (input) px_fbu :: "u32 \<Rightarrow> u32" where "px_fbu port \<equiv> port + 0x0C"
abbreviation (input) px_is :: "u32 \<Rightarrow> u32" where "px_is port \<equiv> port + 0x10"
abbreviation (input) px_cmd :: "u32 \<Rightarrow> u32" where "px_cmd port \<equiv> port + 0x18"
abbreviation (input) px_tfd :: "u32 \<Rightarrow> u32" where "px_tfd port \<equiv> port + 0x20"
abbreviation (input) px_sig :: "u32 \<Rightarrow> u32" where "px_sig port \<equiv> port + 0x24"
abbreviation (input) px_ssts :: "u32 \<Rightarrow> u32" where "px_ssts port \<equiv> port + 0x28"
abbreviation (input) px_sact :: "u32 \<Rightarrow> u32" where "px_sact port \<equiv> port + 0x34"
abbreviation (input) px_ci :: "u32 \<Rightarrow> u32" where "px_ci port \<equiv> port + 0x38"

abbreviation (input) hba_cap :: "u32 \<Rightarrow> u32" where "hba_cap a \<equiv> a"
abbreviation (input) hba_pi :: "u32 \<Rightarrow> u32" where "hba_pi a \<equiv> a + 0x0C"
abbreviation (input) hba_port :: "u32 \<Rightarrow> nat \<Rightarrow> u32" where "hba_port a i \<equiv> a + 0x100 + 0x80 * of_nat i"

text \<open>The fields of a command header, of a table of physical regions and of a command frame.\<close>

definition set_cfl :: "mem \<Rightarrow> u32 \<Rightarrow> u8 \<Rightarrow> mem" where "set_cfl m h v = m(h := (m h AND NOT 0x1F) OR (v AND 0x1F))"
definition clear_w :: "mem \<Rightarrow> u32 \<Rightarrow> mem" where "clear_w m h = m(h := m h AND NOT 0x40)"
definition prdtl :: "mem \<Rightarrow> u32 \<Rightarrow> u16" where "prdtl m h = r16 m (h + 2)"
definition set_prdtl :: "mem \<Rightarrow> u32 \<Rightarrow> u16 \<Rightarrow> mem" where "set_prdtl m h v = w16 m (h + 2) v"
definition ctba :: "mem \<Rightarrow> u32 \<Rightarrow> u32" where "ctba m h = r32 m (h + 8)"
definition set_ctba :: "mem \<Rightarrow> u32 \<Rightarrow> u32 \<Rightarrow> mem" where "set_ctba m h v = w32 m (h + 8) v"
definition set_ctbau :: "mem \<Rightarrow> u32 \<Rightarrow> u32 \<Rightarrow> mem" where "set_ctbau m h v = w32 m (h + 12) v"

definition prdt_entry :: "u32 \<Rightarrow> u32 \<Rightarrow> u32" where "prdt_entry tbl i = tbl + 0x80 + 16 * i"
definition set_dba :: "mem \<Rightarrow> u32 \<Rightarrow> u32 \<Rightarrow> mem" where "set_dba m e v = w32 m e v"
definition set_dbc :: "mem \<Rightarrow> u32 \<Rightarrow> u32 \<Rightarrow> mem" where
  "set_dbc m e v = w32 m (e + 12) ((r32 m (e + 12) AND NOT 0x3FFFFF) OR (v AND 0x3FFFFF))"
definition set_i :: "mem \<Rightarrow> u32 \<Rightarrow> mem" where "set_i m e = w32 m (e + 12) (r32 m (e + 12) OR 0x80000000)"

definition fill_entry :: "mem \<Rightarrow> u32 \<Rightarrow> u32 \<Rightarrow> u32 \<Rightarrow> mem" where
  "fill_entry m e a c = set_i (set_dbc (set_dba m e a) e c) e"

section \<open>Ports\<close>

definition get_type :: "mmio \<Rightarrow> ('a machine_scheme) \<Rightarrow> u32 \<Rightarrow> u32 \<times> 'a machine_scheme" where
  "get_type regs s port =
     (let (ssts, s1) = mmio_in regs s (px_ssts port);
          ipm = (ucast (drop_bit 8 ssts AND 0x0F) :: u8);
          det = (ucast (ssts AND 0x0F) :: u8)
      in if det \<noteq> 3 then (AHCI_DEV_NULL, s1)
         else if ipm \<noteq> 1 then (AHCI_DEV_NULL, s1)
         else
           (let (sig, s2) = mmio_in regs s1 (px_sig port)
            in (if sig = SATA_SIG_ATAPI then AHCI_DEV_SATAPI
                else if sig = SATA_SIG_SEMB then AHCI_DEV_SEMB
                else if sig = SATA_SIG_PM then AHCI_DEV_PM
                else AHCI_DEV_SATA, s2)))"

text \<open>\<^verbatim>\<open>r |= v\<close> and \<^verbatim>\<open>r &= ~v\<close> on a register.\<close>

definition mmio_or :: "mmio \<Rightarrow> ('a machine_scheme) \<Rightarrow> u32 \<Rightarrow> u32 \<Rightarrow> 'a machine_scheme" where
  "mmio_or regs s a v = (let (x, s1) = mmio_in regs s a in mmio_out s1 a (x OR v))"

definition mmio_clear :: "mmio \<Rightarrow> ('a machine_scheme) \<Rightarrow> u32 \<Rightarrow> u32 \<Rightarrow> 'a machine_scheme" where
  "mmio_clear regs s a v = (let (x, s1) = mmio_in regs s a in mmio_out s1 a (x AND NOT v))"

partial_function (option) wait_running :: "mmio \<Rightarrow> ('a machine_scheme) \<Rightarrow> u32 \<Rightarrow> ('a machine_scheme) option" where
  "wait_running regs s port =
     (let (x, s1) = mmio_in regs s (px_cmd port)
      in if x AND HBA_PxCMD_CR \<noteq> 0 then wait_running regs s1 port else Some s1)"

definition start_cmd :: "mmio \<Rightarrow> ('a machine_scheme) \<Rightarrow> u32 \<Rightarrow> ('a machine_scheme) option" where
  "start_cmd regs s port = do {
     s1 \<leftarrow> wait_running regs s port;
     let s2 = mmio_or regs s1 (px_cmd port) HBA_PxCMD_FRE;
     Some (mmio_or regs s2 (px_cmd port) HBA_PxCMD_ST) }"

partial_function (option) wait_stopped :: "mmio \<Rightarrow> ('a machine_scheme) \<Rightarrow> u32 \<Rightarrow> ('a machine_scheme) option" where
  "wait_stopped regs s port =
     (let (x, s1) = mmio_in regs s (px_cmd port)
      in if x AND HBA_PxCMD_FR \<noteq> 0 then wait_stopped regs s1 port
         else
           (let (y, s2) = mmio_in regs s1 (px_cmd port)
            in if y AND HBA_PxCMD_CR \<noteq> 0 then wait_stopped regs s2 port else Some s2))"

definition stop_cmd :: "mmio \<Rightarrow> ('a machine_scheme) \<Rightarrow> u32 \<Rightarrow> ('a machine_scheme) option" where
  "stop_cmd regs s port =
     (let s1 = mmio_clear regs s (px_cmd port) HBA_PxCMD_ST;
          s2 = mmio_clear regs s1 (px_cmd port) HBA_PxCMD_FRE
      in wait_stopped regs s2 port)"

primrec init_headers :: "('a mm_scheme) \<Rightarrow> u32 \<Rightarrow> nat \<Rightarrow> ('a mm_scheme) option" where
  "init_headers s clb 0 = Some s"
| "init_headers s clb (Suc n) = do {
     s1 \<leftarrow> init_headers s clb n;
     let h = clb + 32 * of_nat n;
     let s2 = s1\<lparr>phys := set_prdtl (phys s1) h 8\<rparr>;
     (buffer, s3) \<leftarrow> malloc_aligned s2 4096 4096;
     let m = fst (memset (phys s3) buffer 0 4096);
     Some (s3\<lparr>phys := set_ctbau (set_ctba m h buffer) h 0\<rparr>) }"

text \<open>\<open>shr32\<close> is what the compiler makes of shifting a 32-bit value by 32, which C leaves undefined.\<close>

definition port_rebase :: "mmio \<Rightarrow> (u32 \<Rightarrow> u32) \<Rightarrow> ('a mm_scheme) \<Rightarrow> u32 \<Rightarrow> ('a mm_scheme) option" where
  "port_rebase regs shr32 s port = do {
     s1 \<leftarrow> stop_cmd regs s port;
     (clb, s2) \<leftarrow> malloc_aligned s1 4096 1024;
     let s3 = s2\<lparr>phys := fst (memset (phys s2) clb 0 1024)\<rparr>;
     let s4 = mmio_out s3 (px_clb port) clb;
     let s5 = mmio_out s4 (px_clbu port) (shr32 clb);
     (fb, s6) \<leftarrow> malloc_aligned s5 4096 256;
     let s7 = s6\<lparr>phys := fst (memset (phys s6) fb 0 256)\<rparr>;
     let s8 = mmio_out s7 (px_fb port) fb;
     let s9 = mmio_out s8 (px_fbu port) (shr32 fb);
     s10 \<leftarrow> init_headers s9 clb 32;
     start_cmd regs s10 port }"

text \<open>One turn of the loop over the ports; the result is the last port found.\<close>

definition probe_one :: "mmio \<Rightarrow> (u32 \<Rightarrow> u32) \<Rightarrow> u32 \<Rightarrow> nat \<Rightarrow> u32 \<times> 'a screen_scheme \<Rightarrow> (u32 \<times> 'a screen_scheme) option" where
  "probe_one regs shr32 hba i = (\<lambda>(result, s).
     let (ports, s1) = mmio_in regs s (hba_pi hba)
     in if bit ports i
        then
          (let port = hba_port hba i; (ty, s2) = get_type regs s1 port
           in if ty = AHCI_DEV_SATA
              then do {
                let s3 = print_literal s2 (literal (''SATA'' @ [CHR 0x0A]));
                s4 \<leftarrow> port_rebase regs shr32 s3 port;
                Some (port, s4) }
              else Some (result, s2))
        else Some (result, s1))"

primrec probe_ports :: "mmio \<Rightarrow> (u32 \<Rightarrow> u32) \<Rightarrow> u32 \<Rightarrow> nat \<Rightarrow> u32 \<times> 'a screen_scheme \<Rightarrow> (u32 \<times> 'a screen_scheme) option" where
  "probe_ports regs shr32 hba 0 r = Some r"
| "probe_ports regs shr32 hba (Suc n) r = Option.bind (probe_ports regs shr32 hba n r) (probe_one regs shr32 hba n)"

text \<open>The result is not initialised: \<open>junk\<close> if no port has a disk.\<close>

definition probe_port :: "mmio \<Rightarrow> (u32 \<Rightarrow> u32) \<Rightarrow> u32 \<Rightarrow> ('a ahci_scheme) \<Rightarrow> u32 \<Rightarrow> (u32 \<times> 'a ahci_scheme) option" where
  "probe_port regs shr32 junk s hba = probe_ports regs shr32 hba 32 (junk, s\<lparr>g_abar := hba\<rparr>)"

definition init_sata :: "mmio \<Rightarrow> (u32 \<Rightarrow> u32) \<Rightarrow> u32 \<Rightarrow> ('a ahci_scheme) \<Rightarrow> u32 \<Rightarrow> ('a ahci_scheme) option" where
  "init_sata regs shr32 junk s bar5 =
     Option.bind (probe_port regs shr32 junk (s\<lparr>abar := bar5\<rparr>) bar5) (\<lambda>(_, s1). Some s1)"

section \<open>Commands\<close>

definition find_cmd_slot :: "mmio \<Rightarrow> ('a ahci_scheme) \<Rightarrow> u32 \<Rightarrow> int \<times> 'a ahci_scheme" where
  "find_cmd_slot regs s port =
     (let (sact, s1) = mmio_in regs s (px_sact port);
          (ci, s2) = mmio_in regs s1 (px_ci port);
          slots = sact OR ci;
          (cap, s3) = mmio_in regs s2 (hba_cap (g_abar s2));
          cmd_slots = drop_bit 8 (cap AND 0x0F00)
      in (case find (\<lambda>i. drop_bit i slots AND 1 = 0) [0..<unat cmd_slots] of Some i \<Rightarrow> int i | None \<Rightarrow> - 1, s3))"

text \<open>All regions but the last; the counter, the buffer and the remaining count are loop variables.\<close>

function fill_regions :: "mem \<Rightarrow> u32 \<Rightarrow> u32 \<Rightarrow> nat \<Rightarrow> u32 \<Rightarrow> u32 \<Rightarrow> mem \<times> nat \<times> u32 \<times> u32" where
  "fill_regions m h tbl i buf count =
     (if int i < int (unat (prdtl m h)) - 1 then
        (let e = prdt_entry tbl (of_nat i)
         in fill_regions (fill_entry m e buf (8 * 1024 - 1)) h tbl (i + 1) (buf + 4 * 1024) (count - 16))
      else (m, i, buf, count))"
  by pat_completeness auto
termination
proof (relation "measure (\<lambda>(m, h, tbl, i, buf, count). 65536 - i)", goal_cases)
  case (2 m h tbl i buf count)
  then show ?case using uint_bounded [of "prdtl m h"] by simp
qed simp

declare fill_regions.simps [simp del]

text \<open>The frame: 20 bytes, of which the code writes these.\<close>

definition write_frame :: "mem \<Rightarrow> u32 \<Rightarrow> u32 \<Rightarrow> u32 \<Rightarrow> u32 \<Rightarrow> mem" where
  "write_frame m f startl starth count =
     (let m1 = m(f := 0x27);
          m2 = m1(f + 1 := m1 (f + 1) OR 0x80)
      in m2(f + 2 := 0x25,
           f + 4 := ucast startl, f + 5 := ucast (drop_bit 8 startl), f + 6 := ucast (drop_bit 16 startl), f + 7 := 0x40,
           f + 8 := ucast (drop_bit 24 startl), f + 9 := ucast starth, f + 10 := ucast (drop_bit 8 starth),
           f + 12 := ucast (count AND 0xFF), f + 13 := ucast (drop_bit 8 count AND 0xFF)))"

function spin_wait :: "mmio \<Rightarrow> ('a machine_scheme) \<Rightarrow> u32 \<Rightarrow> nat \<Rightarrow> nat \<times> 'a machine_scheme" where
  "spin_wait regs s port spin =
     (let (tfd, s1) = mmio_in regs s (px_tfd port)
      in if tfd AND 0x88 \<noteq> 0 \<and> spin < 1000000 then spin_wait regs s1 port (spin + 1) else (spin, s1))"
  by pat_completeness auto
termination by (relation "measure (\<lambda>(regs, s, port, spin). 1000000 - spin)") auto

declare spin_wait.simps [simp del]

text \<open>The loop that waits for the command: the result says whether it ended without an error.\<close>

partial_function (option) wait_command :: "mmio \<Rightarrow> ('a machine_scheme) \<Rightarrow> u32 \<Rightarrow> nat \<Rightarrow> (bool \<times> 'a machine_scheme) option" where
  "wait_command regs s port slot =
     (let (ci, s1) = mmio_in regs s (px_ci port)
      in if \<not> bit ci slot then Some (True, s1)
         else
           (let (is, s2) = mmio_in regs s1 (px_is port)
            in if is AND HBA_PxIS_TFES \<noteq> 0 then Some (False, s2) else wait_command regs s2 port slot))"

text \<open>The command as it is left in memory before it is issued.\<close>

definition build_command :: "mem \<Rightarrow> u32 \<Rightarrow> u32 \<Rightarrow> u32 \<Rightarrow> u32 \<Rightarrow> u32 \<Rightarrow> mem" where
  "build_command m h startl starth count buf =
     (let m1 = set_cfl m h 5;
          m2 = clear_w m1 h;
          m3 = set_prdtl m2 h (ucast (drop_bit 4 (count - 1)) + 1);
          tbl = ctba m3 h;
          (m4, i, buf', count') = fill_regions m3 h tbl 0 buf count;
          e = prdt_entry tbl (of_nat i);
          m5 = fill_entry m4 e buf' (push_bit 9 count' - 1)
      in write_frame m5 tbl startl starth count')"

definition sata_read :: "mmio \<Rightarrow> ('a ahci_scheme) \<Rightarrow> u32 \<Rightarrow> u32 \<Rightarrow> u32 \<Rightarrow> u32 \<Rightarrow> u32 \<Rightarrow> (bool \<times> 'a ahci_scheme) option" where
  "sata_read regs s port startl starth count buf =
     (let s1 = mmio_out s (px_is port) (- 1);
          (slot, s2) = find_cmd_slot regs s1 port
      in if slot = - 1 then Some (False, s2)
         else
           (let (clb, s3) = mmio_in regs s2 (px_clb port);
                h = clb + 32 * of_int slot;
                s4 = s3\<lparr>phys := build_command (phys s3) h startl starth count buf\<rparr>;
                (spin, s5) = spin_wait regs s4 port 0
            in if spin = 1000000 then Some (False, print_literal s5 (literal (''Port is hung'' @ [CHR 0x0A])))
               else do {
                 let s6 = mmio_out s5 (px_ci port) (push_bit (nat slot) 1);
                 (fine, s7) \<leftarrow> wait_command regs s6 port (nat slot);
                 if \<not> fine then Some (False, print_literal s7 (literal (''Read disk error'' @ [CHR 0x0A])))
                 else
                   (let (is, s8) = mmio_in regs s7 (px_is port)
                    in if is AND HBA_PxIS_TFES \<noteq> 0
                       then Some (False, print_literal s8 (literal (''Read disk error'' @ [CHR 0x0A])))
                       else Some (True, s8)) }))"

end
