(* ===== verification/Ahci_Command.thy ===== *)
theory Ahci_Command
  imports Ahci
begin

text \<open>
  What the controller reads in the structures \<^verbatim>\<open>sata_read\<close> leaves in memory: the command header, the
  register frame and the table of physical regions.
\<close>

section \<open>Ranges of memory\<close>

definition rng :: "nat \<Rightarrow> nat \<Rightarrow> u32 set" where
  "rng a b = {x. a \<le> unat x \<and> unat x < b}"

lemma away_rng:
  assumes "unat p + k \<le> addr_space" and "unat p + k \<le> a \<or> b \<le> unat p"
  shows "away (rng a b) p k"
  using assms by (auto simp: away_def rng_def unat_plus_of_nat)

lemma rng_mono: "c \<le> a \<Longrightarrow> b \<le> d \<Longrightarrow> rng a b \<subseteq> rng c d"
  by (auto simp: rng_def)

lemma w32_rng: "unat p + 4 \<le> addr_space \<Longrightarrow> only_in (rng (unat p) (unat p + 4)) m (w32 m p v)"
  by (rule w32_only_in) (auto simp: away_def rng_def unat_plus_of_nat)

lemma upd_rng: "a \<le> unat p \<Longrightarrow> unat p < b \<Longrightarrow> only_in (rng a b) m (m(p := v))"
  by (auto simp: only_in_def rng_def)

lemma r32_rng:
  assumes "only_in (rng a b) m m'" and "unat p + 4 \<le> addr_space" and "unat p + 4 \<le> a \<or> b \<le> unat p"
  shows "r32 m' p = r32 m p"
  by (rule r32_away [OF assms(1) away_rng [OF assms(2,3)]])

lemma r16_rng:
  assumes "only_in (rng a b) m m'" and "unat p + 2 \<le> addr_space" and "unat p + 2 \<le> a \<or> b \<le> unat p"
  shows "r16 m' p = r16 m p"
  by (rule r16_away [OF assms(1) away_rng [OF assms(2,3)]])

section \<open>Regions\<close>

definition region_addr :: "mem \<Rightarrow> u32 \<Rightarrow> nat \<Rightarrow> u32" where
  "region_addr m tbl j = r32 m (prdt_entry tbl (of_nat j))"

definition region_bytes :: "mem \<Rightarrow> u32 \<Rightarrow> nat \<Rightarrow> nat" where
  "region_bytes m tbl j = unat (r32 m (prdt_entry tbl (of_nat j) + 12) AND 0x3FFFFF) + 1"

definition region_is :: "mem \<Rightarrow> u32 \<Rightarrow> nat \<Rightarrow> u32 \<Rightarrow> nat \<Rightarrow> bool" where
  "region_is m tbl j a n \<longleftrightarrow> region_addr m tbl j = a \<and> region_bytes m tbl j = n"

lemma unat_prdt_entry:
  assumes "unat tbl + 0x80 + 16 * n \<le> addr_space" and "j < n"
  shows "unat (prdt_entry tbl (of_nat j)) = unat tbl + 0x80 + 16 * j"
proof -
  have "prdt_entry tbl (of_nat j) = tbl + of_nat (0x80 + 16 * j)" by (simp add: prdt_entry_def)
  then show ?thesis using unat_plus_of_nat [of tbl "0x80 + 16 * j"] assms by simp
qed

lemma bit_count_mask: "bit (0x3FFFFF :: int) n \<longleftrightarrow> n < 22" "bit (0x80000000 :: int) n \<longleftrightarrow> n = 31"
  "bit (0xFF :: int) n \<longleftrightarrow> n < 8"
proof -
  have e: "(0xFF :: int) = mask 8" "(0x3FFFFF :: int) = mask 22" "(0x80000000 :: int) = 2 ^ 31" by (simp_all add: mask_eq_exp_minus_1)
  show "bit (0x3FFFFF :: int) n \<longleftrightarrow> n < 22" "bit (0xFF :: int) n \<longleftrightarrow> n < 8" unfolding e by (auto simp: bit_simps)
  show "bit (0x80000000 :: int) n \<longleftrightarrow> n = 31" unfolding e bit_exp_iff by (auto simp: possible_bit_def)
qed

lemma fill_entry_region:
  assumes "unat e + 16 \<le> addr_space"
  shows "r32 (fill_entry m e a c) e = a" "r32 (fill_entry m e a c) (e + 12) AND 0x3FFFFF = c AND 0x3FFFFF"
    "only_in (rng (unat e) (unat e + 16)) m (fill_entry m e a c)"
proof -
  have u: "unat (e + 12) = unat e + 12" using assms by (simp add: unat_plus_numeral)
  let ?m1 = "w32 m e a"
  let ?v = "(r32 ?m1 (e + 12) AND NOT 0x3FFFFF) OR (c AND 0x3FFFFF)"
  have f: "fill_entry m e a c = w32 (w32 ?m1 (e + 12) ?v) (e + 12) (?v OR 0x80000000)"
    by (simp add: fill_entry_def set_i_def set_dbc_def set_dba_def)
  show "r32 (fill_entry m e a c) e = a" unfolding f using assms u by (simp add: r32_w32_other)
  have "(?v OR 0x80000000) AND 0x3FFFFF = c AND 0x3FFFFF"
    by (rule bit_word_eqI) (auto simp: bit_simps bit_count_mask)
  then show "r32 (fill_entry m e a c) (e + 12) AND 0x3FFFFF = c AND 0x3FFFFF" unfolding f by simp
  have "only_in (rng (unat e) (unat e + 16)) m0 (w32 m0 (e + 12) v)" for m0 v
    by (rule only_in_mono [OF w32_rng rng_mono]) (use assms u in simp_all)
  moreover have "only_in (rng (unat e) (unat e + 16)) m ?m1"
    by (rule only_in_mono [OF w32_rng rng_mono]) (use assms in simp_all)
  ultimately show "only_in (rng (unat e) (unat e + 16)) m (fill_entry m e a c)"
    unfolding f by (blast intro: only_in_trans)
qed

text \<open>Writing elsewhere keeps a region.\<close>

lemma region_is_frame:
  assumes "region_is m tbl j a n" and "only_in (rng b c) m m'" and "unat tbl + 0x80 + 16 * k \<le> addr_space" and "j < k"
    and "unat tbl + 0x80 + 16 * j + 16 \<le> b \<or> c \<le> unat tbl + 0x80 + 16 * j"
  shows "region_is m' tbl j a n"
proof -
  note u = unat_prdt_entry [OF assms(3,4)]
  have top: "unat tbl + 0x80 + 16 * j + 16 \<le> addr_space" using assms(3,4) by linarith
  then have u12: "unat (prdt_entry tbl (of_nat j) + 12) = unat tbl + 0x80 + 16 * j + 12"
    using u by (simp add: unat_plus_numeral)
  have "r32 m' (prdt_entry tbl (of_nat j)) = r32 m (prdt_entry tbl (of_nat j))"
    by (rule r32_rng [OF assms(2)]) (use u top assms(5) in linarith)+
  moreover have "r32 m' (prdt_entry tbl (of_nat j) + 12) = r32 m (prdt_entry tbl (of_nat j) + 12)"
    by (rule r32_rng [OF assms(2)]) (use u12 top assms(5) in linarith)+
  ultimately show ?thesis using assms(1) by (simp add: region_is_def region_addr_def region_bytes_def)
qed

lemma fill_entry_is:
  assumes "unat tbl + 0x80 + 16 * k \<le> addr_space" and "j < k"
  shows "region_is (fill_entry m (prdt_entry tbl (of_nat j)) a c) tbl j a (unat (c AND 0x3FFFFF) + 1)"
    "only_in (rng (unat tbl + 0x80 + 16 * j) (unat tbl + 0x80 + 16 * j + 16)) m (fill_entry m (prdt_entry tbl (of_nat j)) a c)"
proof -
  note u = unat_prdt_entry [OF assms]
  have "unat (prdt_entry tbl (of_nat j)) + 16 \<le> addr_space" unfolding u using assms by linarith
  note f = fill_entry_region [OF this, of m a c]
  show "region_is (fill_entry m (prdt_entry tbl (of_nat j)) a c) tbl j a (unat (c AND 0x3FFFFF) + 1)"
    by (simp add: region_is_def region_addr_def region_bytes_def f)
  show "only_in (rng (unat tbl + 0x80 + 16 * j) (unat tbl + 0x80 + 16 * j + 16)) m (fill_entry m (prdt_entry tbl (of_nat j)) a c)"
    using f(3) by (simp add: u)
qed

lemma fill_regions_spec:
  assumes "prdtl m h = of_nat n" and "0 < n" and "n < 65536" and "unat tbl + 0x80 + 16 * n \<le> addr_space"
    and "unat h + 32 \<le> addr_space" and "unat h + 32 \<le> unat tbl \<or> unat tbl + 0x80 + 16 * n \<le> unat h" and "i < n"
  shows "\<exists>m'. fill_regions m h tbl i buf count
      = (m', n - 1, buf + 4096 * of_nat (n - 1 - i), count - 16 * of_nat (n - 1 - i))
    \<and> only_in (rng (unat tbl + 0x80 + 16 * i) (unat tbl + 0x80 + 16 * (n - 1))) m m'
    \<and> (\<forall>j. i \<le> j \<and> j < n - 1 \<longrightarrow> region_is m' tbl j (buf + 4096 * of_nat (j - i)) 8192)"
  using assms(1,7)
proof (induction "n - 1 - i" arbitrary: i m buf count)
  case 0
  then have "i = n - 1" by simp
  moreover have "\<not> int (n - 1) < int (unat (prdtl m h)) - 1" using 0 assms(3) by simp
  ultimately show ?case by (subst fill_regions.simps) auto
next
  case (Suc k)
  let ?e = "prdt_entry tbl (of_nat i)"
  let ?m = "fill_entry m ?e buf (8 * 1024 - 1)"
  have i: "i + 1 < n" using Suc.hyps(2) by simp
  note f = fill_entry_is [OF assms(4) Suc.prems(2), of m buf "8 * 1024 - 1"]
  have u2: "unat (h + 2) = unat h + 2" using assms(5) by (simp add: unat_plus_numeral)
  have "prdtl ?m h = prdtl m h" unfolding prdtl_def
    by (rule r16_rng [OF f(2)]) (use u2 assms(5,6) i in linarith)+
  then have p: "prdtl ?m h = of_nat n" using Suc.prems(1) by simp
  have step: "fill_regions m h tbl i buf count = fill_regions ?m h tbl (i + 1) (buf + 4096) (count - 16)"
    using i Suc.prems(1) assms(3) by (subst fill_regions.simps) (simp add: Let_def)
  have k: "k = n - 1 - (i + 1)" using Suc.hyps(2) by simp
  obtain m' where m': "fill_regions ?m h tbl (i + 1) (buf + 4096) (count - 16)
      = (m', n - 1, buf + 4096 + 4096 * of_nat (n - 1 - (i + 1)), count - 16 - 16 * of_nat (n - 1 - (i + 1)))"
    "only_in (rng (unat tbl + 0x80 + 16 * (i + 1)) (unat tbl + 0x80 + 16 * (n - 1))) ?m m'"
    "\<forall>j. i + 1 \<le> j \<and> j < n - 1 \<longrightarrow> region_is m' tbl j (buf + 4096 + 4096 * of_nat (j - (i + 1))) 8192"
    using Suc.hyps(1) [OF k p i, of "buf + 4096" "count - 16"] by blast
  have d: "n - 1 - i = Suc (n - 1 - (i + 1))" using i by simp
  have "(8 * 1024 - 1 :: u32) AND 0x3FFFFF = 8191" by simp
  then have r: "region_is ?m tbl i buf 8192" using f(1) by simp
  have "region_is m' tbl i buf 8192"
    by (rule region_is_frame [OF r m'(2) assms(4) Suc.prems(2)]) simp
  then have "region_is m' tbl j (buf + 4096 * of_nat (j - i)) 8192" if "i \<le> j" "j < n - 1" for j
  proof (cases "j = i")
    case False
    then have "j - i = Suc (j - (i + 1))" using that by simp
    then show ?thesis using m'(3) that False by (simp add: algebra_simps)
  qed simp
  moreover have "only_in (rng (unat tbl + 0x80 + 16 * i) (unat tbl + 0x80 + 16 * (n - 1))) m m'"
    by (rule only_in_trans [OF only_in_mono [OF f(2) rng_mono] only_in_mono [OF m'(2) rng_mono]]) (use i in simp_all)
  ultimately show ?case unfolding step m'(1) d by (simp add: algebra_simps)
qed

section \<open>The frame\<close>

definition frame_lba :: "mem \<Rightarrow> u32 \<Rightarrow> nat" where
  "frame_lba m f = unat (m (f + 4)) + 2 ^ 8 * unat (m (f + 5)) + 2 ^ 16 * unat (m (f + 6)) + 2 ^ 24 * unat (m (f + 8))
     + 2 ^ 32 * unat (m (f + 9)) + 2 ^ 40 * unat (m (f + 10))"

definition frame_count :: "mem \<Rightarrow> u32 \<Rightarrow> nat" where
  "frame_count m f = unat (m (f + 12)) + 2 ^ 8 * unat (m (f + 13))"

text \<open>A register frame with the command bit set, command READ DMA EXT, in LBA mode.\<close>

definition is_read_frame :: "mem \<Rightarrow> u32 \<Rightarrow> bool" where
  "is_read_frame m f \<longleftrightarrow> m f = 0x27 \<and> bit (m (f + 1)) 7 \<and> m (f + 2) = 0x25 \<and> m (f + 7) = 0x40"

lemma byte_digit: "unat (ucast (drop_bit k (v :: u32)) :: u8) = unat v div 2 ^ k mod 256"
  using unat_u32_lt [of v]
  by (simp add: unsigned_ucast_eq unsigned_drop_bit_eq take_bit_eq_mod) (simp add: drop_bit_eq_div)

lemma four_digits: "(v :: nat) < 2 ^ 32 \<Longrightarrow>
  v mod 256 + 2 ^ 8 * (v div 2 ^ 8 mod 256) + 2 ^ 16 * (v div 2 ^ 16 mod 256) + 2 ^ 24 * (v div 2 ^ 24 mod 256) = v"
proof -
  assume v: "v < 2 ^ 32"
  define a b c where d: "a = v div 256" "b = a div 256" "c = b div 256"
  have e: "v div 2 ^ 8 = a" "v div 2 ^ 16 = b" "v div 2 ^ 24 = c" by (simp_all add: d div_mult2_eq [symmetric])
  have "c < 256" using v unfolding e [symmetric] by simp
  then have "c mod 256 = c" by simp
  moreover have "v = 256 * a + v mod 256" "a = 256 * b + a mod 256" "b = 256 * c + b mod 256" by (simp_all add: d)
  ultimately show ?thesis unfolding e by simp
qed

lemma write_frame_reads:
  "is_read_frame (write_frame m f startl starth count) f"
  "frame_lba (write_frame m f startl starth count) f = unat startl + 2 ^ 32 * (unat starth mod 2 ^ 16)"
  "unat count < 65536 \<Longrightarrow> frame_count (write_frame m f startl starth count) f = unat count"
proof -
  let ?m = "write_frame m f startl starth count"
  have b: "?m f = 0x27" "?m (f + 1) = m (f + 1) OR 0x80" "?m (f + 2) = 0x25" "?m (f + 7) = 0x40"
    "?m (f + 4) = ucast (drop_bit 0 startl)" "?m (f + 5) = ucast (drop_bit 8 startl)" "?m (f + 6) = ucast (drop_bit 16 startl)"
    "?m (f + 8) = ucast (drop_bit 24 startl)" "?m (f + 9) = ucast (drop_bit 0 starth)" "?m (f + 10) = ucast (drop_bit 8 starth)"
    "?m (f + 12) = ucast (count AND 0xFF)" "?m (f + 13) = ucast (drop_bit 8 count AND 0xFF)"
    by (simp_all add: write_frame_def)
  have "bit (m (f + 1) OR 0x80) 7" by (simp add: bit_or_iff)
  then show "is_read_frame ?m f" by (simp add: is_read_frame_def b(1-4))
  have "unat starth mod 256 + 2 ^ 8 * (unat starth div 2 ^ 8 mod 256) = unat starth mod 2 ^ 16"
    using mod_mult2_eq [of "unat starth" 256 256] by simp
  then show "frame_lba ?m f = unat startl + 2 ^ 32 * (unat starth mod 2 ^ 16)"
    using four_digits [of "unat startl"] unat_u32_lt [of startl]
    unfolding frame_lba_def b byte_digit by simp
  have e: "ucast (count AND 0xFF) = (ucast (drop_bit 0 count) :: u8)" "ucast (drop_bit 8 count AND 0xFF) = (ucast (drop_bit 8 count) :: u8)"
    by (rule bit_word_eqI, auto simp: bit_simps bit_count_mask)+
  assume "unat count < 65536"
  then show "frame_count ?m f = unat count"
    using mod_mult2_eq [of "unat count" 256 256] unfolding frame_count_def b e byte_digit by simp
qed

lemma write_frame_only_in:
  assumes "unat f + 20 \<le> addr_space"
  shows "only_in (rng (unat f) (unat f + 20)) m (write_frame m f startl starth count)"
  using assms by (auto simp: only_in_def rng_def write_frame_def Let_def unat_plus_numeral unat_plus_one)

section \<open>The command\<close>

text \<open>The last region and the header, before the regions are filled.\<close>

lemma region_count_bytes:
  fixes c :: u32
  assumes "0 < unat c" and "unat c \<le> 16"
  shows "unat ((push_bit 9 c - 1) AND 0x3FFFFF) + 1 = 512 * unat c"
proof -
  have e: "push_bit 9 c = of_nat (512 * unat c)" by (simp add: push_bit_eq_mult)
  have p: "unat (push_bit 9 c) = 512 * unat c" unfolding e by (rule unat_of_nat_u32) (use assms(2) in simp)
  then have "push_bit 9 c \<noteq> 0" using assms(1) by auto
  then have m: "unat (push_bit 9 c - 1) = 512 * unat c - 1" by (simp add: unat_minus_one p)
  have "(push_bit 9 c - 1) AND 0x3FFFFF = take_bit 22 (push_bit 9 c - 1)" by (simp add: take_bit_eq_mask mask_eq_exp_minus_1)
  also have "unat \<dots> = 512 * unat c - 1" using assms(2) by (simp add: unsigned_take_bit_eq m take_bit_nat_eq_self)
  finally show ?thesis using assms(1) by simp
qed

lemma header_fields:
  assumes "unat h + 32 \<le> addr_space"
  shows "prdtl (set_prdtl (clear_w (set_cfl m h v) h) h n) h = n" "ctba (set_prdtl (clear_w (set_cfl m h v) h) h n) h = ctba m h"
    "only_in (rng (unat h) (unat h + 4)) m (set_prdtl (clear_w (set_cfl m h v) h) h n)"
proof -
  show "prdtl (set_prdtl (clear_w (set_cfl m h v) h) h n) h = n" by (simp add: prdtl_def set_prdtl_def)
  have u: "unat (h + 8) = unat h + 8" using assms by (simp add: unat_plus_numeral)
  show o: "only_in (rng (unat h) (unat h + 4)) m (set_prdtl (clear_w (set_cfl m h v) h) h n)"
    using assms by (auto simp: only_in_def rng_def set_prdtl_def clear_w_def set_cfl_def w16_def unat_plus_numeral add.assoc)
  show "ctba (set_prdtl (clear_w (set_cfl m h v) h) h n) h = ctba m h"
    unfolding ctba_def by (rule r32_rng [OF o]) (use u assms in linarith)+
qed

text \<open>The number of regions, and the sectors left for the last.\<close>

lemma command_counts:
  fixes count :: u32
  assumes "0 < unat count" and "n = (unat count - 1) div 16 + 1"
  shows "(ucast (drop_bit 4 (count - 1)) :: u16) + 1 = of_nat n"
    and "unat (count - 16 * of_nat (n - 1)) = (unat count - 1) mod 16 + 1"
proof -
  have "unat (count - 1) = unat count - 1" using assms(1) by (intro unat_minus_one) auto
  then have d: "unat (drop_bit 4 (count - 1)) = n - 1" by (simp add: drop_bit_eq_div unat_div assms(2))
  have "(ucast (drop_bit 4 (count - 1)) :: u16) = of_nat (unat (drop_bit 4 (count - 1)))"
    unfolding word_unat_eq_iff unsigned_ucast_eq unat_of_nat by (rule take_bit_eq_mod)
  then show "(ucast (drop_bit 4 (count - 1)) :: u16) + 1 = of_nat n"
    unfolding d using assms(2) by (cases n) simp_all
  have "16 * (n - 1) \<le> unat count - 1" by (simp add: assms(2))
  then have "16 * (n - 1) \<le> unat count" "unat (16 * of_nat (n - 1) :: u32) = 16 * (n - 1)"
    using unat_u32_lt [of count] unat_of_nat_u32 [of "16 * (n - 1)"] by simp_all
  then have "unat (count - 16 * of_nat (n - 1)) = unat count - 16 * (n - 1)"
    using unat_sub_u32 [of "16 * of_nat (n - 1)" count] by simp
  moreover have "unat count - 1 = 16 * (n - 1) + (unat count - 1) mod 16" by (simp add: assms(2))
  ultimately show "unat (count - 16 * of_nat (n - 1)) = (unat count - 1) mod 16 + 1" using assms(1) by linarith
qed

text \<open>The regions as a whole: all but the last of 8192 bytes, the last of what is left.\<close>

lemma command_regions:
  assumes "0 < n" and "n < 65536" and "prdtl m h = of_nat n" and "unat tbl + 0x80 + 16 * n \<le> addr_space"
    and "unat h + 32 \<le> addr_space" and "unat h + 32 \<le> unat tbl \<or> unat tbl + 0x80 + 16 * n \<le> unat h"
    and c: "c = count - 16 * of_nat (n - 1)" "0 < unat c" "unat c \<le> 16" and rest: "rest = buf + 4096 * of_nat (n - 1)"
  obtains m4 where "fill_regions m h tbl 0 buf count = (m4, n - 1, rest, c)"
    "\<forall>j < n - 1. region_is (fill_entry m4 (prdt_entry tbl (of_nat (n - 1))) rest (push_bit 9 c - 1)) tbl j (buf + 4096 * of_nat j) 8192"
    "region_is (fill_entry m4 (prdt_entry tbl (of_nat (n - 1))) rest (push_bit 9 c - 1)) tbl (n - 1) rest (512 * unat c)"
    "only_in (rng (unat tbl + 0x80) (unat tbl + 0x80 + 16 * n)) m (fill_entry m4 (prdt_entry tbl (of_nat (n - 1))) rest (push_bit 9 c - 1))"
proof -
  let ?T = "unat tbl + 0x80"
  obtain m4 where m4: "fill_regions m h tbl 0 buf count = (m4, n - 1, rest, c)"
    "only_in (rng (?T + 16 * 0) (?T + 16 * (n - 1))) m m4"
    "\<forall>j. 0 \<le> j \<and> j < n - 1 \<longrightarrow> region_is m4 tbl j (buf + 4096 * of_nat (j - 0)) 8192"
    using fill_regions_spec [OF assms(3,1,2,4,5,6,1), of buf count] by (auto simp: c(1) rest)
  let ?m5 = "fill_entry m4 (prdt_entry tbl (of_nat (n - 1))) rest (push_bit 9 c - 1)"
  have n1: "n - 1 < n" using assms(1) by simp
  note f = fill_entry_is [OF assms(4) n1, of m4 rest "push_bit 9 c - 1"]
  have "region_is ?m5 tbl j (buf + 4096 * of_nat j) 8192" if j: "j < n - 1" for j
  proof -
    have "region_is m4 tbl j (buf + 4096 * of_nat j) 8192" using m4(3) j by simp
    then show ?thesis by (rule region_is_frame [OF _ f(2) assms(4)]) (use j in linarith)+
  qed
  moreover have "region_is ?m5 tbl (n - 1) rest (512 * unat c)" using f(1) unfolding region_count_bytes [OF c(2,3)] .
  moreover have "rng (?T + 16 * 0) (?T + 16 * (n - 1)) \<subseteq> rng ?T (?T + 16 * n)"
    "rng (?T + 16 * (n - 1)) (?T + 16 * (n - 1) + 16) \<subseteq> rng ?T (?T + 16 * n)"
    by (rule rng_mono; use assms(1) in linarith)+
  then have "only_in (rng ?T (?T + 16 * n)) m ?m5"
    using only_in_trans [OF only_in_mono [OF m4(2)] only_in_mono [OF f(2)]] by blast
  ultimately show ?thesis using that [OF m4(1)] by blast
qed

text \<open>
  C27: The command \<^verbatim>\<open>sata_read\<close> leaves in memory reads as READ DMA EXT at the 48-bit address asked for.
  It has one region per 16 sectors, each but the last of 8192 bytes at addresses 4096 apart, and the
  frame asks for the sectors of the last region only: up to 16 sectors it asks for all of them with
  one region of exactly their size.
\<close>

theorem build_command_describes:
  assumes "0 < unat count" and "n = (unat count - 1) div 16 + 1" and "n < 65536" and "tbl = ctba m h"
    and "unat tbl + 0x80 + 16 * n \<le> addr_space" and "unat h + 32 \<le> addr_space"
    and "unat h + 32 \<le> unat tbl \<or> unat tbl + 0x80 + 16 * n \<le> unat h" and "m' = build_command m h startl starth count buf"
  shows "prdtl m' h = of_nat n \<and> ctba m' h = tbl
    \<and> is_read_frame m' tbl \<and> frame_lba m' tbl = unat startl + 2 ^ 32 * (unat starth mod 2 ^ 16)
    \<and> frame_count m' tbl = (unat count - 1) mod 16 + 1
    \<and> (\<forall>j < n - 1. region_addr m' tbl j = buf + 4096 * of_nat j \<and> region_bytes m' tbl j = 8192)
    \<and> region_addr m' tbl (n - 1) = buf + 4096 * of_nat (n - 1)
    \<and> region_bytes m' tbl (n - 1) = 512 * ((unat count - 1) mod 16 + 1)"
proof -
  let ?T = "unat tbl + 0x80"
  define m3 where "m3 = set_prdtl (clear_w (set_cfl m h 5) h) h (of_nat n)"
  note hd = header_fields [OF assms(6), of m 5 "of_nat n", folded m3_def]
  have n0: "0 < n" by (simp add: assms(2))
  let ?c = "count - 16 * of_nat (n - 1)" and ?last = "buf + 4096 * of_nat (n - 1)"
  note q = command_counts(1) [OF assms(1,2)] and c = command_counts(2) [OF assms(1,2)]
  have c16: "0 < unat ?c" "unat ?c \<le> 16" using c mod_less_divisor [of 16 "unat count - 1"] by simp_all
  obtain m4 where m4: "fill_regions m3 h tbl 0 buf count = (m4, n - 1, ?last, ?c)"
    "\<forall>j < n - 1. region_is (fill_entry m4 (prdt_entry tbl (of_nat (n - 1))) ?last (push_bit 9 ?c - 1)) tbl j (buf + 4096 * of_nat j) 8192"
    "region_is (fill_entry m4 (prdt_entry tbl (of_nat (n - 1))) ?last (push_bit 9 ?c - 1)) tbl (n - 1) ?last (512 * unat ?c)"
    "only_in (rng ?T (?T + 16 * n)) m3 (fill_entry m4 (prdt_entry tbl (of_nat (n - 1))) ?last (push_bit 9 ?c - 1))"
    by (rule command_regions [OF n0 assms(3) hd(1) assms(5,6,7) refl c16 refl])
  let ?m5 = "fill_entry m4 (prdt_entry tbl (of_nat (n - 1))) ?last (push_bit 9 ?c - 1)"
  have m': "m' = write_frame ?m5 tbl startl starth ?c"
    unfolding assms(8) build_command_def Let_def q m3_def [symmetric] hd(2) assms(4) [symmetric] m4(1) by simp
  have "unat tbl + 20 \<le> addr_space" using assms(5) by linarith
  note w = write_frame_only_in [OF this, of ?m5 startl starth ?c, folded m']
  have n1: "n - 1 < n" using n0 by simp
  have last: "region_is m' tbl (n - 1) ?last (512 * unat ?c)" by (rule region_is_frame [OF m4(3) w assms(5) n1]) linarith+
  have reg: "region_is m' tbl j (buf + 4096 * of_nat j) 8192" if j: "j < n - 1" for j
    using m4(2) j by (intro region_is_frame [OF _ w assms(5)]) (auto intro: less_trans [OF j n1])
  have "rng ?T (?T + 16 * n) \<subseteq> rng (unat tbl) (?T + 16 * n)" "rng (unat tbl) (unat tbl + 20) \<subseteq> rng (unat tbl) (?T + 16 * n)"
    by (rule rng_mono; linarith)+
  then have o: "only_in (rng (unat tbl) (?T + 16 * n)) m3 m'"
    using only_in_trans [OF only_in_mono [OF m4(4)] only_in_mono [OF w]] by blast
  have u: "unat (h + 2) = unat h + 2" "unat (h + 8) = unat h + 8" using assms(6) by (simp_all add: unat_plus_numeral)
  have "prdtl m' h = prdtl m3 h" unfolding prdtl_def by (rule r16_rng [OF o]) (use u assms(6,7) in linarith)+
  moreover have "ctba m' h = ctba m3 h" unfolding ctba_def by (rule r32_rng [OF o]) (use u assms(6,7) in linarith)+
  moreover have "is_read_frame m' tbl" "frame_lba m' tbl = unat startl + 2 ^ 32 * (unat starth mod 2 ^ 16)"
    "frame_count m' tbl = unat ?c"
    using c16(2) write_frame_reads [where m = ?m5 and f = tbl and startl = startl and starth = starth and count = ?c]
    unfolding m' by linarith+
  ultimately show ?thesis
    using last reg c hd(1,2) by (simp add: region_is_def assms(4))
qed

theorem build_command_describes_witness:
  "\<exists>m'. m' = build_command (w32 (\<lambda>_. 0) 0x1008 0x2000) 0x1000 7 0 8 0x8000
    \<and> prdtl m' 0x1000 = 1 \<and> frame_lba m' 0x2000 = 7 \<and> frame_count m' 0x2000 = 8 \<and> region_bytes m' 0x2000 0 = 4096"
  using build_command_describes [of 8 1 "0x2000" "w32 (\<lambda>_. 0) 0x1008 0x2000" "0x1000" _ 7 0 "0x8000"] by (simp add: ctba_def)

end
