(* ===== verification/Vga.thy ===== *)
theory Vga
  imports Port "HOL-Library.Signed_Division"
begin

text \<open>
  The VGA driver, \<^verbatim>\<open>kernel/src/driver/vga/vga.c\<close>: the registers of the mode 720 by 480 in sixteen
  colours, the choice of a plane, pixels, rectangles and filling.  A colour has one bit in each of four
  planes, which lie behind the same window at 0xA0000; which plane a store reaches and a load reads is
  set in registers.  Loads and stores in the window are therefore events of the trace, as those of
  other mapped registers are.
\<close>

section \<open>vga.c\<close>

abbreviation VGA_WIDTH :: u32 where "VGA_WIDTH \<equiv> 720"
abbreviation VGA_HEIGHT :: u32 where "VGA_HEIGHT \<equiv> 480"
abbreviation MISC_PORT :: u16 where "MISC_PORT \<equiv> 0x3C2"
abbreviation CRTC_INDEX_PORT :: u16 where "CRTC_INDEX_PORT \<equiv> 0x3D4"
abbreviation CRTC_DATA_PORT :: u16 where "CRTC_DATA_PORT \<equiv> 0x3D5"
abbreviation SEQUENCER_INDEX_PORT :: u16 where "SEQUENCER_INDEX_PORT \<equiv> 0x3C4"
abbreviation SEQUENCER_DATA_PORT :: u16 where "SEQUENCER_DATA_PORT \<equiv> 0x3C5"
abbreviation CONTROLLER_INDEX_PORT :: u16 where "CONTROLLER_INDEX_PORT \<equiv> 0x3CE"
abbreviation CONTROLLER_DATA_PORT :: u16 where "CONTROLLER_DATA_PORT \<equiv> 0x3CF"
abbreviation ATTRIBUTE_INDEX_PORT :: u16 where "ATTRIBUTE_INDEX_PORT \<equiv> 0x3C0"
abbreviation ATTRIBUTE_WRITE_PORT :: u16 where "ATTRIBUTE_WRITE_PORT \<equiv> 0x3C0"
abbreviation ATTRIBUTE_RESET_PORT :: u16 where "ATTRIBUTE_RESET_PORT \<equiv> 0x3DA"

abbreviation vga_memory :: u32 where "vga_memory \<equiv> 0xA0000"

definition g_720x480x16 :: "u8 list" where
  "g_720x480x16 =
     [0xE7,
      0x03, 0x01, 0x08, 0x00, 0x06,
      0x6B, 0x59, 0x5A, 0x82, 0x60, 0x8D, 0x0B, 0x3E,
      0x00, 0x40, 0x06, 0x07, 0x00, 0x00, 0x00, 0x00,
      0xEA, 0x0C, 0xDF, 0x2D, 0x08, 0xE8, 0x05, 0xE3,
      0xFF,
      0x00, 0x00, 0x00, 0x00, 0x03, 0x00, 0x05, 0x0F,
      0xFF,
      0x00, 0x01, 0x02, 0x03, 0x04, 0x05, 0x06, 0x07,
      0x08, 0x09, 0x0A, 0x0B, 0x0C, 0x0D, 0x0E, 0x0F,
      0x01, 0x00, 0x0F, 0x00, 0x00]"

text \<open>
  The driver's variables: the table, which \<^verbatim>\<open>vga_write_registers\<close> modifies, and the static
  \<^verbatim>\<open>curr_p\<close> of \<^verbatim>\<open>vga_set_plane\<close>, initially \<^verbatim>\<open>-1u\<close>.
\<close>

record vga = machine +
  vga_table :: "u8 list"
  curr_p :: u32

text \<open>
  The loops that write consecutive registers through an index and a data port, from position \<open>r\<close> of
  the table on (the pointer \<^verbatim>\<open>registers\<close>, which they advance).
\<close>

lemma counter_u8: "(i :: u8) < n \<Longrightarrow> unat (i + 1) = Suc (unat i)"
  using unat_u8_lt [of n] by (simp add: word_less_nat_alt unat_word_ariths)

function index_data_loop :: "u16 \<Rightarrow> u16 \<Rightarrow> u8 \<Rightarrow> ('a vga_scheme) \<Rightarrow> nat \<Rightarrow> u8 \<Rightarrow> ('a vga_scheme) \<times> nat" where
  "index_data_loop index_port data_port n s r i =
     (if i < n then
        (let s1 = outb s index_port i;
             s2 = outb s1 data_port (vga_table s1 ! r)
         in index_data_loop index_port data_port n s2 (r + 1) (i + 1))
      else (s, r))"
  by pat_completeness auto
termination
  by (relation "measure (\<lambda>(a, d, n, s, r, i). unat n - unat i)")
    (auto simp: counter_u8 word_less_nat_alt)

function attribute_loop :: "io \<Rightarrow> ('a vga_scheme) \<Rightarrow> nat \<Rightarrow> u8 \<Rightarrow> ('a vga_scheme) \<times> nat" where
  "attribute_loop io s r i =
     (if i < 21 then
        (let (_, s1) = inb io s ATTRIBUTE_RESET_PORT;
             s2 = outb s1 ATTRIBUTE_INDEX_PORT i;
             s3 = outb s2 ATTRIBUTE_WRITE_PORT (vga_table s2 ! r)
         in attribute_loop io s3 (r + 1) (i + 1))
      else (s, r))"
  by pat_completeness auto
termination
  by (relation "measure (\<lambda>(io, s, r, i). 21 - unat i)")
    (auto simp: word_less_nat_alt unat_word_ariths)

declare index_data_loop.simps [simp del] attribute_loop.simps [simp del]

text \<open>\<^verbatim>\<open>*(registers++)\<close> for the first register; \<open>r\<close> is the position after each loop.\<close>

definition vga_write_registers :: "io \<Rightarrow> ('a vga_scheme) \<Rightarrow> ('a vga_scheme)" where
  "vga_write_registers io s =
     (let s1 = outb s MISC_PORT (vga_table s ! 0);
          (s2, r2) = index_data_loop SEQUENCER_INDEX_PORT SEQUENCER_DATA_PORT 5 s1 1 0;
          s3 = outb s2 CRTC_INDEX_PORT 0x03;
          (v3, s4) = inb io s3 CRTC_DATA_PORT;
          s5 = outb s4 CRTC_DATA_PORT (v3 OR 0x80);
          s6 = outb s5 CRTC_INDEX_PORT 0x11;
          (v11, s7) = inb io s6 CRTC_DATA_PORT;
          s8 = outb s7 CRTC_DATA_PORT (v11 AND NOT 0x80);
          s9 = s8\<lparr>vga_table := (vga_table s8)[r2 + 0x03 := (vga_table s8 ! (r2 + 0x03)) OR 0x80]\<rparr>;
          s10 = s9\<lparr>vga_table := (vga_table s9)[r2 + 0x11 := (vga_table s9 ! (r2 + 0x11)) AND NOT 0x80]\<rparr>;
          (s11, r11) = index_data_loop CRTC_INDEX_PORT CRTC_DATA_PORT 25 s10 r2 0;
          (s12, r12) = index_data_loop CONTROLLER_INDEX_PORT CONTROLLER_DATA_PORT 9 s11 r11 0;
          (s13, r13) = attribute_loop io s12 r12 0;
          (_, s14) = inb io s13 ATTRIBUTE_RESET_PORT
      in outb s14 ATTRIBUTE_INDEX_PORT 0x20)"

definition vga_set_plane :: "('a vga_scheme) \<Rightarrow> u8 \<Rightarrow> ('a vga_scheme)" where
  "vga_set_plane s p' =
     (let p = p' AND 3
      in if ucast p = curr_p s then s
         else
           let s1 = s\<lparr>curr_p := ucast p\<rparr>;
               pmask = (push_bit (unat p) 1 :: u8);
               s2 = outw s1 CONTROLLER_INDEX_PORT (push_bit 8 (ucast p) OR 4)
           in outw s2 SEQUENCER_INDEX_PORT (push_bit 8 (ucast pmask) OR 2))"

text \<open>One byte of the window, read, changed and written back.\<close>

definition vga_update :: "mmio \<Rightarrow> ('a vga_scheme) \<Rightarrow> u32 \<Rightarrow> (u8 \<Rightarrow> u8) \<Rightarrow> ('a vga_scheme)" where
  "vga_update regs s a f =
     (let (b, s1) = mmio_in regs s a in mmio_out s1 a (ucast (f (ucast b))))"

text \<open>The coordinates are \<^verbatim>\<open>int\<close>: words with signed division, shift and comparison.\<close>

definition set_pixel_plane :: "mmio \<Rightarrow> u32 \<Rightarrow> u32 \<Rightarrow> u8 \<Rightarrow> ('a vga_scheme) \<times> u32 \<Rightarrow> u32 \<Rightarrow> ('a vga_scheme) \<times> u32" where
  "set_pixel_plane regs mem bitmask color acc p =
     (let (s, pmask) = acc;
          s1 = vga_set_plane s (ucast p);
          s2 = (if pmask AND ucast color \<noteq> 0 then vga_update regs s1 mem (\<lambda>b. b OR ucast bitmask)
                else vga_update regs s1 mem (\<lambda>b. b AND ucast (NOT bitmask)))
      in (s2, push_bit 1 pmask))"

definition vga_set_pixel :: "mmio \<Rightarrow> ('a vga_scheme) \<Rightarrow> u32 \<Rightarrow> u32 \<Rightarrow> u8 \<Rightarrow> ('a vga_scheme)" where
  "vga_set_pixel regs s x y color =
     (let wd_in_bytes = VGA_WIDTH div 8;
          off = wd_in_bytes * y + word_of_int (sint x sdiv 8);
          x' = (x AND 7) * 1;
          bitmask = signed_drop_bit (unat x') 0x80;
          mem = vga_memory + off
      in fst (foldl (set_pixel_plane regs mem bitmask color) (s, 1) [0, 1, 2, 3]))"

text \<open>\<^verbatim>\<open>memset\<close> of the window: the stores of its loop.\<close>

function window_memset :: "('a vga_scheme) \<Rightarrow> u32 \<Rightarrow> u8 \<Rightarrow> u32 \<Rightarrow> u32 \<Rightarrow> ('a vga_scheme)" where
  "window_memset s pointer byte len i =
     (if i < len then window_memset (mmio_out s (pointer + i) (ucast byte)) pointer byte len (i + 1) else s)"
  by pat_completeness auto
termination
  by (relation "measure (\<lambda>(s, pointer, byte, len, i). unat len - unat i)") (auto simp: loop_counter_measure)

declare window_memset.simps [simp del]

definition fill_plane :: "u8 \<Rightarrow> ('a vga_scheme) \<Rightarrow> nat \<Rightarrow> ('a vga_scheme)" where
  "fill_plane color s plane =
     (let s1 = vga_set_plane s (of_nat plane);
          fill_value = (if color AND push_bit plane 1 \<noteq> 0 then 0xFF else 0x00)
      in window_memset s1 vga_memory fill_value (VGA_WIDTH * VGA_HEIGHT div 8) 0)"

definition vga_fill :: "('a vga_scheme) \<Rightarrow> u8 \<Rightarrow> ('a vga_scheme)" where
  "vga_fill s color = foldl (fill_plane color) s [0, 1, 2, 3]"

definition draw_dot :: "mmio \<Rightarrow> ('a vga_scheme) \<Rightarrow> u32 \<Rightarrow> u32 \<Rightarrow> u8 \<Rightarrow> nat \<Rightarrow> ('a vga_scheme)" where
  "draw_dot regs s px py color plane =
     (let fb_byte_ptr = vga_memory + signed_drop_bit 3 (py * 720 + px);
          bit_mask = (push_bit (unat (7 - (px AND 0x07))) 1 :: u8)
      in vga_update regs s fb_byte_ptr
           (\<lambda>b. if color AND push_bit plane 1 \<noteq> 0 then b OR bit_mask else b AND NOT bit_mask))"

text \<open>A signed counter below its bound does not overflow.\<close>

lemma sint_counter: "(i :: u32) <s n \<Longrightarrow> sint (i + 1) = sint i + 1"
  using sint_lt [of n] sint_ge [of i]
  by (simp add: word_sless_alt signed_take_bit_int_eq_self sint_word_ariths)

lemma signed_counter_measure: "(i :: u32) <s n \<Longrightarrow> nat (sint n - sint (i + 1)) < nat (sint n - sint i)"
  by (simp add: sint_counter) (simp add: word_sless_alt)

function draw_columns ::
  "mmio \<Rightarrow> ('a vga_scheme) \<Rightarrow> u32 \<Rightarrow> u32 \<Rightarrow> u32 \<Rightarrow> u8 \<Rightarrow> nat \<Rightarrow> u32 \<Rightarrow> u32 \<Rightarrow> ('a vga_scheme)" where
  "draw_columns regs s x y w color plane dy dx =
     (if dx <s w then
        draw_columns regs (draw_dot regs s (x + dx) (y + dy) color plane) x y w color plane dy (dx + 1)
      else s)"
  by pat_completeness auto
termination
  by (relation "measure (\<lambda>(regs, s, x, y, w, color, plane, dy, dx). nat (sint w - sint dx))")
    (auto simp: sint_counter word_sless_alt)

declare draw_columns.simps [simp del]

function draw_rows ::
  "mmio \<Rightarrow> ('a vga_scheme) \<Rightarrow> u32 \<Rightarrow> u32 \<Rightarrow> u32 \<Rightarrow> u32 \<Rightarrow> u8 \<Rightarrow> nat \<Rightarrow> u32 \<Rightarrow> ('a vga_scheme)" where
  "draw_rows regs s x y w h color plane dy =
     (if dy <s h then
        draw_rows regs (draw_columns regs s x y w color plane dy 0) x y w h color plane (dy + 1)
      else s)"
  by pat_completeness auto
termination
  by (relation "measure (\<lambda>(regs, s, x, y, w, h, color, plane, dy). nat (sint h - sint dy))")
    (auto simp: sint_counter word_sless_alt)

declare draw_rows.simps [simp del]

definition rectangle_plane ::
  "mmio \<Rightarrow> u32 \<Rightarrow> u32 \<Rightarrow> u32 \<Rightarrow> u32 \<Rightarrow> u8 \<Rightarrow> ('a vga_scheme) \<Rightarrow> nat \<Rightarrow> ('a vga_scheme)" where
  "rectangle_plane regs x y w h color s plane =
     draw_rows regs (vga_set_plane s (of_nat plane)) x y w h color plane 0"

definition draw_rectangle ::
  "mmio \<Rightarrow> ('a vga_scheme) \<Rightarrow> u32 \<Rightarrow> u32 \<Rightarrow> u32 \<Rightarrow> u32 \<Rightarrow> u8 \<Rightarrow> ('a vga_scheme)" where
  "draw_rectangle regs s x y w h color = foldl (rectangle_plane regs x y w h color) s [0, 1, 2, 3]"

definition vga_init :: "io \<Rightarrow> mmio \<Rightarrow> ('a vga_scheme) \<Rightarrow> ('a vga_scheme)" where
  "vga_init io regs s =
     (let s1 = vga_write_registers io s;
          s2 = vga_fill s1 0x1
      in draw_rectangle regs s2 10 10 8 8 4)"

end
