(* ===== verification/Vga_Screen.thy ===== *)
theory Vga_Screen
  imports Vga
begin

text \<open>
  The VGA adapter as its documentation describes it, an automaton over the events of the trace, and what
  the driver of theory \<^verbatim>\<open>Vga\<close> makes it show: the whole screen after \<^verbatim>\<open>vga_init\<close>, rectangles, and
  pixels as rectangles of size one.
\<close>

section \<open>The adapter\<close>

text \<open>
  The sequencer and the graphics controller each have a file of registers behind an index port and a
  data port, which a 16-bit store to the index port reaches together.  \<open>planes p o\<close> is the byte at
  offset \<open>o\<close> of plane \<open>p\<close>.
\<close>

record vga_chip =
  seq_index :: u8
  gc_index :: u8
  seq_reg :: "u8 \<Rightarrow> u8"
  gc_reg :: "u8 \<Rightarrow> u8"
  planes :: "nat \<Rightarrow> u32 \<Rightarrow> u8"

text \<open>
  The mode in which a store puts its byte into every plane of the map mask and a load takes it from
  the plane of the read map: write mode 0 and read mode 0, no set/reset, rotation or function, all
  bits unmasked, the window at 0xA0000, no chaining and no other/even addressing.
\<close>

definition planar :: "vga_chip \<Rightarrow> bool" where
  "planar c \<longleftrightarrow> gc_reg c 1 AND 0x0F = 0 \<and> gc_reg c 3 AND 0x1F = 0 \<and> gc_reg c 5 AND 0x1B = 0
     \<and> gc_reg c 6 AND 0x0F = 0x05 \<and> gc_reg c 8 = 0xFF \<and> seq_reg c 4 AND 0x0C = 0x04"

definition in_window :: "u32 \<Rightarrow> bool" where
  "in_window a \<longleftrightarrow> 0xA0000 \<le> unat a \<and> unat a < 0xB0000"

definition seq_out :: "u8 \<Rightarrow> u8 \<Rightarrow> vga_chip \<Rightarrow> vga_chip" where
  "seq_out i v c = c\<lparr>seq_index := i, seq_reg := (seq_reg c)(i := v)\<rparr>"

definition gc_out :: "u8 \<Rightarrow> u8 \<Rightarrow> vga_chip \<Rightarrow> vga_chip" where
  "gc_out i v c = c\<lparr>gc_index := i, gc_reg := (gc_reg c)(i := v)\<rparr>"

definition plane_store :: "u32 \<Rightarrow> u8 \<Rightarrow> vga_chip \<Rightarrow> vga_chip" where
  "plane_store a v c = c\<lparr>planes := \<lambda>p o'.
     if p < 4 \<and> bit (seq_reg c 2) p \<and> o' = a - 0xA0000 then v else planes c p o'\<rparr>"

text \<open>What a store does in another mode is a parameter, \<open>other\<close>; the driver never makes one.\<close>

type_synonym other_store = "vga_chip \<Rightarrow> u32 \<Rightarrow> u8 \<Rightarrow> nat \<Rightarrow> u32 \<Rightarrow> u8"

fun vga_step :: "other_store \<Rightarrow> cpu_event \<Rightarrow> vga_chip \<Rightarrow> vga_chip" where
  "vga_step other (Out8 port v) c =
     (if port = SEQUENCER_INDEX_PORT then c\<lparr>seq_index := v\<rparr>
      else if port = SEQUENCER_DATA_PORT then seq_out (seq_index c) v c
      else if port = CONTROLLER_INDEX_PORT then c\<lparr>gc_index := v\<rparr>
      else if port = CONTROLLER_DATA_PORT then gc_out (gc_index c) v c
      else c)"
| "vga_step other (Out16 port v) c =
     (if port = SEQUENCER_INDEX_PORT then seq_out (ucast v) (ucast (drop_bit 8 v)) c
      else if port = CONTROLLER_INDEX_PORT then gc_out (ucast v) (ucast (drop_bit 8 v)) c
      else c)"
| "vga_step other (Mmio_out a v) c =
     (if \<not> in_window a then c
      else if planar c then plane_store a (ucast v) c
      else c\<lparr>planes := other c a (ucast v)\<rparr>)"
| "vga_step other _ c = c"

primrec vga_after :: "other_store \<Rightarrow> vga_chip \<Rightarrow> cpu_event list \<Rightarrow> vga_chip" where
  "vga_after other c [] = c"
| "vga_after other c (e # h) = vga_step other e (vga_after other c h)"

text \<open>A device whose loads from the window are those of the adapter.\<close>

definition vga_answers :: "other_store \<Rightarrow> vga_chip \<Rightarrow> mmio \<Rightarrow> bool" where
  "vga_answers other c0 regs \<longleftrightarrow> (\<forall>t a. planar (vga_after other c0 t) \<and> in_window a \<longrightarrow>
     ucast (regs t a) = planes (vga_after other c0 t) (unat (gc_reg (vga_after other c0 t) 4 AND 3)) (a - 0xA0000))"

text \<open>Bit \<open>p\<close> of the colour of a pixel: eight pixels in a byte, the leftmost in its highest bit.\<close>

definition pixel_bit :: "vga_chip \<Rightarrow> nat \<Rightarrow> nat \<Rightarrow> nat \<Rightarrow> bool" where
  "pixel_bit c x y p = bit (planes c p (of_nat (90 * y + x div 8))) (7 - x mod 8)"

section \<open>What the driver makes it show\<close>

definition adapter :: "other_store \<Rightarrow> vga_chip \<Rightarrow> ('a vga_scheme) \<Rightarrow> vga_chip" where
  "adapter other c s = vga_after other c (trace s)"

lemma vga_after_cpu [simp]:
  "adapter other c (outb s p v) = vga_step other (Out8 p v) (adapter other c s)"
  "adapter other c (outw s p v16) = vga_step other (Out16 p v16) (adapter other c s)"
  "adapter other c (mmio_out s a v32) = vga_step other (Mmio_out a v32) (adapter other c s)"
  "adapter other c (snd (inb io s p)) = adapter other c s"
  "adapter other c (snd (mmio_in regs s a)) = adapter other c s"
  "adapter other c (s\<lparr>curr_p := q\<rparr>) = adapter other c s"
  "adapter other c (s\<lparr>vga_table := bs\<rparr>) = adapter other c s"
  by (simp_all add: adapter_def mmio_out_def mmio_in_def cpu_def inb_def Let_def)

lemma vga_vars_cpu [simp]:
  "curr_p (outb s p v) = curr_p s" "curr_p (outw s p v16) = curr_p s" "curr_p (mmio_out s a v32) = curr_p s"
  "curr_p (snd (inb io s p)) = curr_p s" "curr_p (snd (mmio_in regs s a)) = curr_p s"
  "vga_table (outb s p v) = vga_table s" "vga_table (outw s p v16) = vga_table s"
  "vga_table (snd (inb io s p)) = vga_table s"
  by (simp_all add: mmio_out_def mmio_in_def cpu_def inb_def outb_def outw_def Let_def)

text \<open>Plane \<open>p\<close> alone is selected, for stores and for loads.\<close>

definition on_plane :: "nat \<Rightarrow> vga_chip \<Rightarrow> bool" where
  "on_plane p c \<longleftrightarrow> planar c \<and> seq_reg c 2 = push_bit p 1 \<and> gc_reg c 4 = of_nat p"

text \<open>The adapter is in the planar mode, and on the plane the driver remembers, if it remembers one.\<close>

definition vga_ready :: "vga_chip \<Rightarrow> ('a vga_scheme) \<Rightarrow> bool" where
  "vga_ready c s \<longleftrightarrow> planar c \<and> (\<forall>p<4. curr_p s = of_nat p \<longrightarrow> on_plane p c)"

lemma plane_cases: "(p :: nat) < 4 \<Longrightarrow> p = 0 \<or> p = 1 \<or> p = 2 \<or> p = 3"
  by auto

lemma of_nat_plane_eq_iff: "p < 4 \<Longrightarrow> q < 4 \<Longrightarrow> (of_nat p :: u32) = of_nat q \<longleftrightarrow> p = q"
  by (intro of_nat_u32_eq_iff) simp_all

lemma vga_set_plane_selects:
  assumes "vga_ready (adapter other c s) s" and p: "p < 4"
  shows "on_plane p (adapter other c (vga_set_plane s (of_nat p)))"
    and "planes (adapter other c (vga_set_plane s (of_nat p))) = planes (adapter other c s)"
    and "curr_p (vga_set_plane s (of_nat p)) = of_nat p"
proof -
  have w: "(of_nat p :: u8) AND 3 = of_nat p" "(ucast (of_nat p :: u8) :: u32) = of_nat p"
    "unat (of_nat p :: u8) = p"
    using plane_cases [OF p] by auto
  have "on_plane p (adapter other c (vga_set_plane s (of_nat p)))
      \<and> planes (adapter other c (vga_set_plane s (of_nat p))) = planes (adapter other c s)
      \<and> curr_p (vga_set_plane s (of_nat p)) = of_nat p"
  proof (cases "curr_p s = of_nat p")
    case True
    then have "vga_set_plane s (of_nat p) = s" by (simp add: vga_set_plane_def w)
    then show ?thesis using True p assms(1) by (simp add: vga_ready_def)
  next
    case False
    then have eq: "vga_set_plane s (of_nat p) = outw (outw (s\<lparr>curr_p := of_nat p\<rparr>) CONTROLLER_INDEX_PORT
        (push_bit 8 (ucast (of_nat p :: u8)) OR 4)) SEQUENCER_INDEX_PORT (push_bit 8 (ucast (push_bit p 1 :: u8)) OR 2)"
      by (simp add: vga_set_plane_def Let_def w)
    show ?thesis unfolding eq using plane_cases [OF p] assms(1)
      by (elim disjE) (simp_all add: vga_ready_def on_plane_def planar_def seq_out_def gc_out_def)
  qed
  then show "on_plane p (adapter other c (vga_set_plane s (of_nat p)))"
    "planes (adapter other c (vga_set_plane s (of_nat p))) = planes (adapter other c s)"
    "curr_p (vga_set_plane s (of_nat p)) = of_nat p"
    by simp_all
qed

lemma on_plane_ready: "on_plane p c \<Longrightarrow> curr_p s = of_nat p \<Longrightarrow> p < 4 \<Longrightarrow> vga_ready c s"
  by (auto simp: vga_ready_def on_plane_def of_nat_plane_eq_iff)

text \<open>A store then changes one byte of one plane.\<close>

definition set_plane_byte :: "nat \<Rightarrow> u32 \<Rightarrow> u8 \<Rightarrow> vga_chip \<Rightarrow> vga_chip" where
  "set_plane_byte p i v c = c\<lparr>planes := (planes c)(p := (planes c p)(i := v))\<rparr>"

lemma set_plane_byte_on [simp]:
  "on_plane q (set_plane_byte p i v c) = on_plane q c"
  by (simp add: on_plane_def set_plane_byte_def planar_def)

lemma plane_store_on:
  assumes "on_plane p c" and "p < 4"
  shows "plane_store a v c = set_plane_byte p (a - 0xA0000) v c"
proof -
  have "bit (push_bit p 1 :: u8) q \<longleftrightarrow> q = p" for q
    using assms(2) by (auto simp: bit_simps)
  then show ?thesis using assms
    by (auto simp: plane_store_def set_plane_byte_def on_plane_def fun_eq_iff intro!: vga_chip.equality)
qed

lemma ucast_u8_u32_u8 [simp]: "ucast (ucast (v :: u8) :: u32) = v"
  by (rule bit_word_eqI) (simp add: bit_simps)

lemma vga_update_on:
  assumes on: "on_plane p (adapter other c s)" and p: "p < 4" and a: "in_window a" and dev: "vga_answers other c regs"
  shows "adapter other c (vga_update regs s a f) = set_plane_byte p (a - 0xA0000) (f (planes (adapter other c s) p (a - 0xA0000))) (adapter other c s)"
    and "curr_p (vga_update regs s a f) = curr_p s"
proof -
  have "unat (of_nat p AND 3 :: u8) = p" using plane_cases [OF p] by auto
  then have "ucast (regs (trace s) a) = planes (adapter other c s) p (a - 0xA0000)"
    using dev on a by (auto simp: vga_answers_def adapter_def on_plane_def)
  moreover have "planar (adapter other c s)" using on by (simp add: on_plane_def)
  ultimately show "adapter other c (vga_update regs s a f) = set_plane_byte p (a - 0xA0000) (f (planes (adapter other c s) p (a - 0xA0000))) (adapter other c s)"
    using plane_store_on [OF on p] a
    by (simp add: vga_update_def adapter_def mmio_in_def mmio_out_def cpu_def Let_def)
  show "curr_p (vga_update regs s a f) = curr_p s"
    by (simp add: vga_update_def mmio_in_def mmio_out_def cpu_def Let_def)
qed

text \<open>Where a pixel lies.\<close>

lemma signed_drop_bit_of_nat:
  assumes "n < 2147483648"
  shows "signed_drop_bit k (of_nat n :: u32) = of_nat (n div 2 ^ k)"
proof -
  have small: "sint (of_nat m :: u32) = int m" if "m < 2147483648" for m
    using that by (simp add: sint_uint unsigned_of_nat take_bit_int_eq_self take_bit_nat_eq_self
      signed_take_bit_int_eq_self)
  have "n div 2 ^ k < 2147483648"
    using assms div_le_dividend [of n "2 ^ k"] by linarith
  then have "sint (signed_drop_bit k (of_nat n :: u32)) = sint (of_nat (n div 2 ^ k) :: u32)"
    using assms by (simp add: sint_signed_drop_bit_eq small drop_bit_eq_div zdiv_int)
  then show ?thesis by (simp add: signed_word_eqI)
qed

lemma pixel_address:
  assumes "x < 720" and "y < 480"
  shows "signed_drop_bit 3 (of_nat y * 720 + of_nat x :: u32) = of_nat (90 * y + x div 8)"
proof -
  have "(of_nat y * 720 + of_nat x :: u32) = of_nat (720 * y + x)" by simp
  moreover have "(720 * y + x) div 2 ^ 3 = 90 * y + x div 8" by simp
  moreover have "720 * y + x < 2147483648" using assms by simp
  ultimately show ?thesis using signed_drop_bit_of_nat [of "720 * y + x" 3] by metis
qed

lemma unat_and_7: "unat (of_nat x AND 7 :: u32) = x mod 8"
proof -
  have "(of_nat x AND 7 :: u32) = take_bit 3 (of_nat x)"
    by (simp add: take_bit_eq_mask mask_numeral)
  also have "\<dots> = of_nat (take_bit 3 x)"
    by (simp add: take_bit_of_nat)
  also have "\<dots> = of_nat (x mod 8)"
    by (simp add: take_bit_eq_mod)
  finally show ?thesis by simp
qed

lemma pixel_shift: "unat (7 - (of_nat x AND 7 :: u32)) = 7 - x mod 8"
  by (subst unat_sub_u32) (simp_all add: unat_and_7)

lemma pixel_offset_less: "x < 720 \<Longrightarrow> y < 480 \<Longrightarrow> 90 * y + x div 8 < (43200 :: nat)"
  by presburger

lemma pixel_offset_eq_iff:
  assumes "x < 720" and "x' < 720" and "y < 480" and "y' < 480"
  shows "(of_nat (90 * y + x div 8) :: u32) = of_nat (90 * y' + x' div 8) \<longleftrightarrow> y = y' \<and> x div 8 = x' div 8"
proof -
  have b: "x div 8 < 90" "x' div 8 < 90" using assms by (simp_all add: less_mult_imp_div_less)
  have *: "m = n \<and> a = c" if "90 * m + a = 90 * n + c" "a < 90" "c < 90" for m n a c :: nat
  proof -
    have "(90 * m + a) div 90 = (90 * n + c) div 90" using that(1) by simp
    then have "m = n" using that(2,3) by simp
    then show ?thesis using that(1) by simp
  qed
  have "90 * y + x div 8 = 90 * y' + x' div 8 \<longleftrightarrow> y = y' \<and> x div 8 = x' div 8"
    by (rule iffI, erule * [OF _ b], elim conjE, simp only:)
  then show ?thesis
    using pixel_offset_less [OF assms(1,3)] pixel_offset_less [OF assms(2,4)]
    by (subst of_nat_u32_eq_iff) simp_all
qed

lemma pixel_set_plane_byte:
  assumes "x < 720" and "x' < 720" and "y < 480" and "y' < 480"
  shows "pixel_bit (set_plane_byte p (of_nat (90 * y + x div 8)) v c) x' y' q =
     (if q = p \<and> y' = y \<and> x' div 8 = x div 8 then bit v (7 - x' mod 8) else pixel_bit c x' y' q)"
  using pixel_offset_eq_iff [OF assms(2,1,4,3)]
  by (auto simp: pixel_bit_def set_plane_byte_def simp del: of_nat_add of_nat_mult)

lemma in_window_pixel:
  assumes "x < 720" and "y < 480"
  shows "in_window (0xA0000 + of_nat (90 * y + x div 8))"
  using pixel_offset_less [OF assms] unat_plus_of_nat [of "0xA0000" "90 * y + x div 8"]
  by (simp add: in_window_def)

text \<open>
  \<open>plots c c' R color\<close>: between the two states of the adapter, the colour bits of the visible pixels
  in \<open>R\<close> became those of the colour and no others changed.
\<close>

definition plots :: "vga_chip \<Rightarrow> vga_chip \<Rightarrow> (nat \<Rightarrow> nat \<Rightarrow> nat \<Rightarrow> bool) \<Rightarrow> u8 \<Rightarrow> bool" where
  "plots c c' R color \<longleftrightarrow> (\<forall>x<720. \<forall>y<480. \<forall>q.
     pixel_bit c' x y q = (if R x y q then bit color q else pixel_bit c x y q))"

lemma plots_trans:
  "plots c c' R color \<Longrightarrow> plots c' c'' R' color \<Longrightarrow> plots c c'' (\<lambda>x y q. R x y q \<or> R' x y q) color"
  by (simp add: plots_def)

lemma plots_cong: "plots c c' R color \<Longrightarrow> (\<And>x y q. R x y q = R' x y q) \<Longrightarrow> plots c c' R' color"
  by (simp add: plots_def)

lemma plots_none [simp]: "plots c c (\<lambda>_ _ _. False) color"
  by (simp add: plots_def)

lemma plots_planes: "planes c = planes d \<Longrightarrow> plots d c' R color \<Longrightarrow> plots c c' R color"
  by (simp add: plots_def pixel_bit_def)

lemma mod_eq_of_div_eq:
  assumes "(x :: nat) div 8 = y div 8"
  shows "7 - x mod 8 = 7 - y mod 8 \<longleftrightarrow> x = y"
proof
  assume e: "7 - x mod 8 = 7 - y mod 8"
  have "x mod 8 < 8" "y mod 8 < 8" by simp_all
  with e have "x mod 8 = y mod 8" by linarith
  then show "x = y" by (metis assms div_mult_mod_eq)
qed simp

lemma draw_dot_plots:
  assumes on: "on_plane p (adapter other c s)" and p: "p < 4" and dev: "vga_answers other c regs"
    and x: "x < 720" and y: "y < 480"
  shows "on_plane p (adapter other c (draw_dot regs s (of_nat x) (of_nat y) color p))"
    and "curr_p (draw_dot regs s (of_nat x) (of_nat y) color p) = curr_p s"
    and "plots (adapter other c s) (adapter other c (draw_dot regs s (of_nat x) (of_nat y) color p))
      (\<lambda>x' y' q. q = p \<and> x' = x \<and> y' = y) color"
proof -
  let ?o = "of_nat (90 * y + x div 8) :: u32"
  let ?f = "\<lambda>b. if color AND push_bit p 1 \<noteq> 0 then b OR push_bit (7 - x mod 8) 1
     else b AND NOT (push_bit (7 - x mod 8) 1)"
  have eq: "draw_dot regs s (of_nat x) (of_nat y) color p = vga_update regs s (0xA0000 + ?o) ?f"
    unfolding draw_dot_def Let_def pixel_shift pixel_address [OF x y] ..
  note u = vga_update_on [OF on p in_window_pixel [OF x y] dev, of ?f, folded eq]
  show "on_plane p (adapter other c (draw_dot regs s (of_nat x) (of_nat y) color p))"
    "curr_p (draw_dot regs s (of_nat x) (of_nat y) color p) = curr_p s"
    using u on by (simp_all del: of_nat_add of_nat_mult)
  have b: "bit (?f b) (7 - x' mod 8) = (if x' = x then bit color p else bit b (7 - x' mod 8))"
    if "x' div 8 = x div 8" for b :: u8 and x'
    using mod_eq_of_div_eq [OF that]
    by (auto simp: bit_simps bit_iff_and_push_bit_not_eq_0 [of color p])
  show "plots (adapter other c s) (adapter other c (draw_dot regs s (of_nat x) (of_nat y) color p))
      (\<lambda>x' y' q. q = p \<and> x' = x \<and> y' = y) color"
    unfolding plots_def
  proof (intro allI impI)
    fix x' y' q :: nat assume "x' < 720" "y' < 480"
    have new: "pixel_bit (adapter other c (draw_dot regs s (of_nat x) (of_nat y) color p)) x' y' q =
      (if q = p \<and> y' = y \<and> x' div 8 = x div 8
       then bit (?f (planes (adapter other c s) p ?o)) (7 - x' mod 8) else pixel_bit (adapter other c s) x' y' q)"
      unfolding u(1) add_diff_cancel_left'
      by (rule pixel_set_plane_byte [OF x \<open>x' < 720\<close> y \<open>y' < 480\<close>])
    show "pixel_bit (adapter other c (draw_dot regs s (of_nat x) (of_nat y) color p)) x' y' q =
      (if q = p \<and> x' = x \<and> y' = y then bit color q else pixel_bit (adapter other c s) x' y' q)"
    proof (cases "q = p \<and> y' = y \<and> x' div 8 = x div 8")
      case True
      then show ?thesis unfolding new using b [of x'] by (simp add: pixel_bit_def)
    next
      case False
      then show ?thesis unfolding new by auto
    qed
  qed
qed

text \<open>The loops of a rectangle, on counters that stay below \<open>2 ^ 31\<close>.\<close>

lemma sless_of_nat: "m \<le> 720 \<Longrightarrow> n \<le> 720 \<Longrightarrow> (of_nat m :: u32) <s of_nat n \<longleftrightarrow> m < n"
  by (simp add: word_sless_alt sint_uint unsigned_of_nat take_bit_nat_eq_self signed_take_bit_int_eq_self)

lemma draw_columns_plots:
  assumes "on_plane p (adapter other c s)" and p: "p < 4" and dev: "vga_answers other c regs"
    and w: "x + w \<le> 720" and y: "y + dy < 480" and "dx \<le> w"
  shows "let s' = draw_columns regs s (of_nat x) (of_nat y) (of_nat w) color p (of_nat dy) (of_nat dx)
    in on_plane p (adapter other c s') \<and> curr_p s' = curr_p s
      \<and> plots (adapter other c s) (adapter other c s')
          (\<lambda>x' y' q. q = p \<and> x + dx \<le> x' \<and> x' < x + w \<and> y' = y + dy) color"
  using assms(1,6)
proof (induction "w - dx" arbitrary: s dx)
  case 0
  then have "draw_columns regs s (of_nat x) (of_nat y) (of_nat w) color p (of_nat dy) (of_nat dx) = s"
    using w by (subst draw_columns.simps) (simp add: sless_of_nat)
  then show ?case using 0 by (auto simp: plots_def)
next
  case (Suc n)
  let ?s = "draw_dot regs s (of_nat (x + dx)) (of_nat (y + dy)) color p"
  have lt: "dx < w" using Suc.hyps(2) by simp
  then have eq: "draw_columns regs s (of_nat x) (of_nat y) (of_nat w) color p (of_nat dy) (of_nat dx) =
      draw_columns regs ?s (of_nat x) (of_nat y) (of_nat w) color p (of_nat dy) (of_nat (Suc dx))"
    using w by (subst draw_columns.simps) (simp add: sless_of_nat add.commute)
  have "x + dx < 720" using lt w by simp
  note dot = draw_dot_plots [OF Suc.prems(1) p dev this y, of color]
  have "n = w - Suc dx" "Suc dx \<le> w" using Suc.hyps(2) by simp_all
  note IH = Suc.hyps(1) [OF this(1) dot(1) this(2), unfolded Let_def]
  have "plots (adapter other c s) (adapter other c
      (draw_columns regs ?s (of_nat x) (of_nat y) (of_nat w) color p (of_nat dy) (of_nat (Suc dx))))
      (\<lambda>x' y' q. q = p \<and> x + dx \<le> x' \<and> x' < x + w \<and> y' = y + dy) color"
    by (rule plots_cong [OF plots_trans [OF dot(3)]]) (use IH lt in auto)
  then show ?case unfolding eq Let_def using IH dot(2) by simp
qed

lemma draw_rows_plots:
  assumes "on_plane p (adapter other c s)" and p: "p < 4" and dev: "vga_answers other c regs"
    and w: "x + w \<le> 720" and h: "y + h \<le> 480" and "dy \<le> h"
  shows "let s' = draw_rows regs s (of_nat x) (of_nat y) (of_nat w) (of_nat h) color p (of_nat dy)
    in on_plane p (adapter other c s') \<and> curr_p s' = curr_p s
      \<and> plots (adapter other c s) (adapter other c s')
          (\<lambda>x' y' q. q = p \<and> x \<le> x' \<and> x' < x + w \<and> y + dy \<le> y' \<and> y' < y + h) color"
  using assms(1,6)
proof (induction "h - dy" arbitrary: s dy)
  case 0
  then have "draw_rows regs s (of_nat x) (of_nat y) (of_nat w) (of_nat h) color p (of_nat dy) = s"
    using h by (subst draw_rows.simps) (simp add: sless_of_nat)
  then show ?case using 0 by (auto simp: plots_def)
next
  case (Suc n)
  let ?s = "draw_columns regs s (of_nat x) (of_nat y) (of_nat w) color p (of_nat dy) 0"
  have lt: "dy < h" using Suc.hyps(2) by simp
  then have eq: "draw_rows regs s (of_nat x) (of_nat y) (of_nat w) (of_nat h) color p (of_nat dy) =
      draw_rows regs ?s (of_nat x) (of_nat y) (of_nat w) (of_nat h) color p (of_nat (Suc dy))"
    using h by (subst draw_rows.simps) (simp add: sless_of_nat add.commute)
  have "y + dy < 480" using lt h by simp
  note row = draw_columns_plots [OF Suc.prems(1) p dev w this, of 0 color, unfolded Let_def, simplified]
  have "n = h - Suc dy" "Suc dy \<le> h" using Suc.hyps(2) by simp_all
  note IH = Suc.hyps(1) [OF this(1) _ this(2), of ?s, unfolded Let_def]
  have "plots (adapter other c s) (adapter other c
      (draw_rows regs ?s (of_nat x) (of_nat y) (of_nat w) (of_nat h) color p (of_nat (Suc dy))))
      (\<lambda>x' y' q. q = p \<and> x \<le> x' \<and> x' < x + w \<and> y + dy \<le> y' \<and> y' < y + h) color"
    by (rule plots_cong [OF plots_trans [OF conjunct2 [OF conjunct2 [OF row]]]]) (use row IH lt in auto)
  then show ?case unfolding eq Let_def using IH row by simp
qed

text \<open>The four planes of an operation, one after the other.\<close>

lemma four_planes_plot:
  assumes step: "\<And>s p. vga_ready (adapter other c s) s \<Longrightarrow> p < 4 \<Longrightarrow>
      on_plane p (adapter other c (f s p)) \<and> curr_p (f s p) = of_nat p
      \<and> plots (adapter other c s) (adapter other c (f s p)) (\<lambda>x y q. q = p \<and> R x y) color"
    and ready: "vga_ready (adapter other c s) s"
  shows "vga_ready (adapter other c (foldl f s [0, 1, 2, 3])) (foldl f s [0, 1, 2, 3])
    \<and> plots (adapter other c s) (adapter other c (foldl f s [0, 1, 2, 3])) (\<lambda>x y q. q < 4 \<and> R x y) color"
proof -
  have step': "vga_ready (adapter other c (f s p)) (f s p)"
    "plots (adapter other c s) (adapter other c (f s p)) (\<lambda>x y q. q = p \<and> R x y) color"
    if "vga_ready (adapter other c s) s" "p < 4" for s p
    using step [OF that] on_plane_ready that(2) by auto
  have lt: "0 < (4 :: nat)" "1 < (4 :: nat)" "2 < (4 :: nat)" "3 < (4 :: nat)" by simp_all
  note s0 = step' [OF ready lt(1)]
  note s1 = step' [OF s0(1) lt(2)]
  note s2 = step' [OF s1(1) lt(3)]
  note s3 = step' [OF s2(1) lt(4)]
  note all = plots_trans [OF plots_trans [OF plots_trans [OF s0(2) s1(2)] s2(2)] s3(2)]
  have "plots (adapter other c s) (adapter other c (f (f (f (f s 0) 1) 2) 3)) (\<lambda>x y q. q < 4 \<and> R x y) color"
    by (rule plots_cong [OF all]) (auto dest: plane_cases)
  then show ?thesis using s3(1) by simp
qed

lemma draw_rectangle_plots:
  assumes ready: "vga_ready (adapter other c s) s" and dev: "vga_answers other c regs"
    and w: "x + w \<le> 720" and h: "y + h \<le> 480"
  shows "vga_ready (adapter other c (draw_rectangle regs s (of_nat x) (of_nat y) (of_nat w) (of_nat h) color))
      (draw_rectangle regs s (of_nat x) (of_nat y) (of_nat w) (of_nat h) color)
    \<and> plots (adapter other c s)
        (adapter other c (draw_rectangle regs s (of_nat x) (of_nat y) (of_nat w) (of_nat h) color))
        (\<lambda>x' y' q. q < 4 \<and> x \<le> x' \<and> x' < x + w \<and> y \<le> y' \<and> y' < y + h) color"
  unfolding draw_rectangle_def
proof (rule four_planes_plot [OF _ ready])
  fix s :: "'a vga_scheme" and p :: nat
  assume r: "vga_ready (adapter other c s) s" and p: "p < 4"
  note sel = vga_set_plane_selects [OF r p]
  note rows = draw_rows_plots [OF sel(1) p dev w h, of 0 color, unfolded Let_def, simplified]
  show "on_plane p (adapter other c (rectangle_plane regs (of_nat x) (of_nat y) (of_nat w) (of_nat h) color s p))
      \<and> curr_p (rectangle_plane regs (of_nat x) (of_nat y) (of_nat w) (of_nat h) color s p) = of_nat p
      \<and> plots (adapter other c s)
          (adapter other c (rectangle_plane regs (of_nat x) (of_nat y) (of_nat w) (of_nat h) color s p))
          (\<lambda>x' y' q. q = p \<and> x \<le> x' \<and> x' < x + w \<and> y \<le> y' \<and> y' < y + h) color"
    unfolding rectangle_plane_def using rows sel plots_planes [OF sel(2) [symmetric]] by simp
qed

text \<open>Filling stores the same byte over the 43200 bytes of a plane that are visible.\<close>

lemma window_memset_on:
  assumes "on_plane p (adapter other c s)" and p: "p < 4" and "unat i \<le> unat n" and n: "unat n \<le> 43200"
  shows "on_plane p (adapter other c (window_memset s 0xA0000 v n i))
    \<and> curr_p (window_memset s 0xA0000 v n i) = curr_p s
    \<and> planes (adapter other c (window_memset s 0xA0000 v n i)) =
        (planes (adapter other c s))(p := \<lambda>o'. if unat i \<le> unat o' \<and> unat o' < unat n then v
           else planes (adapter other c s) p o')"
  using assms(1,3)
proof (induction "unat n - unat i" arbitrary: s i)
  case 0
  then show ?case by (subst (1 2 3) window_memset.simps) (auto simp: word_less_nat_alt fun_eq_iff)
next
  case (Suc m)
  let ?s = "mmio_out s (0xA0000 + i) (ucast v)"
  have lt: "i < n" using Suc.hyps(2) by (simp add: word_less_nat_alt)
  then have eq: "window_memset s 0xA0000 v n i = window_memset ?s 0xA0000 v n (i + 1)"
    by (subst window_memset.simps) simp
  have u: "unat (i + 1) = Suc (unat i)" by (rule unat_loop_counter [OF lt])
  have "unat (0xA0000 + i) = unat (0xA0000 :: u32) + unat i"
    by (rule unat_add_u32) (use lt n in \<open>simp add: word_less_nat_alt\<close>)
  then have "in_window (0xA0000 + i)"
    using lt n by (simp add: in_window_def word_less_nat_alt)
  moreover have "planar (adapter other c s)" using Suc.prems(1) by (simp add: on_plane_def)
  ultimately have new: "adapter other c ?s = set_plane_byte p i v (adapter other c s)"
    using plane_store_on [OF Suc.prems(1) p] by simp
  have "m = unat n - unat (i + 1)" "on_plane p (adapter other c ?s)" "unat (i + 1) \<le> unat n"
    using Suc.hyps(2) lt u new Suc.prems(1) by (simp_all add: word_less_nat_alt)
  note IH = Suc.hyps(1) [OF this, unfolded new]
  have "unat i \<le> unat o' \<longleftrightarrow> o' = i \<or> Suc (unat i) \<le> unat o'" for o' :: u32
    using unat_eq_iff_eq [of o' i] by linarith
  then have "planes (adapter other c (window_memset ?s 0xA0000 v n (i + 1))) =
      (planes (adapter other c s))(p := \<lambda>o'. if unat i \<le> unat o' \<and> unat o' < unat n then v
           else planes (adapter other c s) p o')"
    using IH lt by (auto simp: u set_plane_byte_def fun_eq_iff word_less_nat_alt)
  then show ?case unfolding eq using IH by simp
qed

lemma vga_fill_plots:
  fixes s :: "'a vga_scheme"
  assumes ready: "vga_ready (adapter other c s) s"
  shows "vga_ready (adapter other c (vga_fill s color)) (vga_fill s color)
    \<and> plots (adapter other c s) (adapter other c (vga_fill s color)) (\<lambda>x y q. q < 4 \<and> True) color"
  unfolding vga_fill_def
proof (rule four_planes_plot [OF _ ready])
  fix s :: "'a vga_scheme" and p :: nat
  assume r: "vga_ready (adapter other c s) s" and p: "p < 4"
  note sel = vga_set_plane_selects [OF r p]
  define v :: u8 where "v = (if color AND push_bit p 1 \<noteq> 0 then 0xFF else 0x00)"
  note fill = window_memset_on [OF sel(1) p, of 0 43200 v, simplified]
  have eq: "fill_plane color s p = window_memset (vga_set_plane s (of_nat p)) 0xA0000 v 43200 0"
    by (simp add: fill_plane_def Let_def v_def)
  have e: "v = (if bit color p then mask 8 else 0)"
    by (simp add: v_def bit_iff_and_push_bit_not_eq_0 [of color p] mask_numeral)
  have v: "bit v n \<longleftrightarrow> bit color p" if "n < 8" for n
    unfolding e using that by (simp add: bit_mask_iff)
  have off: "unat (of_nat (90 * y + x div 8) :: u32) < 43200" if "x < 720" "y < 480" for x y
    using pixel_offset_less [OF that] by (subst unat_of_nat_u32) simp_all
  have "plots (adapter other c s) (adapter other c (fill_plane color s p)) (\<lambda>x y q. q = p \<and> True) color"
    unfolding plots_def pixel_bit_def eq
    using fill sel(2) v off by (simp del: of_nat_add of_nat_mult)
  then show "on_plane p (adapter other c (fill_plane color s p)) \<and> curr_p (fill_plane color s p) = of_nat p
      \<and> plots (adapter other c s) (adapter other c (fill_plane color s p)) (\<lambda>x y q. q = p \<and> True) color"
    using fill sel(3) eq by simp
qed

text \<open>The registers of the table select the planar mode and plane 3.\<close>

lemma vga_write_registers_planar:
  assumes "vga_table s = g_720x480x16"
  shows "on_plane 3 (adapter other c (vga_write_registers io s))
    \<and> curr_p (vga_write_registers io s) = curr_p s"
  using assms
  by (simp add: vga_write_registers_def Let_def split_beta index_data_loop.simps attribute_loop.simps
    g_720x480x16_def on_plane_def planar_def seq_out_def gc_out_def)

text \<open>
  C29: Against an adapter that behaves as documented, in whatever state it was, \<^verbatim>\<open>vga_init\<close> makes the whole
  visible screen of 720 by 480 pixels blue (colour 1) except the eight by eight square at (10, 10), which
  is red (colour 4).  The static variable \<^verbatim>\<open>curr_p\<close> has its initial value or is 3, as every
  drawing operation leaves it.
\<close>

theorem vga_init_shows:
  assumes tab: "vga_table s = g_720x480x16" and cur: "curr_p s = - 1 \<or> curr_p s = 3"
    and dev: "vga_answers other c regs" and x: "x < 720" and y: "y < 480" and p: "p < 4"
  shows "pixel_bit (adapter other c (vga_init io regs s)) x y p \<longleftrightarrow>
     bit (if 10 \<le> x \<and> x < 18 \<and> 10 \<le> y \<and> y < 18 then 4 else 1 :: u8) p"
proof -
  let ?s1 = "vga_write_registers io s"
  let ?s2 = "vga_fill ?s1 1"
  have "vga_ready (adapter other c ?s1) ?s1"
    using vga_write_registers_planar [OF tab, of other c io] cur
    by (auto simp: vga_ready_def on_plane_def dest: plane_cases)
  note fill = vga_fill_plots [OF this, of 1]
  note rect = draw_rectangle_plots [of other c ?s2 regs 10 8 10 8 4, OF conjunct1 [OF fill] dev, simplified]
  show ?thesis
    using fill rect x y p by (auto simp: plots_def vga_init_def Let_def)
qed

text \<open>A device made of the adapter: every load from the window is the adapter's.\<close>

definition vga_loads :: "other_store \<Rightarrow> vga_chip \<Rightarrow> mmio" where
  "vga_loads other c t a =
     ucast (planes (vga_after other c t) (unat (gc_reg (vga_after other c t) 4 AND 3)) (a - 0xA0000))"

lemma vga_loads_answer: "vga_answers other c (vga_loads other c)"
  by (simp add: vga_answers_def vga_loads_def)

section \<open>A pixel is a rectangle of one pixel\<close>

lemma pixel_mask: "signed_drop_bit (x mod 8) (0x80 :: u32) = push_bit (7 - x mod 8) 1"
proof -
  have "x mod 8 < 8" by simp
  then consider "x mod 8 = 0" | "x mod 8 = 1" | "x mod 8 = 2" | "x mod 8 = 3" | "x mod 8 = 4" | "x mod 8 = 5"
    | "x mod 8 = 6" | "x mod 8 = 7" by linarith
  then show ?thesis by cases (simp_all add: signed_drop_bit_of_nat [of 128, simplified])
qed

lemma set_pixel_plane_dot:
  assumes x: "x < 720" and y: "y < 480" and p: "p < 4"
  shows "set_pixel_plane regs (0xA0000 + of_nat (90 * y + x div 8)) (signed_drop_bit (x mod 8) 0x80) color
      (s, push_bit p 1) (of_nat p) =
    (draw_dot regs (vga_set_plane s (of_nat p)) (of_nat x) (of_nat y) color p, push_bit (Suc p) 1)"
proof -
  have "(push_bit p 1 :: u32) AND ucast color \<noteq> 0 \<longleftrightarrow> bit (ucast color :: u32) p"
    by (simp add: bit_iff_and_push_bit_not_eq_0 and.commute)
  also have "\<dots> \<longleftrightarrow> color AND push_bit p 1 \<noteq> 0"
    using p by (simp add: bit_ucast_iff bit_iff_and_push_bit_not_eq_0 [of color p])
  finally have c: "(push_bit p 1 :: u32) AND ucast color \<noteq> 0 \<longleftrightarrow> color AND push_bit p 1 \<noteq> 0" .
  have m: "ucast (push_bit (7 - x mod 8) 1 :: u32) = (push_bit (7 - x mod 8) 1 :: u8)"
    "ucast (NOT (push_bit (7 - x mod 8) 1) :: u32) = (NOT (push_bit (7 - x mod 8) 1) :: u8)"
    by (rule bit_word_eqI; auto simp: bit_simps)+
  have n: "ucast (of_nat p :: u32) = (of_nat p :: u8)" using plane_cases [OF p] by auto
  show ?thesis
    unfolding set_pixel_plane_def draw_dot_def Let_def pixel_shift pixel_address [OF x y] pixel_mask m n c
      prod.case by simp
qed

definition dot_plane :: "mmio \<Rightarrow> nat \<Rightarrow> nat \<Rightarrow> u8 \<Rightarrow> ('a vga_scheme) \<Rightarrow> nat \<Rightarrow> ('a vga_scheme)" where
  "dot_plane regs x y color s p = draw_dot regs (vga_set_plane s (of_nat p)) (of_nat x) (of_nat y) color p"

lemma vga_set_pixel_fold:
  assumes x: "x < 720" and y: "y < 480"
  shows "vga_set_pixel regs s (of_nat x) (of_nat y) color = foldl (dot_plane regs x y color) s [0, 1, 2, 3]"
proof -
  have "sint (of_nat x :: u32) = int x"
    using x by (simp add: sint_uint unsigned_of_nat take_bit_nat_eq_self signed_take_bit_int_eq_self)
  moreover have "int x sdiv 8 = int (x div 8)"
    by (simp add: signed_divide_int_def zdiv_int sgn_if)
  ultimately have a: "VGA_WIDTH div 8 * of_nat y + word_of_int (sint (of_nat x :: u32) sdiv 8)
      = (of_nat (90 * y + x div 8) :: u32)"
    by simp
  have b: "unat ((of_nat x AND 7 :: u32) * 1) = x mod 8"
    by (simp add: unat_and_7)
  define F :: "('a vga_scheme) \<times> u32 \<Rightarrow> u32 \<Rightarrow> ('a vga_scheme) \<times> u32" where
    "F = set_pixel_plane regs (0xA0000 + of_nat (90 * y + x div 8)) (signed_drop_bit (x mod 8) 0x80) color"
  have steps: "F (s, push_bit p 1) (of_nat p) = (dot_plane regs x y color s p, push_bit (Suc p) 1)"
    if "p < 4" for s p
    unfolding F_def dot_plane_def by (rule set_pixel_plane_dot [OF x y that])
  have "F (s, 1) 0 = (dot_plane regs x y color s 0, 2)" "F (s, 2) 1 = (dot_plane regs x y color s 1, 4)"
    "F (s, 4) 2 = (dot_plane regs x y color s 2, 8)" "F (s, 8) 3 = (dot_plane regs x y color s 3, 16)" for s
    using steps [of 0 s] steps [of 1 s] steps [of 2 s] steps [of 3 s] by simp_all
  then show ?thesis
    unfolding vga_set_pixel_def Let_def a b F_def [symmetric] by simp
qed

text \<open>
  On the screen, setting a pixel is the same sequence of port writes, loads and stores as drawing a
  rectangle of width and height one.
\<close>

theorem vga_set_pixel_is_unit_rectangle:
  fixes s :: "'a vga_scheme"
  assumes "x < 720" and "y < 480"
  shows "vga_set_pixel regs s (of_nat x) (of_nat y) color = draw_rectangle regs s (of_nat x) (of_nat y) 1 1 color"
proof -
  have "rectangle_plane regs (of_nat x) (of_nat y) 1 1 color s p = dot_plane regs x y color s p"
    for s :: "'a vga_scheme" and p
  proof -
    have sl: "(0 :: u32) <s 1" "\<not> (1 :: u32) <s 1" using sless_of_nat [of 0 1] by simp_all
    have cols: "draw_columns regs s' (of_nat x) (of_nat y) 1 color p 0 0 = draw_dot regs s' (of_nat x) (of_nat y) color p"
      for s' :: "'a vga_scheme" by (subst draw_columns.simps, subst draw_columns.simps) (simp add: sl)
    show ?thesis unfolding rectangle_plane_def dot_plane_def
      by (subst draw_rows.simps, subst draw_rows.simps) (simp add: sl cols)
  qed
  then have "rectangle_plane regs (of_nat x) (of_nat y) 1 1 color =
      (dot_plane regs x y color :: 'a vga_scheme \<Rightarrow> nat \<Rightarrow> 'a vga_scheme)"
    by (intro ext)
  then show ?thesis unfolding vga_set_pixel_fold [OF assms] draw_rectangle_def by simp
qed

text \<open>The driver as it is linked, before the first call.\<close>

definition fresh_vga :: vga where
  "fresh_vga = \<lparr>phys = \<lambda>_. 0, trace = [], vga_table = g_720x480x16, curr_p = - 1\<rparr>"

theorem vga_set_pixel_is_unit_rectangle_witness:
  "vga_set_pixel (\<lambda>_ _. 0) fresh_vga 3 4 5 = draw_rectangle (\<lambda>_ _. 0) fresh_vga 3 4 1 1 5"
  using vga_set_pixel_is_unit_rectangle [of 3 4 "\<lambda>_ _. 0" fresh_vga 5] by simp

text \<open>An adapter that was in no graphics mode, all its registers zero and its planes all ones.\<close>

definition text_mode_chip :: vga_chip where
  "text_mode_chip = \<lparr>seq_index = 0, gc_index = 0, seq_reg = \<lambda>_. 0, gc_reg = \<lambda>_. 0, planes = \<lambda>_ _. 0xFF\<rparr>"

theorem vga_init_shows_witness:
  "let c = text_mode_chip; odd' = \<lambda>_ _ _ _ _. 0;
       s' = vga_init (\<lambda>_ _. 0) (vga_loads odd' c) fresh_vga
   in pixel_bit (adapter odd' c s') 12 17 2 \<and> \<not> pixel_bit (adapter odd' c s') 12 17 0
      \<and> pixel_bit (adapter odd' c s') 700 400 0"
  using vga_init_shows [where s = fresh_vga, OF _ _ vga_loads_answer]
  by (simp add: fresh_vga_def Let_def)

end
