(* ===== verification/Usermode.thy ===== *)
theory Usermode
  imports Paging
begin

text \<open>
  Leaving for a program and coming back, \<^verbatim>\<open>kernel/src/exec/usermode.c\<close>.  The inline assembly builds an
  interrupt frame on the new stack and returns through it: \<open>push\<close> writes memory below the stack
  pointer, the jump is the event \<open>Iret cs eip ss esp\<close>.  \<open>eflags\<close> is what \<^verbatim>\<open>pushf\<close> finds.
\<close>

definition push :: "u32 \<Rightarrow> (mem \<times> u32) \<Rightarrow> mem \<times> u32" where
  "push v = (\<lambda>(m, sp). (w32 m (sp - 4) v, sp - 4))"

text \<open>The five pushes and the \<^verbatim>\<open>iret\<close>.\<close>

definition iret_frame :: "('a machine_scheme) \<Rightarrow> u16 \<Rightarrow> u32 \<Rightarrow> u32 \<Rightarrow> u16 \<Rightarrow> u32 \<Rightarrow> ('a machine_scheme)" where
  "iret_frame s ss sp eflags cs ip =
     (let (m, _) = push ip (push (ucast cs) (push eflags (push sp (push (ucast ss) (phys s, sp)))))
      in cpu (s\<lparr>phys := m\<rparr>) (Iret cs ip ss sp))"

primrec map_user_pages :: "u32 \<Rightarrow> nat \<Rightarrow> ('a paging_scheme) \<Rightarrow> ('a paging_scheme) option" where
  "map_user_pages base 0 s = Some s"
| "map_user_pages base (Suc n) s =
     Option.bind (map_user_pages base n s)
       (\<lambda>s1. map_page s1 (base + PAGE_SIZE * of_nat n) (base + PAGE_SIZE * of_nat n) (PTE_PRESENT OR PTE_USER OR PTE_RW))"

definition execute_user_mode :: "u32 \<Rightarrow> ('a paging_scheme) \<Rightarrow> u32 \<Rightarrow> ('a paging_scheme) option" where
  "execute_user_mode eflags s entry = do {
     s1 \<leftarrow> map_user_pages 0x500000 4 s;
     let s2 = s1\<lparr>phys := memcpy (phys s1) 0x500000 entry 0x4000\<rparr>;
     s3 \<leftarrow> map_page s2 0x5FF000 0x5FF000 (PTE_PRESENT OR PTE_USER OR PTE_RW);
     s4 \<leftarrow> map_page s3 0x600000 0x600000 (PTE_PRESENT OR PTE_USER OR PTE_RW);
     let user_stack = 0x600000;
     let s5 = s4\<lparr>phys := fst (memset (phys s4) user_stack 0 4096)\<rparr>;
     let s6 = s5\<lparr>g_tss := (g_tss s5)\<lparr>tss_cs := 0x18, tss_ss := 0x20, tss_ds := 0x20, tss_es := 0x20, tss_fs := 0x20, tss_gs := 0x20\<rparr>\<rparr>;
     Some (iret_frame (cpu s6 (Set_data_segments 0x20)) 0x20 (user_stack + 4096) eflags 0x18 entry) }"

text \<open>\<^verbatim>\<open>kernel_mode\<close> prints and then loops for ever: its model is the state it stays in.\<close>

definition kernel_mode :: "('a screen_scheme) \<Rightarrow> ('a screen_scheme)" where
  "kernel_mode s = print_literal s (literal ([CHR 0x0A] @ ''BACK TO KERNEL MODE!!'' @ [CHR 0x0A]))"

definition kernel_switch_back :: "u32 \<Rightarrow> u32 \<Rightarrow> ('a machine_scheme) \<Rightarrow> ('a machine_scheme)" where
  "kernel_switch_back eflags kernel_mode_addr s =
     iret_frame (cpu (cpu s Sti) (Set_data_segments 0x10)) 0x10 0x90000 eflags 0x08 kernel_mode_addr"

end
