(* ===== verification/Usermode_Map.thy ===== *)
theory Usermode_Map
  imports Usermode
begin

text \<open>
  Entering a program, \<^verbatim>\<open>execute_user_mode\<close> of \<^verbatim>\<open>kernel/src/exec/usermode.c\<close>, over the page tables: all six
  pages lie under one directory entry, whose table is at \<open>q\<close>.
\<close>

section \<open>A page of the table\<close>

definition in_page :: "u32 \<Rightarrow> u32 \<Rightarrow> bool" where
  "in_page q x \<longleftrightarrow> unat q \<le> unat x \<and> unat x < unat q + 4096"

text \<open>
  The directory at \<open>pd\<close> has a table for the program's pages; it and the table lie below them.  No entry
  of the table has bit 31 set, which \<^verbatim>\<open>SET_FRAME\<close> would keep.
\<close>

definition program_table :: "mem \<Rightarrow> u32 \<Rightarrow> u32 \<Rightarrow> bool" where
  "program_table m pd q \<longleftrightarrow> page_aligned pd \<and> page_aligned q \<and> unat pd + 4096 \<le> 0x500000 \<and> unat q + 4096 \<le> 0x500000
    \<and> (unat pd + 4096 \<le> unat q \<or> unat q + 4096 \<le> unat pd)
    \<and> r32 m (pd + 4) AND 1 = 1 \<and> PAGE_PHYS_ADDRESS (r32 m (pd + 4)) = q
    \<and> (\<forall>i. unat i < 1024 \<longrightarrow> \<not> bit (r32 m (q + 4 * i)) 31)"

lemma translate_program_table:
  assumes "program_table m pd q" and "PD_INDEX w = 1"
  shows "translate m pd w = (let e = r32 m (q + 4 * PT_INDEX w) in
    if e AND 1 = 0 then None else Some (PAGE_PHYS_ADDRESS e OR (w AND 0xFFF)))"
  using assms by (simp add: translate_def Let_def program_table_def)

lemma same_page:
  assumes "page_aligned v" and "PD_INDEX w = PD_INDEX v" and "PT_INDEX w = PT_INDEX v"
  shows "v OR (w AND 0xFFF) = w"
  unfolding frame_masks
proof (rule bit_word_eqI)
  fix n assume n: "n < LENGTH(32)"
  have hi: "bit w n = bit v n" if "22 \<le> n"
    using arg_cong [OF assms(2), of "\<lambda>x. bit x (n - 22)"] that by (simp add: PD_INDEX_def bit_simps)
  have mid: "bit w n = bit v n" if "12 \<le> n" "n < 22"
    using arg_cong [OF assms(3), of "\<lambda>x. bit x (n - 12)"] that by (simp add: PT_INDEX_take bit_simps less_diff_conv2)
  show "bit (v OR (w AND mask 12)) n = bit w n"
    using assms(1) hi mid n by (cases "n < 12"; cases "n < 22") (auto simp: page_aligned_bits bit_simps)
qed

lemma program_entry_cong:
  assumes "program_table m pd q" and "\<And>x. unat x < 0x500000 \<Longrightarrow> \<not> in_page q x \<Longrightarrow> m2 x = m1 x"
  shows "r32 m2 (pd + 4) = r32 m1 (pd + 4)"
proof (rule r32_cong)
  note t = assms(1) [unfolded program_table_def]
  have u: "unat (pd + 4) = unat pd + 4" using unat_word_at [of 1 pd] t page_aligned_top [of pd] by simp
  show "m2 x = m1 x" if "unat (pd + 4) \<le> unat x" "unat x < unat (pd + 4) + 4" for x
  proof (rule assms(2))
    show "unat x < 0x500000" "\<not> in_page q x" using that t unfolding u in_page_def by linarith+
  qed
  show "unat (pd + 4) + 4 \<le> addr_space" unfolding u using t page_aligned_top [of pd] by simp
qed

text \<open>Writes at or above the program's pages leave the walk alone.\<close>

lemma program_table_above:
  assumes "program_table m pd q" and "\<And>x. unat x < 0x500000 \<Longrightarrow> m' x = m x"
  shows "program_table m' pd q" and "PD_INDEX w = 1 \<Longrightarrow> translate m' pd w = translate m pd w"
proof -
  note t = assms(1) [unfolded program_table_def]
  have e: "r32 m' (q + 4 * i) = r32 m (q + 4 * i)" if "unat i < 1024" for i
  proof (rule r32_cong)
    have top: "unat q + 4096 \<le> addr_space" using t page_aligned_top by blast
    note u = unat_word_at [OF that top]
    show "m' x = m x" if "unat x < unat (q + 4 * i) + 4" for x
      using that t \<open>unat i < 1024\<close> unfolding u by (intro assms(2)) linarith
    show "unat (q + 4 * i) + 4 \<le> addr_space" unfolding u using top that by linarith
  qed
  have "r32 m' (pd + 4) = r32 m (pd + 4)" by (rule program_entry_cong [OF assms(1)]) (rule assms(2))
  with e show pt: "program_table m' pd q" using t by (simp add: program_table_def)
  show "translate m' pd w = translate m pd w" if "PD_INDEX w = 1"
    unfolding translate_program_table [OF pt that] translate_program_table [OF assms(1) that] by (simp add: e PT_INDEX_less)
qed

section \<open>Mapping the pages\<close>

text \<open>One page mapped to itself for the program.\<close>

lemma map_program_page:
  fixes s :: "'a paging_scheme"
  assumes "program_table (phys s) pd q" and "pd = current_page_directory s" and "page_aligned v" and "PD_INDEX v = 1"
  obtains m where "map_page s v v 7 = Some (flush_tlb_entry (s\<lparr>phys := m\<rparr>) v)" "program_table m pd q"
    "\<forall>x. \<not> in_page q x \<longrightarrow> m x = phys s x"
    "\<forall>w. PD_INDEX w = 1 \<longrightarrow> translate m pd w = (if PT_INDEX w = PT_INDEX v then Some w else translate (phys s) pd w)"
proof -
  note t = assms(1) [unfolded program_table_def]
  define a where "a = q + 4 * PT_INDEX v"
  define e where "e = SET_FRAME (r32 (phys s) a OR (7 OR 1)) v"
  define m where "m = w32 (phys s) a e"
  have top: "unat q + 4096 \<le> addr_space" "unat pd + 4096 \<le> addr_space" using t page_aligned_top by blast+
  have ua: "unat a = unat q + 4 * unat (PT_INDEX v)" unfolding a_def by (rule unat_word_at [OF PT_INDEX_less top(1)])
  have up: "unat (pd + 4) = unat pd + 4" using unat_word_at [of 1 pd] top(2) by simp
  have nb: "\<not> bit v 31"
  proof
    assume "bit v 31"
    then have "bit (PD_INDEX v) 9" by (simp add: PD_INDEX_def bit_simps)
    then show False by (simp add: assms(4))
  qed
  have old: "\<not> bit (r32 (phys s) a) 31" using t PT_INDEX_less by (simp add: a_def)
  have ent: "PAGE_PHYS_ADDRESS e = v" "e AND 1 = 1"
    unfolding e_def by (rule new_entry; use assms(3) old in simp)+
  have map: "map_page s v v 7 = Some (flush_tlb_entry (s\<lparr>phys := m\<rparr>) v)"
    using map_page_known_table [of s v v 7] t
    by (simp add: assms(2) [symmetric] pde_addr_def pte_addr_def assms(4) a_def e_def m_def)
  have other: "m x = phys s x" if "\<not> in_page q x" for x
    unfolding m_def by (rule w32_byte_other) (use that ua top PT_INDEX_less [of v] in \<open>unfold in_page_def, linarith+\<close>)
  have tab: "r32 m (q + 4 * i) = (if i = PT_INDEX v then e else r32 (phys s) (q + 4 * i))" if "unat i < 1024" for i
    unfolding m_def a_def r32_word_at [OF PT_INDEX_less that top(1)] by simp
  have pde: "r32 m (pd + 4) = r32 (phys s) (pd + 4)"
    unfolding m_def by (rule r32_w32_other) (use ua up top PT_INDEX_less [of v] t in linarith)+
  have "bit (PAGE_PHYS_ADDRESS e) 31 = bit e 31" by (simp add: PAGE_PHYS_ADDRESS_def frame_masks bit_simps)
  then have "\<not> bit e 31" using nb ent(1) by simp
  then have pt: "program_table m pd q" using t tab pde by (simp add: program_table_def)
  have "translate m pd w = (if PT_INDEX w = PT_INDEX v then Some w else translate (phys s) pd w)" if "PD_INDEX w = 1" for w
    unfolding translate_program_table [OF pt that] translate_program_table [OF assms(1) that]
    using same_page [OF assms(3), of w] ent by (simp add: tab PT_INDEX_less that assms(4) Let_def)
  then show ?thesis using that [OF map pt] other by blast
qed

text \<open>The pages with table indices in \<open>P\<close> are mapped to themselves, the others of the entry as \<open>T\<close> says.\<close>

definition pages_mapped :: "(u32 \<Rightarrow> u32 option) \<Rightarrow> u32 \<Rightarrow> u32 \<Rightarrow> u32 set \<Rightarrow> mem \<Rightarrow> bool" where
  "pages_mapped T pd q P m \<longleftrightarrow> program_table m pd q
    \<and> (\<forall>w. PD_INDEX w = 1 \<longrightarrow> translate m pd w = (if PT_INDEX w \<in> P then Some w else T w))"

lemma pages_mapped_above:
  assumes "pages_mapped T pd q P m" and "\<And>x. unat x < 0x500000 \<Longrightarrow> m' x = m x"
  shows "pages_mapped T pd q P m'"
  using program_table_above [OF _ assms(2)] assms(1) by (auto simp: pages_mapped_def)

lemma map_page_step:
  fixes s :: "'a paging_scheme"
  assumes "pages_mapped T pd q P (phys s)" and "current_page_directory s = pd" and "page_aligned v" and "PD_INDEX v = 1"
  obtains s' where "map_page s v v 7 = Some s'" "pages_mapped T pd q (insert (PT_INDEX v) P) (phys s')"
    "current_page_directory s' = pd" "\<forall>x. \<not> in_page q x \<longrightarrow> phys s' x = phys s x"
proof -
  have t: "program_table (phys s) pd q" using assms(1) by (simp add: pages_mapped_def)
  obtain m where m: "map_page s v v 7 = Some (flush_tlb_entry (s\<lparr>phys := m\<rparr>) v)" "program_table m pd q"
    "\<forall>x. \<not> in_page q x \<longrightarrow> m x = phys s x"
    "\<forall>w. PD_INDEX w = 1 \<longrightarrow> translate m pd w = (if PT_INDEX w = PT_INDEX v then Some w else translate (phys s) pd w)"
    by (rule map_program_page [OF t assms(2) [symmetric] assms(3,4)])
  show ?thesis
    by (rule that [OF m(1)]) (use m assms(1,2) in \<open>auto simp: pages_mapped_def flush_tlb_entry_def cpu_def\<close>)
qed

lemma program_page:
  assumes "k < 4"
  shows "page_aligned (0x500000 + 4096 * of_nat k)" "PD_INDEX (0x500000 + 4096 * of_nat k) = 1"
    "PT_INDEX (0x500000 + 4096 * of_nat k) = 0x100 + of_nat k"
proof -
  have "k = 0 \<or> k = 1 \<or> k = 2 \<or> k = 3" using assms by auto
  then show "page_aligned (0x500000 + 4096 * of_nat k)" "PD_INDEX (0x500000 + 4096 * of_nat k) = 1"
    "PT_INDEX (0x500000 + 4096 * of_nat k) = 0x100 + of_nat k"
    by (elim disjE; simp add: page_aligned_def PD_INDEX_def PT_INDEX_def)+
qed

lemma map_user_pages_mapped:
  fixes s :: "'a paging_scheme"
  assumes "pages_mapped T pd q {} (phys s)" and "current_page_directory s = pd" and "n \<le> 4"
  shows "\<exists>s'. map_user_pages 0x500000 n s = Some s' \<and> pages_mapped T pd q ((\<lambda>k. 0x100 + of_nat k) ` {..<n}) (phys s')
    \<and> current_page_directory s' = pd \<and> (\<forall>x. \<not> in_page q x \<longrightarrow> phys s' x = phys s x)"
  using assms(3)
proof (induction n)
  case 0
  then show ?case using assms(1,2) by simp
next
  case (Suc n)
  then have n: "n < 4" and "n \<le> 4" by simp_all
  note v = program_page [OF n]
  obtain s1 where s1: "map_user_pages 0x500000 n s = Some s1"
    "pages_mapped T pd q ((\<lambda>k. 0x100 + of_nat k) ` {..<n}) (phys s1)"
    "current_page_directory s1 = pd" "\<forall>x. \<not> in_page q x \<longrightarrow> phys s1 x = phys s x"
    using Suc.IH [OF \<open>n \<le> 4\<close>] by blast
  obtain s2 where s2: "map_page s1 (0x500000 + 4096 * of_nat n) (0x500000 + 4096 * of_nat n) 7 = Some s2"
    "pages_mapped T pd q (insert (PT_INDEX (0x500000 + 4096 * of_nat n)) ((\<lambda>k. 0x100 + of_nat k) ` {..<n})) (phys s2)"
    "current_page_directory s2 = pd" "\<forall>x. \<not> in_page q x \<longrightarrow> phys s2 x = phys s1 x"
    by (rule map_page_step [OF s1(2,3) v(1,2)])
  then show ?case using s1 by (simp add: v(3) lessThan_Suc)
qed

section \<open>Entering the program\<close>

text \<open>The interrupt frame, as the processor pops it.\<close>

lemma iret_frame_memory:
  assumes "20 \<le> unat sp"
  shows "r32 (phys (iret_frame s ss sp eflags cs ip)) (sp - 20) = ip"
    "r32 (phys (iret_frame s ss sp eflags cs ip)) (sp - 16) = ucast cs"
    "r32 (phys (iret_frame s ss sp eflags cs ip)) (sp - 12) = eflags"
    "r32 (phys (iret_frame s ss sp eflags cs ip)) (sp - 8) = sp"
    "r32 (phys (iret_frame s ss sp eflags cs ip)) (sp - 4) = ucast ss"
    "unat x < unat sp - 20 \<or> unat sp \<le> unat x \<Longrightarrow> phys (iret_frame s ss sp eflags cs ip) x = phys s x"
proof -
  have u: "unat (sp - k) = unat sp - unat k" if "unat k \<le> 20" for k
    using that assms by (intro unat_sub) (simp add: word_le_nat_alt)
  have lt: "unat sp < addr_space" by (rule unat_u32_lt)
  have p: "phys (iret_frame s ss sp eflags cs ip) =
      w32 (w32 (w32 (w32 (w32 (phys s) (sp - 4) (ucast ss)) (sp - 8) sp) (sp - 12) eflags) (sp - 16) (ucast cs)) (sp - 20) ip"
    by (simp add: iret_frame_def push_def cpu_def diff_diff_eq)
  obtain n where n: "unat sp = n + 20" using assms nat_le_iff_add [of 20 "unat sp"] by auto
  have uu: "unat (sp - 4) = n + 16" "unat (sp - 8) = n + 12" "unat (sp - 12) = n + 8" "unat (sp - 16) = n + 4" "unat (sp - 20) = n"
    using u [of 4] u [of 8] u [of 12] u [of 16] u [of 20] n by simp_all
  show "r32 (phys (iret_frame s ss sp eflags cs ip)) (sp - 20) = ip"
    "r32 (phys (iret_frame s ss sp eflags cs ip)) (sp - 16) = ucast cs"
    "r32 (phys (iret_frame s ss sp eflags cs ip)) (sp - 12) = eflags"
    "r32 (phys (iret_frame s ss sp eflags cs ip)) (sp - 8) = sp"
    "r32 (phys (iret_frame s ss sp eflags cs ip)) (sp - 4) = ucast ss"
    unfolding p using uu lt n by (simp_all add: r32_w32_other)
  show "phys (iret_frame s ss sp eflags cs ip) x = phys s x" if "unat x < unat sp - 20 \<or> unat sp \<le> unat x"
    unfolding p using uu lt n that by (elim disjE) (simp_all add: w32_byte_other)
qed

text \<open>
  The part up to the stack: six pages mapped and the program copied; every other byte is kept, the table apart.
\<close>

lemma program_pages_ready:
  fixes s :: "'a paging_scheme"
  assumes "program_table (phys s) pd q" and "current_page_directory s = pd" and "\<not> in_range entry 0x4000 0x500000"
  obtains s1 s2 s3 where "map_user_pages 0x500000 4 s = Some s1"
    "map_page (s1\<lparr>phys := memcpy (phys s1) 0x500000 entry 0x4000\<rparr>) 0x5FF000 0x5FF000 7 = Some s2"
    "map_page s2 0x600000 0x600000 7 = Some s3"
    "pages_mapped (translate (phys s) pd) pd q {0x100, 0x101, 0x102, 0x103, 0x1FF, 0x200} (phys s3)"
    "\<forall>x. \<not> in_page q x \<longrightarrow> \<not> in_page q (entry + (x - 0x500000)) \<or> \<not> in_range 0x500000 0x4000 x
      \<longrightarrow> phys s3 x = copied (phys s) 0x500000 entry 0x4000 x"
proof -
  let ?T = "translate (phys s) pd"
  have "pages_mapped ?T pd q {} (phys s)" using assms(1) by (simp add: pages_mapped_def)
  from map_user_pages_mapped [OF this assms(2), of 4] obtain s1 where s1: "map_user_pages 0x500000 4 s = Some s1"
    "pages_mapped ?T pd q ((\<lambda>k. 0x100 + of_nat k) ` {..<4}) (phys s1)"
    "current_page_directory s1 = pd" "\<forall>x. \<not> in_page q x \<longrightarrow> phys s1 x = phys s x" by auto
  have "{..<4 :: nat} = {0, 1, 2, 3}" by auto
  then have P: "(\<lambda>k. 0x100 + of_nat k) ` {..<4} = {0x100, 0x101, 0x102, 0x103 :: u32}" by simp
  define s2 where "s2 = s1\<lparr>phys := memcpy (phys s1) 0x500000 entry 0x4000\<rparr>"
  have p2: "phys s2 = copied (phys s1) 0x500000 entry 0x4000" using assms(3) by (simp add: s2_def memcpy_copied)
  then have p2x: "phys s2 x = copied (phys s) 0x500000 entry 0x4000 x"
    if "\<not> in_page q x" "\<not> in_page q (entry + (x - 0x500000)) \<or> \<not> in_range 0x500000 0x4000 x" for x
    using s1(4) that by (auto simp: copied_def)
  have "\<not> in_range 0x500000 0x4000 x" if "unat x < 0x500000" for x by (subst in_range_unat) (use that in simp_all)
  then have "pages_mapped ?T pd q {0x100, 0x101, 0x102, 0x103} (phys s2)"
    by (intro pages_mapped_above [OF s1(2) [unfolded P]]) (simp add: p2 copied_def)
  moreover have "current_page_directory s2 = pd" using s1(3) by (simp add: s2_def)
  moreover have v: "page_aligned 0x5FF000" "PD_INDEX 0x5FF000 = 1" "page_aligned 0x600000" "PD_INDEX 0x600000 = 1"
    "PT_INDEX 0x5FF000 = 0x1FF" "PT_INDEX 0x600000 = 0x200" by (simp_all add: page_aligned_def PD_INDEX_def PT_INDEX_def)
  ultimately obtain s3 where s3: "map_page s2 0x5FF000 0x5FF000 7 = Some s3"
    "pages_mapped ?T pd q (insert (PT_INDEX 0x5FF000) {0x100, 0x101, 0x102, 0x103}) (phys s3)"
    "current_page_directory s3 = pd" "\<forall>x. \<not> in_page q x \<longrightarrow> phys s3 x = phys s2 x"
    using map_page_step by blast
  obtain s4 where s4: "map_page s3 0x600000 0x600000 7 = Some s4"
    "pages_mapped ?T pd q (insert (PT_INDEX 0x600000) (insert (PT_INDEX 0x5FF000) {0x100, 0x101, 0x102, 0x103})) (phys s4)"
    "current_page_directory s4 = pd" "\<forall>x. \<not> in_page q x \<longrightarrow> phys s4 x = phys s3 x"
    by (rule map_page_step [OF s3(2,3) v(3,4)])
  have "{0x200, 0x1FF, 0x100, 0x101, 0x102, 0x103} = {0x100, 0x101, 0x102, 0x103, 0x1FF, 0x200 :: u32}" by auto
  with s4(2) have "pages_mapped ?T pd q {0x100, 0x101, 0x102, 0x103, 0x1FF, 0x200} (phys s4)" by (simp add: v(5,6))
  then show ?thesis using that [OF s1(1) s3(1) [unfolded s2_def] s4(1)] p2x s3(4) s4(4) by simp
qed

text \<open>
  C37: \<^verbatim>\<open>execute_user_mode\<close>, with a table present for the directory entry of the program, maps the
  four program pages and the two stack pages to themselves, and nothing else under that entry; 16 KiB
  from \<open>entry\<close> are at 0x500000; the stack holds the frame of the \<^verbatim>\<open>iret\<close>, which jumps to \<open>entry\<close>
  itself, not to the copy; the directory entry, and so its user bit, is as it was.
\<close>

theorem execute_user_mode_enters:
  fixes s :: "'a paging_scheme"
  assumes "program_table (phys s) (current_page_directory s) q"
    and "unat entry + 0x4000 \<le> 0x500000" and "unat entry + 0x4000 \<le> unat q \<or> unat q + 4096 \<le> unat entry"
  shows "\<exists>s'. execute_user_mode eflags s entry = Some s' \<and> hd (trace s') = Iret 0x18 entry 0x20 0x601000
    \<and> (\<forall>w. PD_INDEX w = 1 \<longrightarrow> translate (phys s') (current_page_directory s) w =
        (if PT_INDEX w \<in> {0x100, 0x101, 0x102, 0x103, 0x1FF, 0x200} then Some w
         else translate (phys s) (current_page_directory s) w))
    \<and> (\<forall>k < 0x4000. phys s' (0x500000 + of_nat k) = phys s (entry + of_nat k))
    \<and> map (\<lambda>i. r32 (phys s') (0x600FEC + 4 * i)) [0, 1, 2, 3, 4] = [entry, 0x18, eflags, 0x601000, 0x20]
    \<and> r32 (phys s') (current_page_directory s + 4) = r32 (phys s) (current_page_directory s + 4)"
proof -
  define pd where "pd = current_page_directory s"
  note t = assms(1) [folded pd_def, unfolded program_table_def]
  have in2: "in_range 0x500000 0x4000 x \<longleftrightarrow> 0x500000 \<le> unat x \<and> unat x < 0x504000" for x by (subst in_range_unat) auto
  have "\<not> in_range entry 0x4000 0x500000" using assms(2) by (subst in_range_unat) simp_all
  note ready = program_pages_ready [OF assms(1) [folded pd_def] pd_def [symmetric] this]
  obtain s1 s2 s4 where s4: "map_user_pages 0x500000 4 s = Some s1"
    "map_page (s1\<lparr>phys := memcpy (phys s1) 0x500000 entry 0x4000\<rparr>) 0x5FF000 0x5FF000 7 = Some s2"
    "map_page s2 0x600000 0x600000 7 = Some s4"
    "pages_mapped (translate (phys s) pd) pd q {0x100, 0x101, 0x102, 0x103, 0x1FF, 0x200} (phys s4)"
    "\<forall>x. \<not> in_page q x \<longrightarrow> \<not> in_page q (entry + (x - 0x500000)) \<or> \<not> in_range 0x500000 0x4000 x
      \<longrightarrow> phys s4 x = copied (phys s) 0x500000 entry 0x4000 x" by (rule ready)
  define s5 where "s5 = cpu (s4\<lparr>phys := filled (phys s4) 0x600000 0 4096, g_tss := (g_tss s4)\<lparr>tss_cs := 0x18,
    tss_ss := 0x20, tss_ds := 0x20, tss_es := 0x20, tss_fs := 0x20, tss_gs := 0x20\<rparr>\<rparr>) (Set_data_segments 0x20)"
  define s' where "s' = iret_frame s5 0x20 0x601000 eflags 0x18 entry"
  have run: "execute_user_mode eflags s entry = Some s'"
    using s4(1-3) by (simp add: execute_user_mode_def s5_def s'_def memset_filled)
  have "phys s5 = filled (phys s4) 0x600000 0 4096" by (simp add: s5_def cpu_def)
  then have below: "phys s' x = phys s4 x" if "unat x < 0x600000" for x
    using that iret_frame_memory(6) [of "0x601000" x s5 "0x20" eflags "0x18" entry] in_range_unat [of "0x600000" 4096 x]
    by (simp add: s'_def filled_def)
  then have mapped: "pages_mapped (translate (phys s) pd) pd q {0x100, 0x101, 0x102, 0x103, 0x1FF, 0x200} (phys s')"
    by (intro pages_mapped_above [OF s4(4)]) simp
  have copy: "phys s' (0x500000 + of_nat k) = phys s (entry + of_nat k)" if k: "k < 0x4000" for k
  proof -
    have u: "unat (0x500000 + of_nat k :: u32) = 0x500000 + k" "unat (entry + of_nat k) = unat entry + k"
      using k assms(2) by (simp_all add: unat_plus_of_nat)
    then have "\<not> in_page q (0x500000 + of_nat k)" "\<not> in_page q (entry + of_nat k)"
      using t assms(3) k by (auto simp: in_page_def)
    then show ?thesis using below s4(5) k u by (simp add: copied_def in2)
  qed
  have "r32 (phys s') (pd + 4) = r32 (phys s) (pd + 4)"
    by (rule program_entry_cong [OF assms(1) [folded pd_def]]) (use below s4(5) in \<open>simp add: copied_def in2\<close>)
  moreover have "map (\<lambda>i. r32 (phys s') (0x600FEC + 4 * i)) [0, 1, 2, 3, 4] = [entry, 0x18, eflags, 0x601000, 0x20]"
    using iret_frame_memory(1-5) [of "0x601000" s5 "0x20" eflags "0x18" entry] by (simp add: s'_def)
  moreover have "hd (trace s') = Iret 0x18 entry 0x20 0x601000" by (simp add: s'_def iret_frame_def push_def cpu_def)
  ultimately show ?thesis
    using run copy mapped by (intro exI [of _ s']) (simp add: pd_def [symmetric] pages_mapped_def)
qed

text \<open>
  As the kernel calls it: after \<^verbatim>\<open>paging_enable\<close> the directory at 0 is also the first table, and its
  entry 1 leads to whatever page 1 holds.
\<close>

lemma program_table_booted:
  fixes s :: "'a paging_scheme"
  assumes "max_blocks s = 0" and "used_blocks s = 0" and "\<forall>i. unat i < 1024 \<longrightarrow> \<not> bit (r32 (phys s) (0x1000 + 4 * i)) 31"
  shows "program_table (phys (paging_enable fault_addr s)) (current_page_directory (paging_enable fault_addr s)) 0x1000"
proof -
  have p: "phys (paging_enable fault_addr s) = booted_tables (phys s)" "current_page_directory (paging_enable fault_addr s) = 0"
    by (simp_all add: paging_enable_booted [OF assms(1,2)] register_interrupt_handler_def set_page_directory_def cpu_def)
  have tab: "r32 (booted_tables (phys s)) (0x1000 + 4 * i) = r32 (phys s) (0x1000 + 4 * i)" if "unat i < 1024" for i
  proof (rule r32_cong)
    note u = unat_word_at [OF that, of "0x1000"]
    show "booted_tables (phys s) x = phys s x" if "unat (0x1000 + 4 * i) \<le> unat x" for x
      by (rule booted_tables_outside) (use that u in simp)
    show "unat (0x1000 + 4 * i) + 4 \<le> addr_space" using u that by simp
  qed
  have "r32 (booted_tables (phys s)) 4 = 0x1003"
    using booted_tables_entry [of 1 "phys s"] by (simp add: identity_entry_def)
  then show ?thesis
    unfolding p using assms(3) by (simp add: program_table_def tab page_aligned_def PAGE_PHYS_ADDRESS_def)
qed

theorem execute_user_mode_enters_witness:
  "\<exists>s'. execute_user_mode 0x202 (paging_enable 0x9000 small_paging) 0x100000 = Some s'
     \<and> hd (trace s') = Iret 0x18 0x100000 0x20 0x601000 \<and> translate (phys s') 0 0x503ABC = Some 0x503ABC"
proof -
  have e: "r32 (w32 (\<lambda>_. 0) 4 0x1003) (0x1000 + 4 * i) = 0" if "unat i < 1024" for i
    using unat_word_at [OF that, of "0x1000"] that by (subst r32_w32_other) (simp_all add: r32_def)
  have t: "program_table (phys (paging_enable 0x9000 small_paging)) (current_page_directory (paging_enable 0x9000 small_paging)) 0x1000"
    by (rule program_table_booted) (simp_all add: e)
  have "PD_INDEX 0x503ABC = 1" "PT_INDEX 0x503ABC = 0x103" by (simp_all add: PD_INDEX_def PT_INDEX_def)
  moreover have "current_page_directory (paging_enable 0x9000 small_paging) = 0"
    by (simp add: paging_enable_booted register_interrupt_handler_def set_page_directory_def cpu_def)
  ultimately show ?thesis
    using execute_user_mode_enters [OF t, of "0x100000" "0x202"] by auto
qed

end
