(* ===== verification/Pci.thy ===== *)
theory Pci
  imports Ahci
begin

text \<open>
  PCI configuration, \<^verbatim>\<open>kernel/src/hardware/pci.c\<close>: the address is written to one port, the register read
  from another.  The \<^verbatim>\<open>int\<close> loop variables are converted to \<^verbatim>\<open>uint16_t\<close> arguments.
\<close>

section \<open>Access\<close>

abbreviation (input) PCI_DATA_PORT :: u16 where "PCI_DATA_PORT \<equiv> 0xCFC"
abbreviation (input) PCI_COMMAND_PORT :: u16 where "PCI_COMMAND_PORT \<equiv> 0xCF8"

definition pci_id :: "u16 \<Rightarrow> u16 \<Rightarrow> u16 \<Rightarrow> u32 \<Rightarrow> u32" where
  "pci_id bus device fn reg =
     push_bit 31 1 OR push_bit 16 (ucast bus AND 0xFF) OR push_bit 11 (ucast device AND 0x1F)
       OR push_bit 8 (ucast fn AND 0x07) OR (reg AND 0xFC)"

definition pci_read :: "io \<Rightarrow> ('a machine_scheme) \<Rightarrow> u16 \<Rightarrow> u16 \<Rightarrow> u16 \<Rightarrow> u32 \<Rightarrow> u32 \<times> 'a machine_scheme" where
  "pci_read io s bus device fn reg =
     (let s1 = outl s PCI_COMMAND_PORT (pci_id bus device fn reg);
          (result, s2) = inl io s1 PCI_DATA_PORT
      in (drop_bit (8 * unat (reg mod 4)) result, s2))"

definition pci_write :: "('a machine_scheme) \<Rightarrow> u16 \<Rightarrow> u16 \<Rightarrow> u16 \<Rightarrow> u32 \<Rightarrow> u32 \<Rightarrow> 'a machine_scheme" where
  "pci_write s bus device fn reg val =
     outl (outl s PCI_COMMAND_PORT (pci_id bus device fn reg)) PCI_DATA_PORT val"

definition pci_get_vendor_id :: "io \<Rightarrow> ('a machine_scheme) \<Rightarrow> u16 \<Rightarrow> u16 \<Rightarrow> u16 \<Rightarrow> u16 \<times> 'a machine_scheme" where
  "pci_get_vendor_id io s bus device fn = (let (r, s1) = pci_read io s bus device fn 0 in (ucast r, s1))"

definition pci_get_device_id :: "io \<Rightarrow> ('a machine_scheme) \<Rightarrow> u16 \<Rightarrow> u16 \<Rightarrow> u16 \<Rightarrow> u16 \<times> 'a machine_scheme" where
  "pci_get_device_id io s bus device fn = (let (r, s1) = pci_read io s bus device fn 2 in (ucast r, s1))"

definition pci_get_class_id :: "io \<Rightarrow> ('a machine_scheme) \<Rightarrow> u16 \<Rightarrow> u16 \<Rightarrow> u16 \<Rightarrow> u16 \<times> 'a machine_scheme" where
  "pci_get_class_id io s bus device fn =
     (let (r, s1) = pci_read io s bus device fn 0xA in (ucast (drop_bit 8 (r AND NOT 0x00FF)), s1))"

definition pci_get_subclass_id :: "io \<Rightarrow> ('a machine_scheme) \<Rightarrow> u16 \<Rightarrow> u16 \<Rightarrow> u16 \<Rightarrow> u16 \<times> 'a machine_scheme" where
  "pci_get_subclass_id io s bus device fn =
     (let (r, s1) = pci_read io s bus device fn 0xA in (ucast (r AND NOT 0xFF00), s1))"

definition has_functions :: "io \<Rightarrow> ('a machine_scheme) \<Rightarrow> u16 \<Rightarrow> u16 \<Rightarrow> bool \<times> 'a machine_scheme" where
  "has_functions io s bus device = (let (r, s1) = pci_read io s bus device 0 0x0E in (r AND push_bit 7 1 \<noteq> 0, s1))"

section \<open>Base addresses\<close>

text \<open>The packed structure \<open>BAR\<close>: prefetchable, address, size, type.\<close>

abbreviation (input) BAR_MM :: u32 where "BAR_MM \<equiv> 0"
abbreviation (input) BAR_IO :: u32 where "BAR_IO \<equiv> 1"

definition bar_address :: "mem \<Rightarrow> u32 \<Rightarrow> u32" where "bar_address m b = r32 m (b + 1)"
definition bar_type :: "mem \<Rightarrow> u32 \<Rightarrow> u32" where "bar_type m b = r32 m (b + 9)"
definition set_bar_prefetchable :: "mem \<Rightarrow> u32 \<Rightarrow> bool \<Rightarrow> mem" where "set_bar_prefetchable m b v = m(b := of_bool v)"
definition set_bar_address :: "mem \<Rightarrow> u32 \<Rightarrow> u32 \<Rightarrow> mem" where "set_bar_address m b v = w32 m (b + 1) v"
definition set_bar_type :: "mem \<Rightarrow> u32 \<Rightarrow> u32 \<Rightarrow> mem" where "set_bar_type m b v = w32 m (b + 9) v"

definition fill_bar :: "mem \<Rightarrow> u32 \<Rightarrow> u32 \<Rightarrow> mem" where
  "fill_bar m b bar_value =
     (let m1 = set_bar_type m b (if bar_value AND 0x1 \<noteq> 0 then BAR_IO else BAR_MM)
      in if bar_type m1 b = BAR_MM
         then set_bar_prefetchable (set_bar_address m1 b (bar_value AND 0xFFFFFFF0)) b (drop_bit 3 bar_value AND 0x1 = 0x1)
         else set_bar_prefetchable (set_bar_address m1 b (bar_value AND NOT 0x3)) b False)"

definition pci_get_bar :: "io \<Rightarrow> ('a mm_scheme) \<Rightarrow> u16 \<Rightarrow> u16 \<Rightarrow> u16 \<Rightarrow> u16 \<Rightarrow> (u32 \<times> 'a mm_scheme) option" where
  "pci_get_bar io s bus device fn bar = do {
     (result, s1) \<leftarrow> malloc s 13;
     let (h, s2) = pci_read io s1 bus device fn 0x0E;
     let header_type = h AND 0x7F;
     let max_bars = sint (6 - 4 * header_type);
     if uint bar \<ge> max_bars then Some (result, s2)
     else do {
       let (bar_value, s3) = pci_read io s2 bus device fn (0x10 + 4 * ucast bar);
       Some (result, s3\<lparr>phys := fill_bar (phys s3) result bar_value\<rparr>) } }"

primrec read_bars :: "io \<Rightarrow> u16 \<Rightarrow> u16 \<Rightarrow> u16 \<Rightarrow> nat \<Rightarrow> ('a mm_scheme) \<Rightarrow> (u32 list \<times> 'a mm_scheme) option" where
  "read_bars io bus device fn 0 s = Some ([], s)"
| "read_bars io bus device fn (Suc n) s = do {
     (port_base, s1) \<leftarrow> read_bars io bus device fn n s;
     (bar, s2) \<leftarrow> pci_get_bar io s1 bus device fn (of_nat n);
     let a = bar_address (phys s2) bar;
     Some (port_base @ [a], free s2 bar) }"

section \<open>Enumeration\<close>

definition print_device :: "u32 \<Rightarrow> ('a screen_scheme) \<Rightarrow> u8 \<Rightarrow> u8 \<Rightarrow> u8 \<Rightarrow> u16 \<Rightarrow> u16 \<Rightarrow> u32 \<Rightarrow> ('a screen_scheme) option" where
  "print_device foo s bus device fn vendor_id device_id base = do {
     let space = (\<lambda>s. print_literal s (literal '' ''));
     s1 \<leftarrow> print_hex foo s bus;
     s2 \<leftarrow> print_hex foo (space s1) device;
     s3 \<leftarrow> print_hex foo (space s2) fn;
     s4 \<leftarrow> print_hex foo (space s3) (ucast (drop_bit 8 (vendor_id AND 0xFF00)));
     s5 \<leftarrow> print_hex foo s4 (ucast (vendor_id AND 0xFF));
     s6 \<leftarrow> print_hex foo (space s5) (ucast (drop_bit 8 (device_id AND 0xFF00)));
     s7 \<leftarrow> print_hex foo s6 (ucast (device_id AND 0xFF));
     s8 \<leftarrow> print_hex32 foo (space s7) base;
     Some (print_literal s8 [0x0A]) }"

text \<open>Six pages from the address of the local array \<open>port_base\<close>, in steps of 4096 words.\<close>

primrec map_port_base :: "u32 \<Rightarrow> nat \<Rightarrow> ('a paging_scheme) \<Rightarrow> ('a paging_scheme) option" where
  "map_port_base a 0 s = Some s"
| "map_port_base a (Suc n) s =
     Option.bind (map_port_base a n s) (\<lambda>s1. map_page s1 (a + 4 * (4096 * of_nat n)) (a + 4 * (4096 * of_nat n)) PTE_RW)"

text \<open>
  The environment of the enumeration: the devices, the address of \<open>port_base\<close> on the stack, the
  literal of \<^verbatim>\<open>print_hex\<close>, and what the SATA driver needs.
\<close>

record pci_env =
  pe_io :: io
  pe_regs :: mmio
  pe_foo :: u32
  pe_port_base :: u32
  pe_shr32 :: "u32 \<Rightarrow> u32"
  pe_junk :: u32

definition enumerate_function :: "pci_env \<Rightarrow> bool \<Rightarrow> nat \<Rightarrow> nat \<Rightarrow> nat \<Rightarrow> ('a ahci_scheme) \<Rightarrow> ('a ahci_scheme) option" where
  "enumerate_function env debug bus device fn s = do {
     let b = of_nat bus;
     let d = of_nat device;
     let f = of_nat fn;
     let (vendor_id, s1) = pci_get_vendor_id (pe_io env) s b d f;
     let (device_id, s2) = pci_get_device_id (pe_io env) s1 b d f;
     if vendor_id = 0x0000 \<or> vendor_id = 0xFFFF then Some s2
     else do {
       (port_base, s3) \<leftarrow> read_bars (pe_io env) b d f 6 s2;
       s4 \<leftarrow> (if debug then print_device (pe_foo env) s3 (of_nat bus) (of_nat device) (of_nat fn) vendor_id device_id (port_base ! 0)
              else Some s3);
       if vendor_id = 0x8086 \<and> device_id = 0x2829 then do {
         s5 \<leftarrow> map_port_base (pe_port_base env) 6 s4;
         init_sata (pe_regs env) (pe_shr32 env) (pe_junk env) s5 (port_base ! 4) }
       else Some s4 } }"

text \<open>The loops over functions, devices and busses.\<close>

primrec fold_opt :: "(nat \<Rightarrow> 's \<Rightarrow> 's option) \<Rightarrow> nat \<Rightarrow> 's \<Rightarrow> 's option" where
  "fold_opt f 0 s = Some s"
| "fold_opt f (Suc n) s = Option.bind (fold_opt f n s) (f n)"

definition enumerate_device :: "pci_env \<Rightarrow> bool \<Rightarrow> nat \<Rightarrow> nat \<Rightarrow> ('a ahci_scheme) \<Rightarrow> ('a ahci_scheme) option" where
  "enumerate_device env debug bus device s =
     (let (multi, s1) = has_functions (pe_io env) s (of_nat bus) (of_nat device)
      in fold_opt (enumerate_function env debug bus device) (if multi then 8 else 1) s1)"

definition pci_enumerate_devices :: "pci_env \<Rightarrow> bool \<Rightarrow> ('a ahci_scheme) \<Rightarrow> ('a ahci_scheme) option" where
  "pci_enumerate_devices env debug s = fold_opt (\<lambda>bus. fold_opt (enumerate_device env debug bus) 32) 8 s"

section \<open>Configuration space\<close>

text \<open>
  How a host bridge reads the address: bit 31 enables, then bus, device, function and the number of a
  32-bit register.  \<open>config_bridge\<close> is the documented behaviour of the two ports: a read of the data
  port right after an address yields the register addressed.
\<close>

definition addr_bus :: "u32 \<Rightarrow> nat" where "addr_bus a = unat (take_bit 8 (drop_bit 16 a))"
definition addr_device :: "u32 \<Rightarrow> nat" where "addr_device a = unat (take_bit 5 (drop_bit 11 a))"
definition addr_function :: "u32 \<Rightarrow> nat" where "addr_function a = unat (take_bit 3 (drop_bit 8 a))"
definition addr_register :: "u32 \<Rightarrow> nat" where "addr_register a = unat (take_bit 6 (drop_bit 2 a))"

definition config_bridge :: "io \<Rightarrow> (nat \<Rightarrow> nat \<Rightarrow> nat \<Rightarrow> nat \<Rightarrow> u32) \<Rightarrow> bool" where
  "config_bridge io cfg \<longleftrightarrow> (\<forall>t a. bit a 31 \<longrightarrow>
     io (Out32 PCI_COMMAND_PORT a # t) PCI_DATA_PORT = cfg (addr_bus a) (addr_device a) (addr_function a) (addr_register a))"

lemma bit_mask_const:
  "bit (0xFF :: int) n \<longleftrightarrow> n < 8" "bit (0x1F :: int) n \<longleftrightarrow> n < 5" "bit (0x07 :: int) n \<longleftrightarrow> n < 3"
  "bit (0xFC :: int) n \<longleftrightarrow> 2 \<le> n \<and> n < 8" "bit (0x3F :: int) n \<longleftrightarrow> n < 6" "bit (0xFF00 :: int) n \<longleftrightarrow> 8 \<le> n \<and> n < 16" "bit (0xFFFFFF :: int) n \<longleftrightarrow> n < 24"
proof -
  have e: "(0xFF00 :: int) = push_bit 8 (mask 8)" "(0xFFFFFF :: int) = mask 24" "(0x3F :: int) = mask 6" "(0xFF :: int) = mask 8" "(0x1F :: int) = mask 5" "(0x07 :: int) = mask 3" "(0xFC :: int) = push_bit 2 (mask 6)"
    by (simp_all add: mask_eq_exp_minus_1)
  show "bit (0xFF :: int) n \<longleftrightarrow> n < 8" "bit (0x1F :: int) n \<longleftrightarrow> n < 5" "bit (0x07 :: int) n \<longleftrightarrow> n < 3"
    "bit (0xFC :: int) n \<longleftrightarrow> 2 \<le> n \<and> n < 8" "bit (0x3F :: int) n \<longleftrightarrow> n < 6" "bit (0xFF00 :: int) n \<longleftrightarrow> 8 \<le> n \<and> n < 16" "bit (0xFFFFFF :: int) n \<longleftrightarrow> n < 24"
    unfolding e by (auto simp: bit_simps)
qed

lemma bit_u16_less: "bit (w :: u16) n \<Longrightarrow> unat w < 2 ^ k \<Longrightarrow> n < k"
proof (rule ccontr)
  assume "bit w n" "unat w < 2 ^ k" "\<not> n < k"
  then have "bit (unat w) n" by (simp add: bit_unsigned_iff bit_imp_le_length)
  moreover have "take_bit k (unat w) = unat w" using \<open>unat w < 2 ^ k\<close> by (simp add: take_bit_nat_eq_self)
  ultimately show False using \<open>\<not> n < k\<close> by (metis bit_take_bit_iff)
qed

lemma pci_id_decode:
  fixes b d f :: u16 and r :: u32
  assumes "unat b < 2 ^ 8" and "unat d < 2 ^ 5" and "unat f < 2 ^ 3" and "unat r < 2 ^ 8"
  shows "bit (pci_id b d f r) 31" "addr_bus (pci_id b d f r) = unat b" "addr_device (pci_id b d f r) = unat d"
    "addr_function (pci_id b d f r) = unat f" "addr_register (pci_id b d f r) = unat r div 4"
proof -
  note simps = pci_id_def bit_simps bit_mask_const
  show "bit (pci_id b d f r) 31" by (simp add: simps)
  have "take_bit 8 (drop_bit 16 (pci_id b d f r)) = ucast b"
    by (rule bit_word_eqI) (auto simp: simps dest: bit_u16_less [OF _ assms(1)])
  then show "addr_bus (pci_id b d f r) = unat b" by (simp add: addr_bus_def)
  have "take_bit 5 (drop_bit 11 (pci_id b d f r)) = ucast d"
    by (rule bit_word_eqI) (auto simp: simps dest: bit_u16_less [OF _ assms(2)])
  then show "addr_device (pci_id b d f r) = unat d" by (simp add: addr_device_def)
  have "take_bit 3 (drop_bit 8 (pci_id b d f r)) = ucast f"
    by (rule bit_word_eqI) (auto simp: simps dest: bit_u16_less [OF _ assms(3)])
  then show "addr_function (pci_id b d f r) = unat f" by (simp add: addr_function_def)
  have "take_bit 6 (drop_bit 2 (pci_id b d f r)) = take_bit 6 (drop_bit 2 r)"
    by (rule bit_word_eqI) (auto simp: simps)
  also have "unat \<dots> = unat r div 4"
  proof -
    have "unat r div 4 < 2 ^ 6" using assms(4) by simp
    then show ?thesis by (simp add: unsigned_take_bit_eq unsigned_drop_bit_eq drop_bit_eq_div take_bit_nat_eq_self unat_div)
  qed
  finally show "addr_register (pci_id b d f r) = unat r div 4" by (simp add: addr_register_def)
qed

lemma pci_read_register:
  assumes "config_bridge io cfg" and "unat b < 256" and "unat d < 32" and "unat f < 8" and "unat r < 256"
  shows "fst (pci_read io s b d f r) = drop_bit (8 * unat (r mod 4)) (cfg (unat b) (unat d) (unat f) (unat r div 4))"
  using assms pci_id_decode [of b d f r]
  by (simp add: pci_read_def config_bridge_def inl_def outl_def cpu_def Let_def)

text \<open>
  C28: Behind a bridge that decodes configuration addresses as documented, the identifiers read are the
  fields of the configuration space of the function asked for: vendor and device from register 0, class
  and subclass from register 2, the multi-function flag from register 3.
\<close>

theorem pci_ids_read_configuration:
  assumes "config_bridge io cfg" and "unat b < 256" and "unat d < 32" and "unat f < 8"
  shows "fst (pci_get_vendor_id io s b d f) = ucast (cfg (unat b) (unat d) (unat f) 0)
    \<and> fst (pci_get_device_id io s b d f) = ucast (drop_bit 16 (cfg (unat b) (unat d) (unat f) 0))
    \<and> fst (pci_get_class_id io s b d f) = ucast (drop_bit 24 (cfg (unat b) (unat d) (unat f) 2))
    \<and> unat (fst (pci_get_subclass_id io s b d f)) = unat (drop_bit 16 (cfg (unat b) (unat d) (unat f) 2)) mod 256
    \<and> (fst (has_functions io s b d) \<longleftrightarrow> bit (cfg (unat b) (unat d) 0 3) 23)"
proof (intro conjI)
  let ?c = "cfg (unat b) (unat d) (unat f)"
  note rd = pci_read_register [OF assms(1,2,3,4), of _ s]
  show "fst (pci_get_vendor_id io s b d f) = ucast (?c 0)"
    using rd [of 0] by (simp add: pci_get_vendor_id_def case_prod_unfold Let_def)
  show "fst (pci_get_device_id io s b d f) = ucast (drop_bit 16 (?c 0))"
    using rd [of 2] by (simp add: pci_get_device_id_def case_prod_unfold Let_def)
  have "(drop_bit 8 (drop_bit 16 (?c 2) AND NOT 0x00FF)) = drop_bit 24 (?c 2)"
    by (rule bit_word_eqI) (auto simp: bit_simps bit_mask_const dest: bit_imp_le_length)
  then show "fst (pci_get_class_id io s b d f) = ucast (drop_bit 24 (?c 2))"
    using rd [of "0xA"] by (simp add: pci_get_class_id_def case_prod_unfold Let_def)
  have "(ucast (drop_bit 16 (?c 2) AND NOT 0xFF00) :: u16) = ucast (take_bit 8 (drop_bit 16 (?c 2)))"
    by (rule bit_word_eqI) (auto simp: bit_simps bit_mask_const)
  moreover have "unat (drop_bit 16 (?c 2)) mod 256 < 65536" by (rule less_trans [OF mod_less_divisor]) simp_all
  ultimately show "unat (fst (pci_get_subclass_id io s b d f)) = unat (drop_bit 16 (?c 2)) mod 256"
    using rd [of "0xA"]
    by (simp add: pci_get_subclass_id_def case_prod_unfold Let_def unsigned_ucast_eq take_bit_eq_mod unat_mod)
  have "(drop_bit 16 (cfg (unat b) (unat d) 0 3) AND 0x80 \<noteq> 0) \<longleftrightarrow> bit (cfg (unat b) (unat d) 0 3) 23"
    using and_exp_eq_0_iff_not_bit [of "drop_bit 16 (cfg (unat b) (unat d) 0 3)" 7] by (simp add: bit_drop_bit_eq)
  then show "fst (has_functions io s b d) \<longleftrightarrow> bit (cfg (unat b) (unat d) 0 3) 23"
    using pci_read_register [OF assms(1,2,3), of 0 "0xE" s] by (simp add: has_functions_def case_prod_unfold Let_def)
qed

text \<open>A bridge with one device, an Intel AHCI controller, in every slot.\<close>

definition intel_config :: "nat \<Rightarrow> u32" where
  "intel_config r = [0x28298086, 0, 0x01060102, 0x00800000] ! r"

fun intel_bridge :: io where
  "intel_bridge (Out32 p a # t) q = (if p = 0xCF8 \<and> q = 0xCFC then intel_config (addr_register a) else 0)"
| "intel_bridge t q = 0"

theorem pci_ids_read_configuration_witness:
  "fst (pci_get_vendor_id intel_bridge (quiet_kernel 0 0) 0 31 2) = 0x8086 \<and> fst (pci_get_device_id intel_bridge (quiet_kernel 0 0) 0 31 2) = 0x2829
    \<and> fst (pci_get_class_id intel_bridge (quiet_kernel 0 0) 0 31 2) = 1 \<and> fst (has_functions intel_bridge (quiet_kernel 0 0) 0 31)"
proof -
  have "config_bridge intel_bridge (\<lambda>_ _ _. intel_config)" by (simp add: config_bridge_def)
  from pci_ids_read_configuration [OF this, of 0 31 2 "quiet_kernel 0 0"] show ?thesis by (simp add: intel_config_def)
qed

end
