(* ===== verification/Kernel_Main.thy ===== *)
theory Kernel_Main
  imports Pci Usermode
begin

text \<open>
  \<^verbatim>\<open>kernel_main\<close> (\<^verbatim>\<open>kernel/src/kernel.c\<close>): the composition of all components.  The result is the state
  in which the first program is entered.  What the linker, the compiler and the hardware decide is
  the record \<open>boot_env\<close>: addresses of functions, literals, tables and local arrays, the devices, and
  the contents of what the code leaves uninitialised.  The devices' answers, the handlers' addresses
  and the file system's state are threaded through; \<open>None\<close> is a step that does not return.
\<close>

section \<open>The environment\<close>

record boot_env =
  be_pci :: pci_env
  be_disk_junk :: "u8 list"
  be_gdt_entries :: u32
  be_tss :: u32
  be_stub :: "nat \<Rightarrow> u32"
  be_idt_table :: u32
  be_function :: "string \<Rightarrow> u32"
  be_literal :: "string \<Rightarrow> u32"
  be_kernel_start :: u32
  be_kernel_end :: u32
  be_interrupt_junk :: u32
  be_fname :: u32
  be_eflags :: u32

definition newline :: "('a screen_scheme) \<Rightarrow> ('a screen_scheme)" where
  "newline s = print_literal s [0x0A]"

definition say :: "string \<Rightarrow> ('a screen_scheme) \<Rightarrow> ('a screen_scheme)" where
  "say text s = print_literal s (literal text)"

text \<open>Four calls of \<^verbatim>\<open>print_hex\<close>, from the highest byte down.\<close>

definition print_bytes :: "u32 \<Rightarrow> ('a screen_scheme) \<Rightarrow> u32 \<Rightarrow> ('a screen_scheme) option" where
  "print_bytes foo s v = do {
     s1 \<leftarrow> print_hex foo s (ucast (drop_bit 24 v AND 0xFF));
     s2 \<leftarrow> print_hex foo s1 (ucast (drop_bit 16 v AND 0xFF));
     s3 \<leftarrow> print_hex foo s2 (ucast (drop_bit 8 v AND 0xFF));
     s4 \<leftarrow> print_hex foo s3 (ucast (v AND 0xFF));
     Some (newline s4) }"

definition print_memory_info :: "u32 \<Rightarrow> u32 \<Rightarrow> u32 \<Rightarrow> u32 \<Rightarrow> ('a screen_scheme) \<Rightarrow> ('a screen_scheme) option" where
  "print_memory_info foo kernel_start kernel_end kernel_size s = do {
     s1 \<leftarrow> print_bytes foo (say ''<Mercury> Kernel start: 0x'' s) kernel_start;
     s2 \<leftarrow> print_bytes foo (say ''<Mercury> Kernel end: 0x'' s1) kernel_end;
     print_bytes foo (say ''<Mercury> Kernel size: 0x'' s2) kernel_size }"

section \<open>Bringing the kernel up\<close>

definition select_disk :: "io \<Rightarrow> bool \<Rightarrow> string \<Rightarrow> ('a ata_scheme) \<Rightarrow> ('a ata_scheme) option" where
  "select_disk io master disk_name s = do {
     let d = init_disk 0x1F0 master;
     (present, s1) \<leftarrow> identify_disk io s d;
     Some (if present
           then (newline (say (''<Mercury> Selected '' @ disk_name @ '' as default disk'') s1))\<lparr>g_default_disk := Some d\<rparr>
           else s1) }"

definition install_tables :: "boot_env \<Rightarrow> ('a ahci_scheme) \<Rightarrow> ('a ahci_scheme) option" where
  "install_tables env s = do {
     let s1 = newline (say ''<Mercury> Loading Mercury kernel... '' (clear_screen s));
     s2 \<leftarrow> segments_install_gdt (be_gdt_entries env) (be_tss env) s1;
     let s3 = install_idt (be_stub env) (be_idt_table env) s2;
     let s4 = newline (say ''<Mercury> Registering syscalls'' s3);
     let s5 = fd_init (be_function env ''syscall_printf'') s4;
     let s6 = register_interrupt_handler s5 0x80 (be_function env ''syscall'');
     let s7 = register_syscall_handler s6 4 (be_function env ''syscall_write'');
     Some (register_syscall_handler s7 80 (be_function env ''kernel_switch_back'')) }"

definition init_memory :: "boot_env \<Rightarrow> ('a ahci_scheme) \<Rightarrow> ('a ahci_scheme) option" where
  "init_memory env s = do {
     let foo = pe_foo (be_pci env);
     let kernel_start_address = be_kernel_start env;
     let kernel_end_address = (be_kernel_end env div 4096 + 1) * 4096;
     let kernel_size = kernel_end_address - kernel_start_address;
     s1 \<leftarrow> print_memory_info foo kernel_start_address kernel_end_address kernel_size s;
     let mem_manager_size = 64 * 1024;
     let heap_size = 0x200000;
     let s2 = heap_init s1 0x200000 heap_size;
     s3 \<leftarrow> print_bytes foo (say ''<Mercury> Block manager size: 0x'' s2) mem_manager_size;
     let s4 = newline (say ''<Mercury> Setting up paging'' s3);
     let s5 = paging_enable (be_function env ''handle_page_fault'') s4;
     init_symtable (be_literal env) (be_function env) s5 }"

text \<open>The driver functions the kernel knows.\<close>

definition driver_code :: "boot_env \<Rightarrow> ('a ahci_scheme) run" where
  "driver_code env a s =
     (if a = be_function env ''ps2_kb_enable'' then ps2_kb_enable (pe_io (be_pci env)) (be_function env ''handle_interrupt'') s
      else if a = be_function env ''ps2_kb_disable'' then Some (ps2_kb_disable s)
      else None)"

definition start_drivers :: "boot_env \<Rightarrow> ('a ahci_scheme) \<Rightarrow> ('a ahci_scheme) option" where
  "start_drivers env s = do {
     (ps2_keyboard, s1) \<leftarrow> create_driver (driver_code env) (be_interrupt_junk env) (init_drivers s) (be_literal env ''PS2-KB'')
       KEYBOARD 0 (be_function env ''ps2_kb_enable'') (be_function env ''ps2_kb_disable'');
     s2 \<leftarrow> enable_driver (driver_code env) s1 ps2_keyboard;
     let s3 = newline (say ''<Mercury> Searching PCI deivce drivers'' s2);
     s4 \<leftarrow> pci_enumerate_devices (be_pci env) False s3;
     Some (newline (say ''<Mercury> PCI Initialization done'' s4)) }"

definition kernel_init :: "boot_env \<Rightarrow> ('a ahci_scheme) \<Rightarrow> ('a ahci_scheme) option" where
  "kernel_init env s = do {
     s1 \<leftarrow> install_tables env s;
     s2 \<leftarrow> select_disk (pe_io (be_pci env)) True ''ata0m'' s1;
     s3 \<leftarrow> select_disk (pe_io (be_pci env)) False ''ata0s'' s2;
     s4 \<leftarrow> init_memory env s3;
     start_drivers env s4 }"

section \<open>Files and the first program\<close>

abbreviation boot_dev :: "boot_env \<Rightarrow> ('a ahci_scheme) storage_dev" where
  "boot_dev env \<equiv> kernel_dev (pe_io (be_pci env)) (\<lambda>_. be_disk_junk env)"

text \<open>The four function pointers of \<^verbatim>\<open>storage_dev_t\<close>, in the order of its fields.\<close>

definition make_storage_dev :: "boot_env \<Rightarrow> ('a ahci_scheme) \<Rightarrow> ('a ahci_scheme) option" where
  "make_storage_dev env s = do {
     (fat_dev, s1) \<leftarrow> malloc s 16;
     let m1 = w32 (phys s1) fat_dev (be_function env ''_read'');
     let m2 = w32 m1 (fat_dev + 4) (be_function env ''_read_byte'');
     let m3 = w32 m2 (fat_dev + 12) (be_function env ''_seek'');
     Some (s1\<lparr>phys := w32 m3 (fat_dev + 8) (be_function env ''_write'')\<rparr>) }"

text \<open>The listing of the root; the name and its final zero are laid into the local array \<open>fname\<close>.\<close>

partial_function (option) list_root :: "boot_env \<Rightarrow> u32 \<Rightarrow> (('a ahci_scheme) fat16) \<Rightarrow> (('a ahci_scheme) fat16) option" where
  "list_root env i s =
     Option.bind (fat16_ls (boot_dev env) s (Some i) (Some (replicate 11 0)) (Some (literal ''/''))) (\<lambda>(ret, i', nm, s1).
       if ret = 1
       then
         (let k = (disk s1)\<lparr>phys := store (phys (disk s1)) (be_fname env) (the nm @ [0])\<rparr>
          in Option.bind (printf k (be_fname env)) (\<lambda>k1. list_root env (the i') (s1\<lparr>disk := newline k1\<rparr>)))
       else Some s1)"

text \<open>\<^verbatim>\<open>sizeof(buffer)\<close> is the size of the pointer.\<close>

definition run_program :: "boot_env \<Rightarrow> string \<Rightarrow> (('a ahci_scheme) fat16) \<Rightarrow> (('a ahci_scheme) fat16) option" where
  "run_program env path s = do {
     (fd, s1) \<leftarrow> fat16_open (boot_dev env) s (literal path) MODE_R;
     (sz, s2) \<leftarrow> fat16_size (boot_dev env) s1 (literal path);
     (buffer, k) \<leftarrow> malloc (disk s2) (of_int sz);
     (r, bs, s3) \<leftarrow> fat16_read (boot_dev env) (s2\<lparr>disk := k\<rparr>) (handle_arg fd) buffer (of_int sz);
     let k1 = (disk s3)\<lparr>phys := store (phys (disk s3)) buffer bs\<rparr>;
     (entry, k2) \<leftarrow> image_load (pe_foo (be_pci env)) (be_literal env ''main'') k1 buffer 4 True;
     let k3 = free k2 buffer;
     k4 \<leftarrow> execute_user_mode (be_eflags env) k3 entry;
     Some (s3\<lparr>disk := k4\<rparr>) }"

definition kernel_main :: "boot_env \<Rightarrow> (('a ahci_scheme) fat16) \<Rightarrow> (('a ahci_scheme) fat16) option" where
  "kernel_main env s = do {
     k1 \<leftarrow> kernel_init env (disk s);
     k2 \<leftarrow> make_storage_dev env k1;
     (r, s1) \<leftarrow> fat16_init (boot_dev env) (s\<lparr>disk := k2\<rparr>) 0;
     s2 \<leftarrow> list_root env 0 s1;
     run_program env ''/BIN/TEST.ELF'' s2 }"

end
