(* ===== verification/Kernel_Boot.thy ===== *)
theory Kernel_Boot
  imports Kernel_Main Symtable_Init
begin

text \<open>
  Bringing up memory, \<open>init_memory\<close> of \<^verbatim>\<open>Kernel_Main\<close>: the components it composes do not disturb each
  other.  Everything happens in four places: the screen, the literal \<^verbatim>\<open>print_hex\<close> patches, page 0 with the page
  tables, and the 2 MiB of heap at 0x200000.
\<close>

section \<open>Printing\<close>

text \<open>Any printing routine that returns, leaving the cursor on the screen and the rest of the kernel alone.\<close>

definition prints :: "u32 \<Rightarrow> ('a screen_scheme) \<Rightarrow> ('a screen_scheme) option \<Rightarrow> bool" where
  "prints foo s r \<longleftrightarrow> (\<exists>s'. r = Some s' \<and> cursor_ok s' \<and> hex_literal_ok foo s' \<and> blind s' = blind s \<and> same_but foo s s')"

lemma prints_hex: "cursor_ok s \<Longrightarrow> hex_literal_ok foo s \<Longrightarrow> prints foo s (print_hex foo s h)"
  unfolding prints_def by (rule print_hex_ok [of s foo h]) blast+

lemma prints_literal:
  assumes "cursor_ok s" and "hex_literal_ok foo s"
  shows "prints foo s (Some (print_literal s cs))"
proof -
  have "\<not> on_screen (foo + 2)" using assms(2) by (auto simp: hex_literal_ok_def off_screen_def dest!: spec [of _ 2])
  then show ?thesis
    using print_literal_ok [OF assms(1), of cs] assms(2)
    by (auto simp: prints_def same_beyond_def same_but_def hex_literal_ok_def)
qed

lemma prints_bind:
  assumes "prints foo s r" and "\<And>s'. cursor_ok s' \<Longrightarrow> hex_literal_ok foo s' \<Longrightarrow> prints foo s' (f s')"
  shows "prints foo s (Option.bind r f)"
proof -
  obtain s1 where s1: "r = Some s1" "cursor_ok s1" "hex_literal_ok foo s1" "blind s1 = blind s" "same_but foo s s1"
    using assms(1) by (auto simp: prints_def)
  obtain s2 where "f s1 = Some s2" "cursor_ok s2" "hex_literal_ok foo s2" "blind s2 = blind s1" "same_but foo s1 s2"
    using assms(2) [OF s1(2,3)] by (auto simp: prints_def)
  with s1 show ?thesis by (simp add: prints_def same_but_def)
qed

lemma prints_bytes:
  assumes "cursor_ok s" and "hex_literal_ok foo s"
  shows "prints foo s (print_bytes foo s v)"
  unfolding print_bytes_def newline_def by (intro prints_bind prints_hex prints_literal assms)

lemma prints_labelled:
  assumes "cursor_ok s" and "hex_literal_ok foo s"
  shows "prints foo s (print_bytes foo (say msg s) v)"
  using prints_bind [OF prints_literal [OF assms, of "literal msg"], of "\<lambda>s. print_bytes foo s v"]
  by (simp add: say_def prints_bytes)

lemma prints_memory_info:
  assumes "cursor_ok s" and "hex_literal_ok foo s"
  shows "prints foo s (print_memory_info foo a b n s)"
  unfolding print_memory_info_def by (intro prints_bind prints_labelled assms)

section \<open>The four places\<close>

definition boot_places :: "u32 \<Rightarrow> u32 set" where
  "boot_places foo = {x. on_screen x \<or> x = foo \<or> x = foo + 1 \<or> unat x < 4096 \<or> 0x200000 \<le> unat x \<and> unat x < 0x400000}"

lemma heap_init_only_header:
  assumes "unat x < unat start \<or> unat start + 16 \<le> unat x" and "unat start + 16 \<le> addr_space"
  shows "phys (heap_init s start sz) x = phys s x"
  using assms by (auto simp: heap_init_def Let_def set_size_def set_next_def set_prev_def set_allocated_def
      unat_plus_numeral w32_byte_other)

text \<open>The other fields of the kernel that matter here.\<close>

definition same_fields :: "('a ahci_scheme) \<Rightarrow> ('a ahci_scheme) \<Rightarrow> bool" where
  "same_fields s s' \<longleftrightarrow> trace s' = trace s \<and> max_blocks s' = max_blocks s \<and> used_blocks s' = used_blocks s
    \<and> interrupt_handers s' = interrupt_handers s"

lemma blind_same_fields:
  fixes s :: "'a ahci_scheme"
  assumes "blind s' = blind s"
  shows "same_fields s s'" and "first s' = first s"
proof -
  have "trace x = trace (blind x)" "max_blocks x = max_blocks (blind x)" "used_blocks x = used_blocks (blind x)"
    "interrupt_handers x = interrupt_handers (blind x)" "first x = first (blind x)" for x :: "'a ahci_scheme"
    by (simp_all add: blind_def)
  then show "same_fields s s'" "first s' = first s" unfolding same_fields_def using assms by metis+
qed

text \<open>The tables of the kernel that bringing up memory leaves alone.\<close>

definition same_tables :: "('a ahci_scheme) \<Rightarrow> ('a ahci_scheme) \<Rightarrow> bool" where
  "same_tables s s' \<longleftrightarrow> handlers s' = handlers s \<and> drivers s' = drivers s \<and> g_default_disk s' = g_default_disk s
    \<and> gdt_entries s' = gdt_entries s \<and> idt_descriptors s' = idt_descriptors s"

lemma blind_same_tables:
  fixes s :: "'a ahci_scheme"
  assumes "blind s' = blind s"
  shows "same_tables s s'"
proof -
  have "handlers x = handlers (blind x)" "drivers x = drivers (blind x)" "g_default_disk x = g_default_disk (blind x)"
    "gdt_entries x = gdt_entries (blind x)" "idt_descriptors x = idt_descriptors (blind x)" for x :: "'a ahci_scheme"
    by (simp_all add: blind_def)
  then show ?thesis unfolding same_tables_def using assms by metis
qed

section \<open>Memory is ready\<close>

text \<open>
  The first half, up to paging: the heap is laid out and printing has kept to its places.
\<close>

lemma heap_and_prints:
  fixes s :: "'a ahci_scheme"
  assumes "cursor_ok s" and "hex_literal_ok foo s" and "4096 \<le> unat foo" and "unat foo + 2 < 0x200000"
  obtains s1 s3 where "print_memory_info foo a b n s = Some s1"
    "print_bytes foo (say msg (heap_init s1 0x200000 0x200000)) v = Some s3"
    "heap_rep s3 0x200000 [(0x1FFFF0, False)]" "cursor_ok s3" "hex_literal_ok foo s3" "same_fields s s3"
    "only_in (boot_places foo) (phys s) (phys s3)" "same_tables s s3"
proof -
  obtain s1 where s1: "print_memory_info foo a b n s = Some s1" "cursor_ok s1" "hex_literal_ok foo s1"
    "blind s1 = blind s" "same_but foo s s1"
    using prints_memory_info [OF assms(1,2), of a b n] by (auto simp: prints_def)
  define s2 where "s2 = heap_init s1 0x200000 0x200000"
  have fields: "scr_x s2 = scr_x s1" "scr_y s2 = scr_y s1" "same_fields s1 s2"
    by (simp_all add: s2_def heap_init_def Let_def same_fields_def)
  have "same_tables s1 s2" by (simp add: s2_def heap_init_def Let_def same_tables_def)
  then have tab: "same_tables s s3" if "blind s3 = blind s2" for s3
    using blind_same_tables [OF s1(4)] blind_same_tables [OF that] by (simp add: same_tables_def)
  have p2: "phys s2 x = phys s1 x" if "unat x < 0x200000 \<or> 0x200010 \<le> unat x" for x
    unfolding s2_def by (rule heap_init_only_header) (use that in simp_all)
  have "unat (foo + 2) = unat foo + 2" using assms(4) by (intro unat_plus_numeral) simp
  then have "cursor_ok s2" "hex_literal_ok foo s2"
    using s1(2,3) fields p2 [of "foo + 2"] assms(4) by (simp_all add: cursor_ok_def hex_literal_ok_def)
  from prints_labelled [OF this, of msg v] obtain s3 where s3:
    "print_bytes foo (say msg s2) v = Some s3" "cursor_ok s3" "hex_literal_ok foo s3" "blind s3 = blind s2" "same_but foo s2 s3"
    by (auto simp: prints_def)
  have u1: "unat (foo + 1) = unat foo + 1" using assms(4) by (intro unat_plus_one) simp
  have off: "phys s3 x = phys s2 x" if "0x200000 \<le> unat x" for x
  proof -
    have "x \<noteq> foo" "x \<noteq> foo + 1" "\<not> on_screen x" using that u1 assms(4) by (auto simp: on_screen_def)
    then show ?thesis using s3(5) by (simp add: same_but_def)
  qed
  have "heap_rep s2 0x200000 [(0x1FFFF0, False)]"
    unfolding s2_def using heap_init_rep [of "0x200000" "0x200000" s1] by simp
  then have "heap_rep (s2\<lparr>phys := phys s3\<rparr>) 0x200000 [(0x1FFFF0, False)]"
    by (rule heap_rep_frame) (auto intro: off dest!: hdrs_bounds)
  then have heap: "heap_rep s3 0x200000 [(0x1FFFF0, False)]"
    by (rule iffD1 [OF heap_rep_cong, rotated 2]) (simp_all add: blind_same_fields(2) [OF s3(4)])
  have "same_fields s s3"
    using blind_same_fields(1) [OF s1(4)] fields(3) blind_same_fields(1) [OF s3(4)] by (simp add: same_fields_def)
  moreover have "only_in (boot_places foo) (phys s) (phys s3)"
    using s1(5) s3(5) p2 by (auto simp: only_in_def boot_places_def same_but_def)
  ultimately show ?thesis using that [OF s1(1) s3(1) [unfolded s2_def] heap s3(2,3)] tab [OF s3(4)] by blast
qed

text \<open>
  The second half: page tables in page 0, everything above it as the heap was left.
\<close>

lemma paging_beside_heap:
  fixes s :: "'a ahci_scheme" and fault_addr :: u32 and msg :: string
  assumes "heap_rep s 0x200000 cs" and "cursor_ok s" and "max_blocks s = 0" and "used_blocks s = 0"
    and "length (interrupt_handers s) = 256"
  defines "s' \<equiv> paging_enable fault_addr (newline (say msg s))"
  shows "heap_rep s' 0x200000 cs" and "current_page_directory s' = 0" and "trace s' = [Or_CR0 0x80000011, Set_CR3 0] @ trace s"
    and "interrupt_handers s' = (interrupt_handers s)[14 := fault_addr]"
    and "\<exists>m. \<forall>x. unat x < 4096 \<longrightarrow> phys s' x = booted_tables m x" and "only_in (boot_places foo) (phys s) (phys s')"
    and "cursor_ok s'" and "same_tables s s'"
proof -
  define s1 where "s1 = newline (say msg s)"
  have "blind s1 = blind s" by (simp add: s1_def newline_def say_def)
  note f = blind_same_fields [OF this] and tab = blind_same_tables [OF this]
  have "cursor_ok s1" using print_literal_ok [OF assms(2)] print_literal_ok by (fastforce simp: s1_def newline_def say_def)
  then show "cursor_ok s'" "same_tables s s'"
    using f assms(3,4) tab unfolding s'_def s1_def [symmetric]
    by (simp_all add: paging_enable_booted same_fields_def same_tables_def cursor_ok_def register_interrupt_handler_def
        set_page_directory_def cpu_def)
  have "same_beyond s s1"
    using print_literal_ok [OF assms(2)] print_literal_ok same_beyond_trans by (fastforce simp: s1_def newline_def say_def)
  then have p1: "phys s1 x = phys s x" if "\<not> on_screen x" for x using that by (simp add: same_beyond_def)
  have p: "phys s' = booted_tables (phys s1)" and "first s' = first s1" and "current_page_directory s' = 0"
    and "trace s' = [Or_CR0 0x80000011, Set_CR3 0] @ trace s" and "interrupt_handers s' = (interrupt_handers s)[14 := fault_addr]"
    using f assms(3-5) unfolding s'_def s1_def [symmetric]
    by (simp_all add: paging_enable_booted same_fields_def register_interrupt_handler_def set_page_directory_def cpu_def)
  then show "current_page_directory s' = 0" "trace s' = [Or_CR0 0x80000011, Set_CR3 0] @ trace s"
    "interrupt_handers s' = (interrupt_handers s)[14 := fault_addr]"
    "\<exists>m. \<forall>x. unat x < 4096 \<longrightarrow> phys s' x = booted_tables m x" by auto
  show "only_in (boot_places foo) (phys s) (phys s')"
    unfolding p by (auto simp: only_in_def boot_places_def booted_tables_outside p1)
  have "phys s' x = phys s x" if "0x200000 \<le> unat x" for x
    using that unfolding p by (simp add: booted_tables_outside p1 on_screen_def)
  then have "heap_rep (s\<lparr>phys := phys s'\<rparr>) 0x200000 cs"
    by (intro heap_rep_frame [OF assms(1)]) (auto dest!: hdrs_bounds)
  then show "heap_rep s' 0x200000 cs"
    by (rule iffD1 [OF heap_rep_cong, rotated 2]) (simp_all add: \<open>first s' = first s1\<close> f(2))
qed

text \<open>The exported names are different.\<close>

lemma exported_lookup:
  assumes "(nm, f) \<in> set kernel_symbols"
  shows "map_of (exported function_addr kernel_symbols) (literal nm) = Some (function_addr f)"
proof (rule map_of_is_SomeI)
  show "distinct (map fst (exported function_addr kernel_symbols))"
    by (simp add: exported_def kernel_symbols_def literal_def)
  show "(literal nm, function_addr f) \<in> set (exported function_addr kernel_symbols)"
    using assms by (force simp: exported_def)
qed

text \<open>The same with what else stays as it was.\<close>

lemma init_memory_step:
  fixes s :: "'a ahci_scheme"
  assumes "cursor_ok s" and "hex_literal_ok (pe_foo (be_pci env)) s"
    and "4096 \<le> unat (pe_foo (be_pci env))" and "unat (pe_foo (be_pci env)) + 2 < 0x200000"
    and "max_blocks s = 0" and "used_blocks s = 0" and "length (interrupt_handers s) = 256"
    and "literals_ok (phys s) (boot_places (pe_foo (be_pci env))) (be_literal env) kernel_symbols"
  shows "\<exists>s'. init_memory env s = Some s' \<and> heap_rep s' 0x200000 [(2048, True), (0x1FF7E0, False)]
    \<and> cursor_ok s' \<and> same_tables s s' \<and> (\<exists>m. \<forall>x. unat x < 4096 \<longrightarrow> phys s' x = booted_tables m x) \<and> current_page_directory s' = 0 \<and> (\<forall>v. unat v < 0x400000 \<longrightarrow> translate (phys s') 0 v = Some v)
    \<and> interrupt_handers s' = (interrupt_handers s)[14 := be_function env ''handle_page_fault'']
    \<and> (\<forall>(nm, f) \<in> set kernel_symbols. resolve_symbol s' (be_literal env nm) = Some (be_function env f))
    \<and> trace s' = [Or_CR0 0x80000011, Set_CR3 0] @ trace s
    \<and> only_in (boot_places (pe_foo (be_pci env))) (phys s) (phys s')"
proof -
  define foo where "foo = pe_foo (be_pci env)"
  note a = assms(1-4,8) [folded foo_def]
  obtain s1 s3 where s3: "print_memory_info foo (be_kernel_start env) ((be_kernel_end env div 4096 + 1) * 4096)
      ((be_kernel_end env div 4096 + 1) * 4096 - be_kernel_start env) s = Some s1"
    "print_bytes foo (say ''<Mercury> Block manager size: 0x'' (heap_init s1 0x200000 0x200000)) (64 * 1024) = Some s3"
    "heap_rep s3 0x200000 [(0x1FFFF0, False)]" "cursor_ok s3" "hex_literal_ok foo s3" "same_fields s s3"
    "only_in (boot_places foo) (phys s) (phys s3)" "same_tables s s3"
    by (rule heap_and_prints [OF a(1-4)])
  define s5 where "s5 = paging_enable (be_function env ''handle_page_fault'') (newline (say ''<Mercury> Setting up paging'' s3))"
  have "max_blocks s3 = 0" "used_blocks s3 = 0" "length (interrupt_handers s3) = 256"
    using s3(6) assms(5-7) by (simp_all add: same_fields_def)
  note p5 = paging_beside_heap [OF s3(3,4) this, where fault_addr = "be_function env ''handle_page_fault''" and msg = "''<Mercury> Setting up paging''",
    folded s5_def]
  have o5: "only_in (boot_places foo) (phys s) (phys s5)" by (rule only_in_trans [OF s3(7) p5(6)])
  have am: "amalloc 2048 0x200000 [(0x1FFFF0, False)] = Some (0x200010, [(2048, True), (0x1FF7E0, False)])" by simp
  let ?V = "unowned 0x200000 [(0x1FFFF0, False)]"
  have sub: "?V \<subseteq> boot_places foo" by (auto simp: unowned_def boot_places_def)
  have lit: "literals_ok (phys s5) ?V (be_literal env) kernel_symbols"
    using literals_ok_only_in [OF a(5) o5] sub by (auto simp: literals_ok_def intro: away_mono)
  obtain m t i where r: "init_symtable (be_literal env) (be_function env) s5 = Some (s5\<lparr>phys := m, symtable := t, symbol_idx := i\<rparr>)"
    "symbols_rep (s5\<lparr>phys := m, symtable := t, symbol_idx := i\<rparr>) (exported (be_function env) kernel_symbols)"
    "heap_rep (s5\<lparr>phys := m, symtable := t, symbol_idx := i\<rparr>) 0x200000 [(2048, True), (0x1FF7E0, False)]"
    "only_in ?V (phys s5) m"
    by (rule init_symtable_rep [OF p5(1) am lit])
  let ?s = "s5\<lparr>phys := m, symtable := t, symbol_idx := i\<rparr>"
  have o: "only_in (boot_places foo) (phys s) m" by (rule only_in_trans [OF o5 only_in_mono [OF r(4) sub]])
  have run: "init_memory env s = Some ?s"
    using s3(1,2) r(1) by (simp add: init_memory_def foo_def [symmetric] s5_def [symmetric])
  obtain m0 where "\<forall>x. unat x < 4096 \<longrightarrow> phys s5 x = booted_tables m0 x" using p5(5) by blast
  then have page0: "m x = booted_tables m0 x" if "unat x < 4096" for x
    using r(4) that by (simp add: only_in_def unowned_def)
  then have "translate m 0 v = Some v" if "unat v < 0x400000" for v using that by (rule booted_identity)
  moreover have "resolve_symbol ?s (be_literal env nm) = Some (be_function env f)" if k: "(nm, f) \<in> set kernel_symbols" for nm f
    using resolve_symbol_map_of [OF r(2), of "be_literal env nm" "literal nm"] literals_ok_only_in [OF a(5) o]
      exported_lookup [OF k, of "be_function env"] k by (auto simp: literals_ok_def)
  ultimately show ?thesis
    using run r(3) p5(2-4,7,8) o s3(6,8) page0 by (intro exI [of _ ?s]) (auto simp: foo_def [symmetric] same_fields_def same_tables_def cursor_ok_def)
qed

text \<open>
  C38: \<open>init_memory\<close>, the part of \<^verbatim>\<open>kernel_main\<close> from the kernel's addresses to the symbol table, returns with
  all its components in order at once: the heap well-formed with the symbol table its one block, the first 4 MiB
  mapped to themselves, the page fault handler in its slot and no other changed, every name resolving to the
  kernel's function; of memory only the screen, two bytes of the literal, page 0 and the heap are written.
\<close>

theorem init_memory_ready:
  fixes s :: "'a ahci_scheme"
  assumes "cursor_ok s" and "hex_literal_ok (pe_foo (be_pci env)) s"
    and "4096 \<le> unat (pe_foo (be_pci env))" and "unat (pe_foo (be_pci env)) + 2 < 0x200000"
    and "max_blocks s = 0" and "used_blocks s = 0" and "length (interrupt_handers s) = 256"
    and "literals_ok (phys s) (boot_places (pe_foo (be_pci env))) (be_literal env) kernel_symbols"
  shows "\<exists>s'. init_memory env s = Some s' \<and> heap_rep s' 0x200000 [(2048, True), (0x1FF7E0, False)]
    \<and> current_page_directory s' = 0 \<and> (\<forall>v. unat v < 0x400000 \<longrightarrow> translate (phys s') 0 v = Some v)
    \<and> interrupt_handers s' = (interrupt_handers s)[14 := be_function env ''handle_page_fault'']
    \<and> (\<forall>(nm, f) \<in> set kernel_symbols. resolve_symbol s' (be_literal env nm) = Some (be_function env f))
    \<and> trace s' = [Or_CR0 0x80000011, Set_CR3 0] @ trace s
    \<and> only_in (boot_places (pe_foo (be_pci env))) (phys s) (phys s')"
  using init_memory_step [OF assms] by blast

section \<open>Witness\<close>

text \<open>The names at 0x10000, the literal of \<^verbatim>\<open>print_hex\<close> at 0x8000, one function per name.\<close>

definition names_boot :: ahci where
  "names_boot = drvs.extend (dl.extend (symtab.extend small_symtab (dl.fields [] 0)) (drvs.fields [] 0)) (ahci.fields 0 0)
     \<lparr>phys := names_mem\<rparr>"

definition names_env :: boot_env where
  "names_env = \<lparr>be_pci = \<lparr>pe_io = \<lambda>_ _. 0, pe_regs = \<lambda>_ _. 0, pe_foo = 0x8000, pe_port_base = 0x9000, pe_shr32 = id, pe_junk = 0\<rparr>,
     be_disk_junk = [], be_gdt_entries = 0x100, be_tss = 0x200, be_stub = \<lambda>_. 0x300, be_idt_table = 0x400,
     be_function = \<lambda>f. 0x100000 + of_nat (length f), be_literal = names_addr, be_kernel_start = 0x100000, be_kernel_end = 0x123456,
     be_interrupt_junk = 0, be_fname = 0x500, be_eflags = 0x202\<rparr>"

lemma names_env [simp]:
  "pe_foo (be_pci names_env) = 0x8000" "be_literal names_env = names_addr" "be_function names_env f = 0x100000 + of_nat (length f)"
  by (simp_all add: names_env_def)

lemma names_boot [simp]:
  "handlers names_boot = replicate 256 0"
  "phys names_boot = names_mem" "max_blocks names_boot = 0" "used_blocks names_boot = 0"
  "length (interrupt_handers names_boot) = 256" "scr_x names_boot = 0" "scr_y names_boot = 0"
  by (simp_all add: names_boot_def drvs.defs dl.defs symtab.defs small_symtab_def paging.defs small_paging_def sys.defs zero_sys_def
      zero_fds_def fds.defs intr.defs zero_intr_def gdt.defs zero_gdt_def ata.defs quiet_kernel_def)

theorem init_memory_ready_witness:
  "\<exists>s'. init_memory names_env names_boot = Some s' \<and> translate (phys s') 0 0x123456 = Some 0x123456
    \<and> resolve_symbol s' (names_addr ''kmalloc'') = Some 0x100006"
proof -
  have "off_screen 0x8000 2" by (rule off_screenI) simp
  then have hex: "hex_literal_ok 0x8000 names_boot" by (simp add: hex_literal_ok_def names_mem_def)
  have out: "x \<notin> boot_places 0x8000" if "0x10000 \<le> unat x" "unat x < 0x20000" for x
    using that by (auto simp: boot_places_def on_screen_def)
  have "away (boot_places 0x8000) a (length (literal nm) + 1)" if "(nm, a) \<in> set name_places" for nm a
  proof -
    have "0x10000 \<le> unat a" "unat a + (length (literal nm) + 1) \<le> 0x20000" using that by (auto simp: names_places literal_def)
    then have "0x10000 \<le> unat (a + of_nat i)" "unat (a + of_nat i) < 0x20000" if "i < length (literal nm) + 1" for i
      using that by (simp_all add: unat_plus_of_nat)
    then show ?thesis unfolding away_def using out by blast
  qed
  then have lit: "literals_ok names_mem (boot_places 0x8000) names_addr kernel_symbols"
    using names_strings names_addr_places by (fastforce simp: literals_ok_def)
  have "(''kmalloc'', ''malloc'') \<in> set kernel_symbols" by (simp add: kernel_symbols_def)
  then show ?thesis
    using init_memory_ready [of names_boot names_env] hex lit by (fastforce simp: cursor_ok_def)
qed

end
