(* ===== verification/Pci_Enumerate.thy ===== *)
theory Pci_Enumerate
  imports Pci Elf_Link
begin

text \<open>
  The enumeration of the PCI bus, \<^verbatim>\<open>pci_enumerate_devices\<close> of \<^verbatim>\<open>kernel/src/hardware/pci.c\<close>, over the kernel heap:
  every base address is read into a block that is released at once, so that a bus without an AHCI
  controller leaves the heap as it was.
\<close>

section \<open>Steps that keep the heap\<close>

text \<open>
  A result that is a state: only memory and trace have changed, and of memory only what no caller of
  the allocator owns.
\<close>

definition keeps_heap :: "nat \<Rightarrow> achunk list \<Rightarrow> ('a mm_scheme) \<Rightarrow> ('a mm_scheme) option \<Rightarrow> bool" where
  "keeps_heap lo cs s r \<longleftrightarrow> (\<exists>m t. r = Some (s\<lparr>phys := m, trace := t\<rparr>) \<and> heap_rep (s\<lparr>phys := m, trace := t\<rparr>) lo cs
     \<and> only_in (unowned lo cs) (phys s) m)"

lemma keeps_heap_trace:
  assumes "heap_rep s lo cs"
  shows "keeps_heap lo cs s (Some (s\<lparr>trace := t\<rparr>))"
proof -
  have "heap_rep (s\<lparr>trace := t\<rparr>) lo cs" using assms by (simp add: heap_rep_def)
  moreover have "s\<lparr>trace := t\<rparr> = s\<lparr>phys := phys s, trace := t\<rparr>" by simp
  ultimately show ?thesis unfolding keeps_heap_def by (metis only_in_refl)
qed

lemma keeps_heap_bind:
  assumes "keeps_heap lo cs s r" and "\<And>s'. heap_rep s' lo cs \<Longrightarrow> keeps_heap lo cs s' (f s')"
  shows "keeps_heap lo cs s (Option.bind r f)"
proof -
  obtain m t where r: "r = Some (s\<lparr>phys := m, trace := t\<rparr>)" "heap_rep (s\<lparr>phys := m, trace := t\<rparr>) lo cs"
    "only_in (unowned lo cs) (phys s) m" using assms(1) by (auto simp: keeps_heap_def)
  then show ?thesis
    using assms(2) [OF r(2)] only_in_trans [OF r(3)] by (auto simp: keeps_heap_def)
qed

lemma keeps_heap_fold_opt:
  assumes "heap_rep s lo cs" and "\<And>i s'. i < n \<Longrightarrow> heap_rep s' lo cs \<Longrightarrow> keeps_heap lo cs s' (f i s')"
  shows "keeps_heap lo cs s (fold_opt f n s)"
  using assms(2)
proof (induction n)
  case 0
  show ?case using keeps_heap_trace [OF assms(1), of "trace s"] by simp
next
  case (Suc n)
  then show ?case by (simp add: keeps_heap_bind)
qed

section \<open>One base address\<close>

lemma pci_read_state: "\<exists>t. snd (pci_read io s b d f r) = s\<lparr>trace := t\<rparr>"
  by (auto simp: pci_read_def outl_def inl_def cpu_def Let_def)

text \<open>A block is taken, written by its owner and released: the heap is as before.\<close>

lemma malloc_write_free:
  assumes "heap_rep s lo cs" and "amalloc (unat n) lo cs = Some (p, cs')"
  obtains m where "malloc s n = Some (of_nat p, s\<lparr>phys := m\<rparr>)"
    "\<And>w t. (\<forall>x. unat x \<notin> {p..<p + unat n} \<longrightarrow> w x = m x) \<Longrightarrow>
       keeps_heap lo cs s (Some (free (s\<lparr>phys := w, trace := t\<rparr>) (of_nat p)))"
proof -
  obtain m where m: "malloc s n = Some (of_nat p, s\<lparr>phys := m\<rparr>)" "heap_rep (s\<lparr>phys := m\<rparr>) lo cs'"
    "\<And>x. unat x \<in> owned lo cs \<or> unat x < lo \<or> lo + span cs \<le> unat x \<Longrightarrow> m x = phys s x"
    using malloc_Some [OF assms] by blast
  have coal: "coalesced cs" using assms(1) by (simp add: heap_rep_def)
  obtain xs k ys where cs': "cs' = xs @ (k, True) # ys" "p = lo + span xs + 16" "afree xs k ys = cs"
    by (rule afree_amalloc [OF assms(2) coal])
  note own = amalloc_owned [OF assms(2)]
  have "keeps_heap lo cs s (Some (free (s\<lparr>phys := w, trace := t\<rparr>) (of_nat p)))"
    if w: "\<forall>x. unat x \<notin> {p..<p + unat n} \<longrightarrow> w x = m x" for w t
  proof -
    let ?s = "s\<lparr>phys := w, trace := t\<rparr>"
    have "w x = m x" if "unat x \<notin> owned lo cs'" for x using w own(1) that by blast
    then have "heap_rep (s\<lparr>phys := m\<rparr>\<lparr>phys := w\<rparr>) lo cs'" by (intro heap_rep_user_write [OF m(2)]) simp
    then have rep: "heap_rep ?s lo (xs @ (k, True) # ys)" by (simp add: heap_rep_def cs'(1))
    obtain m2 where m2: "free ?s (of_nat (lo + span xs + 16)) = ?s\<lparr>phys := m2\<rparr>"
      "heap_rep (?s\<lparr>phys := m2\<rparr>) lo (afree xs k ys)" "\<And>x. unat x \<notin> hdrs lo (xs @ (k, True) # ys) \<Longrightarrow> m2 x = w x"
      using free_refines [OF rep] by auto
    have "m2 x = phys s x" if "x \<notin> unowned lo cs" for x
    proof -
      have x: "unat x \<in> owned lo cs \<or> unat x < lo \<or> lo + span cs \<le> unat x" using that by (auto simp: unowned_def)
      then have "unat x \<notin> hdrs lo cs'"
        using own(2) owned_hdrs_disjoint [of lo cs'] hdrs_bounds [of "unat x" lo cs'] span_amalloc [OF assms(2)] by auto
      moreover have "unat x \<notin> {p..<p + unat n}" using x own(3,4,5) by auto
      ultimately show ?thesis using m2(3) m(3) [OF x] w cs'(1) by simp
    qed
    moreover have "?s\<lparr>phys := m2\<rparr> = s\<lparr>phys := m2, trace := t\<rparr>" by simp
    ultimately show ?thesis
      using m2(1,2) unfolding keeps_heap_def cs'(2,3) only_in_def by metis
  qed
  with m(1) show ?thesis by (rule that)
qed

lemma fill_bar_outside:
  assumes "p + 13 \<le> addr_space" and "unat x \<notin> {p..<p + 13}"
  shows "fill_bar m (of_nat p) v x = m x"
proof -
  have u: "unat (of_nat p :: u32) = p" "unat (of_nat p + 1 :: u32) = p + 1" "unat (of_nat p + 9 :: u32) = p + 9"
    using assms(1) by (simp_all add: unat_of_nat_u32 unat_plus_one unat_plus_numeral)
  then have "x \<noteq> of_nat p" "unat x < p + 1 \<or> p + 1 + 4 \<le> unat x" "unat x < p + 9 \<or> p + 9 + 4 \<le> unat x" using assms(2) by auto
  then show ?thesis
    using assms(1) u by (simp add: fill_bar_def Let_def set_bar_type_def set_bar_address_def set_bar_prefetchable_def w32_byte_other)
qed

lemma read_bar_step:
  assumes "heap_rep s lo cs" and "amalloc 13 lo cs = Some (p, cs')"
  obtains b s2 where "pci_get_bar io s bus device fn k = Some (b, s2)" "keeps_heap lo cs s (Some (free s2 b))"
proof -
  have am: "amalloc (unat (13 :: u32)) lo cs = Some (p, cs')" using assms(2) by simp
  obtain m where m: "malloc s 13 = Some (of_nat p, s\<lparr>phys := m\<rparr>)"
    "\<And>w t. (\<forall>x. unat x \<notin> {p..<p + unat (13 :: u32)} \<longrightarrow> w x = m x) \<Longrightarrow>
       keeps_heap lo cs s (Some (free (s\<lparr>phys := w, trace := t\<rparr>) (of_nat p)))"
    by (rule malloc_write_free [OF assms(1) am]) blast
  have top: "p + 13 \<le> addr_space"
    using amalloc_owned(5) [OF assms(2)] assms(1) by (simp add: heap_rep_def)
  obtain h t where h: "pci_read io (s\<lparr>phys := m\<rparr>) bus device fn 0x0E = (h, s\<lparr>phys := m, trace := t\<rparr>)"
    using pci_read_state [of io "s\<lparr>phys := m\<rparr>" bus device fn "0x0E"] by (cases "pci_read io (s\<lparr>phys := m\<rparr>) bus device fn 0x0E") auto
  obtain v t' where v: "pci_read io (s\<lparr>phys := m, trace := t\<rparr>) bus device fn (0x10 + 4 * ucast k) = (v, s\<lparr>phys := m, trace := t'\<rparr>)"
    using pci_read_state [of io "s\<lparr>phys := m, trace := t\<rparr>" bus device fn "0x10 + 4 * ucast k"]
    by (cases "pci_read io (s\<lparr>phys := m, trace := t\<rparr>) bus device fn (0x10 + 4 * ucast k)") auto
  show ?thesis
  proof (cases "uint k \<ge> sint (6 - 4 * (h AND 0x7F))")
    case True
    then have "pci_get_bar io s bus device fn k = Some (of_nat p, s\<lparr>phys := m, trace := t\<rparr>)"
      by (simp add: pci_get_bar_def m(1) h Let_def)
    then show ?thesis using m(2) [of m t] by (intro that) simp_all
  next
    case False
    let ?w = "fill_bar m (of_nat p) v"
    have "pci_get_bar io s bus device fn k = Some (of_nat p, s\<lparr>phys := ?w, trace := t'\<rparr>)"
      using False by (simp add: pci_get_bar_def m(1) h v Let_def)
    then show ?thesis using m(2) [of ?w t'] fill_bar_outside [OF top] by (intro that) simp_all
  qed
qed

lemma keeps_heap_state:
  assumes "keeps_heap lo cs s (Some s')"
  shows "heap_rep s' lo cs"
  using assms by (auto simp: keeps_heap_def)

lemma keeps_heap_trans:
  assumes "keeps_heap lo cs s (Some s1)" and "keeps_heap lo cs s1 r"
  shows "keeps_heap lo cs s r"
  using assms only_in_trans by (fastforce simp: keeps_heap_def)

lemma read_bars_keeps_heap:
  assumes "heap_rep s lo cs" and "amalloc 13 lo cs = Some (p, cs')"
  shows "\<exists>as s'. read_bars io bus device fn n s = Some (as, s') \<and> length as = n \<and> keeps_heap lo cs s (Some s')"
proof (induction n)
  case 0
  show ?case using keeps_heap_trace [OF assms(1), of "trace s"] by simp
next
  case (Suc n)
  then obtain as s1 where s1: "read_bars io bus device fn n s = Some (as, s1)" "length as = n" "keeps_heap lo cs s (Some s1)" by blast
  obtain b s2 where s2: "pci_get_bar io s1 bus device fn (of_nat n) = Some (b, s2)" "keeps_heap lo cs s1 (Some (free s2 b))"
    by (rule read_bar_step [OF keeps_heap_state [OF s1(3)] assms(2)])
  then show ?case using s1 keeps_heap_trans [OF s1(3) s2(2)] by (simp add: Let_def)
qed

section \<open>The whole bus\<close>

text \<open>The identifier of the only device the enumeration starts a driver for, Intel's 82801 AHCI controller.\<close>

lemma halves_of_word:
  fixes w :: u32
  shows "w = 0x28298086 \<longleftrightarrow> (ucast w :: u16) = 0x8086 \<and> (ucast (drop_bit 16 w) :: u16) = 0x2829"
proof
  assume h: "(ucast w :: u16) = 0x8086 \<and> (ucast (drop_bit 16 w) :: u16) = 0x2829"
  have "unat w = unat (drop_bit 16 w) * 2 ^ 16 + unat w mod 2 ^ 16" by (simp add: unsigned_drop_bit_eq drop_bit_eq_div unat_div)
  moreover have "unat w mod 2 ^ 16 = 0x8086"
    using arg_cong [OF conjunct1 [OF h], of unat] by (simp add: unsigned_ucast_eq take_bit_eq_mod)
  moreover have "unat (drop_bit 16 w) < 2 ^ 16"
    using unat_u32_lt [of w] by (simp add: unsigned_drop_bit_eq drop_bit_eq_div unat_div less_mult_imp_div_less)
  then have "unat (drop_bit 16 w) = 0x2829"
    using arg_cong [OF conjunct2 [OF h], of unat] by (simp add: unsigned_ucast_eq take_bit_nat_eq_self)
  ultimately have "unat w = unat (0x28298086 :: u32)" by simp
  then show "w = 0x28298086" by (simp only: unat_eq_iff_eq)
qed simp

lemma ids_read:
  assumes "config_bridge io cfg" and "bus < 8" and "device < 32" and "fn < 8"
  obtains t t' where
    "pci_get_vendor_id io s (of_nat bus) (of_nat device) (of_nat fn) = (ucast (cfg bus device fn 0), s\<lparr>trace := t\<rparr>)"
    "pci_get_device_id io (s\<lparr>trace := t\<rparr>) (of_nat bus) (of_nat device) (of_nat fn)
      = (ucast (drop_bit 16 (cfg bus device fn 0)), s\<lparr>trace := t'\<rparr>)"
proof -
  let ?b = "of_nat bus :: u16" and ?d = "of_nat device :: u16" and ?f = "of_nat fn :: u16"
  have u: "unat ?b = bus" "unat ?d = device" "unat ?f = fn" using assms(2-4) by (simp_all add: unat_of_nat_u16)
  have rd: "fst (pci_read io s ?b ?d ?f r) = drop_bit (8 * unat (r mod 4)) (cfg bus device fn (unat r div 4))" if "unat r < 256" for s :: "'a machine_scheme" and r
    using pci_read_register [OF assms(1), of ?b ?d ?f r s] assms(2-4) that u by simp
  obtain t where t: "pci_read io s ?b ?d ?f 0 = (cfg bus device fn 0, s\<lparr>trace := t\<rparr>)"
    using rd [of 0 s] pci_read_state [of io s ?b ?d ?f 0] by (cases "pci_read io s ?b ?d ?f 0") auto
  obtain t' where t': "pci_read io (s\<lparr>trace := t\<rparr>) ?b ?d ?f 2 = (drop_bit 16 (cfg bus device fn 0), s\<lparr>trace := t'\<rparr>)"
    using rd [of 2 "s\<lparr>trace := t\<rparr>"] pci_read_state [of io "s\<lparr>trace := t\<rparr>" ?b ?d ?f 2]
    by (cases "pci_read io (s\<lparr>trace := t\<rparr>) ?b ?d ?f 2") auto
  show ?thesis
    by (rule that [of t t']) (simp_all add: pci_get_vendor_id_def pci_get_device_id_def t t')
qed

lemma enumerate_function_keeps_heap:
  assumes "heap_rep s lo cs" and "amalloc 13 lo cs = Some (p, cs')" and "config_bridge (pe_io env) cfg"
    and "bus < 8" and "device < 32" and "fn < 8" and "cfg bus device fn 0 \<noteq> 0x28298086"
  shows "keeps_heap lo cs s (enumerate_function env False bus device fn s)"
proof -
  let ?c = "cfg bus device fn 0"
  obtain t t' where t:
    "pci_get_vendor_id (pe_io env) s (of_nat bus) (of_nat device) (of_nat fn) = (ucast ?c, s\<lparr>trace := t\<rparr>)"
    "pci_get_device_id (pe_io env) (s\<lparr>trace := t\<rparr>) (of_nat bus) (of_nat device) (of_nat fn) = (ucast (drop_bit 16 ?c), s\<lparr>trace := t'\<rparr>)"
    by (rule ids_read [OF assms(3-6)])
  have k: "keeps_heap lo cs s (Some (s\<lparr>trace := t'\<rparr>))" by (rule keeps_heap_trace [OF assms(1)])
  obtain as s3 where s3: "read_bars (pe_io env) (of_nat bus) (of_nat device) (of_nat fn) 6 (s\<lparr>trace := t'\<rparr>) = Some (as, s3)"
    "keeps_heap lo cs (s\<lparr>trace := t'\<rparr>) (Some s3)"
    using read_bars_keeps_heap [OF keeps_heap_state [OF k] assms(2)] by blast
  have "\<not> ((ucast ?c :: u16) = 0x8086 \<and> (ucast (drop_bit 16 ?c) :: u16) = 0x2829)" using assms(7) halves_of_word by blast
  then show ?thesis
    using k keeps_heap_trans [OF k s3(2)] s3(1) by (auto simp: enumerate_function_def t Let_def)
qed

lemma enumerate_device_keeps_heap:
  assumes "heap_rep s lo cs" and "amalloc 13 lo cs = Some (p, cs')" and "config_bridge (pe_io env) cfg"
    and "bus < 8" and "device < 32" and "\<forall>fn < 8. cfg bus device fn 0 \<noteq> 0x28298086"
  shows "keeps_heap lo cs s (enumerate_device env False bus device s)"
proof -
  obtain multi t where m: "has_functions (pe_io env) s (of_nat bus) (of_nat device) = (multi, s\<lparr>trace := t\<rparr>)"
    using pci_read_state [of "pe_io env" s "of_nat bus" "of_nat device" 0 "0x0E"] by (auto simp: has_functions_def case_prod_unfold Let_def)
  have k: "keeps_heap lo cs s (Some (s\<lparr>trace := t\<rparr>))" by (rule keeps_heap_trace [OF assms(1)])
  have "keeps_heap lo cs (s\<lparr>trace := t\<rparr>) (fold_opt (enumerate_function env False bus device) (if multi then 8 else 1) (s\<lparr>trace := t\<rparr>))"
    by (rule keeps_heap_fold_opt [OF keeps_heap_state [OF k]])
      (rule enumerate_function_keeps_heap [OF _ assms(2-5)]; use assms(6) in \<open>simp split: if_splits\<close>)
  then show ?thesis unfolding enumerate_device_def m by (simp add: keeps_heap_trans [OF k])
qed

lemma pci_enumerate_step:
  assumes "heap_rep s lo cs" and "amalloc 13 lo cs = Some (p, cs')" and "config_bridge (pe_io env) cfg"
    and "\<forall>bus < 8. \<forall>device < 32. \<forall>fn < 8. cfg bus device fn 0 \<noteq> 0x28298086"
  shows "keeps_heap lo cs s (pci_enumerate_devices env False s)"
  unfolding pci_enumerate_devices_def using assms(4)
  by (intro keeps_heap_fold_opt assms(1) enumerate_device_keeps_heap [OF _ assms(2,3)]) simp_all

text \<open>
  C39: Behind any bridge that decodes addresses as documented, whatever devices there are but the one AHCI
  controller the kernel drives, the enumeration, with its listing off as \<^verbatim>\<open>kernel_main\<close> calls it and room
  for a base address structure of 13 bytes in the heap, returns; the heap is the same list of chunks as before,
  nothing owned by a caller of the allocator and nothing outside the heap is written, and no other field
  of the state than memory and trace has changed.
\<close>

theorem pci_enumerate_keeps_heap:
  assumes "heap_rep s lo cs" and "amalloc 13 lo cs = Some (p, cs')" and "config_bridge (pe_io env) cfg"
    and "\<forall>bus < 8. \<forall>device < 32. \<forall>fn < 8. cfg bus device fn 0 \<noteq> 0x28298086"
  shows "\<exists>m t. pci_enumerate_devices env False s = Some (s\<lparr>phys := m, trace := t\<rparr>)
    \<and> heap_rep (s\<lparr>phys := m, trace := t\<rparr>) lo cs \<and> only_in (unowned lo cs) (phys s) m"
  using pci_enumerate_step [OF assms] unfolding keeps_heap_def .

text \<open>A bus with one graphics adapter in every slot, and a heap of 64 KiB.\<close>

fun vga_bridge :: io where
  "vga_bridge (Out32 p a # t) q = (if p = 0xCF8 \<and> q = 0xCFC then (if addr_register a = 0 then 0x11111234 else 0) else 0)"
| "vga_bridge t q = 0"

definition quiet_env :: pci_env where
  "quiet_env = \<lparr>pe_io = vga_bridge, pe_regs = \<lambda>_ _. 0, pe_foo = 0x8000, pe_port_base = 0x9000, pe_shr32 = id, pe_junk = 0\<rparr>"

lemma vga_bridge_config: "config_bridge vga_bridge (\<lambda>_ _ _ r. if r = 0 then 0x11111234 else 0)"
  by (simp add: config_bridge_def)

definition bus_kernel :: ahci where
  "bus_kernel = heap_init (drvs.extend (dl.extend (symtab.extend small_symtab (dl.fields [] 0)) (drvs.fields [] 0)) (ahci.fields 0 0))
     0x200000 0x10000"

theorem pci_enumerate_keeps_heap_witness:
  "\<exists>m t. pci_enumerate_devices quiet_env False bus_kernel = Some (bus_kernel\<lparr>phys := m, trace := t\<rparr>)
    \<and> heap_rep (bus_kernel\<lparr>phys := m, trace := t\<rparr>) 0x200000 [(0xFFF0, False)]"
proof -
  have rep: "heap_rep bus_kernel 0x200000 [(0xFFF0, False)]"
    unfolding bus_kernel_def using heap_init_rep [of "0x200000" "0x10000"] by simp
  have am: "amalloc 13 0x200000 [(0xFFF0, False)] = Some (0x200010, [(13, True), (0xFFD3, False)])" by simp
  have br: "config_bridge (pe_io quiet_env) (\<lambda>_ _ _ r. if r = 0 then 0x11111234 else 0)"
    using vga_bridge_config by (simp add: quiet_env_def)
  show ?thesis using pci_enumerate_keeps_heap [OF rep am br] by auto
qed

end
