(* ===== verification/Kernel_Up.thy ===== *)
theory Kernel_Up
  imports Kernel_Boot Pci_Enumerate Ps2_Controller Disk_Stack
begin

text \<open>
  Bringing the kernel up, \<open>kernel_init\<close> of \<^verbatim>\<open>Kernel_Main\<close>: \<^verbatim>\<open>kernel_main\<close> until its file system, against the
  devices of a PC as documented.  Each step either prints, writes its own tables, or works inside the
  heap, so that the components stay in order when they are composed.
\<close>

section \<open>Steps before the heap\<close>

text \<open>
  Such a step leaves the cursor on the screen, and of memory it writes only the screen and the literal
  of \<^verbatim>\<open>print_hex\<close>.
\<close>

definition quiet :: "u32 \<Rightarrow> ('a screen_scheme) \<Rightarrow> ('a screen_scheme) \<Rightarrow> bool" where
  "quiet foo s s' \<longleftrightarrow> cursor_ok s' \<and> hex_literal_ok foo s' \<and> same_but foo s s'"

lemma quiet_trans: "quiet foo s s1 \<Longrightarrow> quiet foo s1 s2 \<Longrightarrow> quiet foo s s2"
  by (simp add: quiet_def same_but_def)

lemma quiet_print:
  assumes "quiet foo s s1"
  shows "quiet foo s (print_literal s1 cs)" "quiet foo s (newline s1)" "quiet foo s (say msg s1)"
proof -
  have "quiet foo s (print_literal s1 cs)" for cs
    using prints_literal [of s1 foo cs] assms by (auto simp: quiet_def prints_def same_but_def)
  then show "quiet foo s (print_literal s1 cs)" "quiet foo s (newline s1)" "quiet foo s (say msg s1)"
    by (simp_all add: newline_def say_def)
qed

lemma quiet_other_fields:
  "quiet foo s s1 \<Longrightarrow> phys s2 = phys s1 \<Longrightarrow> scr_x s2 = scr_x s1 \<Longrightarrow> scr_y s2 = scr_y s1 \<Longrightarrow> quiet foo s s2"
  by (simp add: quiet_def same_but_def cursor_ok_def hex_literal_ok_def)

lemma quiet_clear:
  assumes "hex_literal_ok foo s"
  shows "quiet foo s (clear_screen s)"
proof -
  have "\<not> on_screen (foo + 2)" using assms by (auto simp: hex_literal_ok_def off_screen_def dest!: spec [of _ 2])
  then show ?thesis
    using assms by (auto simp: quiet_def cursor_ok_def hex_literal_ok_def same_but_def clear_screen_spec)
qed

text \<open>Printing leaves the tables alone; the rules for the fields the steps below speak of.\<close>

lemma screen_fields [simp]:
  fixes s :: "'a ahci_scheme"
  shows "max_blocks (newline s) = max_blocks s" "used_blocks (newline s) = used_blocks s"
    "interrupt_handers (newline s) = interrupt_handers s" "handlers (newline s) = handlers s" "drivers (newline s) = drivers s"
    "max_blocks (say msg s) = max_blocks s" "used_blocks (say msg s) = used_blocks s"
    "interrupt_handers (say msg s) = interrupt_handers s" "handlers (say msg s) = handlers s" "drivers (say msg s) = drivers s"
    "max_blocks (clear_screen s) = max_blocks s" "used_blocks (clear_screen s) = used_blocks s"
    "handlers (clear_screen s) = handlers s" "drivers (clear_screen s) = drivers s"
proof -
  have b: "blind (newline s) = blind s" "blind (say msg s) = blind s" "blind (clear_screen s) = blind s"
    by (simp_all add: newline_def say_def)
  note f = blind_same_fields(1) [OF b(1)] blind_same_fields(1) [OF b(2)] blind_same_fields(1) [OF b(3)]
    blind_same_tables [OF b(1)] blind_same_tables [OF b(2)] blind_same_tables [OF b(3)]
  then show "max_blocks (newline s) = max_blocks s" "used_blocks (newline s) = used_blocks s"
    "interrupt_handers (newline s) = interrupt_handers s" "handlers (newline s) = handlers s" "drivers (newline s) = drivers s"
    "max_blocks (say msg s) = max_blocks s" "used_blocks (say msg s) = used_blocks s"
    "interrupt_handers (say msg s) = interrupt_handers s" "handlers (say msg s) = handlers s" "drivers (say msg s) = drivers s"
    "max_blocks (clear_screen s) = max_blocks s" "used_blocks (clear_screen s) = used_blocks s"
    "handlers (clear_screen s) = handlers s" "drivers (clear_screen s) = drivers s"
    by (simp_all add: same_fields_def same_tables_def)
qed

section \<open>The processor's tables\<close>

lemma segments_fields:
  "\<exists>a b c t. segments_install_gdt entries_addr tss_addr s = Some (s\<lparr>g_gdt := a, gdt_entries := b, g_tss := c, trace := t\<rparr>)"
  by (simp add: segments_install_gdt_def gdt_set_entry_def Let_def segments_load_gdt_def segments_load_registers_def cpu_def)
    (intro exI, rule refl)

lemma install_idt_fields:
  "\<exists>a b t. install_idt stub table s = s\<lparr>interrupt_handers := replicate 256 0, idt_descriptors := a, idt := b, trace := t\<rparr>"
proof -
  have "\<exists>a. fold (\<lambda>n s. interrupts_init_descriptor s n (stub n)) vs s = s\<lparr>idt_descriptors := a\<rparr>" for vs and s :: "'a intr_scheme"
  proof (induction vs arbitrary: s)
    case Nil
    show ?case by (intro exI [of _ "idt_descriptors s"]) simp
  next
    case (Cons v vs)
    from Cons.IH [of "interrupts_init_descriptor s v (stub v)"] show ?case by (simp add: interrupts_init_descriptor_def)
  qed
  from this [of gate_vectors "s\<lparr>interrupt_handers := replicate 256 0\<rparr>"]
  show ?thesis by (elim exE) (simp add: install_idt_def Let_def pic_remap_def outb_def cpu_def, intro exI, rule refl)
qed

text \<open>The first steps return; the system call interrupt and two system calls have their handlers.\<close>

lemma install_tables_step:
  fixes s :: "'a ahci_scheme"
  assumes "hex_literal_ok foo s"
  obtains s' where "install_tables env s = Some s'" "quiet foo s s'"
    "max_blocks s' = max_blocks s" "used_blocks s' = used_blocks s" "drivers s' = drivers s"
    "interrupt_handers s' = (replicate 256 0)[0x80 := be_function env ''syscall'']"
    "handlers s' = (handlers s)[4 := be_function env ''syscall_write'', 80 := be_function env ''kernel_switch_back'']"
proof -
  define s1 where "s1 = newline (say ''<Mercury> Loading Mercury kernel... '' (clear_screen s))"
  obtain a b c t where s2: "segments_install_gdt (be_gdt_entries env) (be_tss env) s1
    = Some (s1\<lparr>g_gdt := a, gdt_entries := b, g_tss := c, trace := t\<rparr>)" using segments_fields by blast
  let ?s2 = "s1\<lparr>g_gdt := a, gdt_entries := b, g_tss := c, trace := t\<rparr>"
  obtain a' b' t' where s3: "install_idt (be_stub env) (be_idt_table env) ?s2
    = ?s2\<lparr>interrupt_handers := replicate 256 0, idt_descriptors := a', idt := b', trace := t'\<rparr>" using install_idt_fields by blast
  define s3 where "s3 = ?s2\<lparr>interrupt_handers := replicate 256 0, idt_descriptors := a', idt := b', trace := t'\<rparr>"
  define s4 where "s4 = newline (say ''<Mercury> Registering syscalls'' s3)"
  define s' where "s' = register_syscall_handler (register_syscall_handler (register_interrupt_handler
    (fd_init (be_function env ''syscall_printf'') s4) 0x80 (be_function env ''syscall'')) 4 (be_function env ''syscall_write''))
    80 (be_function env ''kernel_switch_back'')"
  have "quiet foo s s1" unfolding s1_def by (intro quiet_print quiet_clear assms)
  then have "quiet foo s s3" by (rule quiet_other_fields) (simp_all add: s3_def)
  then have q4: "quiet foo s s4" unfolding s4_def by (intro quiet_print)
  have run: "install_tables env s = Some s'"
    unfolding install_tables_def by (simp add: s1_def [symmetric] s2 s3 s3_def [symmetric] s4_def [symmetric] s'_def [symmetric])
  show ?thesis
  proof (rule that [OF run])
    show "quiet foo s s'"
      by (rule quiet_other_fields [OF q4])
        (simp_all add: s'_def register_syscall_handler_def register_interrupt_handler_def fd_init_def Let_def)
  qed (simp_all add: s'_def s4_def s3_def s1_def register_syscall_handler_def register_interrupt_handler_def fd_init_def Let_def)
qed

section \<open>The disks\<close>

text \<open>A drive settles: at any time, finitely many status reads later, it is not busy or reports an error.\<close>

fun status_after :: "io \<Rightarrow> nat \<Rightarrow> cpu_event list \<Rightarrow> u8" where
  "status_after io 0 t = ucast (io t 0x1F7)"
| "status_after io (Suc n) t = status_after io n (In8 0x1F7 (ucast (io t 0x1F7)) # t)"

definition settles :: "io \<Rightarrow> bool" where
  "settles io \<longleftrightarrow> (\<forall>t. \<exists>n. \<not> still_busy (status_after io n t))"

lemma ata_wait_settled:
  "\<not> still_busy (status_after io n (trace s)) \<Longrightarrow> \<exists>v' t. ata_wait io 0x1F0 s v = Some (v', s\<lparr>trace := t\<rparr>)"
proof (induction n arbitrary: s v)
  case 0
  let ?v = "ucast (io (trace s) 0x1F7) :: u8"
  have i: "inb io s 0x1F7 = (?v, s\<lparr>trace := In8 0x1F7 ?v # trace s\<rparr>)" by (simp add: inb_def cpu_def Let_def)
  have "ata_wait io 0x1F0 (s\<lparr>trace := u\<rparr>) ?v = Some (?v, s\<lparr>trace := u\<rparr>)" for u
    using 0 by (subst ata_wait.simps) (auto simp: still_busy_def)
  moreover have "s\<lparr>trace := trace s\<rparr> = s" by simp
  ultimately show ?case by (subst ata_wait.simps) (auto simp: i intro: exI [of _ "trace s"])
next
  case (Suc n)
  let ?v = "ucast (io (trace s) 0x1F7) :: u8" and ?s = "s\<lparr>trace := In8 0x1F7 (ucast (io (trace s) 0x1F7)) # trace s\<rparr>"
  have i: "inb io s 0x1F7 = (?v, ?s)" by (simp add: inb_def cpu_def Let_def)
  have "\<exists>v' t. ata_wait io 0x1F0 ?s ?v = Some (v', ?s\<lparr>trace := t\<rparr>)" using Suc.prems by (intro Suc.IH) simp
  moreover have "s\<lparr>trace := trace s\<rparr> = s" by simp
  ultimately show ?case by (subst ata_wait.simps) (auto simp: i intro: exI [of _ "trace s"])
qed

lemma skip_words_trace: "\<exists>t. skip_words n io port s = s\<lparr>trace := t\<rparr>"
proof (induction n arbitrary: s)
  case 0
  show ?case by (intro exI [of _ "trace s"]) simp
next
  case (Suc n)
  from Suc.IH [of "snd (inw io s port)"] show ?case by (simp add: inw_def cpu_def Let_def)
qed

lemma identify_disk_returns:
  assumes "settles io"
  obtains present t where "identify_disk io s (init_disk 0x1F0 master) = Some (present, s\<lparr>trace := t\<rparr>)"
proof -
  have w: "\<exists>v' t'. ata_wait io 0x1F0 (s\<lparr>trace := u\<rparr>) v = Some (v', s\<lparr>trace := t'\<rparr>)" for u v
  proof -
    obtain n where "\<not> still_busy (status_after io n u)" using assms by (auto simp: settles_def)
    then show ?thesis using ata_wait_settled [of io n "s\<lparr>trace := u\<rparr>" v] by simp
  qed
  have tail: "\<exists>present t. Option.bind (ata_wait io 0x1F0 (s\<lparr>trace := u\<rparr>) v)
      (\<lambda>(status, s12). if status AND 1 \<noteq> 0 then Some (False, s12) else Some (True, skip_words 256 io 0x1F0 s12))
      = Some (present, s\<lparr>trace := t\<rparr>)" for u v
  proof -
    obtain v' t' where "ata_wait io 0x1F0 (s\<lparr>trace := u\<rparr>) v = Some (v', s\<lparr>trace := t'\<rparr>)" using w by blast
    then show ?thesis using skip_words_trace [of 256 io "0x1F0" "s\<lparr>trace := t'\<rparr>"] by (cases "v' AND 1 = 0") auto
  qed
  let ?sel = "if master then 0xA0 else 0xB0 :: u8"
  have out: "\<exists>t. outb (outb (outb s a v) a' v') a'' v'' = s\<lparr>trace := t\<rparr>" for a v a' v' a'' v'' and s :: "'a machine_scheme"
    by (simp add: outb_def cpu_def) (intro exI, rule refl)
  have out2: "\<exists>t. outb (outb (outb (outb (outb (outb (s\<lparr>trace := u\<rparr>) a v) a' v') a'' v'') b w) b' w') b'' w'' = s\<lparr>trace := t\<rparr>"
    for u a v a' v' a'' v'' b w b' w' b'' w''
    by (simp add: outb_def cpu_def) (intro exI, rule refl)
  obtain t1 where t1: "outb (outb (outb s 0x1F6 ?sel) 0x3F6 0) 0x1F6 0xA0 = s\<lparr>trace := t1\<rparr>"
    using out [of s] by blast
  have inb: "\<exists>v t. inb io (s\<lparr>trace := u\<rparr>) 0x1F7 = (v, s\<lparr>trace := t\<rparr>)" for u
    by (simp add: inb_def cpu_def Let_def) (intro exI, rule refl)
  obtain v1 t2 where t2: "inb io (s\<lparr>trace := t1\<rparr>) 0x1F7 = (v1, s\<lparr>trace := t2\<rparr>)" using inb by blast
  obtain t3 where t3: "outb (outb (outb (outb (outb (outb (s\<lparr>trace := t2\<rparr>) 0x1F6 ?sel) 0x1F2 0) 0x1F3 0) 0x1F4 0) 0x1F5 0) 0x1F7 0xEC
      = s\<lparr>trace := t3\<rparr>" using out2 by blast
  obtain v2 t4 where t4: "inb io (s\<lparr>trace := t3\<rparr>) 0x1F7 = (v2, s\<lparr>trace := t4\<rparr>)" using inb by blast
  have i: "identify_disk io s (init_disk 0x1F0 master) =
      (if v1 = 0xFF then Some (False, s\<lparr>trace := t2\<rparr>) else if v2 = 0 then Some (False, s\<lparr>trace := t4\<rparr>)
       else Option.bind (ata_wait io 0x1F0 (s\<lparr>trace := t4\<rparr>) v2)
         (\<lambda>(status, s12). if status AND 1 \<noteq> 0 then Some (False, s12) else Some (True, skip_words 256 io 0x1F0 s12)))"
    by (simp add: identify_disk_def init_disk_def Let_def t1 t2 t3 t4 del: if_split)
  have "\<exists>present t. identify_disk io s (init_disk 0x1F0 master) = Some (present, s\<lparr>trace := t\<rparr>)"
    unfolding i using tail [of t4 v2] by auto
  then show ?thesis using that by blast
qed

lemma select_disk_step:
  fixes s :: "'a ahci_scheme"
  assumes "settles io" and "quiet foo s0 s"
  obtains s' where "select_disk io master nm s = Some s'" "quiet foo s0 s'" "max_blocks s' = max_blocks s"
    "used_blocks s' = used_blocks s" "interrupt_handers s' = interrupt_handers s" "handlers s' = handlers s" "drivers s' = drivers s"
proof -
  obtain present t where i: "identify_disk io s (init_disk 0x1F0 master) = Some (present, s\<lparr>trace := t\<rparr>)"
    by (rule identify_disk_returns [OF assms(1)])
  have q: "quiet foo s0 (s\<lparr>trace := t\<rparr>)" by (rule quiet_other_fields [OF assms(2)]) simp_all
  show ?thesis
  proof (cases present)
    case False
    then show ?thesis using i q by (intro that [of "s\<lparr>trace := t\<rparr>"]) (simp_all add: select_disk_def Let_def)
  next
    case True
    let ?s1 = "newline (say (''<Mercury> Selected '' @ nm @ '' as default disk'') (s\<lparr>trace := t\<rparr>))"
    have q1: "quiet foo s0 ?s1" by (intro quiet_print q)
    show ?thesis
    proof (rule that [of "?s1\<lparr>g_default_disk := Some (init_disk 0x1F0 master)\<rparr>"])
      show "quiet foo s0 (?s1\<lparr>g_default_disk := Some (init_disk 0x1F0 master)\<rparr>)"
        by (rule quiet_other_fields [OF q1]) simp_all
    qed (use True i in \<open>simp_all add: select_disk_def Let_def\<close>)
  qed
qed

section \<open>Steps over the heap\<close>

text \<open>Such a step keeps the heap, and of memory it writes only the screen and what the heap has not given out.\<close>

definition runs :: "achunk list \<Rightarrow> ('a ahci_scheme) \<Rightarrow> ('a ahci_scheme) \<Rightarrow> bool" where
  "runs cs s s' \<longleftrightarrow> heap_rep s' 0x200000 cs \<and> cursor_ok s'
     \<and> only_in ({x. on_screen x} \<union> unowned 0x200000 cs) (phys s) (phys s')
     \<and> current_page_directory s' = current_page_directory s"

lemma runs_print:
  assumes "runs cs s s1"
  shows "runs cs s (print_literal s1 xs)" "runs cs s (newline s1)" "runs cs s (say msg s1)"
proof -
  have "runs cs s (print_literal s1 xs)" for xs
  proof -
    let ?s = "print_literal s1 xs"
    have ok: "cursor_ok ?s" "same_beyond s1 ?s" using print_literal_ok assms by (auto simp: runs_def)
    have b: "blind ?s = blind s1" by simp
    have "heap_rep (s1\<lparr>phys := phys ?s\<rparr>) 0x200000 cs"
      by (rule heap_rep_frame [of s1]) (use assms ok(2) in \<open>auto simp: runs_def same_beyond_def on_screen_def dest!: hdrs_bounds\<close>)
    then have "heap_rep ?s 0x200000 cs"
      by (rule iffD1 [OF heap_rep_cong, rotated 2]) (simp_all add: blind_same_fields(2) [OF b])
    moreover have "current_page_directory x = current_page_directory (blind x)" for x :: "'a ahci_scheme" by (simp add: blind_def)
    then have "current_page_directory ?s = current_page_directory s1" using b by metis
    ultimately show ?thesis using assms ok by (auto simp: runs_def only_in_def same_beyond_def)
  qed
  then show "runs cs s (print_literal s1 xs)" "runs cs s (newline s1)" "runs cs s (say msg s1)"
    by (simp_all add: newline_def say_def)
qed

lemma runs_other_fields:
  "runs cs s s1 \<Longrightarrow> phys s2 = phys s1 \<Longrightarrow> first s2 = first s1 \<Longrightarrow> scr_x s2 = scr_x s1 \<Longrightarrow> scr_y s2 = scr_y s1
    \<Longrightarrow> current_page_directory s2 = current_page_directory s1 \<Longrightarrow> runs cs s s2"
  using heap_rep_cong [of s2 s1] by (simp add: runs_def cursor_ok_def)

lemma runs_keeps_heap:
  assumes "runs cs s s1" and "keeps_heap 0x200000 cs s1 (Some s2)"
  shows "runs cs s s2"
  using assms only_in_trans [of "{x. on_screen x} \<union> unowned 0x200000 cs" "phys s" "phys s1" "phys s2"]
    only_in_mono [of "unowned 0x200000 cs" "phys s1" "phys s2" "{x. on_screen x} \<union> unowned 0x200000 cs"]
  by (auto simp: runs_def keeps_heap_def cursor_ok_def)

section \<open>The drivers\<close>

text \<open>The keyboard driver returns against a documented controller, whatever state the controller is in.\<close>

lemma ps2_kb_enable_step:
  assumes "answers_as io ready k"
  shows "\<exists>t. ps2_kb_enable io h s = Some ((register_interrupt_handler s 0x21 h)\<lparr>trace := t\<rparr>)"
proof -
  let ?s = "register_interrupt_handler s 0x21 h"
  obtain t where "ps2_drain io ?s = Some (?s\<lparr>trace := t\<rparr>)" using ps2_drain_empties [OF assms] by blast
  then show ?thesis by (simp add: ps2_kb_enable_def Let_def outb_def inb_def cpu_def) (intro exI, rule refl)
qed

text \<open>The keyboard's entry in the driver table.\<close>

definition keyboard_driver :: "boot_env \<Rightarrow> driver" where
  "keyboard_driver env = \<lparr>interrupt = be_interrupt_junk env, drv_name = be_literal env ''PS2-KB'', drv_type = KEYBOARD, init_handle = 0,
     enable_handler = be_function env ''ps2_kb_enable'', disbale_handler = be_function env ''ps2_kb_disable'', enabled = True, drv_id = 0\<rparr>"

lemma enable_keyboard_step:
  fixes s :: "'a ahci_scheme"
  assumes "runs cs s0 s" and "length (drivers s) = 64" and "answers_as (pe_io (be_pci env)) ready k"
    and "cstring (phys s) (be_literal env ''PS2-KB'') (literal ''PS2-KB'')" and "off_screen (be_literal env ''PS2-KB'') (length (literal ''PS2-KB''))"
  obtains s1 s2 where "create_driver (driver_code env) (be_interrupt_junk env) (init_drivers s) (be_literal env ''PS2-KB'') KEYBOARD 0
      (be_function env ''ps2_kb_enable'') (be_function env ''ps2_kb_disable'') = Some (0, s1)"
    "enable_driver (driver_code env) s1 0 = Some s2" "runs cs s0 s2" "drivers s2 = (drivers s)[0 := keyboard_driver env]"
    "interrupt_handers s2 = (interrupt_handers s)[0x21 := be_function env ''handle_interrupt'']" "handlers s2 = handlers s"
proof -
  let ?h = "be_function env ''handle_interrupt''"
  define s1 where "s1 = s\<lparr>drivers := (drivers s)[0 := (keyboard_driver env)\<lparr>enabled := False\<rparr>], driver_index := 1\<rparr>"
  have c: "create_driver (driver_code env) (be_interrupt_junk env) (init_drivers s) (be_literal env ''PS2-KB'') KEYBOARD 0
      (be_function env ''ps2_kb_enable'') (be_function env ''ps2_kb_disable'') = Some (0, s1)"
    by (simp add: create_driver_def init_drivers_def set_driver_def Let_def s1_def keyboard_driver_def)
  define s2 where "s2 = s1\<lparr>drivers := (drivers s)[0 := keyboard_driver env]\<rparr>"
  obtain t where t: "ps2_kb_enable (pe_io (be_pci env)) ?h s2 = Some ((register_interrupt_handler s2 0x21 ?h)\<lparr>trace := t\<rparr>)"
    using ps2_kb_enable_step [OF assms(3)] by blast
  define s3 where "s3 = (register_interrupt_handler s2 0x21 ?h)\<lparr>trace := t\<rparr>"
  have r3: "runs cs s0 s3"
    by (rule runs_other_fields [OF assms(1)]) (simp_all add: s3_def s2_def s1_def register_interrupt_handler_def)
  define s4 where "s4 = print_literal s3 (literal (''<Mercury> Driver '' @ [CHR 0x27]))"
  have r4: "runs cs s0 s4" unfolding s4_def by (rule runs_print [OF r3])
  have "cursor_ok s3" using r3 by (simp add: runs_def)
  then have "same_beyond s3 s4" unfolding s4_def using print_literal_ok by blast
  then have "cstring (phys s4) (be_literal env ''PS2-KB'') (literal ''PS2-KB'')"
    by (intro cstring_cong [OF assms(4)])
      (use assms(5) in \<open>simp add: same_beyond_def off_screen_def s3_def s2_def s1_def register_interrupt_handler_def\<close>)
  then have p: "printf s4 (be_literal env ''PS2-KB'') = Some (print_literal s4 (literal ''PS2-KB''))"
    using r4 assms(5) by (intro printf_cstring) (simp_all add: runs_def)
  define s6 where "s6 = print_literal (print_literal s4 (literal ''PS2-KB'')) (literal ([CHR 0x27] @ '' enabled '' @ [CHR 0x0A]))"
  have b: "blind s4 = blind s3" "blind s6 = blind s3" by (simp_all add: s6_def s4_def)
  note f4 = blind_same_fields(1) [OF b(1)] blind_same_tables [OF b(1)] and f6 = blind_same_fields(1) [OF b(2)] blind_same_tables [OF b(2)]
  have d: "drivers s3 = (drivers s)[0 := keyboard_driver env]" by (simp add: s3_def s2_def register_interrupt_handler_def)
  have sd: "set_driver s1 0 ((drivers s1 ! unat (0 :: u8))\<lparr>enabled := True\<rparr>) = Some s2"
    using assms(2) by (simp add: set_driver_def s2_def s1_def keyboard_driver_def)
  have rn: "driver_code env (enable_handler (drivers s2 ! unat (0 :: u8))) s2 = Some s3"
    using assms(2) t by (simp add: driver_code_def s2_def [THEN arg_cong, of drivers] s1_def keyboard_driver_def s3_def)
  have nm: "drv_name (drivers s4 ! unat (0 :: u8)) = be_literal env ''PS2-KB''"
    using f4(2) d assms(2) by (simp add: same_tables_def keyboard_driver_def)
  have e: "enable_driver (driver_code env) s1 0 = Some s6"
    unfolding enable_driver_def sd rn Option.bind.simps Let_def s4_def [symmetric] nm p s6_def [symmetric] ..
  have "runs cs s0 s6" unfolding s6_def by (intro runs_print r4)
  then show ?thesis
    using f6 d by (intro that [OF c e]) (simp_all add: same_fields_def same_tables_def s3_def s2_def s1_def register_interrupt_handler_def)
qed

lemma start_drivers_step:
  fixes s :: "'a ahci_scheme"
  assumes "heap_rep s 0x200000 cs" and "cursor_ok s" and "length (drivers s) = 64"
    and "cstring (phys s) (be_literal env ''PS2-KB'') (literal ''PS2-KB'')" and "off_screen (be_literal env ''PS2-KB'') (length (literal ''PS2-KB''))"
    and "amalloc 13 0x200000 cs = Some (p, cs')" and "answers_as (pe_io (be_pci env)) ready k" and "config_bridge (pe_io (be_pci env)) cfg"
    and "\<forall>bus < 8. \<forall>device < 32. \<forall>fn < 8. cfg bus device fn 0 \<noteq> 0x28298086"
  obtains s' where "start_drivers env s = Some s'" "runs cs s s'" "drivers s' = (drivers s)[0 := keyboard_driver env]"
    "interrupt_handers s' = (interrupt_handers s)[0x21 := be_function env ''handle_interrupt'']" "handlers s' = handlers s"
proof -
  have "runs cs s s" using assms(1,2) by (simp add: runs_def)
  from enable_keyboard_step [OF this assms(3,7,4,5)] obtain s1 s2 where e:
    "create_driver (driver_code env) (be_interrupt_junk env) (init_drivers s) (be_literal env ''PS2-KB'') KEYBOARD 0
      (be_function env ''ps2_kb_enable'') (be_function env ''ps2_kb_disable'') = Some (0, s1)"
    "enable_driver (driver_code env) s1 0 = Some s2" "runs cs s s2" "drivers s2 = (drivers s)[0 := keyboard_driver env]"
    "interrupt_handers s2 = (interrupt_handers s)[0x21 := be_function env ''handle_interrupt'']" "handlers s2 = handlers s" by blast
  define s3 where "s3 = newline (say ''<Mercury> Searching PCI deivce drivers'' s2)"
  have r3: "runs cs s s3" unfolding s3_def by (intro runs_print e(3))
  then have "heap_rep s3 0x200000 cs" by (simp add: runs_def)
  from pci_enumerate_step [OF this assms(6,8,9)] obtain m t where p:
    "pci_enumerate_devices (be_pci env) False s3 = Some (s3\<lparr>phys := m, trace := t\<rparr>)"
    "keeps_heap 0x200000 cs s3 (Some (s3\<lparr>phys := m, trace := t\<rparr>))" by (auto simp: keeps_heap_def)
  have "runs cs s (newline (say ''<Mercury> PCI Initialization done'' (s3\<lparr>phys := m, trace := t\<rparr>)))"
    by (intro runs_print runs_keeps_heap [OF r3 p(2)])
  moreover have "start_drivers env s = Some (newline (say ''<Mercury> PCI Initialization done'' (s3\<lparr>phys := m, trace := t\<rparr>)))"
    by (simp add: start_drivers_def e(1,2) s3_def [symmetric] p(1) Let_def)
  ultimately show ?thesis using that e(4-6) by (simp add: s3_def)
qed

section \<open>The whole\<close>

lemma tables_and_disks:
  fixes s :: "'a ahci_scheme"
  assumes "settles (pe_io (be_pci env))" and "hex_literal_ok foo s"
  obtains s1 s2 s3 where "install_tables env s = Some s1" "select_disk (pe_io (be_pci env)) True ''ata0m'' s1 = Some s2"
    "select_disk (pe_io (be_pci env)) False ''ata0s'' s2 = Some s3" "cursor_ok s3" "hex_literal_ok foo s3"
    "only_in (boot_places foo) (phys s) (phys s3)" "max_blocks s3 = max_blocks s" "used_blocks s3 = used_blocks s" "drivers s3 = drivers s"
    "interrupt_handers s3 = (replicate 256 0)[0x80 := be_function env ''syscall'']"
    "handlers s3 = (handlers s)[4 := be_function env ''syscall_write'', 80 := be_function env ''kernel_switch_back'']"
proof -
  obtain s1 where s1: "install_tables env s = Some s1" "quiet foo s s1"
    "max_blocks s1 = max_blocks s" "used_blocks s1 = used_blocks s" "drivers s1 = drivers s"
    "interrupt_handers s1 = (replicate 256 0)[0x80 := be_function env ''syscall'']"
    "handlers s1 = (handlers s)[4 := be_function env ''syscall_write'', 80 := be_function env ''kernel_switch_back'']"
    by (rule install_tables_step [OF assms(2)])
  obtain s2 where s2: "select_disk (pe_io (be_pci env)) True ''ata0m'' s1 = Some s2" "quiet foo s s2" "max_blocks s2 = max_blocks s1"
    "used_blocks s2 = used_blocks s1" "interrupt_handers s2 = interrupt_handers s1" "handlers s2 = handlers s1" "drivers s2 = drivers s1"
    by (rule select_disk_step [OF assms(1) s1(2)])
  obtain s3 where s3: "select_disk (pe_io (be_pci env)) False ''ata0s'' s2 = Some s3" "quiet foo s s3" "max_blocks s3 = max_blocks s2"
    "used_blocks s3 = used_blocks s2" "interrupt_handers s3 = interrupt_handers s2" "handlers s3 = handlers s2" "drivers s3 = drivers s2"
    by (rule select_disk_step [OF assms(1) s2(2)])
  have "only_in (boot_places foo) (phys s) (phys s3)"
    using s3(2) by (auto simp: quiet_def same_but_def only_in_def boot_places_def)
  then show ?thesis using that [OF s1(1) s2(1) s3(1)] s3 s2 s1 by (simp add: quiet_def)
qed

text \<open>
  C40: On a PC whose disks settle, whose keyboard controller and PCI bridge behave as documented, in any
  state and with any devices but the one AHCI controller, \<open>kernel_init\<close> returns: the heap is well-formed with
  the symbol table its one block, the first 4 MiB are mapped to themselves, page faults, the keyboard and
  system calls have the kernel's handlers and no other interrupt has one, the keyboard is the enabled driver
  0; of memory only the screen, two bytes of a literal, page 0 and the heap are written.
\<close>

theorem kernel_init_returns:
  fixes s :: "'a ahci_scheme"
  assumes "settles (pe_io (be_pci env))" and "answers_as (pe_io (be_pci env)) ready k" and "config_bridge (pe_io (be_pci env)) cfg"
    and "\<forall>bus < 8. \<forall>device < 32. \<forall>fn < 8. cfg bus device fn 0 \<noteq> 0x28298086"
    and "hex_literal_ok (pe_foo (be_pci env)) s" and "4096 \<le> unat (pe_foo (be_pci env))" and "unat (pe_foo (be_pci env)) + 2 < 0x200000"
    and "max_blocks s = 0" and "used_blocks s = 0" and "length (drivers s) = 64"
    and "literals_ok (phys s) (boot_places (pe_foo (be_pci env))) (be_literal env) ((''PS2-KB'', '''') # kernel_symbols)"
  shows "\<exists>s'. kernel_init env s = Some s' \<and> heap_rep s' 0x200000 [(2048, True), (0x1FF7E0, False)]
    \<and> current_page_directory s' = 0 \<and> (\<forall>v. unat v < 0x400000 \<longrightarrow> translate (phys s') 0 v = Some v)
    \<and> interrupt_handers s' = (replicate 256 0)[0x80 := be_function env ''syscall'', 14 := be_function env ''handle_page_fault'',
        0x21 := be_function env ''handle_interrupt'']
    \<and> handlers s' = (handlers s)[4 := be_function env ''syscall_write'', 80 := be_function env ''kernel_switch_back'']
    \<and> drivers s' = (drivers s)[0 := keyboard_driver env]
    \<and> cursor_ok s' \<and> only_in (boot_places (pe_foo (be_pci env))) (phys s) (phys s')"
proof -
  define foo where "foo = pe_foo (be_pci env)"
  note a = assms(5-7,11) [folded foo_def]
  obtain s1 s2 s3 where s3: "install_tables env s = Some s1" "select_disk (pe_io (be_pci env)) True ''ata0m'' s1 = Some s2"
    "select_disk (pe_io (be_pci env)) False ''ata0s'' s2 = Some s3" "cursor_ok s3" "hex_literal_ok foo s3"
    "only_in (boot_places foo) (phys s) (phys s3)" "max_blocks s3 = max_blocks s" "used_blocks s3 = used_blocks s" "drivers s3 = drivers s"
    "interrupt_handers s3 = (replicate 256 0)[0x80 := be_function env ''syscall'']"
    "handlers s3 = (handlers s)[4 := be_function env ''syscall_write'', 80 := be_function env ''kernel_switch_back'']"
    by (rule tables_and_disks [OF assms(1) a(1)])
  have lit3: "literals_ok (phys s3) (boot_places foo) (be_literal env) kernel_symbols"
    using literals_ok_only_in [OF a(4) s3(6)] by (simp add: literals_ok_def)
  obtain s4 where s4: "init_memory env s3 = Some s4" "heap_rep s4 0x200000 [(2048, True), (0x1FF7E0, False)]" "cursor_ok s4"
    "same_tables s3 s4" "\<exists>m. \<forall>x. unat x < 4096 \<longrightarrow> phys s4 x = booted_tables m x" "current_page_directory s4 = 0"
    "interrupt_handers s4 = (interrupt_handers s3)[14 := be_function env ''handle_page_fault'']"
    "only_in (boot_places foo) (phys s3) (phys s4)"
    using init_memory_step [of s3 env, folded foo_def] s3 a assms(8,9) lit3 by auto
  have o4: "only_in (boot_places foo) (phys s) (phys s4)" by (rule only_in_trans [OF s3(6) s4(8)])
  have am: "amalloc 13 0x200000 [(2048, True), (0x1FF7E0, False)] = Some (0x200820, [(2048, True), (13, True), (0x1FF7C3, False)])"
    by simp
  have "length (drivers s4) = 64" using s4(4) s3(9) assms(10) by (simp add: same_tables_def)
  moreover have "cstring (phys s4) (be_literal env ''PS2-KB'') (literal ''PS2-KB'')"
    "off_screen (be_literal env ''PS2-KB'') (length (literal ''PS2-KB''))"
    using literals_ok_only_in [OF a(4) o4] a(4) by (auto simp: literals_ok_def away_def off_screen_def boot_places_def less_Suc_eq_le)
  ultimately obtain s5 where s5: "start_drivers env s4 = Some s5" "runs [(2048, True), (0x1FF7E0, False)] s4 s5"
    "drivers s5 = (drivers s4)[0 := keyboard_driver env]"
    "interrupt_handers s5 = (interrupt_handers s4)[0x21 := be_function env ''handle_interrupt'']" "handlers s5 = handlers s4"
    using start_drivers_step [OF s4(2,3) _ _ _ am assms(2,3,4)] by blast
  have run: "kernel_init env s = Some s5" by (simp add: kernel_init_def s3(1-3) s4(1) s5(1))
  have W: "{x. on_screen x} \<union> unowned 0x200000 [(2048, True), (0x1FF7E0, False)] \<subseteq> boot_places foo"
    by (auto simp: boot_places_def unowned_def)
  have "only_in (boot_places foo) (phys s4) (phys s5)" using only_in_mono [OF _ W] s5(2) by (simp add: runs_def)
  then have o: "only_in (boot_places foo) (phys s) (phys s5)" by (rule only_in_trans [OF o4])
  obtain m where "\<forall>x. unat x < 4096 \<longrightarrow> phys s4 x = booted_tables m x" using s4(5) by blast
  then have "phys s5 x = booted_tables m x" if "unat x < 4096" for x
    using s5(2) that by (simp add: runs_def only_in_def unowned_def on_screen_def)
  then have "translate (phys s5) 0 v = Some v" if "unat v < 0x400000" for v using that by (rule booted_identity)
  moreover have "interrupt_handers s5 = (replicate 256 0)[0x80 := be_function env ''syscall'', 14 := be_function env ''handle_page_fault'',
      0x21 := be_function env ''handle_interrupt'']" by (simp only: s5(4) s4(7) s3(10))
  moreover have "handlers s5 = (handlers s)[4 := be_function env ''syscall_write'', 80 := be_function env ''kernel_switch_back'']"
    "drivers s5 = (drivers s)[0 := keyboard_driver env]"
    using s5(3,5) s4(4) s3(9,11) by (simp_all add: same_tables_def)
  ultimately show ?thesis
    using run s5(2) s4(6) o by (intro exI [of _ s5]) (simp add: runs_def foo_def)
qed

section \<open>Witness\<close>

text \<open>
  A PC: no disk is ever busy, the keyboard controller holds two bytes, every slot of the bus a graphics
  adapter; the names as before, and that of the keyboard driver behind them.
\<close>

definition pc_io :: io where
  "pc_io t q = (if q = 0xCFC then vga_bridge t q else if q = 0x60 \<or> q = 0x64 then i8042_io (\<lambda>_. True) waiting_i8042 t q else 0)"

definition pc_env :: boot_env where
  "pc_env = names_env\<lparr>be_pci := (be_pci names_env)\<lparr>pe_io := pc_io\<rparr>, be_literal := names_addr(''PS2-KB'' := 0x10280)\<rparr>"

definition pc_mem :: mem where
  "pc_mem = names_mem(0x10280 := 0x50, 0x10281 := 0x53, 0x10282 := 0x32, 0x10283 := 0x2D, 0x10284 := 0x4B, 0x10285 := 0x42, 0x10286 := 0)"

definition pc_boot :: ahci where
  "pc_boot = names_boot\<lparr>phys := pc_mem, drivers := replicate 64 (keyboard_driver pc_env)\<rparr>"

lemma pc_devices: "settles pc_io" "answers_as pc_io (\<lambda>_. True) waiting_i8042" "config_bridge pc_io (\<lambda>_ _ _ r. if r = 0 then 0x11111234 else 0)"
proof -
  have "\<not> still_busy (status_after pc_io 0 t)" for t by (simp add: pc_io_def still_busy_def)
  then show "settles pc_io" unfolding settles_def by blast
  show "answers_as pc_io (\<lambda>_. True) waiting_i8042"
    using i8042_io_answers [of "\<lambda>_. True" waiting_i8042] by (simp add: answers_as_def pc_io_def)
  show "config_bridge pc_io (\<lambda>_ _ _ r. if r = 0 then 0x11111234 else 0)"
    by (simp add: config_bridge_def pc_io_def)
qed

lemma pc_literals: "literals_ok pc_mem (boot_places 0x8000) (names_addr(''PS2-KB'' := 0x10280)) ((''PS2-KB'', '''') # kernel_symbols)"
proof -
  let ?W = "{x. 0x10280 \<le> unat x \<and> unat x < 0x10287} :: u32 set"
  have o: "only_in ?W names_mem pc_mem" by (auto simp: only_in_def pc_mem_def)
  have out: "x \<notin> boot_places 0x8000" if "0x10000 \<le> unat x" "unat x < 0x20000" for x
    using that by (auto simp: boot_places_def on_screen_def)
  have aw: "away (boot_places 0x8000) a n" "unat a + n \<le> 0x10280 \<longrightarrow> away ?W a n" if "0x10000 \<le> unat a" "unat a + n \<le> 0x20000" for a n
  proof -
    have "unat (a + of_nat i) = unat a + i" if "i < n" for i
      using that \<open>unat a + n \<le> 0x20000\<close> by (simp add: unat_plus_of_nat)
    then show "away (boot_places 0x8000) a n" "unat a + n \<le> 0x10280 \<longrightarrow> away ?W a n"
      using that out unfolding away_def by fastforce+
  qed
  have "cstring pc_mem a (literal nm) \<and> away (boot_places 0x8000) a (length (literal nm) + 1)" if "(nm, a) \<in> set name_places" for nm a
  proof -
    have "0x10000 \<le> unat a" "unat a + (length (literal nm) + 1) \<le> 0x10280" using that by (auto simp: names_places literal_def)
    then show ?thesis using aw [of a "length (literal nm) + 1"] cstring_away [OF o names_strings [OF that]] by simp
  qed
  moreover have "nm \<noteq> ''PS2-KB''" if "(nm, f) \<in> set kernel_symbols" for nm f using that by (auto simp: kernel_symbols_def)
  moreover have "cstring pc_mem 0x10280 (literal ''PS2-KB'')" by (simp add: pc_mem_def literal_def)
  moreover have "away (boot_places 0x8000) 0x10280 (length (literal ''PS2-KB'') + 1)" by (rule aw(1)) (simp_all add: literal_def)
  ultimately show ?thesis using names_addr_places by (auto simp: literals_ok_def)
qed

theorem kernel_init_returns_witness:
  "\<exists>s'. kernel_init pc_env pc_boot = Some s' \<and> translate (phys s') 0 0x3FFFFF = Some 0x3FFFFF
    \<and> enabled (drivers s' ! 0) \<and> interrupt_handers s' ! 0x80 = 0x100007"
proof -
  have "off_screen 0x8000 2" by (rule off_screenI) simp
  then have hex: "hex_literal_ok 0x8000 pc_boot" by (simp add: hex_literal_ok_def pc_boot_def pc_mem_def names_mem_def)
  have env: "pe_io (be_pci pc_env) = pc_io" "pe_foo (be_pci pc_env) = 0x8000" "be_literal pc_env = names_addr(''PS2-KB'' := 0x10280)"
    "be_function pc_env ''syscall'' = 0x100007"
    by (simp_all add: pc_env_def)
  show ?thesis
    using kernel_init_returns [of pc_env "\<lambda>_. True" waiting_i8042 "\<lambda>_ _ _ r. if r = 0 then 0x11111234 else 0" pc_boot] pc_devices pc_literals hex
    by (fastforce simp: env pc_boot_def keyboard_driver_def)
qed

end
