(* ===== verification/User_Library.thy ===== *)
theory User_Library
  imports Kernel_Up
begin

text \<open>
  The library of user programs, \<^verbatim>\<open>lib/stdio.c\<close>, on top of the kernel: its one function raises system
  call 1, for which \<^verbatim>\<open>kernel_main\<close> registers no handler.
\<close>

section \<open>printf of a user program\<close>

text \<open>
  The inline assembly: the number in \<^verbatim>\<open>eax\<close>, the address of the string in \<^verbatim>\<open>ebx\<close>, then the interrupt, whose
  handler runs on the registers the program has; \<open>call\<close> is the code at the handlers' addresses.
\<close>

definition user_printf ::
    "('a sys_scheme) code \<Rightarrow> cpu_state \<Rightarrow> u32 \<Rightarrow> ('a sys_scheme) \<Rightarrow> (cpu_state \<times> 'a sys_scheme) option" where
  "user_printf call c msg s = interrupt_handler call (c\<lparr>eax := 1, ebx := msg\<rparr>) 0x80 s"

text \<open>The interrupt's epilogue changes neither memory nor registers.\<close>

lemma interrupt_handler_phys:
  assumes "n < 256" and "interrupt_handers s ! unat n \<noteq> 0" and "call (interrupt_handers s ! unat n) c s = Some (c1, s1)"
  shows "\<exists>r. interrupt_handler call c n s = Some (c1, r) \<and> phys r = phys s1"
  using assms by (simp add: interrupt_handler_def Let_def pic_confirm_def outb_slow_def outb_def cpu_def not_le)

text \<open>
  A system call without handler prints its number and nothing else: the result does not depend on
  the other registers.
\<close>

lemma unhandled_syscall:
  assumes "eax c = n" and "n < 256" and "handlers s ! unat n = 0" and "cursor_ok s" and "hex_literal_ok foo s"
  obtains s1 where "print_hex32 foo (print_literal s (literal ''Unhandled syscall 0x'')) n = Some s1"
    "syscall foo call c s = Some (c, print_literal s1 [0x0A])"
proof -
  let ?s = "print_literal s (literal ''Unhandled syscall 0x'')"
  have "cursor_ok ?s" "hex_literal_ok foo ?s"
    using prints_literal [OF assms(4,5), of "literal ''Unhandled syscall 0x''"] by (auto simp: prints_def)
  then obtain s1 where s1: "print_hex32 foo ?s n = Some s1" by (rule print_hex32_ok)
  with assms(1-3) show ?thesis by (intro that [of s1]) (simp_all add: syscall_def not_le)
qed

text \<open>
  With the tables \<^verbatim>\<open>kernel_main\<close> installs, a user program's \<^verbatim>\<open>printf\<close> returns and has printed that
  system call 1 is not handled; the string it was given is not printed.
\<close>

theorem user_printf_unhandled:
  fixes s :: "'a ahci_scheme"
  assumes "hex_literal_ok foo s" and "length (handlers s) = 256" and "handlers s ! 1 = 0"
    and "be_function env ''syscall'' = syscall_addr" and "syscall_addr \<noteq> 0"
  shows "\<exists>s' s1. install_tables env s = Some s'
    \<and> print_hex32 foo (print_literal s' (literal ''Unhandled syscall 0x'')) 1 = Some s1
    \<and> (\<forall>c msg. \<exists>r. user_printf (syscall_code syscall_addr foo call other) c msg s' = Some (c\<lparr>eax := 1, ebx := msg\<rparr>, r)
        \<and> phys r = phys (print_literal s1 [0x0A]))"
proof -
  obtain s' where s': "install_tables env s = Some s'" "quiet foo s s'"
    "interrupt_handers s' = (replicate 256 0)[0x80 := be_function env ''syscall'']"
    "handlers s' = (handlers s)[4 := be_function env ''syscall_write'', 80 := be_function env ''kernel_switch_back'']"
    by (rule install_tables_step [OF assms(1), of env])
  have ok: "cursor_ok s'" "hex_literal_ok foo s'" "handlers s' ! 1 = 0" "interrupt_handers s' ! 0x80 = syscall_addr"
    using s'(2-4) assms by (simp_all add: quiet_def)
  obtain s1 where s1: "print_hex32 foo (print_literal s' (literal ''Unhandled syscall 0x'')) 1 = Some s1"
    by (rule unhandled_syscall [of "c\<lparr>eax := 1\<rparr>" 1 s' foo]) (use ok in simp_all)
  have "\<exists>r. user_printf (syscall_code syscall_addr foo call other) c msg s' = Some (c\<lparr>eax := 1, ebx := msg\<rparr>, r)
      \<and> phys r = phys (print_literal s1 [0x0A])" for c msg
  proof -
    let ?c = "c\<lparr>eax := 1, ebx := msg\<rparr>"
    have "syscall foo call ?c s' = Some (?c, print_literal s1 [0x0A])"
      by (rule unhandled_syscall [of ?c 1 s' foo call]) (use ok s1 in simp_all)
    with ok assms(5) show ?thesis
      unfolding user_printf_def by (intro interrupt_handler_phys) (simp_all add: syscall_code_def)
  qed
  with s'(1) s1 show ?thesis by blast
qed

theorem user_printf_unhandled_witness:
  "\<exists>s' s1 r. install_tables pc_env pc_boot = Some s'
    \<and> user_printf (syscall_code 0x100007 0x8000 (\<lambda>_ _ _. None) (\<lambda>_ _ _. None)) zero_cpu 0x4000 s'
        = Some (zero_cpu\<lparr>eax := 1, ebx := 0x4000\<rparr>, r)"
proof -
  have "off_screen 0x8000 2" by (rule off_screenI) simp
  then have hex: "hex_literal_ok 0x8000 pc_boot" by (simp add: hex_literal_ok_def pc_boot_def pc_mem_def names_mem_def)
  have "length (handlers pc_boot) = 256" "handlers pc_boot ! 1 = 0"by (simp_all add: pc_boot_def)
  moreover have "be_function pc_env ''syscall'' = 0x100007" by (simp add: pc_env_def)
  ultimately show ?thesis
    using user_printf_unhandled [OF hex, of pc_env "0x100007" "\<lambda>_ _ _. None" "\<lambda>_ _ _. None"] by fastforce
qed

end
